(* ===== verification/Py_Base.thy ===== *)
theory Py_Base
  imports Complex_Main
begin

text \<open>
  Prelude of the development. It fixes how a Python function of the risk package is written in
  HOL and collects the facts every component shares.

  A function that may raise returns a value of \<open>exc + 'a\<close>: \<open>Inl\<close> carries the exception, \<open>Inr\<close>
  the returned value. The exceptions of the package are \<open>RiskPolicyRejected(code)\<close>, written
  \<open>Rejected code\<close> with the source's refusal code as a string, the three exceptions of the
  standard library that the modelled code can let escape, and SQLAlchemy's \<open>IntegrityError\<close>. Sequencing is \<open>res_bind\<close>; a guard
  \<^verbatim>\<open>if c: raise E\<close> is \<open>if c then Inl E else \<dots>\<close>; a \<^verbatim>\<open>try: \<dots> except RiskPolicyRejected as exc\<close>
  is \<open>on_rejected\<close>, which lets the other exceptions through.
\<close>

datatype exc =
    Rejected string
  | InvalidOperation
  | ValueError
  | TypeError
  | IntegrityError

type_synonym 'a res = "exc + 'a"

definition res_bind :: "'a res \<Rightarrow> ('a \<Rightarrow> 'b res) \<Rightarrow> 'b res" where
  "res_bind m f = (case m of Inl e \<Rightarrow> Inl e | Inr x \<Rightarrow> f x)"

definition on_rejected :: "'a res \<Rightarrow> (string \<Rightarrow> 'b res) \<Rightarrow> ('a \<Rightarrow> 'b res) \<Rightarrow> 'b res" where
  "on_rejected m h f =
     (case m of Inl (Rejected c) \<Rightarrow> h c
      | Inl InvalidOperation \<Rightarrow> Inl InvalidOperation
      | Inl ValueError \<Rightarrow> Inl ValueError
      | Inl TypeError \<Rightarrow> Inl TypeError
      | Inl IntegrityError \<Rightarrow> Inl IntegrityError
      | Inr x \<Rightarrow> f x)"

fun res_map :: "('a \<Rightarrow> 'b res) \<Rightarrow> 'a list \<Rightarrow> 'b list res" where
  "res_map f [] = Inr []"
| "res_map f (x # xs) = res_bind (f x) (\<lambda>y. res_bind (res_map f xs) (\<lambda>ys. Inr (y # ys)))"

text \<open>
  \<open>res_simps\<close> turns \<open>program = Inr result\<close> into the conjunction of the guards it passed and the
  equations of the values it computed; it is what the acceptance lemmas of the components use.
\<close>

named_theorems res_simps

lemma res_bind_Inl [simp]: "res_bind (Inl e) f = Inl e"
  by (simp add: res_bind_def)

lemma res_bind_Inr [simp]: "res_bind (Inr x) f = f x"
  by (simp add: res_bind_def)

lemma res_bind_eq_Inr [res_simps]:
  "res_bind m f = Inr y \<longleftrightarrow> (\<exists>x. m = Inr x \<and> f x = Inr y)"
  by (cases m) auto

lemma res_bind_eq_Inl:
  "res_bind m f = Inl e \<longleftrightarrow> m = Inl e \<or> (\<exists>x. m = Inr x \<and> f x = Inl e)"
  by (cases m) auto

lemma guard_eq_Inr [res_simps]: "(if c then Inl e else k) = Inr y \<longleftrightarrow> \<not> c \<and> k = Inr y"
  by simp

lemma pass_eq_Inr [res_simps]: "(if c then k else Inl e) = Inr y \<longleftrightarrow> c \<and> k = Inr y"
  by simp

lemma need_eq_Inr [res_simps]:
  "(case v of None \<Rightarrow> Inl e | Some x \<Rightarrow> f x) = Inr y \<longleftrightarrow> (\<exists>x. v = Some x \<and> f x = Inr y)"
  by (cases v) auto

lemma on_rejected_simps [simp]:
  "on_rejected (Inr x) h f = f x"
  "on_rejected (Inl (Rejected c)) h f = h c"
  "on_rejected (Inl InvalidOperation) h f = Inl InvalidOperation"
  "on_rejected (Inl ValueError) h f = Inl ValueError"
  "on_rejected (Inl TypeError) h f = Inl TypeError"
  "on_rejected (Inl IntegrityError) h f = Inl IntegrityError"
  by (simp_all add: on_rejected_def)

lemma on_rejected_eq_Inr:
  "on_rejected m h f = Inr y \<longleftrightarrow>
     (\<exists>x. m = Inr x \<and> f x = Inr y) \<or> (\<exists>c. m = Inl (Rejected c) \<and> h c = Inr y)"
  by (auto simp: on_rejected_def split: sum.splits exc.splits)

lemma on_rejected_raise_eq_Inr [res_simps]:
  "on_rejected m (\<lambda>c. Inl (Rejected (h c))) f = Inr y \<longleftrightarrow> (\<exists>x. m = Inr x \<and> f x = Inr y)"
  by (auto simp: on_rejected_eq_Inr)

lemma res_map_Inr_iff:
  "res_map f xs = Inr ys \<longleftrightarrow> list_all2 (\<lambda>x y. f x = Inr y) xs ys"
  by (induction xs arbitrary: ys) (auto simp: res_simps list_all2_Cons1)

lemma list_all2_ex_left: "list_all2 P xs ys \<Longrightarrow> y \<in> set ys \<Longrightarrow> \<exists>x \<in> set xs. P x y"
  by (induction rule: list_all2_induct) auto

text \<open>Python's \<open>min\<close> and \<open>max\<close> over several arguments.\<close>

abbreviation min3 :: "'a::linorder \<Rightarrow> 'a \<Rightarrow> 'a \<Rightarrow> 'a" where
  "min3 a b c \<equiv> min (min a b) c"

abbreviation min4 :: "'a::linorder \<Rightarrow> 'a \<Rightarrow> 'a \<Rightarrow> 'a \<Rightarrow> 'a" where
  "min4 a b c d \<equiv> min (min (min a b) c) d"

text \<open>Association lists stand for Python dictionaries whose insertion order is kept.\<close>

lemma map_of_map_filter_key:
  "map_of (map (\<lambda>kv. (fst kv, f kv)) (filter P xs)) k = Some v \<Longrightarrow>
     \<exists>x. (k, x) \<in> set xs \<and> P (k, x) \<and> v = f (k, x)"
  by (drule map_of_SomeD) auto

section \<open>Which exceptions a function can raise\<close>

text \<open>
  \<open>raises P m\<close>: if \<open>m\<close> raises, then an exception that satisfies \<open>P\<close>. The rules follow the shape of a
  program, so that \<open>intro raises_intros\<close> walks through it and leaves the raise statements.
\<close>

definition raises :: "(exc \<Rightarrow> bool) \<Rightarrow> 'a res \<Rightarrow> bool" where
  "raises P m \<longleftrightarrow> (case m of Inl e \<Rightarrow> P e | Inr x \<Rightarrow> True)"

named_theorems raises_intros

lemma raises_Inl [simp]: "raises P (Inl e) = P e"
  by (simp add: raises_def)

lemma raises_Inr [simp]: "raises P (Inr x)"
  by (simp add: raises_def)

lemma raises_bind [raises_intros]:
  "raises P m \<Longrightarrow> (\<And>x. m = Inr x \<Longrightarrow> raises P (f x)) \<Longrightarrow> raises P (res_bind m f)"
  by (cases m) auto

lemma raises_if [raises_intros]:
  "(c \<Longrightarrow> raises P a) \<Longrightarrow> (\<not> c \<Longrightarrow> raises P b) \<Longrightarrow> raises P (if c then a else b)"
  by simp

lemma raises_option [raises_intros]:
  "(v = None \<Longrightarrow> raises P a) \<Longrightarrow> (\<And>x. v = Some x \<Longrightarrow> raises P (f x)) \<Longrightarrow>
     raises P (case v of None \<Rightarrow> a | Some x \<Rightarrow> f x)"
  by (cases v) auto

lemma raises_on_rejected [raises_intros]:
  "raises Q m \<Longrightarrow> (\<And>e. Q e \<Longrightarrow> \<forall>c. e \<noteq> Rejected c \<Longrightarrow> P e) \<Longrightarrow> (\<And>c. raises P (h c)) \<Longrightarrow>
     (\<And>x. m = Inr x \<Longrightarrow> raises P (f x)) \<Longrightarrow> raises P (on_rejected m h f)"
  by (cases m; simp; case_tac a; auto)

lemma raises_weaken: "raises Q m \<Longrightarrow> (\<And>e. Q e \<Longrightarrow> P e) \<Longrightarrow> raises P m"
  by (cases m) auto

lemma raisesD: "raises P m \<Longrightarrow> m = Inl e \<Longrightarrow> P e"
  by simp

lemma raises_map [raises_intros]:
  "(\<And>x. x \<in> set xs \<Longrightarrow> raises P (f x)) \<Longrightarrow> raises P (res_map f xs)"
  by (induction xs) (auto intro!: raises_bind)

abbreviation is_rejection :: "exc \<Rightarrow> bool" where
  "is_rejection e \<equiv> \<exists>c. e = Rejected c"

abbreviation rejection_or_overflow :: "exc \<Rightarrow> bool" where
  "rejection_or_overflow e \<equiv> is_rejection e \<or> e = InvalidOperation"

text \<open>Sorting a list whose last element has the largest key.\<close>

lemma insort_key_snoc: "f x \<le> f y \<Longrightarrow> insort_key f x (zs @ [y]) = insort_key f x zs @ [y]"
  by (induction zs) auto

lemma sort_key_snoc:
  "(\<And>x. x \<in> set xs \<Longrightarrow> f x \<le> f y) \<Longrightarrow> sort_key f (xs @ [y]) = sort_key f xs @ [y]"
  by (induction xs) (simp_all add: insort_key_snoc)

end
