(* ===== verification/Py_Decimal.thy ===== *)
theory Py_Decimal
  imports Py_Base
begin

text \<open>
  The part of Python's \<^verbatim>\<open>decimal\<close> module the risk package computes with. A finite Decimal is the
  rational number it denotes; \<open>NonFinite\<close> stands for an infinity or a NaN, which the package only
  ever rejects. The arithmetic operators round their exact result to the 28 significant digits of
  the default context, half to even (\<open>dround 28\<close>); comparisons, \<^verbatim>\<open>min\<close> and \<^verbatim>\<open>max\<close> are exact;
  \<^verbatim>\<open>quantize(Decimal("0.00000001"), rounding=\<dots>)\<close> raises \<open>InvalidOperation\<close> when the result needs
  more than 28 digits. The exponent range of the context (999999) is taken as unbounded and the
  sign of a zero is not kept.

  The locale \<open>rounding\<close> is the interface the components reason with: a monotone, odd, idempotent
  rounding with a relative error bound. It is interpreted by \<open>dround p\<close> for every precision.
\<close>

datatype num = Fin rat | NonFinite

section \<open>Rounding to a number of significant digits\<close>

definition round_half_even :: "rat \<Rightarrow> int" where
  "round_half_even x =
     (let f = \<lfloor>x\<rfloor>; d = x - of_int f
      in if d < 1/2 then f else if 1/2 < d then f + 1 else if even f then f else f + 1)"

definition round_down :: "rat \<Rightarrow> int" where
  "round_down x = (if 0 \<le> x then \<lfloor>x\<rfloor> else \<lceil>x\<rceil>)"

text \<open>The exponent of the leading digit of a positive number.\<close>

function adjusted :: "rat \<Rightarrow> int" where
  "adjusted x =
     (if x \<le> 0 then 0
      else if 10 \<le> x then adjusted (x / 10) + 1
      else if x < 1 then adjusted (10 * x) - 1
      else 0)"
  by pat_completeness auto

definition adjusted_measure :: "rat \<Rightarrow> nat" where
  "adjusted_measure x = (if 1 \<le> x then nat \<lfloor>x\<rfloor> else 10 + nat \<lceil>1 / x\<rceil>)"

lemma adjusted_measure_big:
  assumes "10 \<le> x"
  shows "adjusted_measure (x / 10) < adjusted_measure x"
proof -
  have "of_int \<lfloor>x / 10\<rfloor> \<le> x / 10" by (rule of_int_floor_le)
  also have "x / 10 \<le> x - 9" using assms by simp
  finally have "of_int (\<lfloor>x / 10\<rfloor> + 9) \<le> x" by simp
  then have "\<lfloor>x / 10\<rfloor> + 9 \<le> \<lfloor>x\<rfloor>" by (simp only: le_floor_iff)
  moreover have "0 \<le> \<lfloor>x / 10\<rfloor>" using assms by simp
  ultimately show ?thesis using assms by (simp add: adjusted_measure_def)
qed

lemma adjusted_measure_small:
  assumes "0 < x" "x < 1"
  shows "adjusted_measure (10 * x) < adjusted_measure x"
proof (cases "1 \<le> 10 * x")
  case True
  have "\<lfloor>10 * x\<rfloor> < 10" using assms by (simp add: floor_less_iff)
  then have "nat \<lfloor>10 * x\<rfloor> < 10" by linarith
  with True assms show ?thesis by (simp add: adjusted_measure_def)
next
  case False
  with assms have small: "10 * x < 1" by simp
  have "1 / (10 * x) + 1 \<le> 1 / x" using assms small by (simp add: field_simps)
  also have "\<dots> \<le> of_int \<lceil>1 / x\<rceil>" by simp
  finally have "1 / (10 * x) \<le> of_int (\<lceil>1 / x\<rceil> - 1)" by simp
  then have "\<lceil>1 / (10 * x)\<rceil> \<le> \<lceil>1 / x\<rceil> - 1" by (simp only: ceiling_le_iff)
  moreover have "0 < \<lceil>1 / (10 * x)\<rceil>" using assms by simp
  ultimately show ?thesis using assms small by (simp add: adjusted_measure_def nat_less_iff)
qed

termination adjusted
proof (relation "measure adjusted_measure")
  show "wf (measure adjusted_measure)" by simp
next
  fix x :: rat assume "\<not> x \<le> 0" "10 \<le> x"
  then show "(x / 10, x) \<in> measure adjusted_measure" by (simp add: adjusted_measure_big)
next
  fix x :: rat assume "\<not> x \<le> 0" "\<not> 10 \<le> x" "x < 1"
  then show "(10 * x, x) \<in> measure adjusted_measure" by (simp add: adjusted_measure_small)
qed

declare adjusted.simps [simp del]

definition dround :: "nat \<Rightarrow> rat \<Rightarrow> rat" where
  "dround p x =
     (if x = 0 then 0
      else let e = adjusted \<bar>x\<bar> - int p + 1
           in of_int (round_half_even (x / 10 powi e)) * 10 powi e)"

section \<open>Facts about the rounding\<close>

lemma round_half_even_of_int [simp]: "round_half_even (of_int n) = n"
  by (simp add: round_half_even_def)

lemma round_half_even_minus: "round_half_even (- x) = - round_half_even x"
proof (cases "x = of_int \<lfloor>x\<rfloor>")
  case True
  then show ?thesis by (metis of_int_minus round_half_even_of_int)
next
  case False
  then have "\<lfloor>- x\<rfloor> = - \<lfloor>x\<rfloor> - 1" by (simp add: floor_minus ceiling_altdef)
  then show ?thesis by (auto simp: round_half_even_def Let_def)
qed

lemma round_half_even_bounds:
  "of_int (round_half_even x) - 1/2 \<le> x \<and> x \<le> of_int (round_half_even x) + 1/2"
proof -
  have "of_int \<lfloor>x\<rfloor> \<le> x" "x < of_int \<lfloor>x\<rfloor> + 1" by linarith+
  then show ?thesis unfolding round_half_even_def Let_def
    by (auto split: if_splits) linarith+
qed

lemma round_half_even_mono:
  assumes "x \<le> y"
  shows "round_half_even x \<le> round_half_even y"
proof (cases "\<lfloor>x\<rfloor> = \<lfloor>y\<rfloor>")
  case True
  with assms show ?thesis by (auto simp: round_half_even_def Let_def)
next
  case False
  with assms have "\<lfloor>x\<rfloor> + 1 \<le> \<lfloor>y\<rfloor>" using floor_mono [OF assms] by simp
  moreover have "round_half_even x \<le> \<lfloor>x\<rfloor> + 1" "\<lfloor>y\<rfloor> \<le> round_half_even y"
    by (auto simp: round_half_even_def Let_def)
  ultimately show ?thesis by linarith
qed

lemma round_half_even_le_int: "x \<le> of_int n \<Longrightarrow> round_half_even x \<le> n"
  using round_half_even_mono [of x "of_int n"] by simp

lemma round_half_even_ge_int: "of_int n \<le> x \<Longrightarrow> n \<le> round_half_even x"
  using round_half_even_mono [of "of_int n" x] by simp

lemma adjusted_bounds:
  "0 < x \<Longrightarrow> 10 powi (adjusted x) \<le> x \<and> x < 10 powi (adjusted x + 1)"
proof (induction x rule: adjusted.induct)
  case (1 x)
  consider "10 \<le> x" | "x < 1" | "1 \<le> x" "x < 10" by linarith
  then show ?case
  proof cases
    case 1
    with "1.IH"(1) "1.prems" have "10 powi (adjusted (x / 10)) \<le> x / 10"
      and "x / 10 < 10 powi (adjusted (x / 10) + 1)" by auto
    then show ?thesis using 1
      by (simp add: adjusted.simps [of x] power_int_add)
  next
    case 2
    with "1.IH"(2) "1.prems" have "10 powi (adjusted (10 * x)) \<le> 10 * x"
      and "10 * x < 10 powi (adjusted (10 * x) + 1)" by auto
    then show ?thesis using 2 "1.prems"
      by (simp add: adjusted.simps [of x] power_int_add power_int_diff)
  next
    case 3
    then show ?thesis by (simp add: adjusted.simps [of x])
  qed
qed

lemma pow10_less_iff [simp]: "(10 :: rat) powi a < 10 powi b \<longleftrightarrow> a < b"
  by (metis linorder_cases order_less_asym power_int_strict_increasing one_less_numeral_iff
      less_irrefl semiring_norm(76))

lemma pow10_le_iff [simp]: "(10 :: rat) powi a \<le> 10 powi b \<longleftrightarrow> a \<le> b"
  by (simp flip: not_less)

lemma adjusted_unique:
  assumes "10 powi n \<le> x" "x < 10 powi (n + 1)"
  shows "adjusted x = n"
proof -
  have "0 < (10 :: rat) powi n" by simp
  with assms(1) have x: "0 < x" by linarith
  from adjusted_bounds [OF x] assms have "(10 :: rat) powi adjusted x < 10 powi (n + 1)"
    and "(10 :: rat) powi n < 10 powi (adjusted x + 1)" by linarith+
  then show ?thesis by simp
qed

lemma dround_0 [simp]: "dround p 0 = 0"
  by (simp add: dround_def)

lemma dround_minus: "dround p (- x) = - dround p x"
  by (simp add: dround_def Let_def round_half_even_minus)

text \<open>The rounded value lies between the powers of ten that enclose the argument.\<close>

lemma dround_decade:
  assumes "0 < x" "0 < p"
  shows "10 powi (adjusted x) \<le> dround p x \<and> dround p x \<le> 10 powi (adjusted x + 1)"
proof -
  define e where "e = adjusted x - int p + 1"
  define m where "m = round_half_even (x / 10 powi e)"
  have d: "dround p x = of_int m * 10 powi e"
    using assms by (simp add: dround_def e_def m_def Let_def)
  have lo: "(10 :: rat) powi (adjusted x) = of_int (10 ^ (p - 1)) * 10 powi e"
    using \<open>0 < p\<close> by (simp add: e_def flip: power_int_of_nat power_int_add)
  have hi: "(10 :: rat) powi (adjusted x + 1) = of_int (10 ^ p) * 10 powi e"
    by (simp add: e_def flip: power_int_of_nat power_int_add)
  have "of_int (10 ^ (p - 1)) \<le> x / 10 powi e" "x / 10 powi e \<le> of_int (10 ^ p)"
    using adjusted_bounds [OF \<open>0 < x\<close>] unfolding lo hi by (simp_all add: field_simps)
  then have "10 ^ (p - 1) \<le> m" "m \<le> 10 ^ p"
    unfolding m_def by (blast intro: round_half_even_ge_int round_half_even_le_int)+
  then show ?thesis unfolding d lo hi by (simp add: mult_right_mono del: of_int_power)
qed

lemma dround_mono_pos:
  assumes "0 < x" "x \<le> y" "0 < p"
  shows "dround p x \<le> dround p y"
proof (cases "adjusted x = adjusted y")
  case True
  with assms show ?thesis
    by (auto simp: dround_def Let_def intro!: mult_right_mono round_half_even_mono divide_right_mono)
next
  case False
  have y: "0 < y" using assms by simp
  have "(10 :: rat) powi adjusted x < 10 powi (adjusted y + 1)"
    using adjusted_bounds [OF assms(1)] adjusted_bounds [OF y] assms(2) by linarith
  with False have "adjusted x + 1 \<le> adjusted y" by simp
  then have "(10 :: rat) powi (adjusted x + 1) \<le> 10 powi (adjusted y)" by (simp only: pow10_le_iff)
  with dround_decade [OF assms(1,3)] dround_decade [OF y assms(3)] show ?thesis by linarith
qed

lemma dround_pos: "0 < x \<Longrightarrow> 0 < p \<Longrightarrow> 0 < dround p x"
  using dround_decade [of x p] zero_less_power_int [of "10 :: rat" "adjusted x"] by linarith

lemma dround_mono:
  assumes "x \<le> y" "0 < p"
  shows "dround p x \<le> dround p y"
proof -
  consider "0 < x" | "x \<le> 0" "0 \<le> y" | "y < 0" by linarith
  then show ?thesis
  proof cases
    case 1
    with assms show ?thesis by (rule_tac dround_mono_pos)
  next
    case 2
    have "dround p x \<le> 0" using 2 assms dround_pos [of "- x" p] by (cases "x = 0") (auto simp: dround_minus)
    also have "0 \<le> dround p y" using 2 assms dround_pos [of y p] by (cases "y = 0") auto
    finally show ?thesis .
  next
    case 3
    with assms have "dround p (- y) \<le> dround p (- x)" by (intro dround_mono_pos) auto
    then show ?thesis by (simp add: dround_minus)
  qed
qed

lemma dround_error:
  assumes "0 < p"
  shows "\<bar>dround p x - x\<bar> \<le> (1 / (2 * 10 ^ (p - 1))) * \<bar>x\<bar>"
proof (cases "x = 0")
  case False
  define e where "e = adjusted \<bar>x\<bar> - int p + 1"
  define t where "t = x / 10 powi e"
  have x: "x = t * 10 powi e" by (simp add: t_def)
  have "\<bar>of_int (round_half_even t) - t\<bar> \<le> 1/2" using round_half_even_bounds [of t] by linarith
  then have "\<bar>of_int (round_half_even t) - t\<bar> * 10 powi e \<le> 1/2 * 10 powi e"
    by (rule mult_right_mono) simp
  moreover have "dround p x - x = (of_int (round_half_even t) - t) * 10 powi e"
    using False by (simp add: dround_def Let_def e_def t_def left_diff_distrib)
  ultimately have "\<bar>dround p x - x\<bar> \<le> 1/2 * 10 powi e" by (simp add: abs_mult)
  also have "(10 :: rat) powi e = 10 powi (adjusted \<bar>x\<bar>) / 10 ^ (p - 1)"
    using assms by (simp add: e_def power_int_diff power_int_add flip: power_int_of_nat)
  also have "1/2 * \<dots> \<le> 1/2 * (\<bar>x\<bar> / 10 ^ (p - 1))"
    using adjusted_bounds [of "\<bar>x\<bar>"] False by (intro mult_left_mono divide_right_mono) auto
  finally show ?thesis by simp
qed simp

text \<open>A number of at most \<open>p\<close> significant digits is its own rounding.\<close>

lemma dround_exact:
  assumes "\<bar>m\<bar> < 10 ^ p"
  shows "dround p (of_int m * 10 powi k) = of_int m * 10 powi k"
proof (cases "m = 0")
  case False
  define x where "x = of_int m * (10 :: rat) powi k"
  define e where "e = adjusted \<bar>x\<bar> - int p + 1"
  have x0: "x \<noteq> 0" using False by (simp add: x_def)
  have "\<bar>of_int m\<bar> < (10 :: rat) ^ p" using assms by (metis of_int_abs of_int_less_iff of_int_numeral of_int_power)
  then have "\<bar>x\<bar> < 10 ^ p * 10 powi k" by (simp add: x_def abs_mult)
  also have "\<dots> = 10 powi (int p + k)" by (simp add: power_int_add)
  finally have "(10 :: rat) powi (adjusted \<bar>x\<bar>) < 10 powi (int p + k)"
    using adjusted_bounds [of "\<bar>x\<bar>"] x0 by linarith
  then have "e \<le> k" by (simp add: e_def)
  then have "x / 10 powi e = of_int (m * 10 ^ nat (k - e))"
    by (simp add: x_def power_int_diff power_int_nonneg_exp [symmetric])
  then have "round_half_even (x / 10 powi e) = m * 10 ^ nat (k - e)"
    by (simp only: round_half_even_of_int)
  then have "dround p x = of_int (m * 10 ^ nat (k - e)) * 10 powi e"
    using x0 by (simp add: dround_def Let_def e_def)
  with \<open>e \<le> k\<close> show ?thesis
    by (simp add: x_def power_int_diff power_int_nonneg_exp [symmetric])
qed simp

lemma dround_form:
  assumes "0 < p"
  shows "\<exists>m k. dround p x = of_int m * 10 powi k \<and> \<bar>m\<bar> < 10 ^ p"
proof (cases "x = 0")
  case False
  define e where "e = adjusted \<bar>x\<bar> - int p + 1"
  define m where "m = round_half_even (x / 10 powi e)"
  have d: "dround p x = of_int m * 10 powi e"
    using False by (simp add: dround_def Let_def e_def m_def)
  have "\<bar>dround p x\<bar> = dround p \<bar>x\<bar>"
    using dround_pos [of x p] dround_pos [of "- x" p] assms False
    by (cases "0 < x") (auto simp: dround_minus abs_if)
  then have "\<bar>of_int m\<bar> * 10 powi e \<le> (10 :: rat) powi (adjusted \<bar>x\<bar> + 1)"
    using dround_decade [of "\<bar>x\<bar>" p] assms False d by (simp add: abs_mult)
  also have "\<dots> = 10 ^ p * 10 powi e" by (simp add: e_def flip: power_int_of_nat power_int_add)
  finally have "\<bar>of_int m\<bar> \<le> (10 :: rat) ^ p" by simp
  then have m: "\<bar>m\<bar> \<le> 10 ^ p" by (metis of_int_abs of_int_le_iff of_int_numeral of_int_power)
  show ?thesis
  proof (cases "\<bar>m\<bar> = 10 ^ p")
    case True
    then have "m = sgn m * 10 ^ p" by (metis mult_sgn_abs)
    then have "dround p x = of_int (sgn m * 10 ^ p) * 10 powi e" using d by simp
    then have "dround p x = of_int (sgn m) * 10 powi (e + int p)" by (simp add: power_int_add)
    moreover have "\<bar>sgn m\<bar> < 10 ^ p" using assms
      by (metis (no_types) abs_sgn_eq one_less_power numeral_One numeral_less_iff
          semiring_norm(76) zero_less_one less_trans zero_less_power)
    ultimately show ?thesis by blast
  next
    case False
    with d m show ?thesis by fastforce
  qed
next
  case True
  then show ?thesis by (intro exI [of _ 0]) simp
qed

lemma dround_idem: "0 < p \<Longrightarrow> dround p (dround p x) = dround p x"
  using dround_form [of p x] dround_exact by auto

section \<open>The rounding interface\<close>

locale rounding =
  fixes rnd :: "rat \<Rightarrow> rat" and u :: rat
  assumes rnd_0 [simp]: "rnd 0 = 0"
    and rnd_mono: "x \<le> y \<Longrightarrow> rnd x \<le> rnd y"
    and rnd_minus: "rnd (- x) = - rnd x"
    and rnd_pos: "0 < x \<Longrightarrow> 0 < rnd x"
    and rnd_idem: "rnd (rnd x) = rnd x"
    and rnd_error: "\<bar>rnd x - x\<bar> \<le> u * \<bar>x\<bar>"
    and u_nonneg: "0 \<le> u"
    and u_le_1: "u \<le> 1"
begin

lemma mono_rnd: "mono rnd"
  by (rule monoI) (rule rnd_mono)

lemma rnd_nonneg: "0 \<le> x \<Longrightarrow> 0 \<le> rnd x"
  using rnd_mono [of 0 x] by simp

lemma rnd_nonpos: "x \<le> 0 \<Longrightarrow> rnd x \<le> 0"
  using rnd_mono [of x 0] by simp

lemma rnd_neg: "x < 0 \<Longrightarrow> rnd x < 0"
  using rnd_pos [of "- x"] by (simp add: rnd_minus)

lemma rnd_pos_iff: "0 < rnd x \<longleftrightarrow> 0 < x"
  using rnd_pos rnd_nonpos by (meson not_less)

lemma rnd_nonneg_iff: "0 \<le> rnd x \<longleftrightarrow> 0 \<le> x"
  using rnd_nonneg rnd_neg by (meson not_less)

lemma rnd_eq_0_iff: "rnd x = 0 \<longleftrightarrow> x = 0"
  using rnd_pos [of x] rnd_neg [of x] by (cases "x = 0") (auto simp: neq_iff)

lemma rnd_le_fixed: "x \<le> y \<Longrightarrow> rnd y = y \<Longrightarrow> rnd x \<le> y"
  using rnd_mono [of x y] by simp

lemma rnd_ge_fixed: "y \<le> x \<Longrightarrow> rnd y = y \<Longrightarrow> y \<le> rnd x"
  using rnd_mono [of y x] by simp

lemma rnd_upper: "0 \<le> x \<Longrightarrow> rnd x \<le> (1 + u) * x"
  using rnd_error [of x] by (simp add: algebra_simps abs_le_iff)

lemma rnd_lower: "0 \<le> x \<Longrightarrow> (1 - u) * x \<le> rnd x"
  using rnd_error [of x] by (simp add: algebra_simps abs_le_iff)

lemma rnd_upper_trans: "0 \<le> x \<Longrightarrow> x \<le> y \<Longrightarrow> rnd x \<le> (1 + u) * y"
  using rnd_upper [of x] u_nonneg mult_left_mono [of x y "1 + u"] by linarith

text \<open>
  Error counting: after \<open>k\<close> roundings a value lies within the factors \<open>(1 + u) ^ k\<close> and
  \<open>(1 - u) ^ k\<close> of the exact one.
\<close>

lemma rnd_up_pow:
  assumes "0 \<le> x" "x \<le> (1 + u) ^ k * y"
  shows "rnd x \<le> (1 + u) ^ Suc k * y"
  using rnd_upper_trans [OF assms] by (simp add: mult.assoc)

lemma rnd_low_pow:
  assumes "0 \<le> x" "(1 - u) ^ k * y \<le> x"
  shows "(1 - u) ^ Suc k * y \<le> rnd x"
proof -
  have "(1 - u) * ((1 - u) ^ k * y) \<le> (1 - u) * x"
    using assms(2) u_le_1 by (intro mult_left_mono) auto
  then show ?thesis using rnd_lower [OF assms(1)] by (simp add: mult.assoc)
qed

lemma up_pow_mono: "0 \<le> y \<Longrightarrow> k \<le> m \<Longrightarrow> x \<le> (1 + u) ^ k * y \<Longrightarrow> x \<le> (1 + u) ^ m * y"
  using mult_right_mono [of "(1 + u) ^ k" "(1 + u) ^ m" y] power_increasing [of k m "1 + u"] u_nonneg
  by simp

lemma low_pow_mono: "0 \<le> y \<Longrightarrow> k \<le> m \<Longrightarrow> (1 - u) ^ k * y \<le> x \<Longrightarrow> (1 - u) ^ m * y \<le> x"
  using mult_right_mono [of "(1 - u) ^ m" "(1 - u) ^ k" y] power_decreasing [of k m "1 - u"]
    u_nonneg u_le_1 by simp

lemma up_pow_trans:
  assumes "x \<le> (1 + u) ^ k * y" "y \<le> (1 + u) ^ m * z"
  shows "x \<le> (1 + u) ^ (k + m) * z"
proof -
  have "(1 + u) ^ k * y \<le> (1 + u) ^ k * ((1 + u) ^ m * z)"
    using assms(2) u_nonneg by (intro mult_left_mono) auto
  then show ?thesis using assms(1) by (simp add: power_add mult.assoc)
qed

end

definition EPS :: rat where "EPS = 1 / (2 * 10 ^ 27)"

interpretation dec28: rounding "dround 28" EPS
proof unfold_locales
  show "\<bar>dround 28 x - x\<bar> \<le> EPS * \<bar>x\<bar>" for x
    using dround_error [of 28 x] by (simp add: EPS_def)
qed (simp_all add: EPS_def dround_mono dround_minus dround_pos dround_idem)

lemma dec28_int: "\<bar>m\<bar> < 10 ^ 28 \<Longrightarrow> dround 28 (of_int m) = of_int m"
  using dround_exact [of m 28 0] by simp

section \<open>The operators of the default context\<close>

definition dadd :: "rat \<Rightarrow> rat \<Rightarrow> rat" where "dadd x y = dround 28 (x + y)"
definition dsub :: "rat \<Rightarrow> rat \<Rightarrow> rat" where "dsub x y = dround 28 (x - y)"
definition dmul :: "rat \<Rightarrow> rat \<Rightarrow> rat" where "dmul x y = dround 28 (x * y)"
definition ddiv :: "rat \<Rightarrow> rat \<Rightarrow> rat" where "ddiv x y = dround 28 (x / y)"
definition dneg :: "rat \<Rightarrow> rat" where "dneg x = dround 28 (- x)"
definition dabs :: "rat \<Rightarrow> rat" where "dabs x = dround 28 \<bar>x\<bar>"

text \<open>
  Division is only ever applied where the code has checked the divisor to be positive (or it is a
  literal), so \<open>ddiv\<close> needs no exception. \<open>quantize8\<close> is \<^verbatim>\<open>x.quantize(Decimal("0.00000001"))\<close> under
  a rounding mode; \<open>to_integral\<close> is \<^verbatim>\<open>to_integral_value(rounding=ROUND_DOWN)\<close>, which no precision
  bounds.
\<close>

definition quantize8 :: "(rat \<Rightarrow> int) \<Rightarrow> rat \<Rightarrow> rat res" where
  "quantize8 mode x =
     (let c = mode (x * 10 ^ 8)
      in if 10 ^ 28 \<le> \<bar>c\<bar> then Inl InvalidOperation else Inr (of_int c / 10 ^ 8))"

definition to_integral :: "rat \<Rightarrow> rat" where
  "to_integral x = of_int (round_down x)"

fun dsum :: "rat \<Rightarrow> rat list \<Rightarrow> rat" where
  "dsum acc [] = acc"
| "dsum acc (x # xs) = dsum (dadd acc x) xs"

lemmas dec_ops = dadd_def dsub_def dmul_def ddiv_def dneg_def dabs_def

named_theorems dec_sign \<open>signs of the results of Decimal operators\<close>

lemma dadd_nonneg [dec_sign]: "0 \<le> x \<Longrightarrow> 0 \<le> y \<Longrightarrow> 0 \<le> dadd x y"
  by (simp add: dadd_def dec28.rnd_nonneg)

lemma dadd_pos [dec_sign]: "0 < x \<Longrightarrow> 0 \<le> y \<Longrightarrow> 0 < dadd x y"
  by (simp add: dadd_def dec28.rnd_pos)

lemma dmul_nonneg [dec_sign]: "0 \<le> x \<Longrightarrow> 0 \<le> y \<Longrightarrow> 0 \<le> dmul x y"
  by (simp add: dmul_def dec28.rnd_nonneg)

lemma dmul_pos [dec_sign]: "0 < x \<Longrightarrow> 0 < y \<Longrightarrow> 0 < dmul x y"
  by (simp add: dmul_def dec28.rnd_pos)

lemma ddiv_nonneg [dec_sign]: "0 \<le> x \<Longrightarrow> 0 \<le> y \<Longrightarrow> 0 \<le> ddiv x y"
  by (simp add: ddiv_def dec28.rnd_nonneg)

lemma ddiv_pos [dec_sign]: "0 < x \<Longrightarrow> 0 < y \<Longrightarrow> 0 < ddiv x y"
  by (simp add: ddiv_def dec28.rnd_pos)

lemma dabs_nonneg [dec_sign, simp]: "0 \<le> dabs x"
  by (simp add: dabs_def dec28.rnd_nonneg)

lemma dsub_pos_iff [dec_sign]: "0 < dsub x y \<longleftrightarrow> y < x"
  by (simp add: dsub_def dec28.rnd_pos_iff)

lemma dsub_nonneg_iff [dec_sign]: "0 \<le> dsub x y \<longleftrightarrow> y \<le> x"
  by (simp add: dsub_def dec28.rnd_nonneg_iff)

lemma dabs_pos_iff [dec_sign]: "0 < dabs x \<longleftrightarrow> x \<noteq> 0"
  by (simp add: dabs_def dec28.rnd_pos_iff)

lemma dadd_mono: "x \<le> x' \<Longrightarrow> y \<le> y' \<Longrightarrow> dadd x y \<le> dadd x' y'"
  by (simp add: dadd_def dec28.rnd_mono)

lemma dsub_mono: "x \<le> x' \<Longrightarrow> y' \<le> y \<Longrightarrow> dsub x y \<le> dsub x' y'"
  by (simp add: dsub_def dec28.rnd_mono)

lemma dmul_mono: "0 \<le> x \<Longrightarrow> x \<le> x' \<Longrightarrow> 0 \<le> y \<Longrightarrow> y \<le> y' \<Longrightarrow> dmul x y \<le> dmul x' y'"
  unfolding dmul_def by (intro dec28.rnd_mono mult_mono) auto

lemma ddiv_mono: "0 \<le> x \<Longrightarrow> x \<le> x' \<Longrightarrow> 0 < y' \<Longrightarrow> y' \<le> y \<Longrightarrow> ddiv x y \<le> ddiv x' y'"
  unfolding ddiv_def by (intro dec28.rnd_mono frac_le) auto

lemma dmul_le_left: "0 \<le> x \<Longrightarrow> dround 28 x = x \<Longrightarrow> y \<le> 1 \<Longrightarrow> dmul x y \<le> x"
  unfolding dmul_def by (intro dec28.rnd_le_fixed mult_left_le) auto

lemma dadd_ge_left: "dround 28 x = x \<Longrightarrow> 0 \<le> y \<Longrightarrow> x \<le> dadd x y"
  unfolding dadd_def by (intro dec28.rnd_ge_fixed) auto

lemma dec_op_fixed [simp]:
  "dround 28 (dadd x y) = dadd x y"
  "dround 28 (dsub x y) = dsub x y"
  "dround 28 (dmul x y) = dmul x y"
  "dround 28 (ddiv x y) = ddiv x y"
  by (simp_all add: dec_ops dec28.rnd_idem)

lemma round_down_bounds: "0 \<le> x \<Longrightarrow> of_int (round_down x) \<le> x \<and> x < of_int (round_down x) + 1"
  by (simp add: round_down_def) linarith

lemma round_down_nonneg: "0 \<le> x \<Longrightarrow> 0 \<le> round_down x"
  by (simp add: round_down_def)

lemma round_down_mono: "x \<le> y \<Longrightarrow> round_down x \<le> round_down y"
  by (auto simp: round_down_def intro: floor_mono ceiling_mono)
     (metis ceiling_mono ceiling_zero floor_mono floor_zero le_cases order_trans)

lemma quantize8_down_le:
  assumes "quantize8 round_down x = Inr y" "0 \<le> x"
  shows "0 \<le> y \<and> y \<le> x \<and> x < y + 1 / 10 ^ 8"
proof -
  have "y = of_int (round_down (x * 10 ^ 8)) / 10 ^ 8"
    using assms(1) by (auto simp: quantize8_def Let_def split: if_splits)
  moreover from this have "0 \<le> y"
    using assms(2) round_down_nonneg [of "x * 10 ^ 8"] by simp
  ultimately show ?thesis
    using assms(2) round_down_bounds [of "x * 10 ^ 8"] by (simp add: field_simps)
qed

lemma quantize8_mono:
  assumes "quantize8 round_down x = Inr y" "quantize8 round_down x' = Inr y'" "x \<le> x'"
  shows "y \<le> y'"
  using assms round_down_mono [of "x * 10 ^ 8" "x' * 10 ^ 8"]
  by (auto simp: quantize8_def Let_def divide_right_mono split: if_splits)

lemma to_integral_le: "0 \<le> x \<Longrightarrow> to_integral x \<le> x"
  using round_down_bounds [of x] by (simp add: to_integral_def)

lemma to_integral_nonneg: "0 \<le> x \<Longrightarrow> 0 \<le> to_integral x"
  using round_down_nonneg [of x] by (simp add: to_integral_def)

lemma dsum_ge_acc:
  assumes "\<forall>x \<in> set xs. 0 \<le> x" "dround 28 acc = acc"
  shows "acc \<le> dsum acc xs"
  using assms
proof (induction xs arbitrary: acc)
  case (Cons x xs)
  then have "acc \<le> dadd acc x" by (intro dadd_ge_left) auto
  also have "\<dots> \<le> dsum (dadd acc x) xs" using Cons by (intro Cons.IH) auto
  finally show ?case by simp
qed simp

lemma need_fin_eq_Inr [res_simps]:
  "(case n of Fin x \<Rightarrow> f x | NonFinite \<Rightarrow> Inl e) = Inr y \<longleftrightarrow> (\<exists>x. n = Fin x \<and> f x = Inr y)"
  by (cases n) auto

section \<open>Error bounds of the operators\<close>

lemma dmul_up:
  "0 \<le> x \<Longrightarrow> 0 \<le> y \<Longrightarrow> x \<le> (1 + EPS) ^ k * x' \<Longrightarrow> dmul x y \<le> (1 + EPS) ^ Suc k * (x' * y)"
  unfolding dmul_def using mult_right_mono [of x "(1 + EPS) ^ k * x'" y]
  by (intro dec28.rnd_up_pow) (auto simp: mult.assoc)

lemma ddiv_up:
  "0 \<le> x \<Longrightarrow> 0 < y \<Longrightarrow> x \<le> (1 + EPS) ^ k * x' \<Longrightarrow> ddiv x y \<le> (1 + EPS) ^ Suc k * (x' / y)"
  unfolding ddiv_def using divide_right_mono [of x "(1 + EPS) ^ k * x'" y]
  by (intro dec28.rnd_up_pow) auto

lemma dsub_up:
  "y \<le> x \<Longrightarrow> dsub x y \<le> (1 + EPS) ^ 1 * (x - y)"
  using dec28.rnd_upper [of "x - y"] by (simp add: dsub_def)

lemma dmul_low:
  "0 \<le> x \<Longrightarrow> 0 \<le> y \<Longrightarrow> (1 - EPS) ^ k * x' \<le> x \<Longrightarrow> (1 - EPS) ^ Suc k * (x' * y) \<le> dmul x y"
  unfolding dmul_def using mult_right_mono [of "(1 - EPS) ^ k * x'" x y]
  by (intro dec28.rnd_low_pow) (auto simp: mult.assoc)

lemma ddiv_low:
  "0 \<le> x \<Longrightarrow> 0 < y \<Longrightarrow> (1 - EPS) ^ k * x' \<le> x \<Longrightarrow> (1 - EPS) ^ Suc k * (x' / y) \<le> ddiv x y"
  unfolding ddiv_def using divide_right_mono [of "(1 - EPS) ^ k * x'" x y]
  by (intro dec28.rnd_low_pow) auto

lemma dadd_low:
  "0 \<le> x \<Longrightarrow> 0 \<le> y \<Longrightarrow> (1 - EPS) ^ k * x' \<le> x \<Longrightarrow> (1 - EPS) ^ k * y' \<le> y \<Longrightarrow>
     (1 - EPS) ^ Suc k * (x' + y') \<le> dadd x y"
  unfolding dadd_def by (intro dec28.rnd_low_pow) (auto simp: distrib_left)

lemma dsub_low: "y \<le> x \<Longrightarrow> (1 - EPS) ^ 1 * (x - y) \<le> dsub x y"
  using dec28.rnd_lower [of "x - y"] by (simp add: dsub_def)

lemma dabs_low: "(1 - EPS) ^ 1 * \<bar>x\<bar> \<le> dabs x"
  using dec28.rnd_lower [of "\<bar>x\<bar>"] by (simp add: dabs_def)

lemma dsum_nonneg: "0 \<le> acc \<Longrightarrow> \<forall>x \<in> set xs. 0 \<le> x \<Longrightarrow> 0 \<le> dsum acc xs"
  by (induction xs arbitrary: acc) (auto simp: dadd_nonneg)

lemma dsum_low:
  assumes "0 \<le> acc" "\<forall>x \<in> set xs. 0 \<le> x" "(1 - EPS) ^ k * acc' \<le> acc" "0 \<le> acc'"
  shows "(1 - EPS) ^ (k + length xs) * (acc' + sum_list xs) \<le> dsum acc xs"
  using assms
proof (induction xs arbitrary: acc acc' k)
  case (Cons x xs)
  have "(1 - EPS) ^ Suc k * (acc' + x) \<le> dadd acc x"
    using Cons.prems dec28.low_pow_mono [of x 0 k x] by (intro dadd_low) auto
  from Cons.IH [OF _ _ this] show ?case using Cons.prems by (simp add: add.assoc dadd_nonneg)
qed simp

lemma raises_num [raises_intros]:
  "(\<And>x. n = Fin x \<Longrightarrow> raises P (f x)) \<Longrightarrow> (n = NonFinite \<Longrightarrow> raises P b) \<Longrightarrow>
     raises P (case n of Fin x \<Rightarrow> f x | NonFinite \<Rightarrow> b)"
  by (cases n) auto

lemma raises_quantize8: "raises rejection_or_overflow (quantize8 m x)"
  by (simp add: quantize8_def Let_def)

section \<open>Evaluating on literals\<close>

text \<open>Rewrite rules with which \<open>simp\<close> computes the operators on short decimal literals.\<close>

lemma dround_dec:
  assumes "of_int \<lfloor>x * 10 ^ 20\<rfloor> = x * 10 ^ 20" "\<bar>x * 10 ^ 20\<bar> < 10 ^ 28"
  shows "dround 28 x = x"
proof -
  have "rat_of_int \<bar>\<lfloor>x * 10 ^ 20\<rfloor>\<bar> < rat_of_int (10 ^ 28)"
    using assms(2) unfolding of_int_abs assms(1) by simp
  then have "\<bar>\<lfloor>x * 10 ^ 20\<rfloor>\<bar> < 10 ^ 28" by (simp only: of_int_less_iff)
  from dround_exact [OF this, of "- 20", unfolded assms(1)] show ?thesis
    by (simp add: power_int_minus)
qed

lemmas dround_eval =
  dround_dec [of "numeral a"] dround_dec [of "numeral a / numeral b"] dround_dec [of "1 / numeral b"]
  dround_dec [of 1] for a b

lemma quantize8_eval:
  "quantize8 round_down x =
     (if 10 ^ 28 \<le> \<bar>round_down (x * 10 ^ 8)\<bar> then Inl InvalidOperation
      else Inr (of_int (round_down (x * 10 ^ 8)) / 10 ^ 8))"
  by (simp add: quantize8_def)

lemmas dec_eval = dec_ops dround_eval to_integral_def round_down_def quantize8_eval

end
