(* ===== verification/Py_Text.thy ===== *)
theory Py_Text
  imports Py_Decimal
begin

text \<open>
  Text: the number formats the risk profiles are stored and compared in. \<open>fixed8\<close> is
  \<^verbatim>\<open>format(value.quantize(Decimal("0.00000001")), "f")\<close>, \<open>parse_decimal\<close> is the constructor
  \<^verbatim>\<open>Decimal(text)\<close> (None where it signals a conversion error), \<open>int_text\<close> is \<^verbatim>\<open>str(n)\<close> and
  \<open>parse_int\<close> is \<^verbatim>\<open>int(text)\<close>. Characters are ASCII. The main facts are the two round trips.
\<close>

section \<open>Digits\<close>

definition is_digit :: "char \<Rightarrow> bool" where
  "is_digit c \<longleftrightarrow> 48 \<le> (of_char c :: int) \<and> (of_char c :: int) \<le> 57"

definition digit_val :: "char \<Rightarrow> int" where
  "digit_val c = of_char c - 48"

definition digit_char :: "int \<Rightarrow> char" where
  "digit_char d = char_of (48 + d)"

definition digits_val :: "string \<Rightarrow> int" where
  "digits_val s = foldl (\<lambda>a c. 10 * a + digit_val c) 0 s"

function nat_text :: "int \<Rightarrow> string" where
  "nat_text n = (if n < 10 then [digit_char n] else nat_text (n div 10) @ [digit_char (n mod 10)])"
  by pat_completeness auto
termination
  by (relation "measure nat") auto

declare nat_text.simps [simp del]

fun fixed_digits :: "nat \<Rightarrow> int \<Rightarrow> string" where
  "fixed_digits 0 n = []"
| "fixed_digits (Suc k) n = fixed_digits k (n div 10) @ [digit_char (n mod 10)]"

section \<open>Printing\<close>

definition int_text :: "int \<Rightarrow> string" where
  "int_text i = (if i < 0 then CHR ''-'' # nat_text (- i) else nat_text i)"

definition coef8_text :: "int \<Rightarrow> string" where
  "coef8_text c =
     (if c < 0 then ''-'' else '''') @ nat_text (\<bar>c\<bar> div 10 ^ 8) @ ''.''
       @ fixed_digits 8 (\<bar>c\<bar> mod 10 ^ 8)"

definition quantum :: "rat \<Rightarrow> rat" where
  "quantum x = of_int (round_half_even (x * 10 ^ 8)) / 10 ^ 8"

definition fixed8 :: "rat \<Rightarrow> string res" where
  "fixed8 x = res_bind (quantize8 round_half_even x) (\<lambda>q. Inr (coef8_text (\<lfloor>q * 10 ^ 8\<rfloor>)))"

section \<open>Reading\<close>

definition is_space :: "char \<Rightarrow> bool" where
  "is_space c \<longleftrightarrow> (let n = of_char c :: int in n = 32 \<or> (9 \<le> n \<and> n \<le> 13) \<or> (28 \<le> n \<and> n \<le> 31))"

definition strip :: "string \<Rightarrow> string" where
  "strip s = rev (dropWhile is_space (rev (dropWhile is_space s)))"

definition lower_char :: "char \<Rightarrow> char" where
  "lower_char c =
     (let n = of_char c :: int in if 65 \<le> n \<and> n \<le> 90 then char_of (n + 32) else c)"

definition lower :: "string \<Rightarrow> string" where
  "lower s = map lower_char s"

definition split_sign :: "string \<Rightarrow> int \<times> string" where
  "split_sign s =
     (case s of c # r \<Rightarrow> if c = CHR ''-'' then (-1, r) else if c = CHR ''+'' then (1, r) else (1, s)
      | [] \<Rightarrow> (1, s))"

definition all_digits :: "string \<Rightarrow> bool" where
  "all_digits s \<longleftrightarrow> s \<noteq> [] \<and> list_all is_digit s"

definition parse_exponent :: "string \<Rightarrow> int option" where
  "parse_exponent s =
     (case s of [] \<Rightarrow> Some 0
      | c # r \<Rightarrow>
          if c = CHR ''e'' \<or> c = CHR ''E'' then
            (let (sg, ds) = split_sign r
             in if all_digits ds then Some (sg * digits_val ds) else None)
          else None)"

definition is_special :: "string \<Rightarrow> bool" where
  "is_special s =
     (let t = lower s in
      t = ''inf'' \<or> t = ''infinity''
      \<or> (take 3 t = ''nan'' \<and> list_all is_digit (drop 3 t))
      \<or> (take 4 t = ''snan'' \<and> list_all is_digit (drop 4 t)))"

definition parse_unsigned :: "int \<Rightarrow> string \<Rightarrow> num option" where
  "parse_unsigned sg s =
     (let i = takeWhile is_digit s; r = dropWhile is_digit s;
          fr = (case r of c # r' \<Rightarrow> if c = CHR ''.'' then takeWhile is_digit r' else [] | [] \<Rightarrow> []);
          r2 = (case r of c # r' \<Rightarrow> if c = CHR ''.'' then dropWhile is_digit r' else r | [] \<Rightarrow> r)
      in if i = [] \<and> fr = [] then (if is_special s then Some NonFinite else None)
         else case parse_exponent r2 of None \<Rightarrow> None
              | Some e \<Rightarrow>
                  Some (Fin (of_int (sg * digits_val (i @ fr)) * 10 powi (e - int (length fr)))))"

definition parse_decimal :: "string \<Rightarrow> num option" where
  "parse_decimal text =
     (let s = filter (\<lambda>c. c \<noteq> CHR ''_'') (strip text); (sg, r) = split_sign s
      in parse_unsigned sg r)"

text \<open>\<^verbatim>\<open>int(text)\<close> accepts single underscores between digits.\<close>

fun int_digits :: "string \<Rightarrow> string option" where
  "int_digits [] = None"
| "int_digits [c] = (if is_digit c then Some [c] else None)"
| "int_digits (c # d # r) =
     (if \<not> is_digit c then None
      else if d = CHR ''_'' then map_option ((#) c) (int_digits r)
      else map_option ((#) c) (int_digits (d # r)))"

definition parse_int :: "string \<Rightarrow> int option" where
  "parse_int text =
     (let (sg, r) = split_sign (strip text)
      in map_option (\<lambda>ds. sg * digits_val ds) (int_digits r))"

section \<open>Round trips\<close>

lemma of_char_digit_char [simp]: "0 \<le> d \<Longrightarrow> d < 10 \<Longrightarrow> (of_char (digit_char d) :: int) = 48 + d"
  by (simp add: digit_char_def)

lemma digit_char_props [simp]:
  assumes "0 \<le> d" "d < 10"
  shows "is_digit (digit_char d)" "digit_val (digit_char d) = d"
  using assms by (simp_all add: is_digit_def digit_val_def)

lemma digits_val_append1 [simp]: "digits_val (s @ [c]) = 10 * digits_val s + digit_val c"
  by (simp add: digits_val_def)

lemma digits_val_Nil [simp]: "digits_val [] = 0"
  by (simp add: digits_val_def)

lemma digits_val_append: "digits_val (s @ t) = digits_val s * 10 ^ length t + digits_val t"
proof (induction t rule: rev_induct)
  case (snoc c t)
  have "digits_val (s @ t @ [c]) = 10 * digits_val (s @ t) + digit_val c"
    using digits_val_append1 [of "s @ t" c] by simp
  then show ?case using snoc by (simp add: algebra_simps)
qed simp

lemma nat_text_props:
  "0 \<le> n \<Longrightarrow> digits_val (nat_text n) = n \<and> list_all is_digit (nat_text n) \<and> nat_text n \<noteq> []"
proof (induction n rule: nat_text.induct)
  case (1 n)
  show ?case
  proof (cases "n < 10")
    case True
    then show ?thesis using digits_val_append1 [of "[]"] "1.prems" by (simp add: nat_text.simps [of n])
  next
    case False
    with 1 show ?thesis by (simp add: nat_text.simps [of n])
  qed
qed

lemma fixed_digits_props:
  "0 \<le> n \<Longrightarrow> digits_val (fixed_digits k n) = n mod 10 ^ k \<and> list_all is_digit (fixed_digits k n)
     \<and> length (fixed_digits k n) = k"
proof (induction k arbitrary: n)
  case (Suc k)
  have "10 * (n div 10 mod 10 ^ k) + n mod 10 = n mod 10 ^ Suc k"
    using zmod_zmult2_eq [of "10 ^ k" n 10] by simp
  with Suc.IH [of "n div 10"] Suc.prems show ?case by (simp add: pos_imp_zdiv_nonneg_iff)
qed simp

lemma digit_not_sign [simp]: "is_digit c \<Longrightarrow> c \<noteq> CHR ''-'' \<and> c \<noteq> CHR ''+'' \<and> c \<noteq> CHR ''_'' \<and> c \<noteq> CHR ''.''"
  by (auto simp: is_digit_def)

lemma digit_not_space [simp]: "is_digit c \<Longrightarrow> \<not> is_space c"
  by (auto simp: is_digit_def is_space_def Let_def)

lemma strip_id:
  assumes "s \<noteq> []" "\<not> is_space (hd s)" "\<not> is_space (last s)"
  shows "strip s = s"
proof -
  have "dropWhile is_space s = s" using assms by (cases s) auto
  moreover have "dropWhile is_space (rev s) = rev s"
    using assms by (cases s rule: rev_cases) auto
  ultimately show ?thesis by (simp add: strip_def)
qed

lemma takeWhile_digits: "list_all is_digit s \<Longrightarrow> \<not> is_digit c \<Longrightarrow> takeWhile is_digit (s @ c # t) = s"
  by (induction s) auto

lemma dropWhile_digits: "list_all is_digit s \<Longrightarrow> \<not> is_digit c \<Longrightarrow> dropWhile is_digit (s @ c # t) = c # t"
  by (induction s) auto

lemma takeWhile_all_digits: "list_all is_digit s \<Longrightarrow> takeWhile is_digit s = s"
  by (induction s) auto

lemma dropWhile_all_digits: "list_all is_digit s \<Longrightarrow> dropWhile is_digit s = []"
  by (induction s) auto

lemma parse_unsigned_point:
  assumes "list_all is_digit i" "list_all is_digit f" "i \<noteq> []"
  shows "parse_unsigned sg (i @ CHR ''.'' # f)
           = Some (Fin (of_int (sg * digits_val (i @ f)) * 10 powi (- int (length f))))"
proof -
  have nd: "\<not> is_digit (CHR ''.'')" by (simp add: is_digit_def)
  show ?thesis using assms
    by (simp add: parse_unsigned_def Let_def takeWhile_digits [OF _ nd] dropWhile_digits [OF _ nd]
        takeWhile_all_digits dropWhile_all_digits parse_exponent_def)
qed

lemma split_sign_digits:
  assumes "list_all is_digit i" "i \<noteq> []"
  shows "split_sign (i @ t) = (1, i @ t)"
  using assms by (cases i) (auto simp: split_sign_def)

lemma filter_underscore_digits: "list_all is_digit s \<Longrightarrow> filter (\<lambda>c. c \<noteq> CHR ''_'') s = s"
  by (induction s) auto

lemma parse_coef8_text: "parse_decimal (coef8_text c) = Some (Fin (of_int c / 10 ^ 8))"
proof -
  define i where "i = nat_text (\<bar>c\<bar> div 10 ^ 8)"
  define f where "f = fixed_digits 8 (\<bar>c\<bar> mod 10 ^ 8)"
  have i: "list_all is_digit i" "i \<noteq> []" "digits_val i = \<bar>c\<bar> div 10 ^ 8"
    using nat_text_props by (simp_all add: i_def pos_imp_zdiv_nonneg_iff)
  have f: "list_all is_digit f" "length f = 8" "digits_val f = \<bar>c\<bar> mod 10 ^ 8"
    using fixed_digits_props [of "\<bar>c\<bar> mod 10 ^ 8" 8] by (simp_all add: f_def)
  have f0: "f \<noteq> []" using f(2) by auto
  have lf: "is_digit (last f)" and hi: "is_digit (hd i)"
    using f i f0 last_in_set [OF f0] by (auto simp: list_all_iff)
  have val: "digits_val (i @ f) = \<bar>c\<bar>"
    using i f by (simp add: digits_val_append)
  have p8: "(10 :: rat) powi (- int (length f)) = 1 / 10 ^ 8" by (simp add: f(2))
  have body: "parse_unsigned sg (i @ CHR ''.'' # f) = Some (Fin (of_int (sg * \<bar>c\<bar>) / 10 ^ 8))" for sg
    unfolding parse_unsigned_point [OF i(1) f(1) i(2)] val p8 by simp
  have us: "filter (\<lambda>c. c \<noteq> CHR ''_'') (i @ CHR ''.'' # f) = i @ CHR ''.'' # f"
    using i f by (simp add: filter_underscore_digits)
  show ?thesis
  proof (cases "c < 0")
    case True
    then have t: "coef8_text c = CHR ''-'' # i @ CHR ''.'' # f" by (simp add: coef8_text_def i_def f_def)
    have "strip (coef8_text c) = coef8_text c"
      unfolding t using f0 digit_not_space [OF lf] by (intro strip_id) (simp_all add: is_space_def [of "CHR ''-''"])
    then show ?thesis using True us body [of "-1"] unfolding parse_decimal_def Let_def t
      by (simp add: split_sign_def)
  next
    case False
    then have t: "coef8_text c = i @ CHR ''.'' # f" by (simp add: coef8_text_def i_def f_def)
    have "strip (coef8_text c) = coef8_text c"
      unfolding t using f0 lf hi i(2) by (intro strip_id) auto
    then show ?thesis using False us body [of 1] split_sign_digits [OF i(1,2)]
      unfolding parse_decimal_def Let_def t by simp
  qed
qed

lemma quantize8_half_even:
  "quantize8 round_half_even x = Inr q \<Longrightarrow> q = quantum x"
  by (auto simp: quantize8_def quantum_def Let_def split: if_splits)

lemma quantum_scaled: "quantum x * 10 ^ 8 = of_int (round_half_even (x * 10 ^ 8))"
  by (simp add: quantum_def)

lemma quantum_idem [simp]: "quantum (quantum x) = quantum x"
  unfolding quantum_def [of "quantum x"] quantum_scaled round_half_even_of_int by (simp add: quantum_def)

lemma quantum_mono: "x \<le> y \<Longrightarrow> quantum x \<le> quantum y"
  unfolding quantum_def by (intro divide_right_mono) (auto intro: round_half_even_mono)

lemma fixed8_eq: "fixed8 x = Inr t \<Longrightarrow> t = coef8_text (round_half_even (x * 10 ^ 8))"
  using quantum_scaled [of x] by (auto simp: fixed8_def res_simps dest!: quantize8_half_even)

lemma parse_fixed8: "fixed8 x = Inr t \<Longrightarrow> parse_decimal t = Some (Fin (quantum x))"
  by (drule fixed8_eq) (simp add: parse_coef8_text quantum_def)

lemma fixed8_inj: "fixed8 x = Inr t \<Longrightarrow> fixed8 y = Inr t \<Longrightarrow> quantum x = quantum y"
  by (metis parse_fixed8 option.inject num.inject)

lemma fixed8_small: "\<bar>x\<bar> \<le> 10 ^ 10 \<Longrightarrow> \<exists>t. fixed8 x = Inr t"
proof -
  assume "\<bar>x\<bar> \<le> 10 ^ 10"
  then have "x * 10 ^ 8 \<le> of_int (10 ^ 18)" "of_int (- (10 ^ 18)) \<le> x * 10 ^ 8"
    by (auto simp: abs_le_iff)
  then have "round_half_even (x * 10 ^ 8) \<le> 10 ^ 18" "- (10 ^ 18) \<le> round_half_even (x * 10 ^ 8)"
    by (blast intro: round_half_even_le_int round_half_even_ge_int)+
  then have "\<bar>round_half_even (x * 10 ^ 8)\<bar> < 10 ^ 28" by simp
  then show ?thesis by (simp add: fixed8_def quantize8_def Let_def)
qed

lemma fixed8_value: "\<bar>x\<bar> \<le> 10 ^ 10 \<Longrightarrow> fixed8 x = Inr (coef8_text (round_half_even (x * 10 ^ 8)))"
  using fixed8_small [of x] fixed8_eq [of x] by auto

lemma fixed8_cong: "quantum x = quantum y \<Longrightarrow> fixed8 x = fixed8 y"
proof -
  assume "quantum x = quantum y"
  then have "(of_int (round_half_even (x * 10 ^ 8)) :: rat) = of_int (round_half_even (y * 10 ^ 8))"
    unfolding quantum_def by simp
  then show ?thesis by (simp add: fixed8_def quantize8_def)
qed

lemma int_digits_all: "list_all is_digit s \<Longrightarrow> s \<noteq> [] \<Longrightarrow> int_digits s = Some s"
  by (induction s rule: int_digits.induct) auto

lemma parse_int_text: "0 \<le> i \<Longrightarrow> parse_int (int_text i) = Some i"
proof -
  assume i: "0 \<le> i"
  define s where "s = nat_text i"
  have s: "list_all is_digit s" "s \<noteq> []" "digits_val s = i"
    using nat_text_props [OF i] by (simp_all add: s_def)
  have "is_digit (hd s)" "is_digit (last s)" using s by (auto simp: list_all_iff)
  then have "strip s = s" using s by (intro strip_id) auto
  moreover have "int_text i = s" using i by (simp add: int_text_def s_def)
  ultimately show ?thesis
    using s i split_sign_digits [of s "[]"] by (simp add: parse_int_def int_digits_all)
qed

lemma int_text_inj: "0 \<le> i \<Longrightarrow> 0 \<le> j \<Longrightarrow> int_text i = int_text j \<Longrightarrow> i = j"
  by (metis option.inject parse_int_text)

lemma parse_decimal_int_text:
  assumes "0 \<le> i"
  shows "parse_decimal (int_text i) = Some (Fin (of_int i))"
proof -
  define s where "s = nat_text i"
  have s: "list_all is_digit s" "s \<noteq> []" "digits_val s = i"
    using nat_text_props [OF assms] by (simp_all add: s_def)
  have "is_digit (hd s)" "is_digit (last s)" using s by (auto simp: list_all_iff)
  then have "strip s = s" using s by (intro strip_id) auto
  moreover have "int_text i = s" using assms by (simp add: int_text_def s_def)
  ultimately show ?thesis
    using s split_sign_digits [of s "[]"]
    by (simp add: parse_decimal_def filter_underscore_digits parse_unsigned_def takeWhile_all_digits
        dropWhile_all_digits parse_exponent_def)
qed

end
