(* ===== verification/Profile.thy ===== *)
theory Profile
  imports Py_Text "HOL-Library.List_Lexorder" "HOL-Library.Char_ord"
begin

text \<open>
  Risk profiles: \<^verbatim>\<open>services/risk_policy/ceilings.py\<close> and \<^verbatim>\<open>services/risk_policy/profile.py\<close>. The
  code ceilings, the profile record, its validation, the canonical text form used for storage,
  hashing and diffs, and the classification of a change as a tightening or a loosening.

  Record fields carry the prefix \<open>p_\<close>. A profile's decimals are finite: the code builds a profile
  only from literals or through \<open>_decimal\<close>, which rejects an infinity or a NaN, so the
  \<^verbatim>\<open>is_finite\<close> tests of \<^verbatim>\<open>validate_profile\<close> have nothing left to refuse. \<^verbatim>\<open>isinstance\<close> tests on
  fields of a declared type are discharged by HOL's types.
\<close>

section \<open>Ceilings\<close>

datatype policy_kind = CONSERVATIVE | STANDARD | AGGRESSIVE | INTERNAL_PAPER | DEMO

datatype grade = A_PLUS | A | B_PLUS | B | C

datatype change_class = INITIAL | TIGHTENING | LOOSENING

fun kind_value :: "policy_kind \<Rightarrow> string" where
  "kind_value CONSERVATIVE = ''conservative''"
| "kind_value STANDARD = ''standard''"
| "kind_value AGGRESSIVE = ''aggressive''"
| "kind_value INTERNAL_PAPER = ''internal_paper''"
| "kind_value DEMO = ''demo''"

fun grade_value :: "grade \<Rightarrow> string" where
  "grade_value A_PLUS = ''A+''"
| "grade_value A = ''A''"
| "grade_value B_PLUS = ''B+''"
| "grade_value B = ''B''"
| "grade_value C = ''C''"

definition TRADABLE_GRADES :: "grade list" where
  "TRADABLE_GRADES = [A_PLUS, A, B_PLUS, B]"

definition GRADE_ORDER :: "grade list" where
  "GRADE_ORDER = [A_PLUS, A, B_PLUS, B, C]"

definition HARD_MAX_RISK_PER_TRADE_PERCENT :: rat where "HARD_MAX_RISK_PER_TRADE_PERCENT = 2"
definition PAPER_DEMO_MAX_RISK_PER_TRADE_PERCENT :: rat where
  "PAPER_DEMO_MAX_RISK_PER_TRADE_PERCENT = 5"
definition HARD_MAX_DAILY_LOSS_PERCENT :: rat where "HARD_MAX_DAILY_LOSS_PERCENT = 6"
definition HARD_MAX_AGGREGATE_OPEN_RISK_PERCENT :: rat where
  "HARD_MAX_AGGREGATE_OPEN_RISK_PERCENT = 6"
definition HARD_MAX_LEVERAGE :: rat where "HARD_MAX_LEVERAGE = 20"
definition HARD_MAX_COST_SHARE_OF_R :: rat where "HARD_MAX_COST_SHARE_OF_R = 25 / 100"
definition HARD_MAX_NOTIONAL_PERCENT :: rat where "HARD_MAX_NOTIONAL_PERCENT = 100"
definition PAPER_DEMO_MAX_NOTIONAL_PERCENT :: rat where "PAPER_DEMO_MAX_NOTIONAL_PERCENT = 2000"
definition POLICY_ID :: string where "POLICY_ID = ''at-adr-107/v1''"
definition PAPER_DEMO_KINDS :: "string list" where "PAPER_DEMO_KINDS = [''internal_paper'', ''demo'']"

lemmas ceiling_defs =
  HARD_MAX_RISK_PER_TRADE_PERCENT_def PAPER_DEMO_MAX_RISK_PER_TRADE_PERCENT_def
  HARD_MAX_DAILY_LOSS_PERCENT_def HARD_MAX_AGGREGATE_OPEN_RISK_PERCENT_def
  HARD_MAX_LEVERAGE_def HARD_MAX_COST_SHARE_OF_R_def HARD_MAX_NOTIONAL_PERCENT_def
  PAPER_DEMO_MAX_NOTIONAL_PERCENT_def

definition risk_ceiling_for :: "policy_kind \<Rightarrow> rat" where
  "risk_ceiling_for k =
     (if kind_value k \<in> set PAPER_DEMO_KINDS then PAPER_DEMO_MAX_RISK_PER_TRADE_PERCENT
      else HARD_MAX_RISK_PER_TRADE_PERCENT)"

definition notional_ceiling_for :: "policy_kind \<Rightarrow> rat" where
  "notional_ceiling_for k =
     (if kind_value k \<in> set PAPER_DEMO_KINDS then PAPER_DEMO_MAX_NOTIONAL_PERCENT
      else HARD_MAX_NOTIONAL_PERCENT)"

section \<open>The profile record and its validation\<close>

record profile =
  p_kind :: policy_kind
  p_risk_percent_by_grade :: "grade \<Rightarrow> rat option"
  p_max_leverage :: rat
  p_daily_loss_limit_percent :: rat
  p_max_aggregate_open_risk_percent :: rat
  p_max_open_positions :: int
  p_max_notional_per_trade_percent :: rat
  p_max_aggregate_notional_percent :: rat
  p_min_stop_atr_multiple :: rat
  p_min_stop_absolute_floor :: rat
  p_max_cost_share_of_r :: rat
  p_drawdown_breaker_percent :: rat
  p_consecutive_loss_limit :: int
  p_consecutive_loss_cooldown_hours :: int
  p_autonomous_internal_paper_enabled :: bool
  p_autonomous_blofin_demo_enabled :: bool
  p_profile_name :: string
  p_default_leverage :: rat
  p_paper_demo_data_collection :: bool

definition risk_percent :: "profile \<Rightarrow> grade \<Rightarrow> rat res" where
  "risk_percent p g =
     (case p_risk_percent_by_grade p g of
        Some x \<Rightarrow> Inr x | None \<Rightarrow> Inl (Rejected ''grade_missing''))"

definition require_percent :: "rat \<Rightarrow> rat \<Rightarrow> rat \<Rightarrow> string \<Rightarrow> bool \<Rightarrow> unit res" where
  "require_percent value lo hi code positive =
     (if hi < value \<or> value < lo then Inl (Rejected code)
      else if positive \<and> value \<le> 0 then Inl (Rejected code)
      else Inr ())"

definition name_char :: "char \<Rightarrow> bool" where
  "name_char c \<longleftrightarrow>
     (let n = of_char c :: int in (97 \<le> n \<and> n \<le> 122) \<or> (48 \<le> n \<and> n \<le> 57) \<or> n = 95)"

definition profile_name_ok :: "string \<Rightarrow> string res" where
  "profile_name_ok value =
     (if 64 < length value then Inl (Rejected ''profile_name_invalid'')
      else if value \<noteq> [] \<and> \<not> list_all name_char value then Inl (Rejected ''profile_name_invalid'')
      else Inr value)"

text \<open>The loop over the tradable grades reads the map, which the test before it made total.\<close>

fun require_grades :: "profile \<Rightarrow> rat \<Rightarrow> grade list \<Rightarrow> unit res" where
  "require_grades p hi [] = Inr ()"
| "require_grades p hi (g # gs) =
     res_bind (risk_percent p g) (\<lambda>x.
     res_bind (require_percent x 0 hi ''risk_per_trade_exceeds_ceiling'' True) (\<lambda>_.
     require_grades p hi gs))"

definition validate_profile :: "profile \<Rightarrow> unit res" where
  "validate_profile p =
     (if \<not> list_all (\<lambda>g. p_risk_percent_by_grade p g \<noteq> None) GRADE_ORDER
      then Inl (Rejected ''grade_map_invalid'') else
      res_bind (require_grades p (risk_ceiling_for (p_kind p)) TRADABLE_GRADES) (\<lambda>_.
      if p_risk_percent_by_grade p C \<noteq> Some 0 then Inl (Rejected ''c_grade_must_not_trade'') else
      res_bind (require_percent (p_max_leverage p) 1 HARD_MAX_LEVERAGE
                  ''leverage_exceeds_ceiling'' True) (\<lambda>_.
      res_bind (require_percent (p_daily_loss_limit_percent p) 0 HARD_MAX_DAILY_LOSS_PERCENT
                  ''daily_loss_exceeds_ceiling'' True) (\<lambda>_.
      res_bind (require_percent (p_max_aggregate_open_risk_percent p) 0
                  HARD_MAX_AGGREGATE_OPEN_RISK_PERCENT
                  ''aggregate_open_risk_exceeds_ceiling'' True) (\<lambda>_.
      if p_max_open_positions p < 1 \<or> 100 < p_max_open_positions p
      then Inl (Rejected ''max_open_positions_invalid'') else
      res_bind (require_percent (p_max_notional_per_trade_percent p) 0
                  (notional_ceiling_for (p_kind p)) ''notional_per_trade_invalid'' True) (\<lambda>_.
      res_bind (require_percent (p_max_aggregate_notional_percent p) 0
                  (notional_ceiling_for (p_kind p)) ''aggregate_notional_invalid'' True) (\<lambda>_.
      if p_max_aggregate_notional_percent p \<le> p_max_notional_per_trade_percent p
      then Inl (Rejected ''symbol_cap_not_independent_of_notional'') else
      res_bind (require_percent (p_min_stop_atr_multiple p) 0 100
                  ''min_stop_multiple_invalid'' True) (\<lambda>_.
      res_bind (require_percent (p_min_stop_absolute_floor p) 0 1
                  ''min_stop_floor_invalid'' True) (\<lambda>_.
      res_bind (require_percent (p_max_cost_share_of_r p) 0 HARD_MAX_COST_SHARE_OF_R
                  ''cost_share_exceeds_ceiling'' True) (\<lambda>_.
      res_bind (require_percent (p_drawdown_breaker_percent p) 0 100
                  ''drawdown_breaker_invalid'' True) (\<lambda>_.
      if p_consecutive_loss_limit p < 1 \<or> 20 < p_consecutive_loss_limit p
      then Inl (Rejected ''consecutive_loss_limit_invalid'') else
      if p_consecutive_loss_cooldown_hours p < 1 \<or> 168 < p_consecutive_loss_cooldown_hours p
      then Inl (Rejected ''consecutive_loss_cooldown_invalid'') else
      if p_autonomous_internal_paper_enabled p \<or> p_autonomous_blofin_demo_enabled p
      then Inl (Rejected ''autonomous_flags_must_stay_off'') else
      res_bind (profile_name_ok (p_profile_name p)) (\<lambda>_.
      if p_default_leverage p < 1 \<or> p_max_leverage p < p_default_leverage p
         \<or> HARD_MAX_LEVERAGE < p_default_leverage p
      then Inl (Rejected ''default_leverage_invalid'') else
      if p_paper_demo_data_collection p \<and> kind_value (p_kind p) \<notin> set PAPER_DEMO_KINDS
      then Inl (Rejected ''data_collection_not_paper_or_demo'')
      else Inr ()))))))))))))"

fun placeholder_grades :: "grade \<Rightarrow> rat option" where
  "placeholder_grades C = Some 0"
| "placeholder_grades g = Some 1"

definition placeholder_base :: "policy_kind \<Rightarrow> profile" where
  "placeholder_base k =
     \<lparr>p_kind = k, p_risk_percent_by_grade = placeholder_grades, p_max_leverage = 1,
      p_daily_loss_limit_percent = 1, p_max_aggregate_open_risk_percent = 1,
      p_max_open_positions = 1, p_max_notional_per_trade_percent = 10,
      p_max_aggregate_notional_percent = 25, p_min_stop_atr_multiple = 1,
      p_min_stop_absolute_floor = 1 / 1000, p_max_cost_share_of_r = 20 / 100,
      p_drawdown_breaker_percent = 10, p_consecutive_loss_limit = 4,
      p_consecutive_loss_cooldown_hours = 24, p_autonomous_internal_paper_enabled = False,
      p_autonomous_blofin_demo_enabled = False, p_profile_name = '''', p_default_leverage = 1,
      p_paper_demo_data_collection = False\<rparr>"

definition placeholder_profile :: "policy_kind \<Rightarrow> profile res" where
  "placeholder_profile k =
     res_bind (validate_profile (placeholder_base k)) (\<lambda>_. Inr (placeholder_base k))"

section \<open>The canonical text form\<close>

text \<open>
  A canonical entry is a decimal rendered with eight places, an integer, or text;
  \<open>canonical_cells\<close> is the dictionary display of \<^verbatim>\<open>canonical_profile\<close> in its order.
\<close>

datatype cell = CDec rat | CInt int | CText string

fun cell_text :: "cell \<Rightarrow> string res" where
  "cell_text (CDec x) = fixed8 x"
| "cell_text (CInt i) = Inr (int_text i)"
| "cell_text (CText s) = Inr s"

definition grade_percent :: "profile \<Rightarrow> grade \<Rightarrow> rat" where
  "grade_percent p g = (case p_risk_percent_by_grade p g of Some x \<Rightarrow> x | None \<Rightarrow> 0)"

definition flag_text :: "bool \<Rightarrow> string" where
  "flag_text b = (if b then ''true'' else ''false'')"

definition canonical_cells :: "profile \<Rightarrow> (string \<times> cell) list" where
  "canonical_cells p =
     [(''kind'', CText (kind_value (p_kind p))),
      (''risk_percent_a_plus'', CDec (grade_percent p A_PLUS)),
      (''risk_percent_a'', CDec (grade_percent p A)),
      (''risk_percent_b_plus'', CDec (grade_percent p B_PLUS)),
      (''risk_percent_b'', CDec (grade_percent p B)),
      (''risk_percent_c'', CDec (grade_percent p C)),
      (''max_leverage'', CDec (p_max_leverage p)),
      (''daily_loss_limit_percent'', CDec (p_daily_loss_limit_percent p)),
      (''max_aggregate_open_risk_percent'', CDec (p_max_aggregate_open_risk_percent p)),
      (''max_open_positions'', CInt (p_max_open_positions p)),
      (''max_notional_per_trade_percent'', CDec (p_max_notional_per_trade_percent p)),
      (''max_aggregate_notional_percent'', CDec (p_max_aggregate_notional_percent p)),
      (''min_stop_atr_multiple'', CDec (p_min_stop_atr_multiple p)),
      (''min_stop_absolute_floor'', CDec (p_min_stop_absolute_floor p)),
      (''max_cost_share_of_r'', CDec (p_max_cost_share_of_r p)),
      (''drawdown_breaker_percent'', CDec (p_drawdown_breaker_percent p)),
      (''consecutive_loss_limit'', CInt (p_consecutive_loss_limit p)),
      (''consecutive_loss_cooldown_hours'', CInt (p_consecutive_loss_cooldown_hours p)),
      (''autonomous_internal_paper_enabled'', CText ''false''),
      (''autonomous_blofin_demo_enabled'', CText ''false''),
      (''profile_name'', CText (p_profile_name p)),
      (''default_leverage'', CDec (p_default_leverage p)),
      (''paper_demo_data_collection'', CText (flag_text (p_paper_demo_data_collection p)))]"

definition canonical_profile :: "profile \<Rightarrow> (string \<times> string) list res" where
  "canonical_profile p =
     res_bind (validate_profile p) (\<lambda>_.
     res_map (\<lambda>(k, c). res_bind (cell_text c) (\<lambda>t. Inr (k, t))) (canonical_cells p))"

text \<open>
  \<^verbatim>\<open>profile_from_canonical\<close>: every failure inside its \<^verbatim>\<open>try\<close> block (a missing key, an unknown
  kind, a number that does not parse or is not finite, a bad name) is a \<^verbatim>\<open>KeyError\<close> or a
  \<^verbatim>\<open>ValueError\<close> (\<open>RiskPolicyRejected\<close> derives from the latter), so the block is an option
  computation and \<open>None\<close> becomes \<open>profile_payload_invalid\<close>.
\<close>

definition decimal_of :: "string \<Rightarrow> rat option" where
  "decimal_of s = (case parse_decimal s of Some (Fin x) \<Rightarrow> Some x | _ \<Rightarrow> None)"

definition kind_of_value :: "string \<Rightarrow> policy_kind option" where
  "kind_of_value s =
     find (\<lambda>k. kind_value k = s) [CONSERVATIVE, STANDARD, AGGRESSIVE, INTERNAL_PAPER, DEMO]"

definition get_dec :: "(string \<times> string) list \<Rightarrow> string \<Rightarrow> rat option" where
  "get_dec m k = Option.bind (map_of m k) decimal_of"

definition get_int :: "(string \<times> string) list \<Rightarrow> string \<Rightarrow> int option" where
  "get_int m k = Option.bind (map_of m k) parse_int"

definition get_flag :: "(string \<times> string) list \<Rightarrow> string \<Rightarrow> bool option" where
  "get_flag m k = map_option (\<lambda>t. t = ''true'') (map_of m k)"

definition get_default :: "(string \<times> string) list \<Rightarrow> string \<Rightarrow> string \<Rightarrow> string" where
  "get_default m k d = (case map_of m k of Some t \<Rightarrow> t | None \<Rightarrow> d)"

definition name_option :: "string \<Rightarrow> string option" where
  "name_option s = (case profile_name_ok s of Inr t \<Rightarrow> Some t | Inl _ \<Rightarrow> None)"

fun grades_of :: "rat \<Rightarrow> rat \<Rightarrow> rat \<Rightarrow> rat \<Rightarrow> rat \<Rightarrow> grade \<Rightarrow> rat option" where
  "grades_of ap a bp b c A_PLUS = Some ap"
| "grades_of ap a bp b c A = Some a"
| "grades_of ap a bp b c B_PLUS = Some bp"
| "grades_of ap a bp b c B = Some b"
| "grades_of ap a bp b c C = Some c"

definition read_grades :: "(string \<times> string) list \<Rightarrow> (grade \<Rightarrow> rat option) option" where
  "read_grades m =
     Option.bind (get_dec m ''risk_percent_a_plus'') (\<lambda>ap.
     Option.bind (get_dec m ''risk_percent_a'') (\<lambda>a.
     Option.bind (get_dec m ''risk_percent_b_plus'') (\<lambda>bp.
     Option.bind (get_dec m ''risk_percent_b'') (\<lambda>b.
     Option.bind (get_dec m ''risk_percent_c'') (\<lambda>c.
     Some (grades_of ap a bp b c))))))"

definition read_profile :: "(string \<times> string) list \<Rightarrow> profile option" where
  "read_profile m =
     Option.bind (Option.bind (map_of m ''kind'') kind_of_value) (\<lambda>k.
     Option.bind (read_grades m) (\<lambda>grades.
     Option.bind (get_dec m ''max_leverage'') (\<lambda>lev.
     Option.bind (get_dec m ''daily_loss_limit_percent'') (\<lambda>daily.
     Option.bind (get_dec m ''max_aggregate_open_risk_percent'') (\<lambda>agg.
     Option.bind (get_int m ''max_open_positions'') (\<lambda>pos.
     Option.bind (get_dec m ''max_notional_per_trade_percent'') (\<lambda>not1.
     Option.bind (get_dec m ''max_aggregate_notional_percent'') (\<lambda>not2.
     Option.bind (get_dec m ''min_stop_atr_multiple'') (\<lambda>atr.
     Option.bind (get_dec m ''min_stop_absolute_floor'') (\<lambda>floor.
     Option.bind (get_dec m ''max_cost_share_of_r'') (\<lambda>cost.
     Option.bind (get_dec m ''drawdown_breaker_percent'') (\<lambda>dd.
     Option.bind (get_int m ''consecutive_loss_limit'') (\<lambda>cl.
     Option.bind (parse_int (get_default m ''consecutive_loss_cooldown_hours'' ''24'')) (\<lambda>cool.
     Option.bind (get_flag m ''autonomous_internal_paper_enabled'') (\<lambda>auto1.
     Option.bind (get_flag m ''autonomous_blofin_demo_enabled'') (\<lambda>auto2.
     Option.bind (name_option (get_default m ''profile_name'' '''')) (\<lambda>name.
     Option.bind (decimal_of (get_default m ''default_leverage'' ''1'')) (\<lambda>dlev.
     Some \<lparr>p_kind = k, p_risk_percent_by_grade = grades, p_max_leverage = lev,
           p_daily_loss_limit_percent = daily, p_max_aggregate_open_risk_percent = agg,
           p_max_open_positions = pos, p_max_notional_per_trade_percent = not1,
           p_max_aggregate_notional_percent = not2, p_min_stop_atr_multiple = atr,
           p_min_stop_absolute_floor = floor, p_max_cost_share_of_r = cost,
           p_drawdown_breaker_percent = dd, p_consecutive_loss_limit = cl,
           p_consecutive_loss_cooldown_hours = cool,
           p_autonomous_internal_paper_enabled = auto1, p_autonomous_blofin_demo_enabled = auto2,
           p_profile_name = name, p_default_leverage = dlev,
           p_paper_demo_data_collection =
             (get_default m ''paper_demo_data_collection'' ''false'' = ''true'')\<rparr>))))))))))))))))))"

definition profile_from_canonical :: "(string \<times> string) list \<Rightarrow> profile res" where
  "profile_from_canonical m =
     (case read_profile m of
        None \<Rightarrow> Inl (Rejected ''profile_payload_invalid'')
      | Some p \<Rightarrow> res_bind (validate_profile p) (\<lambda>_. Inr p))"

section \<open>Hash, diff and change classification\<close>

text \<open>
  \<^verbatim>\<open>json.dumps(..., sort_keys=True, separators=(",", ":"))\<close> of a dictionary of strings. The
  canonical keys and values hold no character JSON escapes. The digest
  \<^verbatim>\<open>hashlib.sha256(...).hexdigest()\<close> is the parameter \<open>sha256\<close>.
\<close>

definition json_quote :: "string \<Rightarrow> string" where
  "json_quote s = [CHR 0x22] @ s @ [CHR 0x22]"

fun join :: "string \<Rightarrow> string list \<Rightarrow> string" where
  "join sep [] = []"
| "join sep [x] = x"
| "join sep (x # y # xs) = x @ sep @ join sep (y # xs)"

definition json_text :: "(string \<times> string) list \<Rightarrow> string" where
  "json_text m =
     ''{'' @ join '','' (map (\<lambda>(k, v). json_quote k @ '':'' @ json_quote v) (sort_key fst m)) @ ''}''"

definition profile_hash :: "(string \<Rightarrow> string) \<Rightarrow> profile \<Rightarrow> string res" where
  "profile_hash sha256 p = res_bind (canonical_profile p) (\<lambda>m. Inr (sha256 (json_text m)))"

type_synonym diff = "(string \<times> (string \<times> string)) list"

definition profile_diff :: "profile option \<Rightarrow> profile \<Rightarrow> diff res" where
  "profile_diff previous proposed =
     res_bind (canonical_profile proposed) (\<lambda>current.
     res_bind (case previous of None \<Rightarrow> Inr [] | Some q \<Rightarrow> canonical_profile q) (\<lambda>prior.
     Inr (map (\<lambda>(k, v). (k, (get_default prior k '''', v)))
            (filter (\<lambda>(k, v). get_default prior k '''' \<noteq> v) current))))"

definition LOOSENS_WHEN_INCREASED :: "string list" where
  "LOOSENS_WHEN_INCREASED =
     [''risk_percent_a_plus'', ''risk_percent_a'', ''risk_percent_b_plus'', ''risk_percent_b'',
      ''risk_percent_c'', ''max_leverage'', ''default_leverage'', ''daily_loss_limit_percent'',
      ''max_aggregate_open_risk_percent'', ''max_open_positions'',
      ''max_notional_per_trade_percent'', ''max_aggregate_notional_percent'',
      ''max_cost_share_of_r'', ''drawdown_breaker_percent'', ''consecutive_loss_limit'']"

definition LOOSENS_WHEN_DECREASED :: "string list" where
  "LOOSENS_WHEN_DECREASED =
     [''min_stop_atr_multiple'', ''min_stop_absolute_floor'', ''consecutive_loss_cooldown_hours'']"

definition decimal_text :: "string \<Rightarrow> rat res" where
  "decimal_text s =
     (case decimal_of s of Some x \<Rightarrow> Inr x | None \<Rightarrow> Inl (Rejected ''not_a_number''))"

text \<open>One turn of a classification loop: is the key in the diff, and did it move the given way?\<close>

definition moved :: "(rat \<Rightarrow> rat \<Rightarrow> bool) \<Rightarrow> diff \<Rightarrow> string \<Rightarrow> bool res" where
  "moved gt d k =
     (case map_of d k of None \<Rightarrow> Inr False
      | Some (frm, to) \<Rightarrow>
          res_bind (decimal_text to) (\<lambda>t. res_bind (decimal_text frm) (\<lambda>f. Inr (gt t f))))"

definition collection_loosened :: "diff \<Rightarrow> bool" where
  "collection_loosened d =
     (case map_of d ''paper_demo_data_collection'' of None \<Rightarrow> False
      | Some (frm, to) \<Rightarrow> to = ''true'' \<and> frm \<noteq> ''true'')"

definition classify_change ::
    "profile option \<Rightarrow> profile \<Rightarrow> change_class option \<Rightarrow> change_class res" where
  "classify_change previous proposed unchanged =
     (case previous of
        None \<Rightarrow> res_bind (validate_profile proposed) (\<lambda>_. Inr INITIAL)
      | Some q \<Rightarrow>
          res_bind (profile_diff (Some q) proposed) (\<lambda>d.
          if d = [] then
            (case unchanged of Some c \<Rightarrow> Inr c | None \<Rightarrow> Inl (Rejected ''no_change''))
          else
            res_bind (res_map (moved (>) d) LOOSENS_WHEN_INCREASED) (\<lambda>up.
            res_bind (res_map (moved (<) d) LOOSENS_WHEN_DECREASED) (\<lambda>down.
            if list_ex id up \<or> list_ex id down \<or> collection_loosened d
            then Inr LOOSENING else Inr TIGHTENING))))"

section \<open>Profiles from overrides\<close>

text \<open>
  \<^verbatim>\<open>profile_with(kind, **overrides)\<close>: the overrides are Python objects of any type, here the values
  a caller passes (a float is not among them). A key that is not a field is ignored, as
  \<^verbatim>\<open>data.update\<close> leaves it unread.
\<close>

datatype pyval =
    VNone | VBool bool | VInt int | VDec num | VStr string | VGrades "(string \<times> pyval) list"

definition pv_decimal :: "pyval \<Rightarrow> rat res" where
  "pv_decimal v =
     (case v of VDec (Fin x) \<Rightarrow> Inr x
      | VInt i \<Rightarrow> Inr (of_int i)
      | VStr s \<Rightarrow> decimal_text s
      | _ \<Rightarrow> Inl (Rejected ''not_a_number''))"

definition pv_int :: "pyval \<Rightarrow> string \<Rightarrow> int res" where
  "pv_int v code = (case v of VInt i \<Rightarrow> Inr i | _ \<Rightarrow> Inl (Rejected code))"

definition pv_cooldown :: "pyval \<Rightarrow> int res" where
  "pv_cooldown v =
     (case v of VInt i \<Rightarrow> Inr i
      | VStr s \<Rightarrow> if all_digits s then Inr (digits_val s)
                  else Inl (Rejected ''consecutive_loss_cooldown_invalid'')
      | _ \<Rightarrow> Inl (Rejected ''consecutive_loss_cooldown_invalid''))"

definition pv_flag :: "pyval \<Rightarrow> string \<Rightarrow> bool res" where
  "pv_flag v code = (case v of VBool b \<Rightarrow> Inr b | _ \<Rightarrow> Inl (Rejected code))"

definition pv_name :: "pyval \<Rightarrow> string res" where
  "pv_name v = (case v of VStr s \<Rightarrow> profile_name_ok s | _ \<Rightarrow> Inl (Rejected ''profile_name_invalid''))"

fun pv_grades :: "(string \<times> pyval) list \<Rightarrow> (grade \<Rightarrow> rat option) \<Rightarrow> (grade \<Rightarrow> rat option) res" where
  "pv_grades [] m = Inr m"
| "pv_grades ((k, v) # kvs) m =
     (case find (\<lambda>g. grade_value g = k) GRADE_ORDER of
        None \<Rightarrow> Inl ValueError
      | Some g \<Rightarrow> res_bind (pv_decimal v) (\<lambda>x. pv_grades kvs (m(g := Some x))))"

definition as_mapping :: "profile \<Rightarrow> (string \<times> pyval) list" where
  "as_mapping p =
     [(''risk_percent_by_grade'',
        VGrades (map (\<lambda>g. (grade_value g, VDec (Fin (grade_percent p g)))) GRADE_ORDER)),
      (''max_leverage'', VDec (Fin (p_max_leverage p))),
      (''daily_loss_limit_percent'', VDec (Fin (p_daily_loss_limit_percent p))),
      (''max_aggregate_open_risk_percent'', VDec (Fin (p_max_aggregate_open_risk_percent p))),
      (''max_open_positions'', VInt (p_max_open_positions p)),
      (''max_notional_per_trade_percent'', VDec (Fin (p_max_notional_per_trade_percent p))),
      (''max_aggregate_notional_percent'', VDec (Fin (p_max_aggregate_notional_percent p))),
      (''min_stop_atr_multiple'', VDec (Fin (p_min_stop_atr_multiple p))),
      (''min_stop_absolute_floor'', VDec (Fin (p_min_stop_absolute_floor p))),
      (''max_cost_share_of_r'', VDec (Fin (p_max_cost_share_of_r p))),
      (''drawdown_breaker_percent'', VDec (Fin (p_drawdown_breaker_percent p))),
      (''consecutive_loss_limit'', VInt (p_consecutive_loss_limit p)),
      (''consecutive_loss_cooldown_hours'', VInt (p_consecutive_loss_cooldown_hours p)),
      (''autonomous_internal_paper_enabled'', VBool (p_autonomous_internal_paper_enabled p)),
      (''autonomous_blofin_demo_enabled'', VBool (p_autonomous_blofin_demo_enabled p)),
      (''profile_name'', VStr (p_profile_name p)),
      (''default_leverage'', VDec (Fin (p_default_leverage p))),
      (''paper_demo_data_collection'', VBool (p_paper_demo_data_collection p))]"

definition pv_get :: "(string \<times> pyval) list \<Rightarrow> string \<Rightarrow> pyval" where
  "pv_get data k = (case map_of data k of Some v \<Rightarrow> v | None \<Rightarrow> VNone)"

definition profile_with :: "policy_kind \<Rightarrow> (string \<times> pyval) list \<Rightarrow> profile res" where
  "profile_with k overrides =
     res_bind (placeholder_profile k) (\<lambda>base.
     let data = overrides @ as_mapping base in
     case pv_get data ''risk_percent_by_grade'' of
       VGrades gs \<Rightarrow>
         res_bind (pv_grades gs Map.empty) (\<lambda>grades.
         res_bind (pv_decimal (pv_get data ''max_leverage'')) (\<lambda>lev.
         res_bind (pv_decimal (pv_get data ''daily_loss_limit_percent'')) (\<lambda>daily.
         res_bind (pv_decimal (pv_get data ''max_aggregate_open_risk_percent'')) (\<lambda>agg.
         res_bind (pv_int (pv_get data ''max_open_positions'') ''max_open_positions'') (\<lambda>pos.
         res_bind (pv_decimal (pv_get data ''max_notional_per_trade_percent'')) (\<lambda>not1.
         res_bind (pv_decimal (pv_get data ''max_aggregate_notional_percent'')) (\<lambda>not2.
         res_bind (pv_decimal (pv_get data ''min_stop_atr_multiple'')) (\<lambda>atr.
         res_bind (pv_decimal (pv_get data ''min_stop_absolute_floor'')) (\<lambda>floor.
         res_bind (pv_decimal (pv_get data ''max_cost_share_of_r'')) (\<lambda>cost.
         res_bind (pv_decimal (pv_get data ''drawdown_breaker_percent'')) (\<lambda>dd.
         res_bind (pv_int (pv_get data ''consecutive_loss_limit'') ''consecutive_loss_limit'') (\<lambda>cl.
         res_bind (pv_cooldown (pv_get data ''consecutive_loss_cooldown_hours'')) (\<lambda>cool.
         res_bind (pv_flag (pv_get data ''autonomous_internal_paper_enabled'')
                     ''autonomous_internal_paper_enabled'') (\<lambda>auto1.
         res_bind (pv_flag (pv_get data ''autonomous_blofin_demo_enabled'')
                     ''autonomous_blofin_demo_enabled'') (\<lambda>auto2.
         res_bind (pv_name (pv_get data ''profile_name'')) (\<lambda>name.
         res_bind (pv_decimal (pv_get data ''default_leverage'')) (\<lambda>dlev.
         res_bind (pv_flag (pv_get data ''paper_demo_data_collection'')
                     ''paper_demo_data_collection'') (\<lambda>coll.
         let p = \<lparr>p_kind = k, p_risk_percent_by_grade = grades, p_max_leverage = lev,
                  p_daily_loss_limit_percent = daily, p_max_aggregate_open_risk_percent = agg,
                  p_max_open_positions = pos, p_max_notional_per_trade_percent = not1,
                  p_max_aggregate_notional_percent = not2, p_min_stop_atr_multiple = atr,
                  p_min_stop_absolute_floor = floor, p_max_cost_share_of_r = cost,
                  p_drawdown_breaker_percent = dd, p_consecutive_loss_limit = cl,
                  p_consecutive_loss_cooldown_hours = cool,
                  p_autonomous_internal_paper_enabled = auto1,
                  p_autonomous_blofin_demo_enabled = auto2, p_profile_name = name,
                  p_default_leverage = dlev, p_paper_demo_data_collection = coll\<rparr>
         in res_bind (validate_profile p) (\<lambda>_. Inr p)))))))))))))))))))
     | _ \<Rightarrow> Inl (Rejected ''grade_map_invalid''))"

definition sofien_aggressive_profile :: "policy_kind \<Rightarrow> profile res" where
  "sofien_aggressive_profile k =
     (if k \<noteq> INTERNAL_PAPER \<and> k \<noteq> DEMO
      then Inl (Rejected ''aggressive_profile_is_paper_or_demo_only'')
      else profile_with k
        [(''profile_name'', VStr (if k = INTERNAL_PAPER then ''sofien_aggressive_paper''
                                  else ''sofien_aggressive_demo'')),
         (''risk_percent_by_grade'',
           VGrades [(''A+'', VDec (Fin 5)), (''A'', VDec (Fin 3)), (''B+'', VDec (Fin 2)),
                    (''B'', VDec (Fin 1)), (''C'', VDec (Fin 0))]),
         (''max_leverage'', VDec (Fin 20)),
         (''default_leverage'', VDec (Fin 10)),
         (''daily_loss_limit_percent'', VDec (Fin 6)),
         (''max_aggregate_open_risk_percent'', VDec (Fin 6)),
         (''max_open_positions'', VInt 3),
         (''max_notional_per_trade_percent'', VDec (Fin 1000)),
         (''max_aggregate_notional_percent'', VDec (Fin 2000)),
         (''paper_demo_data_collection'', VBool True)])"

section \<open>What validation accepts\<close>

text \<open>
  The declarative form of the profile rules: every percentage inside its ceiling, every count in
  its range, the autonomous flags off.
\<close>

definition valid_profile :: "profile \<Rightarrow> bool" where
  "valid_profile p \<longleftrightarrow>
     (\<forall>g. p_risk_percent_by_grade p g \<noteq> None)
   \<and> (\<forall>g. g \<noteq> C \<longrightarrow> 0 < grade_percent p g \<and> grade_percent p g \<le> risk_ceiling_for (p_kind p))
   \<and> grade_percent p C = 0
   \<and> (1 \<le> p_max_leverage p \<and> p_max_leverage p \<le> 20)
   \<and> (0 < p_daily_loss_limit_percent p \<and> p_daily_loss_limit_percent p \<le> 6)
   \<and> (0 < p_max_aggregate_open_risk_percent p \<and> p_max_aggregate_open_risk_percent p \<le> 6)
   \<and> (1 \<le> p_max_open_positions p \<and> p_max_open_positions p \<le> 100)
   \<and> (0 < p_max_notional_per_trade_percent p
        \<and> p_max_notional_per_trade_percent p \<le> notional_ceiling_for (p_kind p))
   \<and> (0 < p_max_aggregate_notional_percent p
        \<and> p_max_aggregate_notional_percent p \<le> notional_ceiling_for (p_kind p))
   \<and> p_max_notional_per_trade_percent p < p_max_aggregate_notional_percent p
   \<and> (0 < p_min_stop_atr_multiple p \<and> p_min_stop_atr_multiple p \<le> 100)
   \<and> (0 < p_min_stop_absolute_floor p \<and> p_min_stop_absolute_floor p \<le> 1)
   \<and> (0 < p_max_cost_share_of_r p \<and> p_max_cost_share_of_r p \<le> 25 / 100)
   \<and> (0 < p_drawdown_breaker_percent p \<and> p_drawdown_breaker_percent p \<le> 100)
   \<and> (1 \<le> p_consecutive_loss_limit p \<and> p_consecutive_loss_limit p \<le> 20)
   \<and> (1 \<le> p_consecutive_loss_cooldown_hours p \<and> p_consecutive_loss_cooldown_hours p \<le> 168)
   \<and> (\<not> p_autonomous_internal_paper_enabled p \<and> \<not> p_autonomous_blofin_demo_enabled p)
   \<and> (length (p_profile_name p) \<le> 64 \<and> list_all name_char (p_profile_name p))
   \<and> (1 \<le> p_default_leverage p \<and> p_default_leverage p \<le> p_max_leverage p
        \<and> p_default_leverage p \<le> 20)
   \<and> (p_paper_demo_data_collection p \<longrightarrow> p_kind p = INTERNAL_PAPER \<or> p_kind p = DEMO)"

lemma paper_kind_iff: "kind_value k \<in> set PAPER_DEMO_KINDS \<longleftrightarrow> k = INTERNAL_PAPER \<or> k = DEMO"
  by (cases k) (simp_all add: PAPER_DEMO_KINDS_def)

lemma all_grade_iff: "(\<forall>g. P g) \<longleftrightarrow> P A_PLUS \<and> P A \<and> P B_PLUS \<and> P B \<and> P C"
  by (metis grade.exhaust)

lemma require_percent_Inr [res_simps]:
  "require_percent v 0 hi code True = Inr u \<longleftrightarrow> 0 < v \<and> v \<le> hi"
  "require_percent v 1 hi code True = Inr u \<longleftrightarrow> 1 \<le> v \<and> v \<le> hi"
  by (auto simp: require_percent_def)

lemma risk_percent_Inr [res_simps]: "risk_percent p g = Inr x \<longleftrightarrow> p_risk_percent_by_grade p g = Some x"
  by (simp add: risk_percent_def split: option.splits)

lemma profile_name_ok_Inr [res_simps]:
  "profile_name_ok s = Inr t \<longleftrightarrow> t = s \<and> length s \<le> 64 \<and> list_all name_char s"
  by (auto simp: profile_name_ok_def)

lemma require_grades_Inr:
  "require_grades p hi gs = Inr u \<longleftrightarrow>
     (\<forall>g \<in> set gs. \<exists>x. p_risk_percent_by_grade p g = Some x \<and> 0 < x \<and> x \<le> hi)"
  by (induction gs) (auto simp: res_simps)

lemma valid_grades_iff:
  "list_all (\<lambda>g. p_risk_percent_by_grade p g \<noteq> None) GRADE_ORDER
     \<and> (\<forall>g \<in> set TRADABLE_GRADES. \<exists>x. p_risk_percent_by_grade p g = Some x \<and> 0 < x \<and> x \<le> hi)
     \<and> p_risk_percent_by_grade p C = Some 0 \<and> R
   \<longleftrightarrow> (\<forall>g. p_risk_percent_by_grade p g \<noteq> None)
     \<and> (\<forall>g. g \<noteq> C \<longrightarrow> 0 < grade_percent p g \<and> grade_percent p g \<le> hi)
     \<and> grade_percent p C = 0 \<and> R"
  unfolding all_grade_iff by (auto simp: TRADABLE_GRADES_def GRADE_ORDER_def grade_percent_def)

lemma validate_profile_Inr [res_simps]: "validate_profile p = Inr u \<longleftrightarrow> valid_profile p"
  by (cases u) (simp only: validate_profile_def valid_profile_def res_simps require_grades_Inr
      paper_kind_iff ceiling_defs not_not de_Morgan_disj de_Morgan_conj not_le not_less
      valid_grades_iff imp_conv_disj simp_thms ex_simps)

section \<open>The canonical form round trip\<close>

text \<open>
  The profile the canonical form denotes: every decimal quantised to eight places.
\<close>

lemma raises_risk_percent: "raises is_rejection (risk_percent p g)"
  by (simp add: risk_percent_def split: option.splits)

lemma raises_validate_profile: "raises is_rejection (validate_profile p)"
proof -
  have r: "raises is_rejection (require_percent v lo hi c b)" for v lo hi c b
    by (simp add: require_percent_def)
  have n: "raises is_rejection (profile_name_ok s)" for s by (simp add: profile_name_ok_def)
  have g: "raises is_rejection (require_grades p hi gs)" for hi gs
    by (induction gs) (auto intro!: raises_bind raises_risk_percent r)
  show ?thesis unfolding validate_profile_def by (intro raises_intros r n g; simp)
qed

definition quantised :: "profile \<Rightarrow> profile" where
  "quantised p = p
     \<lparr>p_risk_percent_by_grade := (\<lambda>g. map_option quantum (p_risk_percent_by_grade p g)),
      p_max_leverage := quantum (p_max_leverage p),
      p_daily_loss_limit_percent := quantum (p_daily_loss_limit_percent p),
      p_max_aggregate_open_risk_percent := quantum (p_max_aggregate_open_risk_percent p),
      p_max_notional_per_trade_percent := quantum (p_max_notional_per_trade_percent p),
      p_max_aggregate_notional_percent := quantum (p_max_aggregate_notional_percent p),
      p_min_stop_atr_multiple := quantum (p_min_stop_atr_multiple p),
      p_min_stop_absolute_floor := quantum (p_min_stop_absolute_floor p),
      p_max_cost_share_of_r := quantum (p_max_cost_share_of_r p),
      p_drawdown_breaker_percent := quantum (p_drawdown_breaker_percent p),
      p_default_leverage := quantum (p_default_leverage p)\<rparr>"

fun cell_str :: "cell \<Rightarrow> string" where
  "cell_str (CDec x) = coef8_text (round_half_even (x * 10 ^ 8))"
| "cell_str (CInt i) = int_text i"
| "cell_str (CText s) = s"

fun small_cell :: "cell \<Rightarrow> bool" where
  "small_cell (CDec x) = (0 \<le> x \<and> x \<le> 10 ^ 10)"
| "small_cell (CInt i) = (0 \<le> i)"
| "small_cell (CText s) = True"

lemma cell_text_small: "small_cell c \<Longrightarrow> cell_text c = Inr (cell_str c)"
  by (cases c) (simp_all add: fixed8_value)

lemma risk_ceiling_le: "risk_ceiling_for k \<le> 5"
  by (simp add: risk_ceiling_for_def ceiling_defs)

lemma notional_ceiling_le: "notional_ceiling_for k \<le> 2000"
  by (simp add: notional_ceiling_for_def ceiling_defs)

lemma valid_grade_bounds:
  assumes "valid_profile p"
  shows "0 \<le> grade_percent p g \<and> grade_percent p g \<le> 5"
proof (cases "g = C")
  case False
  then have "0 < grade_percent p g" "grade_percent p g \<le> risk_ceiling_for (p_kind p)"
    using assms unfolding valid_profile_def by blast+
  then show ?thesis using risk_ceiling_le [of "p_kind p"] by linarith
next
  case True
  with assms show ?thesis unfolding valid_profile_def by simp
qed

lemma valid_cells_small:
  assumes "valid_profile p"
  shows "list_all (\<lambda>kc. small_cell (snd kc)) (canonical_cells p)"
proof -
  have g: "0 \<le> grade_percent p g \<and> grade_percent p g \<le> 10 ^ 10" for g
    using valid_grade_bounds [OF assms, of g] by simp
  have "p_max_aggregate_notional_percent p \<le> 2000"
    using assms notional_ceiling_le [of "p_kind p"] unfolding valid_profile_def by linarith
  then show ?thesis using assms g unfolding valid_profile_def
    by (simp add: canonical_cells_def)
qed

lemma res_map_cells:
  assumes "list_all (\<lambda>kc. small_cell (snd kc)) cs"
  shows "res_map (\<lambda>(k, c). res_bind (cell_text c) (\<lambda>t. Inr (k, t))) cs
           = Inr (map (\<lambda>(k, c). (k, cell_str c)) cs)"
  using assms by (induction cs) (auto simp: cell_text_small)

lemma canonical_profile_eq:
  assumes "valid_profile p"
  shows "canonical_profile p = Inr (map (\<lambda>(k, c). (k, cell_str c)) (canonical_cells p))"
proof -
  have "validate_profile p = Inr ()" using assms by (simp add: res_simps)
  then show ?thesis
    by (simp add: canonical_profile_def res_map_cells [OF valid_cells_small [OF assms]])
qed

lemma canonical_profile_valid: "canonical_profile p = Inr m \<Longrightarrow> valid_profile p"
  by (auto simp: canonical_profile_def res_simps)

lemma map_of_cells: "map_of (map (\<lambda>(k, c). (k, cell_str c)) cs) k = map_option cell_str (map_of cs k)"
  by (induction cs) auto

lemma cells_lookup [simp]:
  "map_of (canonical_cells p) ''kind'' = Some (CText (kind_value (p_kind p)))"
  "map_of (canonical_cells p) ''risk_percent_a_plus'' = Some (CDec (grade_percent p A_PLUS))"
  "map_of (canonical_cells p) ''risk_percent_a'' = Some (CDec (grade_percent p A))"
  "map_of (canonical_cells p) ''risk_percent_b_plus'' = Some (CDec (grade_percent p B_PLUS))"
  "map_of (canonical_cells p) ''risk_percent_b'' = Some (CDec (grade_percent p B))"
  "map_of (canonical_cells p) ''risk_percent_c'' = Some (CDec (grade_percent p C))"
  "map_of (canonical_cells p) ''max_leverage'' = Some (CDec (p_max_leverage p))"
  "map_of (canonical_cells p) ''daily_loss_limit_percent'' = Some (CDec (p_daily_loss_limit_percent p))"
  "map_of (canonical_cells p) ''max_aggregate_open_risk_percent''
     = Some (CDec (p_max_aggregate_open_risk_percent p))"
  "map_of (canonical_cells p) ''max_open_positions'' = Some (CInt (p_max_open_positions p))"
  "map_of (canonical_cells p) ''max_notional_per_trade_percent''
     = Some (CDec (p_max_notional_per_trade_percent p))"
  "map_of (canonical_cells p) ''max_aggregate_notional_percent''
     = Some (CDec (p_max_aggregate_notional_percent p))"
  "map_of (canonical_cells p) ''min_stop_atr_multiple'' = Some (CDec (p_min_stop_atr_multiple p))"
  "map_of (canonical_cells p) ''min_stop_absolute_floor'' = Some (CDec (p_min_stop_absolute_floor p))"
  "map_of (canonical_cells p) ''max_cost_share_of_r'' = Some (CDec (p_max_cost_share_of_r p))"
  "map_of (canonical_cells p) ''drawdown_breaker_percent'' = Some (CDec (p_drawdown_breaker_percent p))"
  "map_of (canonical_cells p) ''consecutive_loss_limit'' = Some (CInt (p_consecutive_loss_limit p))"
  "map_of (canonical_cells p) ''consecutive_loss_cooldown_hours''
     = Some (CInt (p_consecutive_loss_cooldown_hours p))"
  "map_of (canonical_cells p) ''autonomous_internal_paper_enabled'' = Some (CText ''false'')"
  "map_of (canonical_cells p) ''autonomous_blofin_demo_enabled'' = Some (CText ''false'')"
  "map_of (canonical_cells p) ''profile_name'' = Some (CText (p_profile_name p))"
  "map_of (canonical_cells p) ''default_leverage'' = Some (CDec (p_default_leverage p))"
  "map_of (canonical_cells p) ''paper_demo_data_collection''
     = Some (CText (flag_text (p_paper_demo_data_collection p)))"
  by (simp_all add: canonical_cells_def)

lemma decimal_of_cell [simp]: "decimal_of (cell_str (CDec x)) = Some (quantum x)"
  by (simp add: decimal_of_def parse_coef8_text quantum_def)

declare cell_str.simps(1) [simp del]

lemma kind_of_value_id [simp]: "kind_of_value (kind_value k) = Some k"
  by (cases k) (simp_all add: kind_of_value_def)

lemma grades_of_quantum:
  assumes "\<forall>g. p_risk_percent_by_grade p g \<noteq> None"
  shows "grades_of (quantum (grade_percent p A_PLUS)) (quantum (grade_percent p A))
           (quantum (grade_percent p B_PLUS)) (quantum (grade_percent p B)) (quantum (grade_percent p C))
       = (\<lambda>g. map_option quantum (p_risk_percent_by_grade p g))"
proof -
  have "p_risk_percent_by_grade p g = Some (grade_percent p g)" for g
    using assms by (simp add: grade_percent_def split: option.splits)
  then have "grades_of (quantum (grade_percent p A_PLUS)) (quantum (grade_percent p A))
           (quantum (grade_percent p B_PLUS)) (quantum (grade_percent p B)) (quantum (grade_percent p C)) g
       = map_option quantum (p_risk_percent_by_grade p g)" for g
    by (cases g) simp_all
  then show ?thesis by blast
qed

lemma read_canonical:
  assumes "valid_profile p"
  shows "read_profile (map (\<lambda>(k, c). (k, cell_str c)) (canonical_cells p)) = Some (quantised p)"
proof -
  have v: "name_option (p_profile_name p) = Some (p_profile_name p)"
    "parse_int (int_text (p_max_open_positions p)) = Some (p_max_open_positions p)"
    "parse_int (int_text (p_consecutive_loss_limit p)) = Some (p_consecutive_loss_limit p)"
    "parse_int (int_text (p_consecutive_loss_cooldown_hours p)) = Some (p_consecutive_loss_cooldown_hours p)"
    "p_autonomous_internal_paper_enabled p = False" "p_autonomous_blofin_demo_enabled p = False"
    "\<forall>g. p_risk_percent_by_grade p g \<noteq> None"
    using assms by (auto simp: valid_profile_def name_option_def parse_int_text profile_name_ok_def)
  show ?thesis unfolding read_profile_def read_grades_def get_dec_def get_int_def get_flag_def
      get_default_def map_of_cells cells_lookup
    by (auto simp: v grades_of_quantum quantised_def flag_text_def intro!: profile.equality)
qed

section \<open>What the classification means\<close>

text \<open>
  A proposed profile is looser than the one in force when, in the stored eight-place numbers, one
  of its limits allows more: a higher percentage, leverage, count or cap, a lower stop floor, a
  shorter cooldown, or data collection switched on.
\<close>

definition looser :: "profile \<Rightarrow> profile \<Rightarrow> bool" where
  "looser q p \<longleftrightarrow>
     (\<exists>g. quantum (grade_percent q g) < quantum (grade_percent p g))
   \<or> quantum (p_max_leverage q) < quantum (p_max_leverage p)
   \<or> quantum (p_default_leverage q) < quantum (p_default_leverage p)
   \<or> quantum (p_daily_loss_limit_percent q) < quantum (p_daily_loss_limit_percent p)
   \<or> quantum (p_max_aggregate_open_risk_percent q) < quantum (p_max_aggregate_open_risk_percent p)
   \<or> p_max_open_positions q < p_max_open_positions p
   \<or> quantum (p_max_notional_per_trade_percent q) < quantum (p_max_notional_per_trade_percent p)
   \<or> quantum (p_max_aggregate_notional_percent q) < quantum (p_max_aggregate_notional_percent p)
   \<or> quantum (p_max_cost_share_of_r q) < quantum (p_max_cost_share_of_r p)
   \<or> quantum (p_drawdown_breaker_percent q) < quantum (p_drawdown_breaker_percent p)
   \<or> p_consecutive_loss_limit q < p_consecutive_loss_limit p
   \<or> quantum (p_min_stop_atr_multiple p) < quantum (p_min_stop_atr_multiple q)
   \<or> quantum (p_min_stop_absolute_floor p) < quantum (p_min_stop_absolute_floor q)
   \<or> p_consecutive_loss_cooldown_hours p < p_consecutive_loss_cooldown_hours q
   \<or> (p_paper_demo_data_collection p \<and> \<not> p_paper_demo_data_collection q)"

fun cell_num :: "cell \<Rightarrow> rat" where
  "cell_num (CDec x) = quantum x"
| "cell_num (CInt i) = of_int i"
| "cell_num (CText s) = 0"

fun numeric_cell :: "cell \<Rightarrow> bool" where
  "numeric_cell (CText s) = False"
| "numeric_cell _ = True"

lemma decimal_text_cell:
  "small_cell c \<Longrightarrow> numeric_cell c \<Longrightarrow> decimal_text (cell_str c) = Inr (cell_num c)"
  by (cases c) (simp_all add: decimal_text_def, simp add: decimal_of_def parse_decimal_int_text)

lemma distinct_cells: "distinct (map fst (canonical_cells p))"
  by (simp add: canonical_cells_def)

lemma map_of_diff:
  assumes "distinct (map fst xs)"
  shows "map_of (map (\<lambda>(k, v). (k, (g k, v))) (filter (\<lambda>(k, v). g k \<noteq> v) xs)) k
       = (case map_of xs k of None \<Rightarrow> None | Some v \<Rightarrow> if g k \<noteq> v then Some (g k, v) else None)"
  using assms
proof (induction xs)
  case (Cons x xs)
  obtain k' v where x: "x = (k', v)" by force
  have "k = k' \<Longrightarrow> map_of xs k = None" using Cons.prems x by (simp add: map_of_eq_None_iff)
  with Cons x show ?case by (auto split: option.splits)
qed simp

definition diff_of :: "profile \<Rightarrow> profile \<Rightarrow> diff" where
  "diff_of q p =
     (let prior = map (\<lambda>(k, c). (k, cell_str c)) (canonical_cells q);
          current = map (\<lambda>(k, c). (k, cell_str c)) (canonical_cells p)
      in map (\<lambda>(k, v). (k, (get_default prior k '''', v)))
           (filter (\<lambda>(k, v). get_default prior k '''' \<noteq> v) current))"

lemma profile_diff_eq:
  "valid_profile q \<Longrightarrow> valid_profile p \<Longrightarrow> profile_diff (Some q) p = Inr (diff_of q p)"
  by (simp add: profile_diff_def canonical_profile_eq diff_of_def Let_def)

lemma diff_of_lookup:
  assumes "map_of (canonical_cells q) k = Some cq" "map_of (canonical_cells p) k = Some cp"
  shows "map_of (diff_of q p) k
       = (if cell_str cq = cell_str cp then None else Some (cell_str cq, cell_str cp))"
proof -
  have "distinct (map fst (map (\<lambda>(k, c). (k, cell_str c)) (canonical_cells p)))"
    using distinct_cells [of p] by (simp add: comp_def case_prod_unfold)
  then show ?thesis
    unfolding diff_of_def Let_def map_of_diff
    by (simp add: map_of_diff map_of_cells assms get_default_def)
qed

lemma moved_diff:
  assumes "map_of (canonical_cells q) k = Some cq" "map_of (canonical_cells p) k = Some cp"
    and "valid_profile q" "valid_profile p" "numeric_cell cq" "numeric_cell cp" "\<And>x. \<not> gt x x"
  shows "moved gt (diff_of q p) k = Inr (gt (cell_num cp) (cell_num cq))"
proof -
  have s: "small_cell cq" "small_cell cp"
    using valid_cells_small assms(1-4) by (force simp: list_all_iff dest: map_of_SomeD)+
  have eq: "cell_str cq = cell_str cp \<Longrightarrow> cell_num cq = cell_num cp"
    using decimal_text_cell [OF s(1) assms(5)] decimal_text_cell [OF s(2) assms(6)] by simp
  show ?thesis
    using eq assms(7) by (auto simp: moved_def diff_of_lookup [OF assms(1,2)]
        decimal_text_cell [OF s(1) assms(5)] decimal_text_cell [OF s(2) assms(6)])
qed

lemma collection_diff:
  "collection_loosened (diff_of q p) \<longleftrightarrow>
     p_paper_demo_data_collection p \<and> \<not> p_paper_demo_data_collection q"
  by (simp add: collection_loosened_def diff_of_lookup flag_text_def)

lemma res_map_moved_up:
  assumes "valid_profile q" "valid_profile p"
  shows "res_map (moved (>) (diff_of q p)) LOOSENS_WHEN_INCREASED
    = Inr (map (\<lambda>k. cell_num (the (map_of (canonical_cells q) k)) < cell_num (the (map_of (canonical_cells p) k)))
        LOOSENS_WHEN_INCREASED)"
  unfolding LOOSENS_WHEN_INCREASED_def
  by (simp add: moved_diff [OF _ _ assms])

lemma res_map_moved_down:
  assumes "valid_profile q" "valid_profile p"
  shows "res_map (moved (<) (diff_of q p)) LOOSENS_WHEN_DECREASED
    = Inr (map (\<lambda>k. cell_num (the (map_of (canonical_cells p) k)) < cell_num (the (map_of (canonical_cells q) k)))
        LOOSENS_WHEN_DECREASED)"
  unfolding LOOSENS_WHEN_DECREASED_def
  by (simp add: moved_diff [OF _ _ assms])

lemma ex_grade_iff: "(\<exists>g. P g) \<longleftrightarrow> P A_PLUS \<or> P A \<or> P B_PLUS \<or> P B \<or> P C"
  using all_grade_iff [of "\<lambda>g. \<not> P g"] by blast

lemma looser_iff:
  "list_ex id (map (\<lambda>k. cell_num (the (map_of (canonical_cells q) k)) < cell_num (the (map_of (canonical_cells p) k)))
        LOOSENS_WHEN_INCREASED)
   \<or> list_ex id (map (\<lambda>k. cell_num (the (map_of (canonical_cells p) k)) < cell_num (the (map_of (canonical_cells q) k)))
        LOOSENS_WHEN_DECREASED)
   \<or> collection_loosened (diff_of q p) \<longleftrightarrow> looser q p"
  unfolding looser_def collection_diff LOOSENS_WHEN_INCREASED_def LOOSENS_WHEN_DECREASED_def ex_grade_iff
  by simp

lemma diff_of_empty:
  "diff_of q p = [] \<longleftrightarrow>
     map (\<lambda>(k, c). (k, cell_str c)) (canonical_cells q) = map (\<lambda>(k, c). (k, cell_str c)) (canonical_cells p)"
    (is "_ \<longleftrightarrow> ?L q = ?L p")
proof
  assume "?L q = ?L p"
  moreover have "get_default (?L p) k [] = v" if "(k, v) \<in> set (?L p)" for k v
    using distinct_cells [of p] that unfolding get_default_def
    by (subst map_of_is_SomeI) (auto simp: comp_def case_prod_unfold)
  ultimately show "diff_of q p = []"
    unfolding diff_of_def Let_def by (simp add: filter_empty_conv case_prod_unfold)
next
  assume "diff_of q p = []"
  then have all: "\<forall>k v. (k, v) \<in> set (?L p) \<longrightarrow> get_default (?L q) k [] = v"
    by (auto simp: diff_of_def Let_def filter_empty_conv)
  have "\<forall>kc \<in> set (canonical_cells p). cell_str (snd kc) = get_default (?L q) (fst kc) []"
    using all by force
  then have "list_all (\<lambda>kc. cell_str (snd kc) = get_default (?L q) (fst kc) []) (canonical_cells p)"
    by (simp add: list_all_iff)
  then have "list_all (\<lambda>x. x) (map2 (\<lambda>kc kd. cell_str (snd kc) = cell_str (snd kd))
      (canonical_cells p) (canonical_cells q))"
    unfolding canonical_cells_def [of p]
    by (simp add: get_default_def map_of_cells) (simp add: canonical_cells_def)
  then show "?L q = ?L p" by (simp add: canonical_cells_def)
qed

lemma classify_change_spec:
  assumes "valid_profile q" "valid_profile p"
  shows "classify_change (Some q) p unchanged =
     (if canonical_profile q = canonical_profile p
      then (case unchanged of Some c \<Rightarrow> Inr c | None \<Rightarrow> Inl (Rejected ''no_change''))
      else if looser q p then Inr LOOSENING else Inr TIGHTENING)"
proof -
  have "diff_of q p = [] \<longleftrightarrow> canonical_profile q = canonical_profile p"
    by (simp add: diff_of_empty canonical_profile_eq assms)
  then show ?thesis
    by (simp add: classify_change_def profile_diff_eq [OF assms] res_map_moved_up [OF assms]
        res_map_moved_down [OF assms] looser_iff)
qed

lemma canonical_eq_quantised:
  assumes "valid_profile q" "valid_profile p" "canonical_profile q = canonical_profile p"
  shows "quantised q = quantised p"
  using assms(3) read_canonical [OF assms(1)] read_canonical [OF assms(2)]
  by (simp add: canonical_profile_eq [OF assms(1)] canonical_profile_eq [OF assms(2)])

lemma quantised_not_looser: "quantised q = quantised p \<Longrightarrow> \<not> looser q p"
proof -
  assume eq: "quantised q = quantised p"
  have g: "quantum (grade_percent q g) = quantum (grade_percent p g)" for g
    using arg_cong [OF eq, of "\<lambda>x. p_risk_percent_by_grade x g"]
    by (auto simp: quantised_def grade_percent_def split: option.splits)
  show ?thesis
    using eq unfolding looser_def g
    by (cases q; cases p) (auto simp: quantised_def)
qed

lemma classify_loosening_iff:
  assumes "valid_profile q" "valid_profile p" "unchanged \<noteq> Some LOOSENING"
    "classify_change (Some q) p unchanged = Inr c"
  shows "c = LOOSENING \<longleftrightarrow> looser q p"
  using assms quantised_not_looser [OF canonical_eq_quantised [OF assms(1,2)]]
  by (auto simp: classify_change_spec split: if_splits option.splits)

section \<open>Storing and reading back\<close>

lemma cell_str_quantum [simp]: "cell_str (CDec (quantum x)) = cell_str (CDec x)"
proof -
  have "of_int n / 10 ^ 8 * 10 ^ 8 = (of_int n :: rat)" for n by simp
  then have "round_half_even (quantum x * 10 ^ 8) = round_half_even (x * 10 ^ 8)"
    unfolding quantum_def by (simp only: round_half_even_of_int)
  then show ?thesis by (simp only: cell_str.simps)
qed

lemma quantum_0 [simp]: "quantum 0 = 0"
  using round_half_even_of_int [of 0] by (simp add: quantum_def)

lemma canonical_quantised:
  assumes "valid_profile p" "valid_profile (quantised p)"
  shows "canonical_profile (quantised p) = canonical_profile p"
proof -
  have g: "grade_percent (quantised p) g = quantum (grade_percent p g)" for g
    by (simp add: quantised_def grade_percent_def split: option.splits)
  have "map (\<lambda>(k, c). (k, cell_str c)) (canonical_cells (quantised p))
      = map (\<lambda>(k, c). (k, cell_str c)) (canonical_cells p)"
    unfolding canonical_cells_def g by (simp add: quantised_def del: cell_str.simps(1))
  then show ?thesis by (simp add: canonical_profile_eq assms)
qed

lemma quantised_placeholder: "quantised (placeholder_base k) = placeholder_base k"
proof -
  have "map_option quantum (placeholder_grades g) = placeholder_grades g" for g
    by (cases g) (simp_all add: quantum_def round_half_even_def)
  then show ?thesis by (simp add: quantised_def placeholder_base_def quantum_def round_half_even_def)
qed

lemma profile_from_canonical_eq:
  assumes "canonical_profile p = Inr m"
  shows "profile_from_canonical m = res_bind (validate_profile (quantised p)) (\<lambda>_. Inr (quantised p))"
  using assms read_canonical [OF canonical_profile_valid [OF assms]]
  by (simp add: canonical_profile_eq [OF canonical_profile_valid [OF assms]] profile_from_canonical_def)

section \<open>Properties\<close>


text \<open>
  C36. Round trip of the stored form. Reading the canonical text of a profile gives back the profile
  with its decimals rounded half-even to the eight stored places, when those still pass validation;
  and printing what was read gives the same text, so hash and diff of a stored profile are stable.
\<close>

theorem canonical_round_trip:
  assumes "canonical_profile p = Inr m"
  shows "profile_from_canonical m = res_bind (validate_profile (quantised p)) (\<lambda>_. Inr (quantised p))
    \<and> (\<forall>q. profile_from_canonical m = Inr q \<longrightarrow> q = quantised p \<and> canonical_profile q = Inr m)"
proof -
  have v: "valid_profile p" by (rule canonical_profile_valid [OF assms])
  show ?thesis
    using canonical_quantised [OF v] assms
    by (auto simp: profile_from_canonical_eq [OF assms] res_simps)
qed

theorem canonical_round_trip_witness:
  "\<exists>m. canonical_profile (placeholder_base DEMO) = Inr m
     \<and> profile_from_canonical m = Inr (quantised (placeholder_base DEMO))"
proof -
  have v: "validate_profile (placeholder_base DEMO) = Inr ()" by code_simp
  obtain m where m: "canonical_profile (placeholder_base DEMO) = Inr m"
    using canonical_profile_eq [OF v [unfolded validate_profile_Inr]] by blast
  have "profile_from_canonical m = Inr (quantised (placeholder_base DEMO))"
    using conjunct1 [OF canonical_round_trip [OF m]] by (simp only: quantised_placeholder v res_bind_Inr)
  with m show ?thesis by blast
qed

text \<open>
  The stored precision is coarser than the validation: there is a profile that \<open>validate_profile\<close>
  accepts and \<open>canonical_profile\<close> prints, whose printed form \<open>profile_from_canonical\<close> refuses, because a
  stop floor below half a quantum is stored as zero.
\<close>

theorem canonical_loses_small_floor:
  "let p = (placeholder_base DEMO)\<lparr>p_min_stop_absolute_floor := 1 / 10 ^ 9\<rparr>
   in validate_profile p = Inr ()
      \<and> (\<exists>m. canonical_profile p = Inr m
           \<and> profile_from_canonical m = Inl (Rejected ''min_stop_floor_invalid''))"
proof -
  let ?p = "(placeholder_base DEMO)\<lparr>p_min_stop_absolute_floor := 1 / 10 ^ 9\<rparr>"
  have q: "quantised ?p = (placeholder_base DEMO)\<lparr>p_min_stop_absolute_floor := 0\<rparr>"
  proof -
    have "quantised ?p = (quantised (placeholder_base DEMO))\<lparr>p_min_stop_absolute_floor := quantum (1 / 10 ^ 9)\<rparr>"
      by (simp add: quantised_def)
    moreover have "quantum (1 / 10 ^ 9) = 0" by code_simp
    ultimately show ?thesis by (simp only: quantised_placeholder)
  qed
  have v: "validate_profile ?p = Inr ()"
    "validate_profile (quantised ?p) = Inl (Rejected ''min_stop_floor_invalid'')"
    unfolding q by code_simp+
  obtain m where m: "canonical_profile ?p = Inr m"
    using canonical_profile_eq [OF v(1) [unfolded validate_profile_Inr]] by blast
  then show ?thesis using v profile_from_canonical_eq [OF m] by (simp add: Let_def)
qed

text \<open>
  Classification of a change between two valid profiles: no difference in the stored text gives
  the caller's answer for an unchanged profile or the refusal \<open>no_change\<close>; otherwise the change is a
  loosening exactly when some stored limit allows more, and a tightening when none does. The same
  profile is never a loosening of itself.
\<close>

theorem classify_change_meaning:
  assumes "valid_profile q" "valid_profile p"
  shows "classify_change (Some q) p unchanged =
     (if canonical_profile q = canonical_profile p
      then (case unchanged of Some c \<Rightarrow> Inr c | None \<Rightarrow> Inl (Rejected ''no_change''))
      else Inr (if looser q p then LOOSENING else TIGHTENING))
    \<and> (canonical_profile q = canonical_profile p \<longrightarrow> \<not> looser q p)"
  using classify_change_spec [OF assms] quantised_not_looser [OF canonical_eq_quantised [OF assms]]
  by auto

theorem classify_change_meaning_witness:
  "classify_change (Some (placeholder_base DEMO)) (placeholder_base DEMO) None
     = Inl (Rejected ''no_change'')"
proof -
  have "validate_profile (placeholder_base DEMO) = Inr ()" by code_simp
  then have "valid_profile (placeholder_base DEMO)" by (simp only: validate_profile_Inr)
  from classify_change_meaning [OF this this, of None] show ?thesis by simp
qed

lemma need_grades_eq_Inr:
  "(case v of VGrades gs \<Rightarrow> f gs | _ \<Rightarrow> Inl e) = Inr p \<longleftrightarrow> (\<exists>gs. v = VGrades gs \<and> f gs = Inr p)"
  by (cases v) auto

text \<open>
  Whatever overrides a caller passes, \<open>profile_with\<close> returns only valid profiles of the requested
  kind, and the aggressive paper profile exists for the paper and demo kinds and for no other.
\<close>

theorem profile_with_valid:
  "(case profile_with k overrides of Inr p \<Rightarrow> valid_profile p \<and> p_kind p = k | Inl e \<Rightarrow> True)
   \<and> (\<exists>p. sofien_aggressive_profile INTERNAL_PAPER = Inr p \<and> p_max_leverage p = 20)
   \<and> (\<exists>p. sofien_aggressive_profile DEMO = Inr p \<and> p_default_leverage p = 10)
   \<and> list_all (\<lambda>j. sofien_aggressive_profile j = Inl (Rejected ''aggressive_profile_is_paper_or_demo_only''))
       [CONSERVATIVE, STANDARD, AGGRESSIVE]"
proof (intro conjI)
  have "valid_profile p \<and> p_kind p = k" if "profile_with k overrides = Inr p" for p
    using that unfolding profile_with_def Let_def
    by (simp only: res_bind_eq_Inr need_grades_eq_Inr validate_profile_Inr sum.inject)
       (elim exE conjE, auto)
  then show "case profile_with k overrides of Inr p \<Rightarrow> valid_profile p \<and> p_kind p = k | Inl e \<Rightarrow> True"
    by (auto split: sum.splits)
  have "case sofien_aggressive_profile INTERNAL_PAPER of Inr p \<Rightarrow> p_max_leverage p = 20 | _ \<Rightarrow> False"
    "case sofien_aggressive_profile DEMO of Inr p \<Rightarrow> p_default_leverage p = 10 | _ \<Rightarrow> False"
    by code_simp+
  then show "\<exists>p. sofien_aggressive_profile INTERNAL_PAPER = Inr p \<and> p_max_leverage p = 20"
    "\<exists>p. sofien_aggressive_profile DEMO = Inr p \<and> p_default_leverage p = 10"
    by (auto split: sum.splits)
qed (simp add: sofien_aggressive_profile_def)

end
