(* ===== verification/Grading.thy ===== *)
theory Grading
  imports Profile
begin

text \<open>
  From a setup to the risk percent it may use: the two scores of \<^verbatim>\<open>analysis/confidence.py\<close> the
  policy reads, the deterministic grader with its first-bind rule (\<^verbatim>\<open>risk_policy/grader.py\<close>), the
  risk adjusters (\<^verbatim>\<open>risk_policy/adjusters.py\<close>) and the promotion gate with the calibration report
  behind it (\<^verbatim>\<open>risk_policy/calibration.py\<close>).

  The scores are the binary floats 0.0, 0.5 and 1.0, which are exact rationals, and the grader
  turns each into the equal Decimal. The indicators are finite floats, compared with constants.
\<close>

section \<open>Scores\<close>

record market_structure =
  ms_trend :: string

record indicators =
  ind_rsi :: "rat option"
  ind_macd_hist :: "rat option"
  ind_atr :: "rat option"

definition trend_alignment :: "string option \<Rightarrow> market_structure \<Rightarrow> rat" where
  "trend_alignment direction s =
     (if direction = None then 0
      else if direction = Some ''long'' \<and> ms_trend s = ''uptrend'' then 1
      else if direction = Some ''short'' \<and> ms_trend s = ''downtrend'' then 1
      else if ms_trend s = ''range'' then 1 / 2
      else 0)"

definition momentum :: "string option \<Rightarrow> indicators \<Rightarrow> rat" where
  "momentum direction i =
     (case (direction, ind_rsi i) of
        (Some d, Some rsi) \<Rightarrow>
          if d = ''long'' then
            (if 50 \<le> rsi then 1 / 2 else 0)
            + (case ind_macd_hist i of Some h \<Rightarrow> if 0 < h then 1 / 2 else 0 | None \<Rightarrow> 0)
          else
            (if rsi \<le> 50 then 1 / 2 else 0)
            + (case ind_macd_hist i of Some h \<Rightarrow> if h < 0 then 1 / 2 else 0 | None \<Rightarrow> 0)
      | _ \<Rightarrow> 0)"

section \<open>Grader\<close>

definition GRADER_VERSION :: string where
  "GRADER_VERSION = ''deterministic-grade/v1''"

definition grade_table :: "((rat \<times> rat) \<times> grade) list" where
  "grade_table =
     [((1, 1), A_PLUS), ((1, 1/2), A), ((1/2, 1), A), ((1, 0), B_PLUS), ((1/2, 1/2), B_PLUS),
      ((0, 1), B), ((1/2, 0), B), ((0, 1/2), B), ((0, 0), C)]"

record grade_decision =
  gd_grade :: "grade option"
  gd_grader_version :: string
  gd_trend_score :: "rat option"
  gd_momentum_score :: "rat option"
  gd_refusal :: "string option"

definition tradable :: "grade_decision \<Rightarrow> bool" where
  "tradable d \<longleftrightarrow> gd_grade d \<noteq> None \<and> gd_grade d \<noteq> Some C \<and> gd_refusal d = None"

definition ungraded :: "rat option \<Rightarrow> rat option \<Rightarrow> grade_decision" where
  "ungraded t m =
     \<lparr>gd_grade = None, gd_grader_version = GRADER_VERSION, gd_trend_score = t,
      gd_momentum_score = m, gd_refusal = Some ''ungraded''\<rparr>"

definition grade_setup :: "string option \<Rightarrow> market_structure \<Rightarrow> indicators \<Rightarrow> grade_decision" where
  "grade_setup direction structure inds =
     (if direction \<noteq> Some ''long'' \<and> direction \<noteq> Some ''short'' then ungraded None None
      else let trend = trend_alignment direction structure; mom = momentum direction inds
           in case map_of grade_table (trend, mom) of
                None \<Rightarrow> ungraded (Some trend) (Some mom)
              | Some g \<Rightarrow>
                  \<lparr>gd_grade = Some g, gd_grader_version = GRADER_VERSION,
                   gd_trend_score = Some trend, gd_momentum_score = Some mom, gd_refusal = None\<rparr>)"

definition bind_first_grade :: "grade_decision option \<Rightarrow> grade_decision \<Rightarrow> grade_decision" where
  "bind_first_grade existing proposed = (case existing of Some d \<Rightarrow> d | None \<Rightarrow> proposed)"

fun grade_rank :: "grade \<Rightarrow> nat" where
  "grade_rank A_PLUS = 0" | "grade_rank A = 1" | "grade_rank B_PLUS = 2" | "grade_rank B = 3"
| "grade_rank C = 4"

definition apply_ai_grade :: "grade \<Rightarrow> grade \<Rightarrow> string \<Rightarrow> grade \<times> string" where
  "apply_ai_grade bound suggested explanation =
     (if grade_rank suggested < grade_rank bound then (bound, explanation) else (bound, explanation))"

text \<open>\<open>GradeBook\<close>: the in-memory first-bind store, a dictionary from setup id to decision.\<close>

type_synonym grade_book = "string \<Rightarrow> grade_decision option"

definition book_bind :: "grade_book \<Rightarrow> string \<Rightarrow> grade_decision \<Rightarrow> (grade_decision \<times> grade_book) res" where
  "book_bind b setup_id decision =
     (if setup_id = '''' then Inl (Rejected ''setup_id_missing'')
      else case b setup_id of
             Some d \<Rightarrow> Inr (d, b)
           | None \<Rightarrow> Inr (decision, b(setup_id \<mapsto> decision)))"

definition book_get :: "grade_book \<Rightarrow> string \<Rightarrow> grade_decision option" where
  "book_get b setup_id = b setup_id"

section \<open>Adjusters\<close>

definition volatility_table :: "(string \<times> rat) list" where
  "volatility_table =
     [(''low'', 1), (''normal'', 1), (''high'', 5 / 10), (''extreme'', 25 / 100)]"

definition MISALIGNED :: rat where "MISALIGNED = 5 / 10"

record adjuster_inputs =
  ai_volatility_regime :: "string option"
  ai_trend_aligned :: "bool option"
  ai_momentum_aligned :: "bool option"

record adjuster_result =
  ar_adjusted_risk_percent :: rat
  ar_volatility_multiplier :: rat
  ar_trend_multiplier :: rat
  ar_momentum_multiplier :: rat
  ar_product :: rat

definition apply_adjusters :: "num \<Rightarrow> adjuster_inputs \<Rightarrow> adjuster_result res" where
  "apply_adjusters risk inputs =
     (case (ai_volatility_regime inputs, ai_trend_aligned inputs, ai_momentum_aligned inputs) of
        (Some regime, Some trend_aligned, Some momentum_aligned) \<Rightarrow>
          (case risk of
             NonFinite \<Rightarrow> Inl (Rejected ''adjuster_input_invalid'')
           | Fin r \<Rightarrow>
               if r < 0 then Inl (Rejected ''adjuster_input_invalid'') else
               case map_of volatility_table regime of
                 None \<Rightarrow> Inl (Rejected ''adjuster_input_invalid'')
               | Some vol \<Rightarrow>
                   let trend = (if trend_aligned then 1 else MISALIGNED);
                       mom = (if momentum_aligned then 1 else MISALIGNED)
                   in if list_ex (\<lambda>f. 1 < f) [vol, trend, mom]
                      then Inl (Rejected ''adjuster_would_increase_risk'') else
                      let prod = dmul (dmul vol trend) mom
                      in if 1 < prod then Inl (Rejected ''adjuster_would_increase_risk'')
                         else Inr \<lparr>ar_adjusted_risk_percent = dmul r prod,
                                   ar_volatility_multiplier = vol, ar_trend_multiplier = trend,
                                   ar_momentum_multiplier = mom, ar_product = prod\<rparr>)
      | _ \<Rightarrow> Inl (Rejected ''adjuster_input_missing''))"

section \<open>Calibration and promotion\<close>

definition MIN_TRADES :: nat where "MIN_TRADES = 100"
definition PLACEHOLDER_RISK_PERCENT :: rat where "PLACEHOLDER_RISK_PERCENT = 1"
definition Z_90 :: rat where "Z_90 = 16448536269514722 / 10 ^ 16"

record calibration_sample =
  cs_grade :: grade
  cs_grader_version :: string
  cs_r_multiple :: rat
  cs_in_sample :: bool
  cs_walk_forward_fold :: int
  cs_slippage_r :: rat

record grade_calibration =
  gc_grade :: grade
  gc_trades :: nat
  gc_expectancy :: "rat option"
  gc_lower_90_bound :: "rat option"
  gc_haircut_expectancy :: "rat option"
  gc_haircut_lower_90_bound :: "rat option"

record promotion_report =
  rep_grader_version :: string
  rep_grades :: "grade_calibration list"
  rep_ordered :: bool
  rep_walk_forward_ok :: bool
  rep_eligible :: bool
  rep_auto_demotion :: "grade list"
  rep_promotion_applied :: bool

definition mean :: "rat list \<Rightarrow> rat option" where
  "mean values = (if values = [] then None else Some (ddiv (dsum 0 values) (of_nat (length values))))"

text \<open>
  The lower bound takes the square root of the variance through a binary float and the square root
  of the count in Decimal; both roots are parameters (\<open>fsqrt\<close> for
  \<^verbatim>\<open>Decimal(str(math.sqrt(float(v))))\<close>, \<open>dsqrt\<close> for \<^verbatim>\<open>Decimal(n).sqrt()\<close>). Squaring is the
  module's integer power, which rounds once at 31 digits and once at 28.
\<close>

definition dsquare :: "rat \<Rightarrow> rat" where
  "dsquare x = dround 28 (dround 31 (x * x))"

definition lower_bound :: "(rat \<Rightarrow> rat) \<Rightarrow> (nat \<Rightarrow> rat) \<Rightarrow> rat list \<Rightarrow> rat option" where
  "lower_bound fsqrt dsqrt values =
     (if length values < 2 then None
      else case mean values of
             None \<Rightarrow> None
           | Some m \<Rightarrow>
               let variance = ddiv (dsum 0 (map (\<lambda>v. dsquare (dsub v m)) values))
                                (of_nat (length values - 1))
               in if variance < 0 then None
                  else if variance = 0 then Some m
                  else Some (dsub m (ddiv (dmul Z_90 (fsqrt variance)) (dsqrt (length values)))))"

definition grade_stats ::
    "(rat \<Rightarrow> rat) \<Rightarrow> (nat \<Rightarrow> rat) \<Rightarrow> grade \<Rightarrow> calibration_sample list \<Rightarrow> grade_calibration" where
  "grade_stats fsqrt dsqrt g samples =
     (let raw = map cs_r_multiple samples;
          haircut = map (\<lambda>s. dsub (cs_r_multiple s) (cs_slippage_r s)) samples
      in \<lparr>gc_grade = g, gc_trades = length samples, gc_expectancy = mean raw,
          gc_lower_90_bound = lower_bound fsqrt dsqrt raw, gc_haircut_expectancy = mean haircut,
          gc_haircut_lower_90_bound = lower_bound fsqrt dsqrt haircut\<rparr>)"

fun strictly_falling :: "rat list \<Rightarrow> bool" where
  "strictly_falling (x # y # xs) = (y < x \<and> strictly_falling (y # xs))"
| "strictly_falling _ = True"

fun those_values :: "'a option list \<Rightarrow> 'a list option" where
  "those_values [] = Some []"
| "those_values (None # xs) = None"
| "those_values (Some x # xs) = map_option ((#) x) (those_values xs)"

definition ordered_stats :: "bool \<Rightarrow> grade_calibration list \<Rightarrow> bool" where
  "ordered_stats haircut stats =
     (case those_values (map (if haircut then gc_haircut_expectancy else gc_expectancy) stats) of
        None \<Rightarrow> False
      | Some xs \<Rightarrow> strictly_falling xs)"

definition walk_forward :: "(grade \<Rightarrow> calibration_sample list) \<Rightarrow> bool" where
  "walk_forward by_grade =
     (let folds = remdups (map cs_walk_forward_fold (concat (map by_grade TRADABLE_GRADES)))
      in if length folds < 2 then False
         else list_all (\<lambda>fold. list_all (\<lambda>g.
                case mean (map cs_r_multiple (filter (\<lambda>s. cs_walk_forward_fold s = fold) (by_grade g))) of
                  None \<Rightarrow> False | Some m \<Rightarrow> 0 < m) [A_PLUS, A]) folds)"

definition demotions :: "bool \<Rightarrow> grade_calibration list \<Rightarrow> grade list" where
  "demotions ordered stats =
     map gc_grade (filter (\<lambda>i. MIN_TRADES \<le> gc_trades i \<and>
        ((case gc_haircut_lower_90_bound i of None \<Rightarrow> True | Some b \<Rightarrow> b \<le> 0) \<or> \<not> ordered)) stats)"

definition bounds_ok :: "grade_calibration list \<Rightarrow> bool" where
  "bounds_ok stats \<longleftrightarrow>
     list_all (\<lambda>i. (case (gc_lower_90_bound i, gc_haircut_lower_90_bound i) of
                      (Some b, Some h) \<Rightarrow> 0 < b \<and> 0 < h | _ \<Rightarrow> False))
       (filter (\<lambda>i. gc_grade i \<in> {A_PLUS, A}) stats)
     \<and> list_all (\<lambda>i. MIN_TRADES \<le> gc_trades i) (filter (\<lambda>i. gc_grade i \<in> {A_PLUS, A}) stats)"

definition promotion_report ::
    "(rat \<Rightarrow> rat) \<Rightarrow> (nat \<Rightarrow> rat) \<Rightarrow> calibration_sample list \<Rightarrow> string \<Rightarrow> promotion_report" where
  "promotion_report fsqrt dsqrt samples version =
     (let usable = filter (\<lambda>s. cs_grader_version s = version \<and> \<not> cs_in_sample s) samples;
          by_grade = (\<lambda>g. filter (\<lambda>s. cs_grade s = g) usable);
          stats = map (\<lambda>g. grade_stats fsqrt dsqrt g (by_grade g)) TRADABLE_GRADES;
          ordered = ordered_stats False stats;
          walk_ok = walk_forward by_grade;
          counts_ok = list_all (\<lambda>i. MIN_TRADES \<le> gc_trades i) stats;
          haircut_ordered = ordered_stats True stats
      in \<lparr>rep_grader_version = version, rep_grades = stats,
          rep_ordered = (ordered \<and> haircut_ordered), rep_walk_forward_ok = walk_ok,
          rep_eligible = (counts_ok \<and> ordered \<and> haircut_ordered \<and> walk_ok \<and> bounds_ok stats),
          rep_auto_demotion = demotions (ordered \<and> haircut_ordered) stats,
          rep_promotion_applied = False\<rparr>)"

definition assert_promotion_allows :: "profile \<Rightarrow> promotion_report option \<Rightarrow> unit res" where
  "assert_promotion_allows p report =
     res_bind (res_map (risk_percent p) TRADABLE_GRADES) (\<lambda>risks.
     if \<not> list_ex (\<lambda>r. PLACEHOLDER_RISK_PERCENT < r) risks then Inr ()
     else if p_paper_demo_data_collection p \<and> kind_value (p_kind p) \<in> set PAPER_DEMO_KINDS then Inr ()
     else case report of
            None \<Rightarrow> Inl (Rejected ''grade_above_one_percent_requires_promotion'')
          | Some r \<Rightarrow>
              if rep_grader_version r \<noteq> GRADER_VERSION \<or> \<not> rep_eligible r \<or> \<not> rep_ordered r
                 \<or> \<not> rep_walk_forward_ok r \<or> rep_promotion_applied r
              then Inl (Rejected ''grade_above_one_percent_requires_promotion'')
              else Inr ())"

definition promote :: "unit res" where
  "promote = Inl (Rejected ''promotion_is_manual'')"

section \<open>The first-bind contract\<close>

text \<open>
  A store in which the first value bound to a key stays, whatever steps the store takes in between.
  \<open>bound s k v r s'\<close> is a bind of \<open>v\<close> to \<open>k\<close> that returns \<open>r\<close>. The in-memory \<open>GradeBook\<close> provides the
  contract here, the grade table of the database provides it again in the policy store.
\<close>

locale first_bind_store =
  fixes bound :: "'s \<Rightarrow> 'k \<Rightarrow> 'v \<Rightarrow> 'v \<Rightarrow> 's \<Rightarrow> bool" and get :: "'s \<Rightarrow> 'k \<Rightarrow> 'v option"
    and step :: "'s \<Rightarrow> 's \<Rightarrow> bool"
  assumes bound_get: "bound s k v r s' \<Longrightarrow> get s' k = Some r"
    and bound_keeps: "bound s k v r s' \<Longrightarrow> get s k = Some x \<Longrightarrow> r = x"
    and step_keeps: "step s s' \<Longrightarrow> get s j = Some x \<Longrightarrow> get s' j = Some x"
begin

lemma steps_keep: "step\<^sup>*\<^sup>* s s' \<Longrightarrow> get s j = Some x \<Longrightarrow> get s' j = Some x"
  by (induction rule: rtranclp_induct) (use step_keeps in blast)+

lemma rebind: "bound s k v r s' \<Longrightarrow> step\<^sup>*\<^sup>* s' t \<Longrightarrow> bound t k w r' t' \<Longrightarrow> r' = r"
  by (drule bound_get, drule (1) steps_keep, drule (2) bound_keeps)

end

interpretation grade_book: first_bind_store
  "\<lambda>b k v r b'. book_bind b k v = Inr (r, b')" book_get "\<lambda>b b'. \<exists>k v r. book_bind b k v = Inr (r, b')"
  by unfold_locales (auto simp: book_bind_def book_get_def split: if_splits option.splits)

section \<open>Scores and grades\<close>

lemma trend_alignment_range: "trend_alignment d s \<in> {0, 1 / 2, 1}"
  by (simp add: trend_alignment_def)

lemma momentum_range: "momentum d i \<in> {0, 1 / 2, 1}"
  by (auto simp: momentum_def split: option.splits)

lemma grade_table_total: "t \<in> {0, 1 / 2, 1} \<Longrightarrow> m \<in> {0, 1 / 2, 1} \<Longrightarrow> \<exists>g. map_of grade_table (t, m) = Some g"
  by (auto simp: grade_table_def)

lemma grade_table_mono:
  assumes "map_of grade_table (t, m) = Some g" "map_of grade_table (t', m') = Some g'" "t \<le> t'" "m \<le> m'"
  shows "grade_rank g' \<le> grade_rank g"
  using assms unfolding grade_table_def by (auto split: if_splits)

lemma grade_setup_graded:
  assumes "direction = Some ''long'' \<or> direction = Some ''short''"
  obtains g where "map_of grade_table (trend_alignment direction s, momentum direction i) = Some g"
    "grade_setup direction s i =
       \<lparr>gd_grade = Some g, gd_grader_version = GRADER_VERSION,
        gd_trend_score = Some (trend_alignment direction s),
        gd_momentum_score = Some (momentum direction i), gd_refusal = None\<rparr>"
proof -
  obtain g where "map_of grade_table (trend_alignment direction s, momentum direction i) = Some g"
    using grade_table_total [OF trend_alignment_range momentum_range] by blast
  then show ?thesis using assms by (intro that [of g]) (auto simp: grade_setup_def Let_def)
qed

section \<open>Adjusters and promotion\<close>

lemma volatility_le_1: "map_of volatility_table r = Some v \<Longrightarrow> 0 < v \<and> v \<le> 1"
  by (auto simp: volatility_table_def split: if_splits)

lemma apply_adjusters_Inr:
  assumes "apply_adjusters risk i = Inr r"
  obtains x where "risk = Fin x" "0 \<le> x" "ar_product r \<le> 1" "0 \<le> ar_product r"
    "ar_adjusted_risk_percent r = dmul x (ar_product r)"
proof -
  from assms obtain regime ta ma where i: "ai_volatility_regime i = Some regime"
      "ai_trend_aligned i = Some ta" "ai_momentum_aligned i = Some ma"
    by (auto simp: apply_adjusters_def split: option.splits)
  from assms obtain x where x: "risk = Fin x" "0 \<le> x"
    by (auto simp: apply_adjusters_def i split: num.splits if_splits)
  from assms obtain vol where vol: "map_of volatility_table regime = Some vol"
    using x by (auto simp: apply_adjusters_def i split: option.splits)
  define t m where "t = (if ta then 1 else MISALIGNED)" and "m = (if ma then 1 else MISALIGNED)"
  have h: "risk = Fin x" "0 \<le> x" "map_of volatility_table regime = Some vol"
      "ar_product r = dmul (dmul vol t) m" "ar_product r \<le> 1"
      "ar_adjusted_risk_percent r = dmul x (ar_product r)"
    using assms x vol unfolding apply_adjusters_def i option.case prod.case x(1) num.case vol Let_def
      t_def [symmetric] m_def [symmetric]
    by (auto split: if_splits)
  have "0 \<le> t" "0 \<le> m" by (simp_all add: t_def m_def MISALIGNED_def)
  then have "0 \<le> ar_product r"
    using volatility_le_1 [OF h(3)] h(4) by (simp add: dec_sign)
  with h show ?thesis by (intro that) auto
qed

lemma ordered_stats_Some:
  "ordered_stats hc stats \<Longrightarrow>
     \<exists>xs. those_values (map (if hc then gc_haircut_expectancy else gc_expectancy) stats) = Some xs
        \<and> strictly_falling xs"
  by (auto simp: ordered_stats_def split: option.splits)

lemma promotion_report_usable:
  "promotion_report fsqrt dsqrt (filter (\<lambda>s. cs_grader_version s = v \<and> \<not> cs_in_sample s) samples) v
   = promotion_report fsqrt dsqrt samples v"
proof -
  have "filter P (filter P xs) = filter P xs" for P and xs :: "calibration_sample list"
    by (induction xs) auto
  then show ?thesis by (simp add: promotion_report_def)
qed

section \<open>Properties\<close>

text \<open>
  The grader is total and monotone: with a long or short direction every setup gets a grade and no
  refusal, without one it is ungraded; and of two setups the one whose trend and momentum scores are
  both at least as high never gets a worse grade.
\<close>

theorem grade_setup_total_and_monotone:
  "gd_refusal (grade_setup direction s i) =
     (if direction = Some ''long'' \<or> direction = Some ''short'' then None else Some ''ungraded'')
   \<and> (gd_grade (grade_setup direction s i) = None \<longleftrightarrow> direction \<noteq> Some ''long'' \<and> direction \<noteq> Some ''short'')
   \<and> (case (gd_grade (grade_setup direction s i), gd_grade (grade_setup direction' s' i')) of
        (Some g, Some g') \<Rightarrow>
          grade_rank g' \<le> grade_rank g
          \<or> trend_alignment direction' s' < trend_alignment direction s
          \<or> momentum direction' i' < momentum direction i
      | _ \<Rightarrow> True)"
proof -
  let ?ok = "\<lambda>d. d = Some ''long'' \<or> d = Some ''short''"
  have no: "grade_setup d s i = ungraded None None" if "\<not> ?ok d" for d s i
    using that by (simp add: grade_setup_def)
  show ?thesis
  proof (cases "?ok direction")
    case True
    then obtain g where g: "map_of grade_table (trend_alignment direction s, momentum direction i) = Some g"
        "grade_setup direction s i =
           \<lparr>gd_grade = Some g, gd_grader_version = GRADER_VERSION,
            gd_trend_score = Some (trend_alignment direction s),
            gd_momentum_score = Some (momentum direction i), gd_refusal = None\<rparr>"
      by (rule grade_setup_graded)
    show ?thesis
    proof (cases "?ok direction'")
      case ok': True
      then obtain g' where g': "map_of grade_table (trend_alignment direction' s', momentum direction' i') = Some g'"
          "grade_setup direction' s' i' =
             \<lparr>gd_grade = Some g', gd_grader_version = GRADER_VERSION,
              gd_trend_score = Some (trend_alignment direction' s'),
              gd_momentum_score = Some (momentum direction' i'), gd_refusal = None\<rparr>"
        by (rule grade_setup_graded)
      have "grade_rank g' \<le> grade_rank g
          \<or> trend_alignment direction' s' < trend_alignment direction s
          \<or> momentum direction' i' < momentum direction i"
        using grade_table_mono [OF g(1) g'(1)] by (meson not_le)
      then show ?thesis using True g(2) g'(2) by auto
    qed (use True g no in \<open>auto simp: ungraded_def\<close>)
  qed (use no in \<open>auto simp: ungraded_def\<close>)
qed

text \<open>
  The first bound grade of a setup is final: after any sequence of further binds in the book, a
  second bind for the same setup returns the grade of the first one, whatever grade it proposes.
\<close>

theorem grade_book_first_bind_final:
  assumes "book_bind b setup_id d = Inr (r, b')"
    and "(\<lambda>s s'. \<exists>k v x. book_bind s k v = Inr (x, s'))\<^sup>*\<^sup>* b' t"
    and "book_bind t setup_id d' = Inr (r', t')"
  shows "r' = r"
  using assms by (rule grade_book.rebind)

theorem grade_book_first_bind_final_witness:
  "book_bind ((\<lambda>_. None)(''s'' \<mapsto> ungraded None None)) ''s'' (ungraded (Some 1) None)
     = Inr (ungraded None None, (\<lambda>_. None)(''s'' \<mapsto> ungraded None None))"
proof -
  have b: "book_bind (\<lambda>_. None) ''s'' (ungraded None None)
      = Inr (ungraded None None, (\<lambda>_. None)(''s'' \<mapsto> ungraded None None))"
    by (simp add: book_bind_def)
  obtain r t where rt: "book_bind ((\<lambda>_. None)(''s'' \<mapsto> ungraded None None)) ''s'' (ungraded (Some 1) None)
      = Inr (r, t)" by (simp add: book_bind_def)
  have "r = ungraded None None"
    by (rule grade_book_first_bind_final [OF b _ rt]) simp
  moreover have "t = (\<lambda>_. None)(''s'' \<mapsto> ungraded None None)" using rt by (auto simp: book_bind_def)
  ultimately show ?thesis using rt by simp
qed

text \<open>
  Adjusters only take risk away: the adjusted percent is never negative and never above the percent
  it started from (as the context rounds it), whatever the regime and the alignments, and a missing
  or unknown input is a refusal, never a default.
\<close>

theorem apply_adjusters_reduces:
  "case apply_adjusters (Fin x) inputs of
     Inr r \<Rightarrow> 0 \<le> ar_adjusted_risk_percent r \<and> ar_adjusted_risk_percent r \<le> dround 28 x
              \<and> ai_volatility_regime inputs \<noteq> None \<and> ai_trend_aligned inputs \<noteq> None
              \<and> ai_momentum_aligned inputs \<noteq> None
   | Inl e \<Rightarrow> \<exists>c. e = Rejected c"
proof (cases "apply_adjusters (Fin x) inputs")
  case (Inl e)
  then show ?thesis
    by (auto simp: apply_adjusters_def Let_def split: option.splits if_splits)
next
  case (Inr r)
  then obtain "0 \<le> x" "ar_product r \<le> 1" "0 \<le> ar_product r"
      "ar_adjusted_risk_percent r = dmul x (ar_product r)"
    by (rule apply_adjusters_Inr) auto
  moreover from this have "dmul x (ar_product r) \<le> dround 28 x"
    by (simp add: dmul_def dec28.rnd_mono mult_left_le)
  moreover have "ai_volatility_regime inputs \<noteq> None \<and> ai_trend_aligned inputs \<noteq> None
              \<and> ai_momentum_aligned inputs \<noteq> None"
    using Inr by (auto simp: apply_adjusters_def split: option.splits)
  ultimately show ?thesis using Inr by (simp add: dmul_nonneg)
qed

text \<open>A calibration set that is eligible: 100 trades per grade in two folds, falling multiples.\<close>

definition sample_trade :: "grade \<Rightarrow> int \<Rightarrow> int \<Rightarrow> calibration_sample" where
  "sample_trade g r n =
     \<lparr>cs_grade = g, cs_grader_version = GRADER_VERSION, cs_r_multiple = of_int r, cs_in_sample = False,
      cs_walk_forward_fold = n, cs_slippage_r = 0\<rparr>"

definition sample_trades :: "calibration_sample list" where
  "sample_trades =
     concat (map (\<lambda>(g, r). replicate 50 (sample_trade g r 1) @ replicate 50 (sample_trade g r 2))
       [(A_PLUS, 4), (A, 3), (B_PLUS, 2), (B, 1)])"

lemma dsum_replicate:
  "0 \<le> a \<Longrightarrow> 0 \<le> b \<Longrightarrow> a + int n * b < 10 ^ 28 \<Longrightarrow>
     dsum (of_int a) (replicate n (of_int b)) = of_int (a + int n * b)"
proof (induction n arbitrary: a)
  case (Suc n)
  have "a + b \<le> a + int (Suc n) * b" using Suc.prems by (simp add: distrib_right)
  then have "dadd (of_int a) (of_int b) = of_int (a + b)"
    using Suc.prems dec28_int [of "a + b"] by (simp add: dadd_def)
  then show ?case using Suc.IH [of "a + b"] Suc.prems by (simp add: algebra_simps)
qed simp

lemma mean_replicate:
  assumes "0 < n" "0 \<le> b" "int n * b < 10 ^ 28"
  shows "mean (replicate n (of_int b)) = Some (of_int b)"
proof -
  have "b \<le> int n * b" using assms by (simp add: mult_le_cancel_right1)
  then have "dround 28 (of_int b) = of_int b" using assms by (intro dec28_int) simp
  moreover have "rat_of_int (int n * b) / of_nat n = of_int b" using assms(1) by simp
  ultimately show ?thesis
    using assms dsum_replicate [of 0 b n] by (simp add: mean_def ddiv_def)
qed

lemma lower_bound_replicate:
  assumes "1 < n" "0 \<le> b" "int n * b < 10 ^ 28"
  shows "lower_bound f d (replicate n (of_int b)) = Some (of_int b)"
proof -
  have "dsquare (dsub (of_int b) (of_int b)) = 0" by (simp add: dsquare_def dsub_def)
  moreover have "dsum 0 (replicate n 0) = 0" using dsum_replicate [of 0 0 n] by simp
  ultimately show ?thesis
    using assms mean_replicate [of n b] by (simp add: lower_bound_def ddiv_def)
qed

lemma sample_by_grade:
  "filter (\<lambda>s. cs_grade s = g) sample_trades =
     (case g of A_PLUS \<Rightarrow> replicate 50 (sample_trade g 4 1) @ replicate 50 (sample_trade g 4 2)
      | A \<Rightarrow> replicate 50 (sample_trade g 3 1) @ replicate 50 (sample_trade g 3 2)
      | B_PLUS \<Rightarrow> replicate 50 (sample_trade g 2 1) @ replicate 50 (sample_trade g 2 2)
      | B \<Rightarrow> replicate 50 (sample_trade g 1 1) @ replicate 50 (sample_trade g 1 2)
      | C \<Rightarrow> [])"
  by (cases g) (simp_all add: sample_trades_def sample_trade_def)

lemma sample_usable: "filter (\<lambda>s. cs_grader_version s = GRADER_VERSION \<and> \<not> cs_in_sample s) sample_trades = sample_trades"
  by (rule filter_True) (auto simp: sample_trades_def sample_trade_def)

lemma sample_stats:
  assumes "0 \<le> b" "b < 10"
  shows "grade_stats f d g (replicate 50 (sample_trade g b 1) @ replicate 50 (sample_trade g b 2)) =
     \<lparr>gc_grade = g, gc_trades = 100, gc_expectancy = Some (of_int b), gc_lower_90_bound = Some (of_int b),
      gc_haircut_expectancy = Some (of_int b), gc_haircut_lower_90_bound = Some (of_int b)\<rparr>"
proof -
  have r: "replicate 50 x @ replicate 50 x = replicate 100 x" for x :: rat by (simp flip: replicate_add)
  have s: "dsub (of_int b) 0 = of_int b" using dec28_int [of b] assms by (simp add: dsub_def)
  show ?thesis
    using assms mean_replicate [of 100 b] lower_bound_replicate [of 100 b]
    by (simp add: grade_stats_def sample_trade_def s r)
qed

lemma sample_eligible: "rep_eligible (promotion_report f d sample_trades GRADER_VERSION)"
proof -
  let ?by = "\<lambda>g. filter (\<lambda>s. cs_grade s = g) sample_trades"
  let ?fs = "concat (map ?by TRADABLE_GRADES)"
  have folds: "cs_walk_forward_fold ` set ?fs = {1, 2}"
    by (auto simp: sample_by_grade TRADABLE_GRADES_def sample_trade_def image_iff)
  have by_fold: "map cs_r_multiple (filter (\<lambda>s. cs_walk_forward_fold s = n) (?by g))
      = replicate 50 (of_int (if g = A_PLUS then 4 else 3))" if "g \<in> {A_PLUS, A}" "n \<in> {1, 2}" for g n
    using that by (auto simp: sample_by_grade sample_trade_def)
  have w: "walk_forward ?by"
  proof -
    have "length (remdups (map cs_walk_forward_fold ?fs)) = 2"
      using folds by (simp add: length_remdups_card_conv)
    moreover have "mean (replicate 50 (of_int 4)) = Some (of_int 4)" "mean (replicate 50 (of_int 3)) = Some (of_int 3)"
      by (rule mean_replicate; simp)+
    ultimately show ?thesis
      unfolding walk_forward_def Let_def list_all_iff set_remdups set_map folds
      by (auto simp: by_fold simp del: filter_filter)
  qed
  show ?thesis
    using w by (simp add: promotion_report_def Let_def sample_usable sample_by_grade sample_stats TRADABLE_GRADES_def
       ordered_stats_def bounds_ok_def MIN_TRADES_def)
qed

text \<open>
  The promotion report counts only out-of-sample trades of the graded version: in-sample trades and
  trades of another grader version can be added or removed without changing it. It is eligible only
  when each of the four tradable grades has at least 100 such trades, the expectancies fall strictly
  from A+ to B both before and after the slippage haircut, and the trades span at least two
  walk-forward folds; and it never applies a promotion by itself.
\<close>

theorem promotion_report_gate:
  "promotion_report fsqrt dsqrt (filter (\<lambda>s. cs_grader_version s = v \<and> \<not> cs_in_sample s) samples) v
     = promotion_report fsqrt dsqrt samples v
   \<and> \<not> rep_promotion_applied (promotion_report fsqrt dsqrt samples v)
   \<and> (rep_eligible (promotion_report fsqrt dsqrt samples v) \<longrightarrow>
        list_all (\<lambda>g. 100 \<le> length (filter (\<lambda>s. cs_grade s = g)
                          (filter (\<lambda>s. cs_grader_version s = v \<and> \<not> cs_in_sample s) samples))) TRADABLE_GRADES
      \<and> (\<exists>xs ys. those_values (map gc_expectancy (rep_grades (promotion_report fsqrt dsqrt samples v))) = Some xs
           \<and> strictly_falling xs
           \<and> those_values (map gc_haircut_expectancy (rep_grades (promotion_report fsqrt dsqrt samples v))) = Some ys
           \<and> strictly_falling ys)
      \<and> 2 \<le> card (cs_walk_forward_fold ` set (filter (\<lambda>s. cs_grader_version s = v \<and> \<not> cs_in_sample s) samples)))"
    (is "?same \<and> ?off \<and> (?el \<longrightarrow> ?counts \<and> ?order \<and> ?folds)")
proof (intro conjI impI)
  show ?same by (rule promotion_report_usable)
  show ?off by (simp add: promotion_report_def Let_def)
  let ?us = "filter (\<lambda>s. cs_grader_version s = v \<and> \<not> cs_in_sample s) samples"
  let ?by = "\<lambda>g. filter (\<lambda>s. cs_grade s = g) ?us"
  let ?stats = "map (\<lambda>g. grade_stats fsqrt dsqrt g (?by g)) TRADABLE_GRADES"
  have stats: "rep_grades (promotion_report fsqrt dsqrt samples v) = ?stats"
    by (simp add: promotion_report_def Let_def)
  assume ?el
  then have el: "list_all (\<lambda>i. MIN_TRADES \<le> gc_trades i) ?stats" "ordered_stats False ?stats"
    "ordered_stats True ?stats" "walk_forward ?by"
    by (simp_all add: promotion_report_def Let_def)
  show ?counts using el(1) by (simp add: list_all_iff grade_stats_def MIN_TRADES_def Let_def)
  show ?order
    using ordered_stats_Some [OF el(2)] ordered_stats_Some [OF el(3)] unfolding stats by auto
  let ?fs = "concat (map ?by TRADABLE_GRADES)"
  have "2 \<le> length (remdups (map cs_walk_forward_fold ?fs))"
    using el(4) by (auto simp: walk_forward_def Let_def split: if_splits)
  also have "\<dots> = card (cs_walk_forward_fold ` set ?fs)" by (simp add: length_remdups_card_conv)
  also have "\<dots> \<le> card (cs_walk_forward_fold ` set ?us)" by (intro card_mono) auto
  finally show ?folds .
qed

theorem promotion_report_gate_witness:
  "list_all (\<lambda>g. 100 \<le> length (filter (\<lambda>s. cs_grade s = g) sample_trades)) TRADABLE_GRADES
   \<and> rep_eligible (promotion_report (\<lambda>x. x) of_nat sample_trades GRADER_VERSION)"
  using promotion_report_gate [of "\<lambda>x. x" "of_nat" GRADER_VERSION sample_trades] sample_eligible
  by (simp only: sample_usable simp_thms)

text \<open>
  The gate above one percent, exactly: a valid profile passes \<open>assert_promotion_allows\<close> when no
  tradable grade risks more than one percent, or it collects data on a paper or demo kind, or the
  report at hand is for the current grader version, eligible, ordered, walk-forward clean and not
  yet applied.
\<close>

theorem assert_promotion_exact:
  assumes "valid_profile p"
  shows "assert_promotion_allows p report = Inr () \<longleftrightarrow>
     list_all (\<lambda>g. grade_percent p g \<le> 1) TRADABLE_GRADES
     \<or> p_paper_demo_data_collection p
     \<or> (\<exists>r. report = Some r \<and> rep_grader_version r = GRADER_VERSION \<and> rep_eligible r \<and> rep_ordered r
          \<and> rep_walk_forward_ok r \<and> \<not> rep_promotion_applied r)"
proof -
  have "risk_percent p g = Inr (grade_percent p g)" for g
    using assms by (auto simp: valid_profile_def risk_percent_def grade_percent_def split: option.splits)
  then have "res_map (risk_percent p) TRADABLE_GRADES = Inr (map (grade_percent p) TRADABLE_GRADES)"
    by (simp add: TRADABLE_GRADES_def)
  moreover have "p_paper_demo_data_collection p \<Longrightarrow> kind_value (p_kind p) \<in> set PAPER_DEMO_KINDS"
    using assms by (auto simp: valid_profile_def PAPER_DEMO_KINDS_def)
  ultimately show ?thesis
    by (auto simp: assert_promotion_allows_def list_all_iff list_ex_iff PLACEHOLDER_RISK_PERCENT_def
        not_less split: option.splits)
qed

theorem assert_promotion_exact_witness:
  "assert_promotion_allows (placeholder_base STANDARD) None = Inr ()"
proof -
  have "validate_profile (placeholder_base STANDARD) = Inr ()" by code_simp
  then have "valid_profile (placeholder_base STANDARD)" by (simp only: validate_profile_Inr)
  from assert_promotion_exact [OF this, of None] show ?thesis
    by (simp add: TRADABLE_GRADES_def grade_percent_def placeholder_base_def)
qed

end
