(* ===== verification/Sizer.thy ===== *)
theory Sizer
  imports Grading
begin

text \<open>
  The position sizer, \<^verbatim>\<open>services/risk_policy/sizer.py\<close>: \<open>size_trade\<close> and \<open>size_concurrent\<close> with their
  helpers. \<open>SizingInput\<close> has the prefix \<open>in_\<close> and \<open>SizingResult\<close> the prefix \<open>sz_\<close>. The body of
  \<open>size_trade\<close> is cut into the stages in which it is written: reading the inputs, checking their
  ranges, the stop distance, the leverage, the effective risk, the quantity and the result.

  The lemmas bound what an accepted trade can lose. The bounds are about the exact product of the
  accepted quantity and the adverse distance, not about the rounded figures of the result, so they
  hold whatever the 28-digit arithmetic did on the way.
\<close>

section \<open>Data\<close>

record sizing_input =
  in_equity :: "num option"
  in_entry :: "num option"
  in_stop :: "num option"
  in_direction :: "string option"
  in_grade :: "grade option"
  in_grade_risk_percent :: "num option"
  in_atr :: "num option"
  in_gap_beyond_stop :: "num option"
  in_fee_rate :: "num option"
  in_funding_rate :: "num option"
  in_funding_periods :: "num option"
  in_slippage_rate :: "num option"
  in_lot_step :: "num option"
  in_min_quantity :: "num option"
  in_remaining_daily_budget_percent :: "num option"
  in_open_risk_percent :: "num option"
  in_open_notional :: "num option"
  in_open_positions :: "int option"
  in_leverage :: "num option"
  in_margin_mode :: "string option"

record sizing_result =
  sz_quantity :: rat
  sz_notional :: rat
  sz_margin :: rat
  sz_effective_risk_percent :: rat
  sz_risk_amount :: rat
  sz_cost_amount :: rat
  sz_cost_share_of_r :: rat
  sz_stop_distance :: rat
  sz_adverse_distance :: rat
  sz_notional_capped :: bool
  sz_grade_risk_percent :: rat
  sz_profile_risk_percent :: rat
  sz_ceiling_percent :: rat
  sz_budget_room_percent :: rat
  sz_leverage :: rat

text \<open>The local variables of \<open>size_trade\<close> once every required input is known to be present.\<close>

record sizing_args =
  a_equity :: rat
  a_entry :: rat
  a_stop :: rat
  a_atr :: rat
  a_gap :: rat
  a_fee_rate :: rat
  a_funding_rate :: rat
  a_funding_periods :: rat
  a_slippage_rate :: rat
  a_lot_step :: rat
  a_min_quantity :: rat
  a_remaining_daily :: rat
  a_open_risk :: rat
  a_open_notional :: rat
  a_grade_risk :: rat
  a_open_positions :: int
  a_direction :: string
  a_grade :: grade

definition QUANTUM :: rat where "QUANTUM = 1 / 10 ^ 8"

section \<open>Helpers\<close>

definition required :: "num option \<Rightarrow> string \<Rightarrow> rat res" where
  "required value code =
     (case value of Some (Fin x) \<Rightarrow> Inr x | _ \<Rightarrow> Inl (Rejected code))"

definition positive :: "rat \<Rightarrow> string \<Rightarrow> unit res" where
  "positive value code = (if value \<le> 0 then Inl (Rejected code) else Inr ())"

definition non_negative :: "rat \<Rightarrow> string \<Rightarrow> unit res" where
  "non_negative value code = (if value < 0 then Inl (Rejected code) else Inr ())"

definition stop_distance_of :: "string \<Rightarrow> rat \<Rightarrow> rat \<Rightarrow> rat res" where
  "stop_distance_of direction entry stop =
     (if direction = ''long'' then
        (if entry \<le> stop then Inl (Rejected ''stop_on_wrong_side'') else Inr (dsub entry stop))
      else if stop \<le> entry then Inl (Rejected ''stop_on_wrong_side'')
      else Inr (dsub stop entry))"

definition unit_cost :: "rat \<Rightarrow> rat \<Rightarrow> rat \<Rightarrow> rat \<Rightarrow> rat \<Rightarrow> rat \<Rightarrow> rat" where
  "unit_cost entry stop fee_rate funding_rate funding_periods slippage_rate =
     dadd (dadd (dadd (dmul entry fee_rate) (dmul stop fee_rate))
             (dmul (dmul entry (dabs funding_rate)) funding_periods))
       (dmul entry slippage_rate)"

definition cost_share :: "rat \<Rightarrow> rat \<Rightarrow> rat res" where
  "cost_share adverse cost =
     (if adverse \<le> 0 then Inl (Rejected ''adverse_distance_invalid'')
      else Inr (if cost \<noteq> 0 then ddiv cost (dadd adverse cost) else 0))"

definition round_lot :: "rat \<Rightarrow> rat \<Rightarrow> rat" where
  "round_lot quantity lot_step = dmul (to_integral (ddiv quantity lot_step)) lot_step"

text \<open>\<open>max\<close> over the values of the grade map; Python raises \<open>ValueError\<close> on an empty one.\<close>

fun max_value :: "rat list \<Rightarrow> rat res" where
  "max_value [] = Inl ValueError"
| "max_value (x # xs) = Inr (fold max xs x)"

definition profile_max_risk :: "profile \<Rightarrow> rat res" where
  "profile_max_risk p = max_value (List.map_filter (p_risk_percent_by_grade p) GRADE_ORDER)"

section \<open>size_trade\<close>

definition read_inputs :: "sizing_input \<Rightarrow> bool \<Rightarrow> sizing_args res" where
  "read_inputs d replace_grade_cap =
     res_bind (required (in_equity d) ''equity_missing'') (\<lambda>equity.
     res_bind (required (in_entry d) ''entry_missing'') (\<lambda>entry.
     res_bind (required (in_stop d) ''stop_missing'') (\<lambda>stop.
     res_bind (required (in_atr d) ''atr_missing'') (\<lambda>atr.
     res_bind (required (in_gap_beyond_stop d) ''gap_missing'') (\<lambda>gap.
     res_bind (required (in_fee_rate d) ''fee_rate_missing'') (\<lambda>fee_rate.
     res_bind (required (in_funding_rate d) ''funding_rate_missing'') (\<lambda>funding_rate.
     res_bind (required (in_funding_periods d) ''funding_periods_missing'') (\<lambda>funding_periods.
     res_bind (required (in_slippage_rate d) ''slippage_rate_missing'') (\<lambda>slippage_rate.
     res_bind (required (in_lot_step d) ''lot_step_missing'') (\<lambda>lot_step.
     res_bind (required (in_min_quantity d) ''min_quantity_missing'') (\<lambda>min_quantity.
     res_bind (required (in_remaining_daily_budget_percent d) ''daily_budget_missing'') (\<lambda>remaining.
     res_bind (required (in_open_risk_percent d) ''open_risk_missing'') (\<lambda>open_risk.
     res_bind (required (in_open_notional d) ''open_notional_missing'') (\<lambda>open_notional.
     res_bind (required (in_grade_risk_percent d) ''grade_risk_missing'') (\<lambda>grade_risk.
     case in_open_positions d of None \<Rightarrow> Inl (Rejected ''open_positions_missing'') | Some positions \<Rightarrow>
     case in_direction d of None \<Rightarrow> Inl (Rejected ''direction_missing'') | Some direction \<Rightarrow>
     if direction \<noteq> ''long'' \<and> direction \<noteq> ''short'' then Inl (Rejected ''direction_missing'') else
     case in_grade d of None \<Rightarrow> Inl (Rejected ''grade_not_tradable'') | Some g \<Rightarrow>
     if g = C \<and> \<not> replace_grade_cap then Inl (Rejected ''grade_not_tradable'') else
     case in_margin_mode d of None \<Rightarrow> Inl (Rejected ''margin_mode_missing'') | Some mode \<Rightarrow>
     if lower mode \<noteq> ''isolated'' then Inl (Rejected ''margin_mode_not_isolated'') else
     Inr \<lparr>a_equity = equity, a_entry = entry, a_stop = stop, a_atr = atr, a_gap = gap,
          a_fee_rate = fee_rate, a_funding_rate = funding_rate, a_funding_periods = funding_periods,
          a_slippage_rate = slippage_rate, a_lot_step = lot_step, a_min_quantity = min_quantity,
          a_remaining_daily = remaining, a_open_risk = open_risk, a_open_notional = open_notional,
          a_grade_risk = grade_risk, a_open_positions = positions, a_direction = direction,
          a_grade = g\<rparr>)))))))))))))))"

definition check_inputs :: "profile \<Rightarrow> sizing_args \<Rightarrow> unit res" where
  "check_inputs p a =
     res_bind (positive (a_equity a) ''equity_invalid'') (\<lambda>_.
     res_bind (positive (a_entry a) ''entry_invalid'') (\<lambda>_.
     res_bind (positive (a_atr a) ''atr_invalid'') (\<lambda>_.
     res_bind (non_negative (a_gap a) ''gap_invalid'') (\<lambda>_.
     res_bind (non_negative (a_fee_rate a) ''fee_rate_invalid'') (\<lambda>_.
     res_bind (non_negative (a_funding_periods a) ''funding_periods_invalid'') (\<lambda>_.
     res_bind (non_negative (a_slippage_rate a) ''slippage_rate_invalid'') (\<lambda>_.
     res_bind (positive (a_lot_step a) ''lot_step_invalid'') (\<lambda>_.
     res_bind (positive (a_min_quantity a) ''min_quantity_invalid'') (\<lambda>_.
     if a_stop a \<le> 0 then Inl (Rejected ''stop_not_positive'') else
     res_bind (non_negative (a_open_risk a) ''open_risk_invalid'') (\<lambda>_.
     res_bind (non_negative (a_open_notional a) ''open_notional_invalid'') (\<lambda>_.
     res_bind (non_negative (a_remaining_daily a) ''daily_budget_invalid'') (\<lambda>_.
     res_bind (non_negative (a_grade_risk a) ''grade_risk_invalid'') (\<lambda>_.
     if a_open_positions a < 0 then Inl (Rejected ''open_positions_invalid'') else
     if p_max_open_positions p \<le> a_open_positions a then Inl (Rejected ''max_open_positions'') else
     Inr ())))))))))))))"

definition checked_stop :: "profile \<Rightarrow> sizing_args \<Rightarrow> rat res" where
  "checked_stop p a =
     res_bind (stop_distance_of (a_direction a) (a_entry a) (a_stop a)) (\<lambda>distance.
     let floor_distance = dmul (a_entry a) (p_min_stop_absolute_floor p);
         minimum = max (dmul (p_min_stop_atr_multiple p) (a_atr a)) floor_distance
     in if distance < minimum then Inl (Rejected ''stop_too_tight'') else Inr distance)"

definition checked_leverage :: "profile \<Rightarrow> num option \<Rightarrow> rat res" where
  "checked_leverage p leverage =
     (case (case leverage of Some l \<Rightarrow> l | None \<Rightarrow> Fin (p_default_leverage p)) of
        NonFinite \<Rightarrow> Inl (Rejected ''leverage_invalid'')
      | Fin l \<Rightarrow> if l < 1 \<or> p_max_leverage p < l \<or> HARD_MAX_LEVERAGE < l
                 then Inl (Rejected ''leverage_exceeds_ceiling'') else Inr l)"

definition budget_room_of :: "profile \<Rightarrow> sizing_args \<Rightarrow> rat" where
  "budget_room_of p a =
     (let daily_cap = min3 (p_daily_loss_limit_percent p) HARD_MAX_DAILY_LOSS_PERCENT
                        (a_remaining_daily a);
          daily_room = dsub daily_cap (a_open_risk a);
          aggregate_room = dsub (p_max_aggregate_open_risk_percent p) (a_open_risk a)
      in min daily_room aggregate_room)"

text \<open>The effective risk and the profile risk recorded beside it.\<close>

definition effective_risk :: "profile \<Rightarrow> sizing_args \<Rightarrow> bool \<Rightarrow> (rat \<times> rat) res" where
  "effective_risk p a replace_grade_cap =
     res_bind (risk_percent p (a_grade a)) (\<lambda>profile_risk.
     res_bind (profile_max_risk p) (\<lambda>profile_max.
     let budget_room = budget_room_of p a in
     if budget_room \<le> 0 then Inl (Rejected ''budget_exhausted'') else
     let ceiling = risk_ceiling_for (p_kind p) in
     res_bind
       (if replace_grade_cap then
          let hard_ceiling = min PAPER_DEMO_MAX_RISK_PER_TRADE_PERCENT ceiling in
          if hard_ceiling < a_grade_risk a then Inl (Rejected ''risk_override_exceeds_ceiling'') else
          if profile_max < a_grade_risk a then Inl (Rejected ''risk_override_exceeds_profile_max'') else
          Inr (min3 (a_grade_risk a) hard_ceiling budget_room, profile_max)
        else Inr (min4 (a_grade_risk a) profile_risk ceiling budget_room, profile_risk)) (\<lambda>er.
     if fst er \<le> 0 then Inl (Rejected ''budget_exhausted'') else Inr er)))"

definition args_unit_cost :: "sizing_args \<Rightarrow> rat" where
  "args_unit_cost a =
     unit_cost (a_entry a) (a_stop a) (a_fee_rate a) (a_funding_rate a) (a_funding_periods a)
       (a_slippage_rate a)"

definition notional_room_of :: "profile \<Rightarrow> sizing_args \<Rightarrow> rat res" where
  "notional_room_of p a =
     (let notional_cap = ddiv (dmul (a_equity a) (p_max_notional_per_trade_percent p)) 100;
          aggregate_notional = ddiv (dmul (a_equity a) (p_max_aggregate_notional_percent p)) 100;
          notional_room = dsub aggregate_notional (a_open_notional a)
      in if notional_room \<le> 0 \<or> notional_cap \<le> 0 then Inl (Rejected ''notional_cap'')
         else Inr (min notional_cap notional_room))"

text \<open>The accepted quantity and whether a notional cap reduced it.\<close>

definition capped_quantity ::
    "sizing_args \<Rightarrow> bool \<Rightarrow> rat \<Rightarrow> rat \<Rightarrow> (rat \<times> bool) res" where
  "capped_quantity a preserve_grade_risk room quantity =
     res_bind
       (if room < dmul quantity (a_entry a) then
          if preserve_grade_risk then Inl (Rejected ''notional_cap_shrinks_grade_risk'')
          else Inr (round_lot (ddiv room (a_entry a)) (a_lot_step a), True)
        else Inr (quantity, False)) (\<lambda>qc.
     if fst qc < a_min_quantity a then Inl (Rejected ''below_min_quantity'') else Inr qc)"

definition size_trade ::
    "profile \<Rightarrow> sizing_input \<Rightarrow> promotion_report option \<Rightarrow> bool \<Rightarrow> bool \<Rightarrow> sizing_result res" where
  "size_trade p d promotion preserve_grade_risk replace_grade_cap =
     res_bind (validate_profile p) (\<lambda>_.
     res_bind (assert_promotion_allows p promotion) (\<lambda>_.
     res_bind (read_inputs d replace_grade_cap) (\<lambda>a.
     res_bind (check_inputs p a) (\<lambda>_.
     res_bind (checked_stop p a) (\<lambda>stop_distance.
     res_bind (checked_leverage p (in_leverage d)) (\<lambda>leverage.
     res_bind (effective_risk p a replace_grade_cap) (\<lambda>er.
     let adverse = dadd stop_distance (a_gap a);
         cost = args_unit_cost a
     in res_bind (cost_share adverse cost) (\<lambda>share.
     if p_max_cost_share_of_r p < share then Inl (Rejected ''costs_exceed_r'') else
     let risk_amount = ddiv (dmul (a_equity a) (fst er)) 100;
         denominator = dadd adverse cost
     in if denominator \<le> 0 then Inl (Rejected ''sizing_denominator_invalid'') else
     let quantity = round_lot (ddiv risk_amount denominator) (a_lot_step a)
     in res_bind (notional_room_of p a) (\<lambda>room.
     res_bind (capped_quantity a preserve_grade_risk room quantity) (\<lambda>qc.
     res_bind (quantize8 round_down (dmul (fst qc) (a_entry a))) (\<lambda>notional.
     res_bind (quantize8 round_down (dmul (fst qc) cost)) (\<lambda>cost_amount.
     res_bind (quantize8 round_down (dmul (fst qc) adverse)) (\<lambda>price_risk.
     let realized_r = dadd price_risk cost_amount
     in if realized_r \<le> 0 \<or> dadd risk_amount QUANTUM < realized_r
        then Inl (Rejected ''risk_amount_invalid'') else
     let realized_share = (if realized_r \<noteq> 0 then ddiv cost_amount realized_r else 1)
     in if p_max_cost_share_of_r p < realized_share then Inl (Rejected ''costs_exceed_r'') else
     res_bind (quantize8 round_down (dmul (ddiv realized_r (a_equity a)) 100)) (\<lambda>effective_recorded.
     res_bind (quantize8 round_down (ddiv notional leverage)) (\<lambda>margin.
     Inr \<lparr>sz_quantity = fst qc, sz_notional = notional, sz_margin = margin,
          sz_effective_risk_percent = effective_recorded, sz_risk_amount = realized_r,
          sz_cost_amount = cost_amount, sz_cost_share_of_r = realized_share,
          sz_stop_distance = stop_distance, sz_adverse_distance = adverse,
          sz_notional_capped = snd qc, sz_grade_risk_percent = a_grade_risk a,
          sz_profile_risk_percent = snd er, sz_ceiling_percent = risk_ceiling_for (p_kind p),
          sz_budget_room_percent = budget_room_of p a, sz_leverage = leverage\<rparr>)))))))))))))))"

section \<open>size_concurrent\<close>

text \<open>
  \<^verbatim>\<open>x or Decimal("0")\<close> on an input that \<open>size_trade\<close> has already read as finite. A NaN here would
  have been refused by the sizing of the first order.
\<close>

definition or_zero :: "num option \<Rightarrow> rat" where
  "or_zero v = (case v of Some (Fin x) \<Rightarrow> x | _ \<Rightarrow> 0)"

definition size_concurrent :: "profile \<Rightarrow> sizing_input list \<Rightarrow> sizing_result list res" where
  "size_concurrent p orders =
     (case orders of
        [] \<Rightarrow> Inl (Rejected ''concurrent_batch_empty'')
      | first # _ \<Rightarrow>
          res_bind (res_map (\<lambda>order. size_trade p order None False False) orders) (\<lambda>alone.
          case in_open_positions first of None \<Rightarrow> Inl (Rejected ''open_positions_missing'')
          | Some positions \<Rightarrow>
          if p_max_open_positions p < positions + int (length orders)
          then Inl (Rejected ''max_open_positions'') else
          case in_equity first of
            Some (Fin equity) \<Rightarrow>
              if equity \<le> 0 then Inl (Rejected ''equity_invalid'') else
              let total_risk = dadd (or_zero (in_open_risk_percent first))
                                 (dsum 0 (map sz_effective_risk_percent alone))
              in if p_max_aggregate_open_risk_percent p < total_risk
                 then Inl (Rejected ''concurrent_budget_exhausted'') else
              let daily_cap = min3 (p_daily_loss_limit_percent p) HARD_MAX_DAILY_LOSS_PERCENT
                                (or_zero (in_remaining_daily_budget_percent first))
              in if daily_cap < total_risk then Inl (Rejected ''concurrent_budget_exhausted'') else
              let total_notional = dadd (or_zero (in_open_notional first))
                                     (dsum 0 (map sz_notional alone));
                  aggregate_cap = ddiv (dmul equity (p_max_aggregate_notional_percent p)) 100
              in if aggregate_cap < total_notional then Inl (Rejected ''concurrent_notional_cap'')
                 else Inr alone
          | _ \<Rightarrow> Inl (Rejected ''equity_invalid'')))"


section \<open>What an accepted trade satisfies\<close>

lemma required_Inr [res_simps]: "required v c = Inr x \<longleftrightarrow> v = Some (Fin x)"
  by (auto simp: required_def split: option.splits num.splits)

lemma positive_Inr [res_simps]: "positive x c = Inr u \<longleftrightarrow> 0 < x"
  by (auto simp: positive_def)

lemma non_negative_Inr [res_simps]: "non_negative x c = Inr u \<longleftrightarrow> 0 \<le> x"
  by (auto simp: non_negative_def)

lemma checked_leverage_Inr:
  "checked_leverage p l = Inr x \<longleftrightarrow>
     (case l of Some n \<Rightarrow> n = Fin x | None \<Rightarrow> x = p_default_leverage p)
     \<and> 1 \<le> x \<and> x \<le> p_max_leverage p \<and> x \<le> HARD_MAX_LEVERAGE"
  by (auto simp: checked_leverage_def not_less split: option.splits num.splits if_splits)

definition args_ok :: "profile \<Rightarrow> sizing_args \<Rightarrow> bool" where
  "args_ok p a \<longleftrightarrow>
     0 < a_equity a \<and> 0 < a_entry a \<and> 0 < a_atr a \<and> 0 \<le> a_gap a \<and> 0 \<le> a_fee_rate a
     \<and> 0 \<le> a_funding_periods a \<and> 0 \<le> a_slippage_rate a \<and> 0 < a_lot_step a
     \<and> 0 < a_min_quantity a \<and> 0 < a_stop a \<and> 0 \<le> a_open_risk a \<and> 0 \<le> a_open_notional a
     \<and> 0 \<le> a_remaining_daily a \<and> 0 \<le> a_grade_risk a \<and> 0 \<le> a_open_positions a
     \<and> a_open_positions a < p_max_open_positions p"

lemma check_inputs_Inr [res_simps]: "check_inputs p a = Inr u \<longleftrightarrow> args_ok p a"
  by (simp add: check_inputs_def args_ok_def res_simps not_le not_less)

lemma read_inputs_values:
  "read_inputs d rc = Inr a \<Longrightarrow>
     in_equity d = Some (Fin (a_equity a)) \<and> in_entry d = Some (Fin (a_entry a))
     \<and> in_stop d = Some (Fin (a_stop a)) \<and> in_lot_step d = Some (Fin (a_lot_step a))
     \<and> in_open_positions d = Some (a_open_positions a) \<and> in_direction d = Some (a_direction a)
     \<and> in_grade d = Some (a_grade a) \<and> in_open_risk_percent d = Some (Fin (a_open_risk a))
     \<and> in_open_notional d = Some (Fin (a_open_notional a))
     \<and> in_remaining_daily_budget_percent d = Some (Fin (a_remaining_daily a))
     \<and> (a_direction a = ''long'' \<or> a_direction a = ''short'') \<and> (a_grade a = C \<longrightarrow> rc)"
  by (auto simp: read_inputs_def res_simps)

text \<open>
  The elimination rule the bounds rest on: an accepted trade comes from one set of arguments, and
  every figure of the result is the value of its stage.
\<close>

lemma size_trade_elim:
  assumes "size_trade p d pr pg rc = Inr r"
  obtains a er room price_risk where
    "valid_profile p" "assert_promotion_allows p pr = Inr ()"
    "read_inputs d rc = Inr a" "args_ok p a"
    "checked_stop p a = Inr (sz_stop_distance r)"
    "checked_leverage p (in_leverage d) = Inr (sz_leverage r)"
    "effective_risk p a rc = Inr er"
    "sz_adverse_distance r = dadd (sz_stop_distance r) (a_gap a)"
    "notional_room_of p a = Inr room"
    "capped_quantity a pg room
       (round_lot (ddiv (ddiv (dmul (a_equity a) (fst er)) 100)
                     (dadd (sz_adverse_distance r) (args_unit_cost a))) (a_lot_step a))
       = Inr (sz_quantity r, sz_notional_capped r)"
    "quantize8 round_down (dmul (sz_quantity r) (a_entry a)) = Inr (sz_notional r)"
    "quantize8 round_down (ddiv (sz_notional r) (sz_leverage r)) = Inr (sz_margin r)"
    "quantize8 round_down (dmul (sz_quantity r) (args_unit_cost a)) = Inr (sz_cost_amount r)"
    "quantize8 round_down (dmul (sz_quantity r) (sz_adverse_distance r)) = Inr price_risk"
    "sz_risk_amount r = dadd price_risk (sz_cost_amount r)"
    "sz_cost_share_of_r r = (if sz_risk_amount r \<noteq> 0 then ddiv (sz_cost_amount r) (sz_risk_amount r) else 1)"
    "0 < sz_risk_amount r"
    "sz_risk_amount r \<le> dadd (ddiv (dmul (a_equity a) (fst er)) 100) QUANTUM"
    "quantize8 round_down (dmul (ddiv (sz_risk_amount r) (a_equity a)) 100)
       = Inr (sz_effective_risk_percent r)"
    "sz_cost_share_of_r r \<le> p_max_cost_share_of_r p"
    "sz_grade_risk_percent r = a_grade_risk a" "sz_profile_risk_percent r = snd er"
    "sz_ceiling_percent r = risk_ceiling_for (p_kind p)"
    "sz_budget_room_percent r = budget_room_of p a"
proof -
  from assms show ?thesis
    unfolding size_trade_def Let_def
    apply (simp only: res_simps not_le not_less de_Morgan_disj sum.inject)
    apply (elim exE conjE)
    apply (rule that)
    apply (simp_all only: prod.collapse fst_conv snd_conv simp_thms)
    apply (auto simp: prod_eq_iff)
    done
qed

section \<open>The exact loss of an accepted trade\<close>

text \<open>
  \<open>unit_loss\<close> is the exact loss per unit when the stop is hit after the modelled gap, with both
  fees, funding and slippage. \<open>risk_cap\<close> is the exact percent of equity the policy allows.
\<close>

definition unit_loss :: "sizing_args \<Rightarrow> rat" where
  "unit_loss a =
     \<bar>a_entry a - a_stop a\<bar> + a_gap a
     + (a_entry a * a_fee_rate a + a_stop a * a_fee_rate a
        + a_entry a * \<bar>a_funding_rate a\<bar> * a_funding_periods a + a_entry a * a_slippage_rate a)"

definition risk_cap :: "profile \<Rightarrow> sizing_args \<Rightarrow> bool \<Rightarrow> rat" where
  "risk_cap p a replace_grade_cap =
     min4 (a_grade_risk a) (risk_ceiling_for (p_kind p))
       (if replace_grade_cap then a_grade_risk a
        else (case p_risk_percent_by_grade p (a_grade a) of Some x \<Rightarrow> x | None \<Rightarrow> 0))
       (min4 (p_daily_loss_limit_percent p) HARD_MAX_DAILY_LOSS_PERCENT (a_remaining_daily a)
          (p_max_aggregate_open_risk_percent p) - a_open_risk a)"

lemma round_lot_le:
  assumes "0 \<le> q" "0 < l"
  shows "0 \<le> round_lot q l \<and> round_lot q l \<le> (1 + EPS) ^ 2 * q"
proof -
  have "to_integral (ddiv q l) \<le> (1 + EPS) ^ 1 * (q / l)"
    using ddiv_up [of q l 0 q] assms to_integral_le [of "ddiv q l"] ddiv_nonneg [of q l] by simp
  then have "round_lot q l \<le> (1 + EPS) ^ Suc 1 * (q / l * l)"
    unfolding round_lot_def using assms
    by (intro dmul_up) (auto intro!: to_integral_nonneg ddiv_nonneg)
  then show ?thesis
    using assms
    by (auto simp: round_lot_def numeral_2_eq_2 intro!: dmul_nonneg to_integral_nonneg ddiv_nonneg)
qed

lemma args_unit_cost_nonneg: "args_ok p a \<Longrightarrow> 0 \<le> args_unit_cost a"
  by (simp add: args_unit_cost_def unit_cost_def args_ok_def dec_sign)

lemma unit_cost_low:
  assumes sign: "0 \<le> entry" "0 \<le> stop" "0 \<le> fee" "0 \<le> periods" "0 \<le> slip"
  shows "(1 - EPS) ^ 5 * (entry * fee + stop * fee + entry * \<bar>rate\<bar> * periods + entry * slip)
      \<le> unit_cost entry stop fee rate periods slip"
proof -
  have m: "(1 - EPS) ^ 1 * (x * y) \<le> dmul x y" if "0 \<le> x" "0 \<le> y" for x y
    using dmul_low [of x y 0 x] that by simp
  have s: "(1 - EPS) ^ 2 * (entry * fee + stop * fee) \<le> dadd (dmul entry fee) (dmul stop fee)"
    using sign dadd_low [OF _ _ m m, of entry fee stop fee] by (simp add: numeral_2_eq_2 dec_sign)
  have f: "(1 - EPS) ^ 3 * (entry * \<bar>rate\<bar> * periods) \<le> dmul (dmul entry (dabs rate)) periods"
  proof -
    have "(1 - EPS) ^ 2 * (entry * \<bar>rate\<bar>) \<le> dmul entry (dabs rate)"
      using dmul_low [OF _ _ dabs_low, of rate entry] sign
      by (simp add: numeral_2_eq_2 dmul_def mult.commute)
    from dmul_low [OF _ _ this, of periods] show ?thesis using sign by (simp add: dec_sign)
  qed
  have sf: "(1 - EPS) ^ 4 * (entry * fee + stop * fee + entry * \<bar>rate\<bar> * periods)
      \<le> dadd (dadd (dmul entry fee) (dmul stop fee)) (dmul (dmul entry (dabs rate)) periods)"
    using dadd_low [OF _ _ dec28.low_pow_mono [OF _ _ s, of 3] f] sign by (simp add: dec_sign)
  have "(1 - EPS) ^ 4 * (entry * slip) \<le> dmul entry slip"
    using m sign by (intro dec28.low_pow_mono [of _ 1 4]) auto
  from dadd_low [OF _ _ sf this] show ?thesis using sign by (simp add: unit_cost_def dec_sign)
qed

lemma args_unit_cost_low:
  assumes "args_ok p a"
  shows "(1 - EPS) ^ 5 * (a_entry a * a_fee_rate a + a_stop a * a_fee_rate a
      + a_entry a * \<bar>a_funding_rate a\<bar> * a_funding_periods a + a_entry a * a_slippage_rate a)
      \<le> args_unit_cost a"
  using assms unfolding args_unit_cost_def by (intro unit_cost_low) (auto simp: args_ok_def)

lemma checked_stop_Inr:
  "checked_stop p a = Inr s \<Longrightarrow>
     dsub (max (a_entry a) (a_stop a)) (min (a_entry a) (a_stop a)) = s \<and> a_entry a \<noteq> a_stop a
     \<and> (if a_direction a = ''long'' then a_stop a < a_entry a else a_entry a < a_stop a)
     \<and> dmul (p_min_stop_atr_multiple p) (a_atr a) \<le> s
     \<and> dmul (a_entry a) (p_min_stop_absolute_floor p) \<le> s"
  by (auto simp: checked_stop_def stop_distance_of_def Let_def res_simps max_def min_def
      split: if_splits)

lemma checked_stop_pos: "checked_stop p a = Inr s \<Longrightarrow> 0 < s"
  using checked_stop_Inr [of p a s] dsub_pos_iff by (fastforce simp: max_def min_def)

lemma denominator_low:
  assumes "args_ok p a" "checked_stop p a = Inr s"
  shows "(1 - EPS) ^ 6 * unit_loss a \<le> dadd (dadd s (a_gap a)) (args_unit_cost a)"
proof -
  have s: "(1 - EPS) ^ 1 * \<bar>a_entry a - a_stop a\<bar> \<le> s" "0 < s"
    using checked_stop_Inr [OF assms(2)] checked_stop_pos [OF assms(2)]
      dsub_low [of "min (a_entry a) (a_stop a)" "max (a_entry a) (a_stop a)"]
    by (auto simp: max_def min_def abs_if split: if_splits)
  have gap: "0 \<le> a_gap a" using assms(1) by (simp add: args_ok_def)
  have "(1 - EPS) ^ 2 * (\<bar>a_entry a - a_stop a\<bar> + a_gap a) \<le> dadd s (a_gap a)"
    using dadd_low [of s "a_gap a" 1 _ "a_gap a", OF _ gap s(1)] s(2) gap
      dec28.low_pow_mono [of "a_gap a" 0 1 "a_gap a"] by (simp add: numeral_2_eq_2)
  then have "(1 - EPS) ^ 5 * (\<bar>a_entry a - a_stop a\<bar> + a_gap a) \<le> dadd s (a_gap a)"
    using gap by (intro dec28.low_pow_mono [of _ 2 5]) auto
  from dadd_low [OF _ _ this args_unit_cost_low [OF assms(1)]] show ?thesis
    using args_unit_cost_nonneg [OF assms(1)] s(2) gap
    by (simp add: unit_loss_def dec_sign add.assoc)
qed

lemma budget_room_up:
  assumes "0 < budget_room_of p a"
  shows "budget_room_of p a \<le> (1 + EPS) ^ 1 *
     (min4 (p_daily_loss_limit_percent p) HARD_MAX_DAILY_LOSS_PERCENT (a_remaining_daily a)
        (p_max_aggregate_open_risk_percent p) - a_open_risk a)"
proof -
  have "budget_room_of p a = dsub (min4 (p_daily_loss_limit_percent p) HARD_MAX_DAILY_LOSS_PERCENT
      (a_remaining_daily a) (p_max_aggregate_open_risk_percent p)) (a_open_risk a)"
    by (simp only: budget_room_of_def Let_def dsub_def min_of_mono [OF dec28.mono_rnd, symmetric]
        min_diff_distrib_left)
  then show ?thesis
    using assms dsub_up dsub_pos_iff by (metis less_imp_le)
qed

lemma le_mult_min: "x \<le> c * a \<Longrightarrow> x \<le> c * b \<Longrightarrow> x \<le> c * min a b" for x :: rat
  by (simp add: min_def)

lemma effective_risk_Inr:
  "effective_risk p a rc = Inr er \<Longrightarrow>
     \<exists>x. p_risk_percent_by_grade p (a_grade a) = Some x \<and> 0 < fst er \<and> 0 < budget_room_of p a
       \<and> fst er \<le> a_grade_risk a \<and> fst er \<le> risk_ceiling_for (p_kind p)
       \<and> fst er \<le> budget_room_of p a \<and> (\<not> rc \<longrightarrow> fst er \<le> x)"
  by (cases rc; cases er)
     (simp_all add: effective_risk_def Let_def res_simps not_le min_le_iff_disj)

lemma effective_risk_up:
  assumes "effective_risk p a rc = Inr er"
  shows "0 < fst er \<and> fst er \<le> (1 + EPS) ^ 1 * risk_cap p a rc"
proof -
  from effective_risk_Inr [OF assms] obtain x where b: "0 < budget_room_of p a" and pos: "0 < fst er"
    and er: "fst er \<le> a_grade_risk a" "fst er \<le> risk_ceiling_for (p_kind p)"
      "fst er \<le> budget_room_of p a" "p_risk_percent_by_grade p (a_grade a) = Some x"
      "\<not> rc \<longrightarrow> fst er \<le> x"
    by blast
  have up: "fst er \<le> (1 + EPS) ^ 1 * y" if "fst er \<le> y" for y
    using dec28.up_pow_mono [of y 0 1 "fst er"] that pos by simp
  have "fst er \<le> (1 + EPS) ^ 1 * (if rc then a_grade_risk a else x)"
    using er by (intro up) auto
  then show ?thesis
    using pos order_trans [OF er(3) budget_room_up [OF b]] up [OF er(1)] up [OF er(2)]
    unfolding risk_cap_def er(4) option.case by (intro conjI le_mult_min)
qed

lemma capped_quantity_Inr:
  assumes "capped_quantity a pg room q0 = Inr (q, capped)"
  shows "a_min_quantity a \<le> q"
    "\<not> capped \<and> q = q0 \<and> dmul q0 (a_entry a) \<le> room
     \<or> capped \<and> \<not> pg \<and> q = round_lot (ddiv room (a_entry a)) (a_lot_step a) \<and> room < dmul q0 (a_entry a)"
  using assms by (auto simp: capped_quantity_def res_simps split: if_splits)

lemma capped_quantity_up:
  assumes "capped_quantity a pg room q0 = Inr (q, capped)" "args_ok p a" "0 \<le> q0" "0 < room"
  shows "q \<le> (1 + EPS) ^ 4 * q0" "q * a_entry a \<le> (1 + EPS) ^ 3 * (room / (1 - EPS))"
proof -
  have pos: "0 < a_entry a" "0 < a_lot_step a" using assms(2) by (auto simp: args_ok_def)
  have e: "0 < 1 - EPS" "1 \<le> 1 / (1 - EPS)" by (simp_all add: EPS_def)
  have lot: "round_lot (ddiv room (a_entry a)) (a_lot_step a) \<le> (1 + EPS) ^ 3 * (room / a_entry a)"
    using round_lot_le [of "ddiv room (a_entry a)" "a_lot_step a"] pos assms(4)
      ddiv_up [of room "a_entry a" 0 room]
      dec28.up_pow_trans [of _ 2 "ddiv room (a_entry a)" 1 "room / a_entry a"]
    by (simp add: dec_sign numeral_3_eq_3)
  have mul: "dmul q0 (a_entry a) \<le> (1 + EPS) ^ 1 * (q0 * a_entry a)"
    using dmul_up [of q0 "a_entry a" 0 q0] assms(3) pos by simp
  have q: "q = q0 \<and> dmul q0 (a_entry a) \<le> room
      \<or> q = round_lot (ddiv room (a_entry a)) (a_lot_step a) \<and> room < dmul q0 (a_entry a)"
    using capped_quantity_Inr(2) [OF assms(1)] by blast
  show "q \<le> (1 + EPS) ^ 4 * q0"
    using q
  proof (elim disjE conjE)
    assume "q = q0" then show ?thesis
      using dec28.up_pow_mono [of q0 0 4 q0] assms(3) by simp
  next
    assume *: "q = round_lot (ddiv room (a_entry a)) (a_lot_step a)" "room < dmul q0 (a_entry a)"
    then have "room / a_entry a \<le> (1 + EPS) ^ 1 * q0"
      using mul pos by (simp add: pos_divide_le_eq mult.assoc)
    from dec28.up_pow_trans [OF lot this] show ?thesis using * by simp
  qed
  show "q * a_entry a \<le> (1 + EPS) ^ 3 * (room / (1 - EPS))"
    using q
  proof (elim disjE conjE)
    assume *: "q = q0" "dmul q0 (a_entry a) \<le> room"
    then have "(1 - EPS) * (q * a_entry a) \<le> room"
      using dmul_low [of q0 "a_entry a" 0 q0] assms(3) pos by simp
    then have "q * a_entry a \<le> room / (1 - EPS)" using e by (simp add: pos_le_divide_eq mult.commute)
    then show ?thesis using dec28.up_pow_mono [of "room / (1 - EPS)" 0 3] assms(4) e by simp
  next
    assume "q = round_lot (ddiv room (a_entry a)) (a_lot_step a)"
    then have "q * a_entry a \<le> (1 + EPS) ^ 3 * room"
      using lot pos by (simp add: pos_le_divide_eq)
    also have "\<dots> \<le> (1 + EPS) ^ 3 * (room / (1 - EPS))"
      using e assms(4) mult_left_mono [of 1 "1 / (1 - EPS)" room] dec28.u_nonneg
      by (intro mult_left_mono) auto
    finally show ?thesis .
  qed
qed

lemma eps_budget:
  "(1 + EPS) ^ 10 \<le> (1 + 1 / 10 ^ 26) * (1 - EPS) ^ 6"
  "(1 + EPS) ^ 5 \<le> (1 + 1 / 10 ^ 26) * (1 - EPS)"
  by (simp_all add: EPS_def field_simps)

text \<open>The quantity computed from the risk amount, before any notional cap.\<close>

lemma risk_quantity_up:
  assumes "args_ok p a" "checked_stop p a = Inr s" "0 < e" "e \<le> (1 + EPS) ^ 1 * cap"
  defines "q \<equiv> round_lot (ddiv (ddiv (dmul (a_equity a) e) 100)
                            (dadd (dadd s (a_gap a)) (args_unit_cost a))) (a_lot_step a)"
  shows "0 \<le> q" "(1 - EPS) ^ 6 * (q * unit_loss a) \<le> (1 + EPS) ^ 6 * (a_equity a * cap / 100)"
proof -
  define den where "den = dadd (dadd s (a_gap a)) (args_unit_cost a)"
  have pos: "0 < a_equity a" "0 < a_lot_step a" "0 \<le> a_gap a" "0 < den"
    using assms(1) checked_stop_pos [OF assms(2)] args_unit_cost_nonneg [OF assms(1)]
    by (simp_all add: args_ok_def den_def dec_sign)
  have "e * a_equity a \<le> (1 + EPS) ^ 1 * (cap * a_equity a)"
    using mult_right_mono [OF assms(4), of "a_equity a"] pos by (simp add: mult.assoc)
  then have "dmul (a_equity a) e \<le> (1 + EPS) ^ 2 * (cap * a_equity a)"
    using dec28.rnd_up_pow [of "a_equity a * e" 1 "cap * a_equity a"] pos assms(3)
    by (simp add: dmul_def mult.commute numeral_2_eq_2)
  then have "ddiv (dmul (a_equity a) e) 100 \<le> (1 + EPS) ^ 3 * (cap * a_equity a / 100)"
    using ddiv_up [of "dmul (a_equity a) e" 100 2] pos assms(3) by (simp add: dec_sign numeral_3_eq_3)
  then have amount: "ddiv (ddiv (dmul (a_equity a) e) 100) den
      \<le> (1 + EPS) ^ 4 * (cap * a_equity a / 100 / den)" (is "?x \<le> _")
    using ddiv_up [of "ddiv (dmul (a_equity a) e) 100" den 3 "cap * a_equity a / 100"] pos assms(3)
    by (simp add: dec_sign)
  have "0 \<le> ?x" using pos assms(3) by (simp add: dec_sign)
  note lot = round_lot_le [OF this pos(2)]
  then show "0 \<le> q" by (simp add: q_def den_def)
  have "q \<le> (1 + EPS) ^ 6 * (cap * a_equity a / 100 / den)"
    using dec28.up_pow_trans [OF conjunct2 [OF lot] amount] by (simp add: q_def den_def)
  then have "q * den \<le> (1 + EPS) ^ 6 * (a_equity a * cap / 100)"
    using pos by (simp add: field_simps)
  moreover have "q * ((1 - EPS) ^ 6 * unit_loss a) \<le> q * den"
    using denominator_low [OF assms(1,2)] \<open>0 \<le> q\<close> by (intro mult_left_mono) (auto simp: den_def)
  ultimately show "(1 - EPS) ^ 6 * (q * unit_loss a) \<le> (1 + EPS) ^ 6 * (a_equity a * cap / 100)"
    by (simp add: mult.left_commute)
qed

lemma unit_loss_nonneg: "args_ok p a \<Longrightarrow> 0 \<le> unit_loss a"
  by (simp add: unit_loss_def args_ok_def)

lemma accepted_loss_bound:
  assumes "size_trade p d pr pg rc = Inr r" "read_inputs d rc = Inr a"
  shows "sz_quantity r * unit_loss a \<le> (1 + 1 / 10 ^ 26) * (a_equity a * risk_cap p a rc / 100)"
  using assms(1)
proof (rule size_trade_elim)
  fix a' er room
  assume *: "read_inputs d rc = Inr a'" "args_ok p a'" "checked_stop p a' = Inr (sz_stop_distance r)"
    "effective_risk p a' rc = Inr er"
    "sz_adverse_distance r = dadd (sz_stop_distance r) (a_gap a')"
    "notional_room_of p a' = Inr room"
    "capped_quantity a' pg room
       (round_lot (ddiv (ddiv (dmul (a_equity a') (fst er)) 100)
                     (dadd (sz_adverse_distance r) (args_unit_cost a'))) (a_lot_step a'))
       = Inr (sz_quantity r, sz_notional_capped r)" (is "capped_quantity _ _ _ ?q = _")
  have a: "a' = a" using assms(2) *(1) by simp
  note er = effective_risk_up [OF *(4)]
  have cap0: "0 \<le> a_equity a * risk_cap p a rc / 100"
    using er a *(2) dec28.u_nonneg zero_less_mult_iff [of "(1 + EPS) ^ 1" "risk_cap p a rc"]
    by (auto simp: args_ok_def)
  note q = risk_quantity_up [OF *(2,3) er [THEN conjunct1] er [THEN conjunct2], folded *(5)]
  have room: "0 < room" using *(6) by (auto simp: notional_room_of_def Let_def split: if_splits)
  note cap = capped_quantity_up(1) [OF *(7,2) q(1) room]
  have "(1 - EPS) ^ 6 * (sz_quantity r * unit_loss a) \<le> (1 - EPS) ^ 6 * ((1 + EPS) ^ 4 * ?q * unit_loss a)"
    using cap unit_loss_nonneg [OF *(2)] dec28.u_le_1 a
    by (intro mult_left_mono mult_right_mono) auto
  also have "\<dots> = (1 + EPS) ^ 4 * ((1 - EPS) ^ 6 * (?q * unit_loss a))" by (simp only: mult_ac)
  also have "\<dots> \<le> (1 + EPS) ^ 4 * ((1 + EPS) ^ 6 * (a_equity a * risk_cap p a rc / 100))"
    using q(2) a dec28.u_nonneg by (intro mult_left_mono) auto
  also have "\<dots> = (1 + EPS) ^ 10 * (a_equity a * risk_cap p a rc / 100)"
    by (simp only: mult.assoc [symmetric] power_add [symmetric]) simp
  also have "\<dots> \<le> (1 + 1 / 10 ^ 26) * (1 - EPS) ^ 6 * (a_equity a * risk_cap p a rc / 100)"
    by (rule mult_right_mono [OF eps_budget(1) cap0])
  finally have "(1 - EPS) ^ 6 * (sz_quantity r * unit_loss a)
      \<le> (1 - EPS) ^ 6 * ((1 + 1 / 10 ^ 26) * (a_equity a * risk_cap p a rc / 100))"
    by (simp only: mult_ac)
  moreover have "0 < (1 - EPS) ^ 6" by (simp add: EPS_def)
  ultimately show ?thesis by (simp only: mult_le_cancel_left_pos)
qed

lemma notional_room_up:
  assumes "notional_room_of p a = Inr room" "args_ok p a"
  shows "0 < room" "room \<le> (1 + EPS) ^ 2 * (a_equity a * p_max_notional_per_trade_percent p / 100)"
    "room \<le> (1 + EPS) * ((1 + EPS) ^ 2 * (a_equity a * p_max_aggregate_notional_percent p / 100)
               - a_open_notional a)"
proof -
  define amount where "amount x = ddiv (dmul (a_equity a) x) 100" for x
  have room: "0 < dsub (amount (p_max_aggregate_notional_percent p)) (a_open_notional a)"
    "0 < amount (p_max_notional_per_trade_percent p)"
    "room = min (amount (p_max_notional_per_trade_percent p))
              (dsub (amount (p_max_aggregate_notional_percent p)) (a_open_notional a))"
    using assms(1) by (auto simp: notional_room_of_def Let_def amount_def not_le split: if_splits)
  then show "0 < room" by simp
  have up: "amount x \<le> (1 + EPS) ^ 2 * (a_equity a * x / 100)" if "0 < amount x" for x
  proof -
    have x: "0 < x"
      using that assms(2)
      by (auto simp: amount_def ddiv_def dmul_def dec28.rnd_pos_iff args_ok_def zero_less_mult_iff)
    have eq: "0 < a_equity a" using assms(2) by (simp add: args_ok_def)
    have "dmul (a_equity a) x \<le> (1 + EPS) ^ 1 * (a_equity a * x)"
      using dmul_up [of "a_equity a" x 0 "a_equity a"] x eq by simp
    then show ?thesis
      using ddiv_up [of "dmul (a_equity a) x" 100 1 "a_equity a * x"] x eq
      by (simp add: amount_def dec_sign numeral_2_eq_2)
  qed
  show "room \<le> (1 + EPS) ^ 2 * (a_equity a * p_max_notional_per_trade_percent p / 100)"
    using up [OF room(2)] room(3) by simp
  have agg: "a_open_notional a < amount (p_max_aggregate_notional_percent p)"
    using room(1) by (simp add: dsub_pos_iff)
  then have "room \<le> (1 + EPS) * (amount (p_max_aggregate_notional_percent p) - a_open_notional a)"
    using dsub_up [of "a_open_notional a" "amount (p_max_aggregate_notional_percent p)"] room(3)
    by simp
  also have "\<dots> \<le> (1 + EPS) * ((1 + EPS) ^ 2 * (a_equity a * p_max_aggregate_notional_percent p / 100)
               - a_open_notional a)"
    using up [of "p_max_aggregate_notional_percent p"] agg assms(2) dec28.u_nonneg
    by (intro mult_left_mono diff_right_mono) (auto simp: args_ok_def)
  finally show "room \<le> (1 + EPS) * ((1 + EPS) ^ 2 * (a_equity a * p_max_aggregate_notional_percent p / 100)
               - a_open_notional a)" .
qed

lemma scale_budget:
  assumes "x \<le> (1 + EPS) ^ 3 * (y / (1 - EPS))" "0 \<le> y" "y \<le> (1 + EPS) ^ 2 * z"
  shows "x \<le> (1 + 1 / 10 ^ 26) * z"
proof -
  have pos: "0 < 1 - EPS" "0 < (1 + EPS) ^ 2" by (simp_all add: EPS_def)
  have z: "0 \<le> z" using assms(2,3) pos(2) by (metis order_trans zero_le_mult_iff not_le)
  have "x * (1 - EPS) \<le> (1 + EPS) ^ 3 * y"
    using assms(1) pos by (simp add: field_simps)
  also have "\<dots> \<le> (1 + EPS) ^ 3 * ((1 + EPS) ^ 2 * z)"
    using assms(3) dec28.u_nonneg by (intro mult_left_mono) auto
  also have "\<dots> = (1 + EPS) ^ 5 * z" by (simp only: mult.assoc [symmetric] power_add [symmetric]) simp
  also have "\<dots> \<le> (1 + 1 / 10 ^ 26) * (1 - EPS) * z"
    by (rule mult_right_mono [OF eps_budget(2) z])
  finally have "(1 - EPS) * x \<le> (1 - EPS) * ((1 + 1 / 10 ^ 26) * z)"
    by (simp only: mult_ac)
  then show ?thesis using pos(1) by (simp only: mult_le_cancel_left_pos)
qed

lemma accepted_notional_bound:
  assumes "size_trade p d pr pg rc = Inr r" "read_inputs d rc = Inr a"
  shows "sz_quantity r * a_entry a \<le>
           (1 + 1 / 10 ^ 26) * (a_equity a * p_max_notional_per_trade_percent p / 100)"
    and "a_open_notional a + sz_quantity r * a_entry a \<le>
           (1 + 1 / 10 ^ 25) * (a_equity a * p_max_aggregate_notional_percent p / 100)"
proof -
  from assms(1) obtain er room where *: "args_ok p a" "checked_stop p a = Inr (sz_stop_distance r)"
    "effective_risk p a rc = Inr er"
    "sz_adverse_distance r = dadd (sz_stop_distance r) (a_gap a)"
    "notional_room_of p a = Inr room"
    "capped_quantity a pg room
       (round_lot (ddiv (ddiv (dmul (a_equity a) (fst er)) 100)
                     (dadd (sz_adverse_distance r) (args_unit_cost a))) (a_lot_step a))
       = Inr (sz_quantity r, sz_notional_capped r)"
    using assms(2) by (elim size_trade_elim) simp
  note er = effective_risk_up [OF *(3)]
  note room = notional_room_up [OF *(5,1)]
  note q = capped_quantity_up(2) [OF *(6,1) _ room(1)]
    risk_quantity_up(1) [OF *(1,2) er [THEN conjunct1] er [THEN conjunct2], folded *(4)]
  from q(1) [OF q(2)] have qe: "sz_quantity r * a_entry a \<le> (1 + EPS) ^ 3 * (room / (1 - EPS))" .
  then show "sz_quantity r * a_entry a \<le>
      (1 + 1 / 10 ^ 26) * (a_equity a * p_max_notional_per_trade_percent p / 100)"
    using room by (intro scale_budget) auto
  define agg where "agg = a_equity a * p_max_aggregate_notional_percent p / 100"
  have e: "0 < 1 + EPS" "1 + EPS \<le> (1 + 1 / 10 ^ 26)" by (simp_all add: EPS_def)
  have "room \<le> (1 + EPS) ^ 2 * ((1 + EPS) * agg - a_open_notional a / (1 + EPS))"
  proof -
    have "k ^ 2 * (k * x - y / k) = k * (k ^ 2 * x - y)" if "0 < k" for k x y :: rat
      using that by (simp add: power2_eq_square field_simps)
    from this [OF e(1)] show ?thesis using room(3) by (simp only: agg_def)
  qed
  then have "sz_quantity r * a_entry a \<le> (1 + 1 / 10 ^ 26) * ((1 + EPS) * agg - a_open_notional a / (1 + EPS))"
    using room(1) by (intro scale_budget [OF qe]) auto
  moreover have "a_open_notional a \<le> (1 + 1 / 10 ^ 26) * (a_open_notional a / (1 + EPS))"
  proof -
    have "a_open_notional a * (1 + EPS) \<le> a_open_notional a * (1 + 1 / 10 ^ 26)"
      using *(1) e(2) by (intro mult_left_mono) (auto simp: args_ok_def)
    then show ?thesis
      unfolding times_divide_eq_right pos_le_divide_eq [OF e(1)] by (simp only: mult.commute)
  qed
  ultimately have "a_open_notional a + sz_quantity r * a_entry a \<le> (1 + 1 / 10 ^ 26) * ((1 + EPS) * agg)"
    by (simp only: right_diff_distrib)
  also have "\<dots> \<le> (1 + 1 / 10 ^ 25) * agg"
  proof -
    have "(1 + 1 / 10 ^ 26) * (1 + EPS) \<le> 1 + 1 / 10 ^ 25" by (simp add: EPS_def)
    moreover have "0 \<le> agg"
    proof -
      have "0 < (1 + EPS) * ((1 + EPS) ^ 2 * agg - a_open_notional a)"
        using room(1,3) by (simp only: agg_def)
      then have "0 < (1 + EPS) ^ 2 * agg - a_open_notional a"
        using e(1) by (simp only: zero_less_mult_iff) auto
      then have "0 \<le> (1 + EPS) ^ 2 * agg" using *(1) by (simp add: args_ok_def)
      then show ?thesis using e(1) by (simp add: zero_le_mult_iff)
    qed
    ultimately show ?thesis by (simp only: mult.assoc [symmetric] mult_right_mono)
  qed
  finally show "a_open_notional a + sz_quantity r * a_entry a \<le>
      (1 + 1 / 10 ^ 25) * (a_equity a * p_max_aggregate_notional_percent p / 100)"
    by (simp only: agg_def)
qed

lemma read_inputs_leverage [simp]: "read_inputs (d\<lparr>in_leverage := l\<rparr>) rc = read_inputs d rc"
  by (simp add: read_inputs_def cong del: option.case_cong_weak if_weak_cong)

lemma size_trade_no_leverage:
  assumes "size_trade p (d\<lparr>in_leverage := l\<rparr>) pr pg rc = Inr r"
    and "size_trade p (d\<lparr>in_leverage := l'\<rparr>) pr pg rc = Inr r'"
  shows "r\<lparr>sz_leverage := x, sz_margin := y\<rparr> = r'\<lparr>sz_leverage := x, sz_margin := y\<rparr>"
proof -
  from assms(1) obtain a er room pri where r: "read_inputs d rc = Inr a"
    "checked_stop p a = Inr (sz_stop_distance r)" "effective_risk p a rc = Inr er"
    "sz_adverse_distance r = dadd (sz_stop_distance r) (a_gap a)"
    "notional_room_of p a = Inr room"
    "capped_quantity a pg room
       (round_lot (ddiv (ddiv (dmul (a_equity a) (fst er)) 100)
                     (dadd (sz_adverse_distance r) (args_unit_cost a))) (a_lot_step a))
       = Inr (sz_quantity r, sz_notional_capped r)"
    "quantize8 round_down (dmul (sz_quantity r) (a_entry a)) = Inr (sz_notional r)"
    "quantize8 round_down (dmul (sz_quantity r) (args_unit_cost a)) = Inr (sz_cost_amount r)"
    "quantize8 round_down (dmul (sz_quantity r) (sz_adverse_distance r)) = Inr pri"
    "sz_risk_amount r = dadd pri (sz_cost_amount r)"
    "sz_cost_share_of_r r = (if sz_risk_amount r \<noteq> 0 then ddiv (sz_cost_amount r) (sz_risk_amount r) else 1)"
    "quantize8 round_down (dmul (ddiv (sz_risk_amount r) (a_equity a)) 100)
       = Inr (sz_effective_risk_percent r)"
    "sz_grade_risk_percent r = a_grade_risk a" "sz_profile_risk_percent r = snd er"
    "sz_ceiling_percent r = risk_ceiling_for (p_kind p)"
    "sz_budget_room_percent r = budget_room_of p a"
    by (rule size_trade_elim) (simp only: read_inputs_leverage)
  from assms(2) show ?thesis
  proof (rule size_trade_elim, unfold read_inputs_leverage, goal_cases)
    case (1 a' er' room' pri')
    have "a' = a" using 1(3) r(1) by simp
    note 1 = 1 [unfolded this]
    have s: "sz_stop_distance r' = sz_stop_distance r" using 1(5) r(2) by simp
    have e: "er' = er" "room' = room" using 1(7,9) r(3,5) by simp_all
    have d: "sz_adverse_distance r' = sz_adverse_distance r" using 1(8) r(4) s by simp
    have q: "sz_quantity r' = sz_quantity r" "sz_notional_capped r' = sz_notional_capped r"
      using 1(10) r(6) d e by simp_all
    have c: "sz_notional r' = sz_notional r" "sz_cost_amount r' = sz_cost_amount r" "pri' = pri"
      using 1(11,13,14) r(7,8,9) q d by simp_all
    have k: "sz_risk_amount r' = sz_risk_amount r" using 1(15) r(10) c by simp
    have "sz_cost_share_of_r r' = sz_cost_share_of_r r"
      "sz_effective_risk_percent r' = sz_effective_risk_percent r"
      using 1(16,19) r(11,12) k c by simp_all
    then show ?thesis
      using s e d q c k 1(21-24) r(13-16) by (cases r; cases r') simp
  qed
qed

section \<open>The exceptions of the sizer\<close>

lemma raises_sizer_stages:
  "raises is_rejection (assert_promotion_allows p r)"
  "raises is_rejection (read_inputs d rc)" "raises is_rejection (check_inputs p a)"
  "raises is_rejection (checked_stop p a)" "raises is_rejection (checked_leverage p l)"
  "raises is_rejection (cost_share x y)" "raises is_rejection (notional_room_of p a)"
  "raises is_rejection (capped_quantity a pg room q)"
proof -
  have r: "raises is_rejection (required v c)" for v c
    by (simp add: required_def split: option.splits num.splits)
  have p: "raises is_rejection (positive x c)" for x c by (simp add: positive_def)
  have n: "raises is_rejection (non_negative x c)" for x c by (simp add: non_negative_def)
  show "raises is_rejection (assert_promotion_allows p r)"
    unfolding assert_promotion_allows_def by (intro raises_intros raises_risk_percent; simp)
  show "raises is_rejection (read_inputs d rc)"
    unfolding read_inputs_def by (intro raises_intros r; simp)
  show "raises is_rejection (check_inputs p a)"
    unfolding check_inputs_def by (intro raises_intros p n; simp)
  show "raises is_rejection (checked_stop p a)"
    unfolding checked_stop_def stop_distance_of_def Let_def by (intro raises_intros; simp)
  show "raises is_rejection (checked_leverage p l)"
    unfolding checked_leverage_def by (intro raises_intros; simp)
  show "raises is_rejection (cost_share x y)" unfolding cost_share_def by (intro raises_intros; simp)
  show "raises is_rejection (notional_room_of p a)"
    unfolding notional_room_of_def Let_def by (intro raises_intros; simp)
  show "raises is_rejection (capped_quantity a pg room q)"
    unfolding capped_quantity_def by (intro raises_intros; simp)
qed

lemma raises_effective_risk:
  assumes "valid_profile p"
  shows "raises is_rejection (effective_risk p a rc)"
proof -
  obtain x where "p_risk_percent_by_grade p A_PLUS = Some x"
    using assms by (auto simp: valid_profile_def)
  then have "\<exists>y. profile_max_risk p = Inr y"
    by (simp add: profile_max_risk_def GRADE_ORDER_def map_filter_simps)
  then have "raises is_rejection (profile_max_risk p)" by auto
  then show ?thesis
    unfolding effective_risk_def Let_def by (intro raises_intros raises_risk_percent; simp)
qed

lemma raises_size_trade: "raises rejection_or_overflow (size_trade p d pr pg rc)"
proof -
  note stages = raises_sizer_stages [THEN raises_weaken, of rejection_or_overflow]
  note validated = raises_validate_profile [THEN raises_weaken, of rejection_or_overflow]
  show ?thesis
    unfolding size_trade_def Let_def
    by (intro raises_intros stages validated raises_quantize8
        raises_weaken [OF raises_effective_risk])
      (simp_all add: res_simps)
qed

section \<open>Batches\<close>

lemma accepted_nonneg:
  assumes "size_trade p d pr pg rc = Inr r"
  shows "0 \<le> sz_effective_risk_percent r" "0 \<le> sz_notional r" "0 < sz_quantity r"
proof -
  from assms have "0 \<le> sz_effective_risk_percent r \<and> 0 \<le> sz_notional r \<and> 0 < sz_quantity r"
  proof (rule size_trade_elim, goal_cases)
    case (1 a er room price)
    have q: "0 < sz_quantity r" using capped_quantity_Inr(1) [OF 1(10)] 1(4) by (simp add: args_ok_def)
    then show ?case
      using 1(4) 1(17) quantize8_down_le [OF 1(11)] quantize8_down_le [OF 1(19)]
      by (simp add: dec_sign args_ok_def)
  qed
  then show "0 \<le> sz_effective_risk_percent r" "0 \<le> sz_notional r" "0 < sz_quantity r" by auto
qed

lemma or_zero_nonneg:
  assumes "size_trade p d pr pg rc = Inr r"
  shows "0 \<le> or_zero (in_open_risk_percent d)" "0 \<le> or_zero (in_open_notional d)"
proof -
  from assms have "0 \<le> or_zero (in_open_risk_percent d) \<and> 0 \<le> or_zero (in_open_notional d)"
  proof (rule size_trade_elim, goal_cases)
    case (1 a er room price)
    then show ?case using read_inputs_values [OF 1(3)] by (simp add: or_zero_def args_ok_def)
  qed
  then show "0 \<le> or_zero (in_open_risk_percent d)" "0 \<le> or_zero (in_open_notional d)" by auto
qed

lemma total_low:
  assumes "0 \<le> x" "\<forall>y \<in> set ys. 0 \<le> y" "length ys \<le> n"
  shows "(1 - EPS) ^ Suc n * (x + sum_list ys) \<le> dadd x (dsum 0 ys)"
proof -
  have s: "(1 - EPS) ^ n * sum_list ys \<le> dsum 0 ys"
    using dsum_low [of 0 ys 0 0] assms by (intro dec28.low_pow_mono [OF _ assms(3)]) (auto intro: sum_list_nonneg)
  show ?thesis
    using dsum_nonneg [of 0 ys] assms dec28.low_pow_mono [of x 0 n x]
    by (intro dadd_low [OF _ _ _ s]) auto
qed

lemma size_concurrent_Inr:
  assumes "size_concurrent p orders = Inr rs"
  obtains first rest equity positions where
    "orders = first # rest" "list_all2 (\<lambda>d r. size_trade p d None False False = Inr r) orders rs"
    "in_equity first = Some (Fin equity)" "0 < equity"
    "in_open_positions first = Some positions"
    "positions + int (length orders) \<le> p_max_open_positions p"
    "dadd (or_zero (in_open_risk_percent first)) (dsum 0 (map sz_effective_risk_percent rs))
       \<le> min4 (p_max_aggregate_open_risk_percent p) (p_daily_loss_limit_percent p)
            HARD_MAX_DAILY_LOSS_PERCENT (or_zero (in_remaining_daily_budget_percent first))"
    "dadd (or_zero (in_open_notional first)) (dsum 0 (map sz_notional rs))
       \<le> ddiv (dmul equity (p_max_aggregate_notional_percent p)) 100"
proof -
  obtain first rest where o: "orders = first # rest"
    using assms by (auto simp: size_concurrent_def split: list.splits)
  show ?thesis
    using assms unfolding size_concurrent_def o Let_def list.case
    by (simp only: res_simps res_map_Inr_iff not_less not_le)
       (elim exE conjE, rule that [OF o], auto simp: o)
qed

lemma concurrent_risk_bound:
  assumes "size_concurrent p (first # rest) = Inr rs"
  shows "(1 - EPS) ^ 101 * (or_zero (in_open_risk_percent first) + sum_list (map sz_effective_risk_percent rs))
      \<le> min4 (p_max_aggregate_open_risk_percent p) (p_daily_loss_limit_percent p)
            HARD_MAX_DAILY_LOSS_PERCENT (or_zero (in_remaining_daily_budget_percent first))"
  using assms
proof (rule size_concurrent_Inr, goal_cases)
  case (1 f re equity positions)
  have each: "\<forall>r \<in> set rs. \<exists>d. size_trade p d None False False = Inr r"
    using list_all2_ex_left [OF 1(2)] by blast
  obtain r where r: "size_trade p first None False False = Inr r"
    using 1(2) by (auto simp: list_all2_Cons1)
  have pos: "\<forall>x \<in> set (map sz_effective_risk_percent rs). 0 \<le> x"
    using each accepted_nonneg(1) by fastforce
  have "valid_profile p" using r by (rule size_trade_elim)
  then have "p_max_open_positions p \<le> 100" by (simp add: valid_profile_def)
  moreover have "0 \<le> positions"
    using r
  proof (rule size_trade_elim, goal_cases)
    case (1 a er room price)
    then show ?case
      using read_inputs_values [OF 1(3)] \<open>in_open_positions f = Some positions\<close> \<open>first # rest = f # re\<close>
      by (simp add: args_ok_def)
  qed
  ultimately have "length rs \<le> 100"
    using 1(6) list_all2_lengthD [OF 1(2)] by simp
  then show ?thesis
    using total_low [OF or_zero_nonneg(1) [OF r] pos, of 100] 1(1,7) by simp
qed

section \<open>A sample trade\<close>

definition sample_profile :: profile where
  "sample_profile = (placeholder_base STANDARD)\<lparr>p_max_leverage := 5, p_max_open_positions := 3, p_max_aggregate_open_risk_percent := 2, p_daily_loss_limit_percent := 2\<rparr>"

definition sample_input :: sizing_input where
  "sample_input =
     \<lparr>in_equity = Some (Fin 10000), in_entry = Some (Fin 100), in_stop = Some (Fin 97),
      in_direction = Some ''long'', in_grade = Some A, in_grade_risk_percent = Some (Fin (1 / 2)),
      in_atr = Some (Fin 2), in_gap_beyond_stop = Some (Fin 1),
      in_fee_rate = Some (Fin 0), in_funding_rate = Some (Fin (1/1000)),
      in_funding_periods = Some (Fin 3), in_slippage_rate = Some (Fin (7 / 1000)),
      in_lot_step = Some (Fin (1 / 1000)), in_min_quantity = Some (Fin (1 / 1000)),
      in_remaining_daily_budget_percent = Some (Fin 2), in_open_risk_percent = Some (Fin 0),
      in_open_notional = Some (Fin 0), in_open_positions = Some 0, in_leverage = Some (Fin 2),
      in_margin_mode = Some ''isolated''\<rparr>"
definition sample_args :: sizing_args where
  "sample_args =
     \<lparr>a_equity = 10000, a_entry = 100, a_stop = 97, a_atr = 2, a_gap = 1, a_fee_rate = 0,
      a_funding_rate = 1 / 1000, a_funding_periods = 3, a_slippage_rate = 7 / 1000,
      a_lot_step = 1 / 1000, a_min_quantity = 1 / 1000, a_remaining_daily = 2, a_open_risk = 0,
      a_open_notional = 0, a_grade_risk = 1 / 2, a_open_positions = 0, a_direction = ''long'',
      a_grade = A\<rparr>"
lemma sample_read: "read_inputs sample_input False = Inr sample_args" 
  by (simp add: read_inputs_def sample_input_def sample_args_def required_def) code_simp

lemma sample_valid: "validate_profile sample_profile = Inr ()" by code_simp
lemma sample_promotion: "assert_promotion_allows sample_profile None = Inr ()" by code_simp
definition sample_result :: sizing_result where
  "sample_result = \<lparr>sz_quantity = 10, sz_notional = 1000, sz_margin = 500, sz_effective_risk_percent = 1 / 2,
   sz_risk_amount = 50, sz_cost_amount = 10, sz_cost_share_of_r = 1 / 5, sz_stop_distance = 3,
  sz_adverse_distance = 4, sz_notional_capped = False, sz_grade_risk_percent = 1 / 2, sz_profile_risk_percent = 1,
 sz_ceiling_percent = 2, sz_budget_room_percent = 2, sz_leverage = 2\<rparr>"

text \<open>A trade the sizer accepts, used to show that the properties below are not vacuous.\<close>

lemma sample_stages:
  "check_inputs sample_profile sample_args = Inr ()"
  "checked_stop sample_profile sample_args = Inr 3"
  "checked_leverage sample_profile (in_leverage sample_input) = Inr 2"
  "args_unit_cost sample_args = 1"
  "budget_room_of sample_profile sample_args = 2"
  "notional_room_of sample_profile sample_args = Inr 1000"
  by (simp_all add: sample_profile_def sample_input_def sample_args_def placeholder_base_def check_inputs_def positive_def
     non_negative_def checked_stop_def stop_distance_of_def checked_leverage_def ceiling_defs 
     args_unit_cost_def unit_cost_def budget_room_of_def notional_room_of_def dec_eval round_lot_def)

lemma sample_effective: "effective_risk sample_profile sample_args False = Inr (1 / 2, 1)"
  unfolding effective_risk_def sample_stages
  by (simp add: sample_args_def sample_profile_def placeholder_base_def profile_max_risk_def GRADE_ORDER_def map_filter_simps risk_percent_def
   risk_ceiling_for_def PAPER_DEMO_KINDS_def ceiling_defs)
lemma sample_sized: "size_trade sample_profile sample_input None False False = Inr sample_result" 
  unfolding size_trade_def sample_valid sample_promotion sample_read sample_stages sample_effective sample_result_def res_bind_Inr
  by (simp add: sample_args_def sample_profile_def placeholder_base_def cost_share_def capped_quantity_def  QUANTUM_def risk_ceiling_for_def PAPER_DEMO_KINDS_def ceiling_defs dec_eval round_lot_def sample_stages)

lemma sample_sized_at:
  "size_trade sample_profile (sample_input\<lparr>in_leverage := Some (Fin 1)\<rparr>) None False False
     = Inr (sample_result\<lparr>sz_leverage := 1, sz_margin := 1000\<rparr>)"
  "size_trade sample_profile (sample_input\<lparr>in_leverage := Some (Fin 2)\<rparr>) None False False
     = Inr sample_result"
proof -
  have 1: "checked_leverage sample_profile (in_leverage (sample_input\<lparr>in_leverage := Some (Fin 1)\<rparr>)) = Inr 1"
    by (simp add: checked_leverage_def sample_profile_def placeholder_base_def ceiling_defs)
  show "size_trade sample_profile (sample_input\<lparr>in_leverage := Some (Fin 1)\<rparr>) None False False
     = Inr (sample_result\<lparr>sz_leverage := 1, sz_margin := 1000\<rparr>)"
    unfolding size_trade_def sample_valid sample_promotion read_inputs_leverage sample_read sample_stages
      sample_effective sample_result_def res_bind_Inr 1
    by (simp add: sample_args_def sample_profile_def placeholder_base_def cost_share_def
        capped_quantity_def QUANTUM_def risk_ceiling_for_def PAPER_DEMO_KINDS_def ceiling_defs
        dec_eval round_lot_def sample_stages)
  have "sample_input\<lparr>in_leverage := Some (Fin 2)\<rparr> = sample_input" by (simp add: sample_input_def)
  then show "size_trade sample_profile (sample_input\<lparr>in_leverage := Some (Fin 2)\<rparr>) None False False
     = Inr sample_result"
    by (simp only: sample_sized)
qed

section \<open>Properties\<close>

text \<open>
  C2. Whatever the 28-digit arithmetic rounds on the way, a trade \<open>size_trade\<close> accepts cannot lose
  more, when its stop is hit after the modelled gap with fees, funding and slippage, than the
  exact percent of equity the policy allows (the least of the grade risk, the profile's percent,
  the code ceiling and the room left in the daily and the aggregate budgets), up to one part in
  \<open>10 ^ 26\<close>; its notional stays within the per-trade and the aggregate caps; its quantity is at least
  the exchange minimum and its leverage lies between 1 and both leverage ceilings.
\<close>

theorem size_trade_safe:
  assumes "size_trade p d promotion preserve_grade_risk replace_grade_cap = Inr r"
    and "read_inputs d replace_grade_cap = Inr a"
  shows "sz_quantity r * unit_loss a
      \<le> (1 + 1 / 10 ^ 26) * (a_equity a * risk_cap p a replace_grade_cap / 100)
    \<and> sz_quantity r * a_entry a
      \<le> (1 + 1 / 10 ^ 26) * (a_equity a * p_max_notional_per_trade_percent p / 100)
    \<and> a_open_notional a + sz_quantity r * a_entry a
      \<le> (1 + 1 / 10 ^ 25) * (a_equity a * p_max_aggregate_notional_percent p / 100)
    \<and> a_min_quantity a \<le> sz_quantity r \<and> 0 < sz_quantity r
    \<and> 1 \<le> sz_leverage r \<and> sz_leverage r \<le> p_max_leverage p \<and> sz_leverage r \<le> HARD_MAX_LEVERAGE"
proof -
  from assms(1) have "a_min_quantity a \<le> sz_quantity r"
    "1 \<le> sz_leverage r \<and> sz_leverage r \<le> p_max_leverage p \<and> sz_leverage r \<le> HARD_MAX_LEVERAGE"
    using assms(2)
    by (elim size_trade_elim, simp add: capped_quantity_Inr(1) checked_leverage_Inr)+
  then show ?thesis
    using accepted_loss_bound [OF assms] accepted_notional_bound [OF assms]
      accepted_nonneg(3) [OF assms(1)] by blast
qed

theorem size_trade_safe_witness:
  "sz_quantity sample_result * unit_loss sample_args
      \<le> (1 + 1 / 10 ^ 26) * (a_equity sample_args * risk_cap sample_profile sample_args False / 100)
   \<and> 0 < sz_quantity sample_result"
  using size_trade_safe [OF sample_sized sample_read] by blast

text \<open>
  Leverage sets the margin and nothing else: two runs of \<open>size_trade\<close> that differ only in the
  requested leverage and are both accepted agree on every figure of the result except the
  leverage and the margin; in particular on the quantity, the notional and the risk.
\<close>

theorem size_trade_leverage_sets_margin_only:
  assumes "size_trade p (d\<lparr>in_leverage := l\<rparr>) promotion preserve_grade_risk replace_grade_cap = Inr r"
    and "size_trade p (d\<lparr>in_leverage := l'\<rparr>) promotion preserve_grade_risk replace_grade_cap = Inr r'"
  shows "r' = r\<lparr>sz_leverage := sz_leverage r', sz_margin := sz_margin r'\<rparr>
    \<and> sz_quantity r' = sz_quantity r \<and> sz_risk_amount r' = sz_risk_amount r"
proof -
  have eq: "r\<lparr>sz_leverage := sz_leverage r', sz_margin := sz_margin r'\<rparr>
      = r'\<lparr>sz_leverage := sz_leverage r', sz_margin := sz_margin r'\<rparr>"
    by (rule size_trade_no_leverage [OF assms])
  also have "\<dots> = r'" by simp
  finally have r': "r\<lparr>sz_leverage := sz_leverage r', sz_margin := sz_margin r'\<rparr> = r'" .
  have "sz_quantity r' = sz_quantity r" "sz_risk_amount r' = sz_risk_amount r"
    by (subst r' [symmetric], simp)+
  then show ?thesis using r' by simp
qed

theorem size_trade_leverage_sets_margin_only_witness:
  "sz_quantity (sample_result\<lparr>sz_leverage := 1, sz_margin := 1000\<rparr>) = sz_quantity sample_result"
  using size_trade_leverage_sets_margin_only [OF sample_sized_at(2,1)] by blast

text \<open>
  C39. A batch that \<open>size_concurrent\<close> accepts is safe as a whole: every order in it was accepted by
  \<open>size_trade\<close> on its own, the number of positions stays within the profile's limit, and the risk
  already open plus the recorded risk of all the orders stays within the aggregate cap, the daily
  limit, the hard daily ceiling and the remaining daily budget, up to the 101 roundings of the sum.
\<close>

theorem size_concurrent_safe:
  assumes "size_concurrent p (first # rest) = Inr rs"
  shows "list_all2 (\<lambda>d r. size_trade p d None False False = Inr r) (first # rest) rs
    \<and> (\<exists>n. in_open_positions first = Some n \<and> n + int (length rs) \<le> p_max_open_positions p)
    \<and> (1 - EPS) ^ 101 *
        (or_zero (in_open_risk_percent first) + sum_list (map sz_effective_risk_percent rs))
      \<le> min4 (p_max_aggregate_open_risk_percent p) (p_daily_loss_limit_percent p)
            HARD_MAX_DAILY_LOSS_PERCENT (or_zero (in_remaining_daily_budget_percent first))"
  using assms
proof (rule size_concurrent_Inr, goal_cases)
  case (1 f re equity positions)
  then show ?case
    using concurrent_risk_bound [OF assms] list_all2_lengthD [OF 1(2)] by simp
qed

theorem size_concurrent_safe_witness:
  "(1 - EPS) ^ 101 * (or_zero (in_open_risk_percent sample_input)
       + sum_list (map sz_effective_risk_percent [sample_result, sample_result]))
      \<le> min4 (p_max_aggregate_open_risk_percent sample_profile)
            (p_daily_loss_limit_percent sample_profile) HARD_MAX_DAILY_LOSS_PERCENT
            (or_zero (in_remaining_daily_budget_percent sample_input))"
proof -
  have "size_concurrent sample_profile [sample_input, sample_input] = Inr [sample_result, sample_result]"
    unfolding size_concurrent_def list.case res_map.simps sample_sized res_bind_Inr
    by (simp add: sample_input_def sample_profile_def placeholder_base_def sample_result_def
        or_zero_def ceiling_defs dec_eval)
  from size_concurrent_safe [OF this] show ?thesis by blast
qed

end
