(* ===== verification/Ledger.thy ===== *)
theory Ledger
  imports Sizer
begin

text \<open>
  The absolute caps a profile gives an account ledger, \<^verbatim>\<open>services/risk_policy/ledger.py\<close>, and the
  per-claim view that replaces the three ceilings of the shared row, \<open>accounting_view\<close> and
  \<open>assign_profile_claim_caps\<close> of \<^verbatim>\<open>services/risk_policy/claim_caps.py\<close>. \<open>LedgerCaps\<close> has the prefix \<open>lc_\<close>,
  the accounting row and its view the prefix \<open>acc_\<close>.
\<close>

record ledger_caps =
  lc_max_symbol_notional :: rat
  lc_max_notional :: rat
  lc_max_daily_loss :: rat

definition symbol_cap_independent :: "ledger_caps \<Rightarrow> bool" where
  "symbol_cap_independent c \<longleftrightarrow>
     lc_max_symbol_notional c < lc_max_notional c \<and> lc_max_daily_loss c < lc_max_notional c"

text \<open>One line of \<open>caps_for_ledger\<close>: a percent of the equity, rounded down to eight places.\<close>

definition percent_amount :: "rat \<Rightarrow> rat \<Rightarrow> rat res" where
  "percent_amount equity percent = quantize8 round_down (ddiv (dmul equity percent) 100)"

definition caps_for_ledger :: "profile \<Rightarrow> num \<Rightarrow> ledger_caps res" where
  "caps_for_ledger p equity =
     res_bind (validate_profile p) (\<lambda>_.
     case equity of
       NonFinite \<Rightarrow> Inl (Rejected ''equity_invalid'')
     | Fin e \<Rightarrow>
         if e \<le> 0 then Inl (Rejected ''equity_invalid'') else
         res_bind (percent_amount e (p_max_notional_per_trade_percent p)) (\<lambda>symbol.
         res_bind (percent_amount e (p_max_aggregate_notional_percent p)) (\<lambda>aggregate.
         res_bind (percent_amount e (p_daily_loss_limit_percent p)) (\<lambda>daily.
         let caps = \<lparr>lc_max_symbol_notional = symbol, lc_max_notional = aggregate,
                     lc_max_daily_loss = daily\<rparr>
         in if \<not> symbol_cap_independent caps
            then Inl (Rejected ''symbol_cap_not_independent_of_notional'')
            else Inr caps))))"

definition ledger_symbol_cap_equals_notional :: "num \<Rightarrow> num \<Rightarrow> bool res" where
  "ledger_symbol_cap_equals_notional max_symbol_notional max_notional =
     (case (max_symbol_notional, max_notional) of
        (Fin s, Fin n) \<Rightarrow> Inr (n \<le> s)
      | _ \<Rightarrow> Inl (Rejected ''ledger_caps_unreadable''))"

section \<open>The view of one claim\<close>

record accounting =
  acc_daily_locked :: bool
  acc_max_notional :: rat
  acc_reserved_notional :: rat
  acc_actual_notional :: rat
  acc_max_daily_loss :: rat
  acc_reserved_daily_loss :: rat
  acc_actual_daily_loss :: rat
  acc_max_trade_slots :: int
  acc_reserved_trade_slots :: int
  acc_actual_trade_count :: int
  acc_max_symbol_notional :: rat
  acc_symbol_reserved :: "string \<rightharpoonup> rat"
  acc_symbol_actual :: "string \<rightharpoonup> rat"

definition accounting_view :: "accounting \<Rightarrow> ledger_caps option \<Rightarrow> accounting" where
  "accounting_view a caps =
     (case caps of
        None \<Rightarrow> a
      | Some c \<Rightarrow> a\<lparr>acc_max_notional := lc_max_notional c,
                   acc_max_daily_loss := lc_max_daily_loss c,
                   acc_max_symbol_notional := lc_max_symbol_notional c\<rparr>)"

definition assign_profile_claim_caps :: "accounting \<Rightarrow> ledger_caps \<Rightarrow> accounting res" where
  "assign_profile_claim_caps a caps =
     Inl (Rejected ''profile_caps_are_not_written_to_the_shared_ledger'')"

section \<open>Lemmas\<close>

lemma percent_amount_bounds:
  assumes "percent_amount e x = Inr y" "0 < e" "0 \<le> x"
  shows "0 \<le> y" "y \<le> (1 + EPS) ^ 2 * (e * x / 100)"
proof -
  have "dmul e x \<le> (1 + EPS) ^ 1 * (e * x)" using dmul_up [of e x 0 e] assms by simp
  then have "ddiv (dmul e x) 100 \<le> (1 + EPS) ^ 2 * (e * x / 100)"
    using ddiv_up [of "dmul e x" 100 1 "e * x"] assms by (simp add: dec_sign numeral_2_eq_2)
  then show "0 \<le> y" "y \<le> (1 + EPS) ^ 2 * (e * x / 100)"
    using quantize8_down_le [of "ddiv (dmul e x) 100" y] assms
    by (auto simp: percent_amount_def dec_sign)
qed

lemma percent_amount_mono:
  assumes "percent_amount e x = Inr y" "percent_amount e x' = Inr y'" "0 < e" "0 \<le> x" "x \<le> x'"
  shows "y \<le> y'"
  using assms(3-) by (intro quantize8_mono [OF assms(1,2) [unfolded percent_amount_def]])
    (auto intro!: ddiv_mono dmul_mono simp: dec_sign)

lemma caps_for_ledger_Inr [res_simps]:
  "caps_for_ledger p equity = Inr c \<longleftrightarrow>
     (\<exists>e. equity = Fin e \<and> 0 < e \<and> valid_profile p
       \<and> percent_amount e (p_max_notional_per_trade_percent p) = Inr (lc_max_symbol_notional c)
       \<and> percent_amount e (p_max_aggregate_notional_percent p) = Inr (lc_max_notional c)
       \<and> percent_amount e (p_daily_loss_limit_percent p) = Inr (lc_max_daily_loss c)
       \<and> symbol_cap_independent c)"
  unfolding caps_for_ledger_def Let_def
  by (cases equity; cases c) (auto simp: res_simps not_le)

section \<open>Properties\<close>

text \<open>
  The caps \<open>caps_for_ledger\<close> hands to the ledger are usable for auto-approval and no looser than
  the profile: the symbol cap and the daily-loss cap are strictly below the notional cap, so they
  are never the equal-cap fallback, and each cap is at most the profile's percent of the equity, up
  to the two roundings of the product.
\<close>

theorem caps_for_ledger_bounds:
  assumes "caps_for_ledger p (Fin e) = Inr c"
  shows "ledger_symbol_cap_equals_notional (Fin (lc_max_symbol_notional c)) (Fin (lc_max_notional c))
      = Inr False
    \<and> 0 \<le> lc_max_daily_loss c \<and> lc_max_daily_loss c < lc_max_notional c
    \<and> lc_max_symbol_notional c \<le> (1 + EPS) ^ 2 * (e * p_max_notional_per_trade_percent p / 100)
    \<and> lc_max_notional c \<le> (1 + EPS) ^ 2 * (e * p_max_aggregate_notional_percent p / 100)
    \<and> lc_max_daily_loss c \<le> (1 + EPS) ^ 2 * (e * p_daily_loss_limit_percent p / 100)"
proof -
  from assms have c: "0 < e" "valid_profile p"
      "percent_amount e (p_max_notional_per_trade_percent p) = Inr (lc_max_symbol_notional c)"
      "percent_amount e (p_max_aggregate_notional_percent p) = Inr (lc_max_notional c)"
      "percent_amount e (p_daily_loss_limit_percent p) = Inr (lc_max_daily_loss c)"
      "symbol_cap_independent c"
    by (auto simp: res_simps)
  then have "0 \<le> p_max_notional_per_trade_percent p" "0 \<le> p_max_aggregate_notional_percent p"
    "0 \<le> p_daily_loss_limit_percent p" by (simp_all add: valid_profile_def)
  with c show ?thesis
    using percent_amount_bounds [OF c(3,1)] percent_amount_bounds [OF c(4,1)]
      percent_amount_bounds [OF c(5,1)]
    by (simp add: ledger_symbol_cap_equals_notional_def symbol_cap_independent_def)
qed

lemma sample_caps:
  "caps_for_ledger sample_profile (Fin 10000) =
     Inr \<lparr>lc_max_symbol_notional = 1000, lc_max_notional = 2500, lc_max_daily_loss = 200\<rparr>"
  unfolding caps_for_ledger_def sample_valid
  by (simp add: sample_profile_def placeholder_base_def percent_amount_def dec_eval
      symbol_cap_independent_def)

theorem caps_for_ledger_bounds_witness:
  "(200 :: rat) < 2500 \<and>
   ledger_symbol_cap_equals_notional (Fin 1000) (Fin 2500) = Inr False"
  using caps_for_ledger_bounds [OF sample_caps] by simp

end
