(* ===== verification/Governance.thy ===== *)
theory Governance
  imports Profile
begin

text \<open>
  Who may change a profile and when the change takes effect: \<^verbatim>\<open>services/risk_policy/clock.py\<close>,
  \<^verbatim>\<open>services/risk_policy/governance.py\<close> and \<^verbatim>\<open>services/risk_policy/proof.py\<close>.

  A datetime is \<open>Aware t\<close> or \<open>Naive t\<close>, with \<open>t\<close> microseconds since the epoch; an aware datetime is its
  instant, since every comparison and subtraction the code makes on two aware datetimes depends on
  the instants only. The instants the service meets are inside the range of \<open>datetime\<close>. User,
  proposal and account ids are strings (a UUID is its text). SHA-256 and \<^verbatim>\<open>jwt.decode\<close> are
  parameters.
\<close>

section \<open>Clock\<close>

datatype dt = Aware int | Naive int

fun instant :: "dt \<Rightarrow> int" where
  "instant (Aware t) = t"
| "instant (Naive t) = t"

fun is_naive :: "dt \<Rightarrow> bool" where
  "is_naive (Aware t) = False"
| "is_naive (Naive t) = True"

definition MINUTE :: int where "MINUTE = 60 * 10 ^ 6"
definition HOUR :: int where "HOUR = 60 * MINUTE"
definition DAY :: int where "DAY = 24 * HOUR"
definition LOOSENING_DELAY :: int where "LOOSENING_DELAY = 24 * HOUR"
definition PROPOSAL_TTL :: int where "PROPOSAL_TTL = 72 * HOUR"
definition FRESH_PROOF :: int where "FRESH_PROOF = 15 * MINUTE"
definition TELEGRAM_PROOF_MAX_AGE :: int where "TELEGRAM_PROOF_MAX_AGE = 5 * MINUTE"

lemmas time_defs = MINUTE_def HOUR_def DAY_def LOOSENING_DELAY_def PROPOSAL_TTL_def FRESH_PROOF_def
  TELEGRAM_PROOF_MAX_AGE_def

definition next_utc_day :: "dt \<Rightarrow> int res" where
  "next_utc_day now =
     (if is_naive now then Inl (Rejected ''timestamp_must_be_aware'')
      else Inr ((instant now div DAY + 1) * DAY))"

definition loosening_effective_at :: "dt \<Rightarrow> int res" where
  "loosening_effective_at now =
     (if is_naive now then Inl (Rejected ''timestamp_must_be_aware'')
      else res_bind (next_utc_day now) (\<lambda>midnight.
           Inr (max midnight (instant now + LOOSENING_DELAY))))"

section \<open>Actors and proofs\<close>

datatype policy_channel = HUMAN | AGENT | BOT | SERVICE | UNDECLARED

record policy_actor =
  pa_actor_id :: string
  pa_channel :: policy_channel
  pa_authenticated :: bool

record human_apply_proof =
  hp_method :: string
  hp_subject_user_id :: string
  hp_proposal_id :: string
  hp_content_hash :: string
  hp_expires_at :: dt
  hp_issued_at :: "dt option"
  hp_session_id :: "string option"
  hp_authenticated_at :: "dt option"
  hp_step_up_at :: "dt option"
  hp_telegram_chat_id :: "string option"
  hp_telegram_confirmation_id :: "string option"

record apply_decision =
  ad_change_class :: change_class
  ad_effective_at :: int
  ad_diff :: diff
  ad_applies_to_new_trades_only :: bool

text \<open>
  The claims of a decoded token. A finite float stands for the microsecond
  \<^verbatim>\<open>datetime.fromtimestamp\<close> rounds it to.
\<close>

datatype claim = JNull | JStr string | JInt int | JFloat int | JNonFinite | JBool bool | JTime dt | JOther

type_synonym payload = "string \<Rightarrow> claim option"

definition claim_of :: "payload \<Rightarrow> string \<Rightarrow> claim" where
  "claim_of p k = (case p k of Some c \<Rightarrow> c | None \<Rightarrow> JNull)"

definition channel_from_access_payload :: "payload \<Rightarrow> policy_channel res" where
  "channel_from_access_payload p =
     (if claim_of p ''type'' \<noteq> JStr ''access'' then Inl (Rejected ''token_not_access'')
      else let actor = claim_of p ''actor''
           in if actor = JNull \<or> actor = JStr '''' then Inr UNDECLARED
              else if actor = JStr ''user'' then Inr HUMAN
              else if actor = JStr ''agent'' then Inr AGENT
              else if actor = JStr ''bot'' then Inr BOT
              else if actor = JStr ''service'' then Inr SERVICE
              else Inl (Rejected ''actor_channel_unknown''))"

definition assert_can_propose :: "policy_actor \<Rightarrow> unit res" where
  "assert_can_propose actor =
     (if \<not> pa_authenticated actor \<or> pa_actor_id actor = '''' then Inl (Rejected ''actor_unauthenticated'')
      else if pa_channel actor = SERVICE then Inl (Rejected ''service_token_refused'')
      else if pa_channel actor = UNDECLARED then Inl (Rejected ''actor_undeclared'')
      else if pa_channel actor \<notin> {HUMAN, AGENT, BOT} then Inl (Rejected ''actor_channel_unknown'')
      else Inr ())"

definition require_fresh_step_up_times :: "dt \<Rightarrow> dt \<Rightarrow> dt \<Rightarrow> unit res" where
  "require_fresh_step_up_times authenticated_at step_up_at now =
     (if is_naive now \<or> is_naive authenticated_at \<or> is_naive step_up_at
      then Inl (Rejected ''timestamp_must_be_aware'')
      else if instant now < instant authenticated_at \<or> instant now < instant step_up_at
      then Inl (Rejected ''apply_proof_not_fresh'')
      else if instant step_up_at < instant authenticated_at
      then Inl (Rejected ''apply_proof_not_fresh'')
      else if FRESH_PROOF < instant now - instant authenticated_at
              \<or> FRESH_PROOF < instant now - instant step_up_at
      then Inl (Rejected ''apply_proof_not_fresh'')
      else Inr ())"

definition require_fresh_step_up :: "human_apply_proof \<Rightarrow> dt \<Rightarrow> unit res" where
  "require_fresh_step_up prf now =
     (case (hp_session_id prf, hp_authenticated_at prf, hp_step_up_at prf) of
        (Some sid, Some a, Some s) \<Rightarrow>
          if sid = '''' then Inl (Rejected ''apply_proof_not_fresh'')
          else require_fresh_step_up_times a s now
      | _ \<Rightarrow> Inl (Rejected ''apply_proof_not_fresh''))"

definition require_fresh_telegram :: "human_apply_proof \<Rightarrow> dt \<Rightarrow> unit res" where
  "require_fresh_telegram prf now =
     (case hp_issued_at prf of
        None \<Rightarrow> Inl (Rejected ''apply_proof_not_fresh'')
      | Some issued \<Rightarrow>
          if is_naive now \<or> is_naive issued then Inl (Rejected ''timestamp_must_be_aware'')
          else if instant now < instant issued
                  \<or> TELEGRAM_PROOF_MAX_AGE < instant now - instant issued
          then Inl (Rejected ''apply_proof_not_fresh'')
          else Inr ())"

definition assert_can_apply ::
    "policy_actor \<Rightarrow> human_apply_proof option \<Rightarrow> string \<Rightarrow> string \<Rightarrow> string \<Rightarrow> string \<Rightarrow> dt \<Rightarrow> unit res" where
  "assert_can_apply actor prf owner_user_id pinned_telegram_chat_id proposal_id content_hash now =
     (if pa_channel actor = AGENT then Inl (Rejected ''apply_refuses_agent_token'')
      else if pa_channel actor = SERVICE then Inl (Rejected ''apply_refuses_service_token'')
      else if pa_channel actor = BOT then Inl (Rejected ''apply_refuses_bot_token'')
      else if \<not> pa_authenticated actor \<or> pa_actor_id actor = ''''
      then Inl (Rejected ''apply_requires_human_proof'')
      else if pa_channel actor \<notin> {HUMAN, UNDECLARED} then Inl (Rejected ''apply_requires_human_proof'')
      else if owner_user_id = '''' \<or> pa_actor_id actor \<noteq> owner_user_id
      then Inl (Rejected ''apply_owner_mismatch'')
      else case prf of
        None \<Rightarrow> Inl (Rejected ''apply_proof_missing'')
      | Some pr \<Rightarrow>
          if is_naive now \<or> is_naive (hp_expires_at pr)
          then Inl (Rejected ''timestamp_must_be_aware'')
          else if hp_subject_user_id pr = '''' \<or> hp_proposal_id pr = '''' \<or> hp_content_hash pr = ''''
          then Inl (Rejected ''apply_proof_missing'')
          else if hp_subject_user_id pr \<noteq> owner_user_id then Inl (Rejected ''apply_owner_mismatch'')
          else if instant (hp_expires_at pr) \<le> instant now then Inl (Rejected ''apply_proof_expired'')
          else if hp_proposal_id pr \<noteq> proposal_id \<or> hp_content_hash pr \<noteq> content_hash
          then Inl (Rejected ''apply_proof_proposal_mismatch'')
          else if hp_method pr = ''interactive_step_up'' then require_fresh_step_up pr now
          else if hp_method pr = ''telegram_owner'' then
            (if pinned_telegram_chat_id = '''' \<or> hp_telegram_chat_id pr \<noteq> Some pinned_telegram_chat_id
             then Inl (Rejected ''apply_proof_chat_mismatch'')
             else if hp_telegram_confirmation_id pr = None \<or> hp_telegram_confirmation_id pr = Some ''''
             then Inl (Rejected ''apply_proof_chat_mismatch'')
             else require_fresh_telegram pr now)
          else Inl (Rejected ''apply_proof_missing''))"

text \<open>The two reset bindings; \<open>sha256\<close> is the hexadecimal digest of a text.\<close>

definition consecutive_reset_binding :: "(string \<Rightarrow> string) \<Rightarrow> string \<Rightarrow> string \<times> string" where
  "consecutive_reset_binding sha256 account_id =
     (let proposal_id = ''consecutive-reset:'' @ account_id in (proposal_id, sha256 proposal_id))"

definition drawdown_reset_binding :: "(string \<Rightarrow> string) \<Rightarrow> string \<Rightarrow> string \<times> string" where
  "drawdown_reset_binding sha256 account_id =
     (let proposal_id = ''drawdown-reset:'' @ account_id in (proposal_id, sha256 proposal_id))"

definition proposal_is_expired :: "dt \<Rightarrow> dt \<Rightarrow> bool res" where
  "proposal_is_expired created_at now =
     (if is_naive created_at \<or> is_naive now then Inl (Rejected ''timestamp_must_be_aware'')
      else Inr (PROPOSAL_TTL < instant now - instant created_at))"

definition decide_apply ::
    "policy_actor \<Rightarrow> profile option \<Rightarrow> profile \<Rightarrow> dt \<Rightarrow> bool \<Rightarrow> bool \<Rightarrow> apply_decision res" where
  "decide_apply actor previous proposed now breaker_active first_store =
     (if pa_channel actor = AGENT then Inl (Rejected ''apply_refuses_agent_token'')
      else if pa_channel actor = SERVICE then Inl (Rejected ''apply_refuses_service_token'')
      else if pa_channel actor = BOT then Inl (Rejected ''apply_refuses_bot_token'')
      else res_bind (validate_profile proposed) (\<lambda>_.
           if (case previous of Some q \<Rightarrow> p_kind q \<noteq> p_kind proposed | None \<Rightarrow> False)
           then Inl (Rejected ''kind_mismatch'') else
           res_bind (classify_change previous proposed (if first_store then Some INITIAL else None))
             (\<lambda>change.
           if is_naive now then Inl (Rejected ''timestamp_must_be_aware'') else
           res_bind
             (if change = LOOSENING then
                if breaker_active then Inl (Rejected ''loosening_blocked_by_breaker'')
                else loosening_effective_at now
              else Inr (instant now)) (\<lambda>effective_at.
           res_bind (profile_diff previous proposed) (\<lambda>d.
           Inr \<lparr>ad_change_class = change, ad_effective_at = effective_at, ad_diff = d,
                ad_applies_to_new_trades_only = True\<rparr>)))))"

section \<open>Decoding the proof token\<close>

definition required_claim :: "claim \<Rightarrow> string \<Rightarrow> string res" where
  "required_claim raw code =
     (case raw of
        JStr s \<Rightarrow> let text = strip s in if text = '''' then Inl (Rejected code) else Inr text
      | _ \<Rightarrow> Inl (Rejected code))"

definition required_proposal_id :: "claim \<Rightarrow> string \<Rightarrow> string res" where
  "required_proposal_id raw proposal_id =
     res_bind (required_claim raw ''apply_proof_missing'') (\<lambda>bound.
     if bound \<noteq> proposal_id then Inl (Rejected ''apply_proof_proposal_mismatch'') else Inr bound)"

text \<open>Year 1 to year 9999, the range in which \<^verbatim>\<open>datetime.fromtimestamp\<close> succeeds.\<close>

definition timestamp_in_range :: "int \<Rightarrow> bool" where
  "timestamp_in_range t \<longleftrightarrow> - 62135596800 * 10 ^ 6 \<le> t \<and> t < 253402300800 * 10 ^ 6"

definition claim_time :: "claim \<Rightarrow> string \<Rightarrow> int res" where
  "claim_time value code =
     (case value of
        JTime d \<Rightarrow> Inr (instant d)
      | JInt n \<Rightarrow> if timestamp_in_range (n * 10 ^ 6) then Inr (n * 10 ^ 6) else Inl (Rejected code)
      | JFloat t \<Rightarrow> if timestamp_in_range t then Inr t else Inl (Rejected code)
      | _ \<Rightarrow> Inl (Rejected code))"

definition fresh_issued_at :: "claim \<Rightarrow> int \<Rightarrow> int res" where
  "fresh_issued_at raw now =
     (if raw = JNull then Inl (Rejected ''apply_proof_not_fresh'')
      else res_bind (claim_time raw ''apply_proof_not_fresh'') (\<lambda>issued.
           if now < issued \<or> TELEGRAM_PROOF_MAX_AGE < now - issued
           then Inl (Rejected ''apply_proof_not_fresh'') else Inr issued))"

definition decode_apply_proof ::
    "(string \<Rightarrow> payload option) \<Rightarrow> string \<Rightarrow> string \<Rightarrow> dt \<Rightarrow> human_apply_proof res" where
  "decode_apply_proof jwt_decode token proposal_id now =
     (case jwt_decode token of
        None \<Rightarrow> Inl (Rejected ''apply_proof_missing'')
      | Some p \<Rightarrow>
          if is_naive now then Inl (Rejected ''timestamp_must_be_aware'') else
          if claim_of p ''type'' \<noteq> JStr ''risk_policy_step_up''
             \<and> claim_of p ''type'' \<noteq> JStr ''risk_policy_telegram''
          then Inl (Rejected ''apply_proof_missing'') else
          res_bind (required_claim (claim_of p ''sub'') ''apply_proof_missing'') (\<lambda>subject.
          res_bind (required_proposal_id (claim_of p ''proposal_id'') proposal_id) (\<lambda>bound.
          res_bind (required_claim (claim_of p ''content_hash'') ''apply_proof_missing'') (\<lambda>content_hash.
          res_bind (claim_time (claim_of p ''exp'') ''apply_proof_expired'') (\<lambda>expires.
          if expires \<le> instant now then Inl (Rejected ''apply_proof_expired'') else
          if claim_of p ''type'' = JStr ''risk_policy_step_up'' then
            res_bind (claim_time (claim_of p ''auth_time'') ''apply_proof_not_fresh'') (\<lambda>authenticated.
            res_bind (claim_time (claim_of p ''step_up_at'') ''apply_proof_not_fresh'') (\<lambda>step_up.
            res_bind (require_fresh_step_up_times (Aware authenticated) (Aware step_up) now) (\<lambda>_.
            res_bind (required_claim (claim_of p ''session_id'') ''apply_proof_not_fresh'') (\<lambda>session.
            Inr \<lparr>hp_method = ''interactive_step_up'', hp_subject_user_id = subject,
                 hp_proposal_id = bound, hp_content_hash = content_hash,
                 hp_expires_at = Aware expires, hp_issued_at = None, hp_session_id = Some session,
                 hp_authenticated_at = Some (Aware authenticated),
                 hp_step_up_at = Some (Aware step_up), hp_telegram_chat_id = None,
                 hp_telegram_confirmation_id = None\<rparr>))))
          else
            res_bind (fresh_issued_at (claim_of p ''iat'') (instant now)) (\<lambda>issued.
            res_bind (required_claim (claim_of p ''chat_id'') ''apply_proof_chat_mismatch'') (\<lambda>chat.
            res_bind (required_claim (claim_of p ''confirmation_id'') ''apply_proof_chat_mismatch'') (\<lambda>conf.
            Inr \<lparr>hp_method = ''telegram_owner'', hp_subject_user_id = subject,
                 hp_proposal_id = bound, hp_content_hash = content_hash,
                 hp_expires_at = Aware expires, hp_issued_at = Some (Aware issued),
                 hp_session_id = None, hp_authenticated_at = None, hp_step_up_at = None,
                 hp_telegram_chat_id = Some chat, hp_telegram_confirmation_id = Some conf\<rparr>))))))))"

section \<open>Clock lemmas\<close>

lemma next_utc_day_bounds:
  assumes "next_utc_day now = Inr m"
  shows "instant now < m" "m \<le> instant now + DAY" "DAY dvd m"
proof -
  have pos: "0 < DAY" by (simp add: time_defs)
  have m: "m = instant now div DAY * DAY + DAY"
    using assms by (auto simp: next_utc_day_def distrib_right split: if_splits)
  note parts = div_mult_mod_eq [of "instant now" DAY] pos_mod_bound [OF pos, of "instant now"]
    pos_mod_sign [OF pos, of "instant now"]
  show "instant now < m" "m \<le> instant now + DAY" using m parts by linarith+
  show "DAY dvd m" unfolding m by simp
qed

text \<open>The next midnight is never more than a day away, so the delay alone decides.\<close>

lemma loosening_effective_at_eq:
  "loosening_effective_at now =
     (if is_naive now then Inl (Rejected ''timestamp_must_be_aware'')
      else Inr (instant now + LOOSENING_DELAY))"
proof (cases "is_naive now")
  case False
  then obtain m where m: "next_utc_day now = Inr m" by (simp add: next_utc_day_def)
  then have "m \<le> instant now + LOOSENING_DELAY"
    using next_utc_day_bounds(2) [OF m] by (simp add: time_defs)
  then show ?thesis using False m by (simp add: loosening_effective_at_def max_def)
qed (simp add: loosening_effective_at_def)

section \<open>When an apply is allowed\<close>

text \<open>
  The rule an apply has to satisfy, as one predicate: the configured owner in person, with an
  unexpired proof bound to this proposal and this content, fresh by its own clock.
\<close>

definition step_up_fresh :: "human_apply_proof \<Rightarrow> int \<Rightarrow> bool" where
  "step_up_fresh pr now \<longleftrightarrow>
     (\<exists>sid a s. hp_session_id pr = Some sid \<and> sid \<noteq> '''' \<and> hp_authenticated_at pr = Some (Aware a)
        \<and> hp_step_up_at pr = Some (Aware s) \<and> a \<le> s \<and> s \<le> now \<and> now - a \<le> FRESH_PROOF)"

definition telegram_fresh :: "human_apply_proof \<Rightarrow> string \<Rightarrow> int \<Rightarrow> bool" where
  "telegram_fresh pr chat now \<longleftrightarrow>
     (\<exists>t conf. chat \<noteq> '''' \<and> hp_telegram_chat_id pr = Some chat
        \<and> hp_telegram_confirmation_id pr = Some conf \<and> conf \<noteq> ''''
        \<and> hp_issued_at pr = Some (Aware t) \<and> t \<le> now \<and> now - t \<le> TELEGRAM_PROOF_MAX_AGE)"

definition proof_binds :: "human_apply_proof \<Rightarrow> string \<Rightarrow> string \<Rightarrow> string \<Rightarrow> string \<Rightarrow> int \<Rightarrow> bool" where
  "proof_binds pr owner chat proposal_id content_hash now \<longleftrightarrow>
     hp_subject_user_id pr = owner \<and> hp_proposal_id pr = proposal_id \<and> proposal_id \<noteq> ''''
     \<and> hp_content_hash pr = content_hash \<and> content_hash \<noteq> ''''
     \<and> (\<exists>e. hp_expires_at pr = Aware e \<and> now < e)
     \<and> (hp_method pr = ''interactive_step_up'' \<and> step_up_fresh pr now
        \<or> hp_method pr = ''telegram_owner'' \<and> telegram_fresh pr chat now)"

definition owner_in_person :: "policy_actor \<Rightarrow> string \<Rightarrow> bool" where
  "owner_in_person actor owner \<longleftrightarrow>
     pa_channel actor \<in> {HUMAN, UNDECLARED} \<and> pa_authenticated actor
     \<and> owner \<noteq> '''' \<and> pa_actor_id actor = owner"

lemma not_naive_iff: "\<not> is_naive d \<longleftrightarrow> (\<exists>t. d = Aware t)"
  by (cases d) auto

lemma require_fresh_step_up_times_Inr [res_simps]:
  "require_fresh_step_up_times a s now = Inr u \<longleftrightarrow>
     \<not> is_naive now \<and> \<not> is_naive a \<and> \<not> is_naive s \<and> instant a \<le> instant s
     \<and> instant s \<le> instant now \<and> instant now - instant a \<le> FRESH_PROOF"
  by (auto simp: require_fresh_step_up_times_def)

lemma require_fresh_step_up_Inr:
  "require_fresh_step_up pr (Aware now) = Inr u \<longleftrightarrow> step_up_fresh pr now"
  by (auto simp: require_fresh_step_up_def step_up_fresh_def res_simps not_naive_iff
      split: option.splits)

lemma require_fresh_telegram_Inr:
  "require_fresh_telegram pr (Aware now) = Inr u \<longleftrightarrow>
     (\<exists>t. hp_issued_at pr = Some (Aware t) \<and> t \<le> now \<and> now - t \<le> TELEGRAM_PROOF_MAX_AGE)"
  by (auto simp: require_fresh_telegram_def not_naive_iff split: option.splits if_splits)

lemma assert_can_apply_Inr:
  "assert_can_apply actor (Some pr) owner chat pid ch (Aware now) = Inr u \<longleftrightarrow>
     owner_in_person actor owner \<and> proof_binds pr owner chat pid ch now"
proof -
  have chan: "pa_channel actor \<in> {HUMAN, UNDECLARED} \<longleftrightarrow>
      pa_channel actor \<noteq> AGENT \<and> pa_channel actor \<noteq> SERVICE \<and> pa_channel actor \<noteq> BOT"
    by (cases "pa_channel actor") auto
  have exp: "(\<exists>e. hp_expires_at pr = Aware e \<and> now < e) \<longleftrightarrow>
      \<not> is_naive (hp_expires_at pr) \<and> now < instant (hp_expires_at pr)"
    by (cases "hp_expires_at pr") auto
  have meth: "''interactive_step_up'' \<noteq> ''telegram_owner''" by simp
  show ?thesis
    unfolding assert_can_apply_def owner_in_person_def proof_binds_def telegram_fresh_def chan exp
    by (auto simp: require_fresh_step_up_Inr require_fresh_telegram_Inr)
qed

lemma assert_can_apply_cases:
  assumes "assert_can_apply actor prf owner chat pid ch now = Inr u"
  obtains pr t where "prf = Some pr" "now = Aware t" "owner_in_person actor owner"
    "proof_binds pr owner chat pid ch t"
proof -
  obtain pr where pr: "prf = Some pr"
    using assms by (auto simp: assert_can_apply_def split: option.splits if_splits)
  obtain t where t: "now = Aware t"
    using assms pr by (cases now) (auto simp: assert_can_apply_def split: if_splits)
  show ?thesis
    using assms [unfolded pr t assert_can_apply_Inr] by (intro that [OF pr t]) auto
qed

section \<open>Deciding an apply\<close>

lemma decide_apply_Inr:
  assumes "decide_apply actor previous p now breaker first_store = Inr d"
  obtains t where "now = Aware t" "pa_channel actor \<in> {HUMAN, UNDECLARED}" "valid_profile p"
    "\<And>q. previous = Some q \<Longrightarrow> p_kind q = p_kind p"
    "classify_change previous p (if first_store then Some INITIAL else None) = Inr (ad_change_class d)"
    "profile_diff previous p = Inr (ad_diff d)"
    "ad_change_class d = LOOSENING \<Longrightarrow> \<not> breaker"
    "ad_effective_at d = (if ad_change_class d = LOOSENING then t + LOOSENING_DELAY else t)"
    "ad_applies_to_new_trades_only d"
proof -
  have chan: "pa_channel actor \<noteq> AGENT" "pa_channel actor \<noteq> SERVICE" "pa_channel actor \<noteq> BOT"
    using assms by (auto simp: decide_apply_def split: if_splits)
  then have "pa_channel actor \<in> {HUMAN, UNDECLARED}" by (cases "pa_channel actor") auto
  then show ?thesis
    using assms unfolding decide_apply_def loosening_effective_at_eq
    by (cases now) (auto simp: res_simps intro!: that split: if_splits option.splits)
qed

lemma decoded_proof_binds:
  assumes "decode_apply_proof jwt_decode token pid (Aware now) = Inr pr"
  shows "proof_binds pr owner chat pid ch now \<longleftrightarrow>
     hp_subject_user_id pr = owner \<and> hp_content_hash pr = ch
     \<and> (hp_method pr = ''telegram_owner'' \<longrightarrow> chat \<noteq> '''' \<and> hp_telegram_chat_id pr = Some chat)"
proof -
  have claim: "required_claim c code = Inr x \<Longrightarrow> x \<noteq> ''''" for c code x
    by (auto simp: required_claim_def Let_def split: claim.splits if_splits)
  from assms obtain p where p: "jwt_decode token = Some p"
    by (auto simp: decode_apply_proof_def split: option.splits)
  show ?thesis
  proof (cases "claim_of p ''type'' = JStr ''risk_policy_step_up''")
    case True
    then show ?thesis
      using assms p
      by (auto simp: decode_apply_proof_def required_proposal_id_def res_simps proof_binds_def
          step_up_fresh_def dest!: claim)
  next
    case False
    then show ?thesis
      using assms p
      by (auto simp: decode_apply_proof_def required_proposal_id_def fresh_issued_at_def res_simps
          proof_binds_def telegram_fresh_def dest!: claim)
  qed
qed

section \<open>Properties\<close>

text \<open>
  C16. \<open>assert_can_apply\<close> lets an apply through in exactly one situation: the authenticated actor is
  the configured owner on a human or undeclared channel, and there is a proof issued to that
  owner, unexpired, bound to this proposal id and this content hash, and fresh (a step-up inside
  the last 15 minutes and after the login it renews, or a confirmation from the pinned Telegram
  chat inside the last five). No agent, bot or service token passes, with any proof.
\<close>

theorem assert_can_apply_exact:
  "assert_can_apply actor prf owner chat proposal_id content_hash now = Inr () \<longleftrightarrow>
     (\<exists>pr t. prf = Some pr \<and> now = Aware t \<and> owner_in_person actor owner
        \<and> proof_binds pr owner chat proposal_id content_hash t)"
  by (metis assert_can_apply_Inr assert_can_apply_cases)

text \<open>
  Decoding and checking agree: a token \<open>decode_apply_proof\<close> accepts for a proposal yields a proof
  that \<open>assert_can_apply\<close> accepts at the same moment, for the same proposal, exactly when the actor
  is the owner in person, the token names that owner and this content, and a Telegram proof comes
  from the pinned chat. No freshness, expiry or binding test of the second step can still fail.
\<close>

theorem decoded_proof_applies:
  assumes "decode_apply_proof jwt_decode token proposal_id (Aware now) = Inr pr"
  shows "assert_can_apply actor (Some pr) owner chat proposal_id content_hash (Aware now) = Inr () \<longleftrightarrow>
     owner_in_person actor owner \<and> hp_subject_user_id pr = owner \<and> hp_content_hash pr = content_hash
     \<and> (hp_method pr = ''telegram_owner'' \<longrightarrow> chat \<noteq> '''' \<and> hp_telegram_chat_id pr = Some chat)"
  by (simp add: assert_can_apply_Inr decoded_proof_binds [OF assms])

definition sample_payload :: payload where
  "sample_payload = map_of
     [(''type'', JStr ''risk_policy_step_up''), (''sub'', JStr ''owner''),
      (''proposal_id'', JStr ''p-1''), (''content_hash'', JStr ''abc''), (''exp'', JInt 2000),
      (''auth_time'', JInt 1000), (''step_up_at'', JInt 1100), (''session_id'', JStr '' s-9 '')]"

definition sample_proof :: human_apply_proof where
  "sample_proof =
     \<lparr>hp_method = ''interactive_step_up'', hp_subject_user_id = ''owner'', hp_proposal_id = ''p-1'',
      hp_content_hash = ''abc'', hp_expires_at = Aware (2000 * 10 ^ 6), hp_issued_at = None,
      hp_session_id = Some ''s-9'', hp_authenticated_at = Some (Aware (1000 * 10 ^ 6)),
      hp_step_up_at = Some (Aware (1100 * 10 ^ 6)), hp_telegram_chat_id = None,
      hp_telegram_confirmation_id = None\<rparr>"

definition sample_owner :: policy_actor where
  "sample_owner = \<lparr>pa_actor_id = ''owner'', pa_channel = HUMAN, pa_authenticated = True\<rparr>"

lemma sample_decoded:
  "decode_apply_proof (\<lambda>_. Some sample_payload) ''token'' ''p-1'' (Aware (1200 * 10 ^ 6)) = Inr sample_proof"
  by code_simp

theorem decoded_proof_applies_witness:
  "assert_can_apply sample_owner (Some sample_proof) ''owner'' '''' ''p-1'' ''abc'' (Aware (1200 * 10 ^ 6))
     = Inr ()"
  unfolding decoded_proof_applies [OF sample_decoded]
  by (simp add: owner_in_person_def sample_owner_def sample_proof_def)

text \<open>
  C17. What \<open>decide_apply\<close> grants against the profile in force: never to an agent, a bot or a service;
  only a valid profile of the same kind; a change is a loosening exactly when some limit of the
  proposed profile, in the stored eight-place numbers, allows more; a loosening is refused while a
  breaker is active and starts 24 hours after the apply, every other change starts at once; and it
  never touches existing trades.
\<close>

theorem decide_apply_grants:
  assumes "decide_apply actor (Some q) p now breaker_active first_store = Inr d" "valid_profile q"
  shows "\<exists>t. now = Aware t \<and> pa_channel actor \<notin> {AGENT, BOT, SERVICE} \<and> valid_profile p
    \<and> p_kind q = p_kind p \<and> ad_applies_to_new_trades_only d
    \<and> (if looser q p
       then ad_change_class d = LOOSENING \<and> \<not> breaker_active \<and> ad_effective_at d = t + LOOSENING_DELAY
       else ad_change_class d \<noteq> LOOSENING \<and> ad_effective_at d = t)"
  using assms(1)
proof (rule decide_apply_Inr, goal_cases)
  case (1 t)
  then show ?case
    using classify_loosening_iff [OF assms(2) 1(3) _ 1(5)] by auto
qed

lemma sample_decide:
  "decide_apply sample_owner (Some (placeholder_base DEMO)) ((placeholder_base DEMO)\<lparr>p_max_leverage := 2\<rparr>)
     (Aware 0) False False =
   Inr \<lparr>ad_change_class = LOOSENING, ad_effective_at = LOOSENING_DELAY,
        ad_diff = diff_of (placeholder_base DEMO) ((placeholder_base DEMO)\<lparr>p_max_leverage := 2\<rparr>),
        ad_applies_to_new_trades_only = True\<rparr>"
proof -
  let ?q = "placeholder_base DEMO" and ?p = "(placeholder_base DEMO)\<lparr>p_max_leverage := 2\<rparr>"
  have v: "validate_profile ?q = Inr ()" "validate_profile ?p = Inr ()" by code_simp+
  then have valid: "valid_profile ?q" "valid_profile ?p" by (simp_all only: validate_profile_Inr)
  have l: "looser ?q ?p"
    unfolding looser_def by (simp add: placeholder_base_def quantum_def round_half_even_def)
  then have "canonical_profile ?q \<noteq> canonical_profile ?p"
    using canonical_eq_quantised [OF valid] quantised_not_looser by blast
  then show ?thesis
    unfolding decide_apply_def v profile_diff_eq [OF valid] classify_change_spec [OF valid]
    using l by (simp add: sample_owner_def loosening_effective_at_eq placeholder_base_def)
qed

theorem decide_apply_grants_witness:
  "looser (placeholder_base DEMO) ((placeholder_base DEMO)\<lparr>p_max_leverage := 2\<rparr>)
   \<and> pa_channel sample_owner \<notin> {AGENT, BOT, SERVICE}"
proof -
  have v: "validate_profile (placeholder_base DEMO) = Inr ()" by code_simp
  have "looser (placeholder_base DEMO) ((placeholder_base DEMO)\<lparr>p_max_leverage := 2\<rparr>)"
    using decide_apply_grants [OF sample_decide v [unfolded validate_profile_Inr]]
    by (auto split: if_splits)
  then show ?thesis by (simp add: sample_owner_def)
qed

end
