(* ===== verification/Risk_Rules.thy ===== *)
theory Risk_Rules
  imports Ledger Governance
begin

text \<open>
  The deterministic risk gate: the rules of \<^verbatim>\<open>services/risk/rules.py\<close>, the thresholds of
  \<^verbatim>\<open>services/risk/limits.py\<close> and \<^verbatim>\<open>RiskEngine.evaluate\<close> of \<^verbatim>\<open>services/risk/engine.py\<close>. The request
  (\<open>rq_\<close>), the limits (\<open>rl_\<close>), the runtime context (\<open>cx_\<close>), a triggered rule (\<open>tg_\<close>) and the verdict
  (\<open>ev_\<close>) have the fields of the source's classes. Decimals of a request are finite, since the
  schema refuses the others. A message is a list of literal and numeric pieces, because the text of
  a Decimal depends on its exponent, which the model does not keep.

  The lemmas reduce the engine to one question per rule: every rule has one action, so the verdict
  is decided by which rules fire.
\<close>

section \<open>Data\<close>

datatype risk_action = ALLOW | WARN | BLOCK

datatype risk_severity = INFO | LOW | MEDIUM | HIGH | CRITICAL

datatype risk_rule_id =
    MAX_LEVERAGE | MAX_POSITION_SIZE | MAX_DAILY_LOSS | MAX_WEEKLY_LOSS | NO_STOP_LOSS
  | INVALID_STOP_LOSS | UNSUPPORTED_COIN | COUNTERTREND_REDUCED_SIZE | VOLATILE_ALTCOIN_REDUCED_SIZE
  | EXTREME_FUNDING | LOW_VOLUME | WEEKEND_CONDITION | SLEEP_TEST | OVERTRADING | STRONG_GREEN_DAY
  | COOLDOWN_AFTER_LOSS | KILL_SWITCH | RISK_PERCENT

datatype piece = Lit string | Num rat | Fixed2 rat

type_synonym message = "piece list"

record risk_check_request =
  rq_symbol :: string
  rq_direction :: string
  rq_strategy_id :: "string option"
  rq_entry_price :: rat
  rq_stop_loss :: "rat option"
  rq_position_size :: rat
  rq_leverage :: rat
  rq_account_equity :: rat
  rq_risk_percent :: "rat option"
  rq_is_countertrend :: bool
  rq_is_volatile_altcoin :: bool
  rq_funding_rate :: "rat option"
  rq_volume_24h :: "rat option"
  rq_sleep_test_passed :: "bool option"

text \<open>The numeric ranges the schema accepts; a request outside them cannot be built.\<close>

definition request_bounds :: "risk_check_request \<Rightarrow> bool" where
  "request_bounds req \<longleftrightarrow>
     0 < rq_entry_price req \<and> 0 < rq_position_size req \<and> 0 < rq_leverage req \<and> rq_leverage req \<le> 125
   \<and> 0 < rq_account_equity req
   \<and> (case rq_risk_percent req of None \<Rightarrow> True | Some x \<Rightarrow> 0 \<le> x \<and> x \<le> 100)"

record risk_limits =
  rl_max_leverage :: rat
  rl_max_position_pct_of_equity :: rat
  rl_max_daily_loss_pct :: rat
  rl_max_weekly_loss_pct :: rat
  rl_extreme_funding_rate :: rat
  rl_min_volume_24h :: rat
  rl_max_trades_per_day :: int
  rl_countertrend_max_leverage :: rat
  rl_volatile_alt_max_leverage :: rat
  rl_supported_symbols :: "string list"

definition default_limits :: risk_limits where
  "default_limits =
     \<lparr>rl_max_leverage = 10, rl_max_position_pct_of_equity = 5, rl_max_daily_loss_pct = 3,
      rl_max_weekly_loss_pct = 8, rl_extreme_funding_rate = 1 / 100, rl_min_volume_24h = 1000000,
      rl_max_trades_per_day = 20, rl_countertrend_max_leverage = 3, rl_volatile_alt_max_leverage = 2,
      rl_supported_symbols =
        [''BTCUSDT'', ''ETHUSDT'', ''SOLUSDT'', ''BNBUSDT'', ''BTC/USDT'', ''ETH/USDT'']\<rparr>"

record risk_context =
  cx_daily_locked :: bool
  cx_realized_pnl_today :: rat
  cx_daily_loss_limit :: "rat option"
  cx_weekly_loss_pct :: "rat option"
  cx_trades_today :: int
  cx_protect_green_day :: bool
  cx_kill_switch_active :: bool
  cx_overtrading :: bool
  cx_is_weekend :: bool
  cx_open_exposure_notional :: rat
  cx_profile_risk_percent_cap :: "rat option"
  cx_ledger_max_symbol_notional :: "num option"
  cx_ledger_max_notional :: "num option"
  cx_autonomous_sizing :: bool
  cx_paper_or_demo_channel :: bool

definition default_context :: risk_context where
  "default_context =
     \<lparr>cx_daily_locked = False, cx_realized_pnl_today = 0, cx_daily_loss_limit = None,
      cx_weekly_loss_pct = None, cx_trades_today = 0, cx_protect_green_day = False,
      cx_kill_switch_active = False, cx_overtrading = False, cx_is_weekend = False,
      cx_open_exposure_notional = 0, cx_profile_risk_percent_cap = None,
      cx_ledger_max_symbol_notional = None, cx_ledger_max_notional = None,
      cx_autonomous_sizing = False, cx_paper_or_demo_channel = False\<rparr>"

record triggered_rule =
  tg_rule_id :: risk_rule_id
  tg_action :: risk_action
  tg_severity :: risk_severity
  tg_message :: message

record risk_check_result =
  ev_action :: risk_action
  ev_severity :: risk_severity
  ev_triggered_rules :: "triggered_rule list"
  ev_explanation :: message
  ev_approval_required :: bool
  ev_suggested_modification :: "(string \<times> piece) list option"

type_synonym rule_fn = "risk_check_request \<Rightarrow> risk_limits \<Rightarrow> risk_context \<Rightarrow> triggered_rule option"

section \<open>The rules\<close>

definition rule_hit :: "risk_rule_id \<Rightarrow> risk_action \<Rightarrow> risk_severity \<Rightarrow> message \<Rightarrow> triggered_rule option" where
  "rule_hit rule_id action severity message =
     Some \<lparr>tg_rule_id = rule_id, tg_action = action, tg_severity = severity, tg_message = message\<rparr>"

definition check_kill_switch :: rule_fn where
  "check_kill_switch req limits ctx =
     (if cx_kill_switch_active ctx
      then rule_hit KILL_SWITCH BLOCK CRITICAL [Lit ''Kill switch is active; all new execution is blocked.'']
      else None)"

definition check_no_stop_loss :: rule_fn where
  "check_no_stop_loss req limits ctx =
     (if rq_stop_loss req = None
      then rule_hit NO_STOP_LOSS BLOCK CRITICAL [Lit ''Stop loss is required before any trade can proceed.'']
      else None)"

definition check_invalid_stop_loss :: rule_fn where
  "check_invalid_stop_loss req limits ctx =
     (case rq_stop_loss req of
        None \<Rightarrow> None
      | Some stop \<Rightarrow>
          if dabs (dsub (rq_entry_price req) stop) \<le> 0
          then rule_hit INVALID_STOP_LOSS BLOCK CRITICAL [Lit ''Stop loss distance must be greater than zero.'']
          else None)"

definition leverage_cap :: "risk_check_request \<Rightarrow> risk_limits \<Rightarrow> rat" where
  "leverage_cap req limits =
     (let cap = rl_max_leverage limits;
          cap = (if rq_is_countertrend req then min cap (rl_countertrend_max_leverage limits) else cap)
      in if rq_is_volatile_altcoin req then min cap (rl_volatile_alt_max_leverage limits) else cap)"

definition check_max_leverage :: rule_fn where
  "check_max_leverage req limits ctx =
     (let cap = leverage_cap req limits
      in if cap < rq_leverage req
         then rule_hit MAX_LEVERAGE BLOCK HIGH
                [Lit ''Leverage '', Num (rq_leverage req), Lit '' exceeds maximum allowed '', Num cap, Lit ''.'']
         else None)"

definition check_max_position_size :: rule_fn where
  "check_max_position_size req limits ctx =
     (let notional = dmul (rq_position_size req) (rq_entry_price req);
          max_notional = dmul (rq_account_equity req) (ddiv (rl_max_position_pct_of_equity limits) 100)
      in if max_notional < notional
         then rule_hit MAX_POSITION_SIZE BLOCK HIGH
                [Lit ''Position notional '', Num notional, Lit '' exceeds '',
                 Num (rl_max_position_pct_of_equity limits), Lit ''% of equity.'']
         else let total_exposure = dadd (cx_open_exposure_notional ctx) notional
         in if max_notional < total_exposure
            then rule_hit MAX_POSITION_SIZE BLOCK HIGH
                   [Lit ''Open exposure '', Num total_exposure, Lit '' would exceed '',
                    Num (rl_max_position_pct_of_equity limits), Lit ''% of equity.'']
            else None)"

definition check_daily_loss_lock :: rule_fn where
  "check_daily_loss_lock req limits ctx =
     (if cx_daily_locked ctx
      then rule_hit MAX_DAILY_LOSS BLOCK CRITICAL [Lit ''Daily loss limit reached; trading is locked for today.'']
      else if (case cx_daily_loss_limit ctx of None \<Rightarrow> False
               | Some limit \<Rightarrow> cx_realized_pnl_today ctx \<le> dneg limit)
      then rule_hit MAX_DAILY_LOSS BLOCK CRITICAL [Lit ''Realized PnL has breached the daily loss limit.'']
      else if cx_realized_pnl_today ctx < 0 \<and> 0 < rq_account_equity req
      then let loss_pct = dmul (ddiv (dabs (cx_realized_pnl_today ctx)) (rq_account_equity req)) 100
           in if rl_max_daily_loss_pct limits \<le> loss_pct
              then rule_hit MAX_DAILY_LOSS BLOCK HIGH
                     [Lit ''Daily loss '', Fixed2 loss_pct, Lit ''% exceeds limit '',
                      Num (rl_max_daily_loss_pct limits), Lit ''%.'']
              else None
      else None)"

definition check_weekly_loss :: rule_fn where
  "check_weekly_loss req limits ctx =
     (case cx_weekly_loss_pct ctx of
        None \<Rightarrow> None
      | Some loss \<Rightarrow>
          if rl_max_weekly_loss_pct limits \<le> loss
          then rule_hit MAX_WEEKLY_LOSS BLOCK HIGH [Lit ''Weekly loss limit breached; new trades blocked.'']
          else None)"

definition check_unsupported_coin :: rule_fn where
  "check_unsupported_coin req limits ctx =
     (if rq_symbol req \<notin> set (rl_supported_symbols limits)
      then rule_hit UNSUPPORTED_COIN WARN MEDIUM
             [Lit (rq_symbol req), Lit '' is not on the supported symbol list.'']
      else None)"

definition check_countertrend :: rule_fn where
  "check_countertrend req limits ctx =
     (if rq_is_countertrend req
      then rule_hit COUNTERTREND_REDUCED_SIZE WARN MEDIUM
             [Lit ''Countertrend trade: use reduced size and wait for confirmation.'']
      else None)"

definition check_volatile_alt :: rule_fn where
  "check_volatile_alt req limits ctx =
     (if rq_is_volatile_altcoin req
      then rule_hit VOLATILE_ALTCOIN_REDUCED_SIZE WARN MEDIUM [Lit ''Volatile altcoin: reduce size and leverage.'']
      else None)"

definition check_extreme_funding :: rule_fn where
  "check_extreme_funding req limits ctx =
     (case rq_funding_rate req of
        None \<Rightarrow> None
      | Some rate \<Rightarrow>
          if rl_extreme_funding_rate limits \<le> dabs rate
          then rule_hit EXTREME_FUNDING WARN MEDIUM
                 [Lit ''Extreme funding rate; confirm with structure before trading.'']
          else None)"

definition check_low_volume :: rule_fn where
  "check_low_volume req limits ctx =
     (case rq_volume_24h req of
        None \<Rightarrow> None
      | Some volume \<Rightarrow>
          if volume < rl_min_volume_24h limits
          then rule_hit LOW_VOLUME WARN LOW [Lit ''24h volume is below the minimum liquidity threshold.'']
          else None)"

definition check_weekend :: rule_fn where
  "check_weekend req limits ctx =
     (if cx_is_weekend ctx
      then rule_hit WEEKEND_CONDITION WARN LOW
             [Lit ''Weekend conditions: prefer weekday trading when edge is strongest.'']
      else None)"

definition check_sleep_test :: rule_fn where
  "check_sleep_test req limits ctx =
     (if rq_sleep_test_passed req = Some False
      then rule_hit SLEEP_TEST BLOCK HIGH
             [Lit ''Sleep test failed: position size or leverage is too large for mental capital.'']
      else None)"

definition check_overtrading :: rule_fn where
  "check_overtrading req limits ctx =
     (if cx_overtrading ctx \<or> rl_max_trades_per_day limits \<le> cx_trades_today ctx
      then rule_hit OVERTRADING WARN MEDIUM
             [Lit ''Overtrading warning: reduce frequency and protect mental capital.'']
      else None)"

text \<open>The two parts of \<open>check_risk_percent\<close>: the percent against its cap, and the ledger caps.\<close>

definition percent_rule :: "rat \<Rightarrow> risk_context \<Rightarrow> triggered_rule option" where
  "percent_rule percent ctx =
     (let cap = (if cx_paper_or_demo_channel ctx then PAPER_DEMO_MAX_RISK_PER_TRADE_PERCENT
                 else HARD_MAX_RISK_PER_TRADE_PERCENT)
      in case cx_profile_risk_percent_cap ctx of
           Some profile_cap \<Rightarrow>
             if profile_cap \<le> 0
             then rule_hit RISK_PERCENT BLOCK CRITICAL
                    [Lit ''Profile risk cap is unreadable; risk percent fails closed.'']
             else if min cap profile_cap < percent
             then rule_hit RISK_PERCENT BLOCK HIGH
                    [Lit ''Risk percent '', Num percent, Lit '' exceeds the cap '', Num (min cap profile_cap), Lit ''.'']
             else None
         | None \<Rightarrow>
             if cap < percent
             then rule_hit RISK_PERCENT BLOCK HIGH
                    [Lit ''Risk percent '', Num percent, Lit '' exceeds the cap '', Num cap, Lit ''.'']
             else None)"

definition ledger_rule :: "risk_context \<Rightarrow> triggered_rule option" where
  "ledger_rule ctx =
     (case (cx_ledger_max_symbol_notional ctx, cx_ledger_max_notional ctx) of
        (Some symbol_cap, Some notional_cap) \<Rightarrow>
          (case ledger_symbol_cap_equals_notional symbol_cap notional_cap of
             Inl _ \<Rightarrow> rule_hit RISK_PERCENT BLOCK CRITICAL
                        [Lit ''Account ledger caps are unreadable; symbol cap fails closed.'']
           | Inr True \<Rightarrow> rule_hit RISK_PERCENT BLOCK HIGH
                        [Lit ''Ledger symbol cap is not independent of total notional.'']
           | Inr False \<Rightarrow> None)
      | _ \<Rightarrow> rule_hit RISK_PERCENT BLOCK CRITICAL
               [Lit ''Account ledger caps are incomplete; symbol cap fails closed.''])"

definition check_risk_percent :: rule_fn where
  "check_risk_percent req limits ctx =
     (if \<not> cx_autonomous_sizing ctx then None else
      let ledger_supplied = cx_ledger_max_symbol_notional ctx \<noteq> None \<or> cx_ledger_max_notional ctx \<noteq> None
      in case (case rq_risk_percent req of None \<Rightarrow> None | Some x \<Rightarrow> percent_rule x ctx) of
           Some hit \<Rightarrow> Some hit
         | None \<Rightarrow> if ledger_supplied then ledger_rule ctx else None)"

definition check_green_day_protection :: rule_fn where
  "check_green_day_protection req limits ctx =
     (if cx_protect_green_day ctx
      then rule_hit STRONG_GREEN_DAY WARN MEDIUM
             [Lit ''Strong green day protection active: avoid giving back profits.'']
      else None)"

text \<open>1 January 1970 was a Thursday, weekday 3 of Python's count from Monday.\<close>

definition default_is_weekend :: "dt \<Rightarrow> bool" where
  "default_is_weekend now \<longleftrightarrow> 5 \<le> (instant now div DAY + 3) mod 7"

definition ALL_RULES :: "rule_fn list" where
  "ALL_RULES =
     [check_kill_switch, check_no_stop_loss, check_invalid_stop_loss, check_max_leverage,
      check_max_position_size, check_daily_loss_lock, check_weekly_loss, check_unsupported_coin,
      check_countertrend, check_volatile_alt, check_extreme_funding, check_low_volume, check_weekend,
      check_sleep_test, check_overtrading, check_green_day_protection, check_risk_percent]"

section \<open>The engine\<close>

fun action_rank :: "risk_action \<Rightarrow> nat" where
  "action_rank ALLOW = 0"
| "action_rank WARN = 1"
| "action_rank BLOCK = 2"

fun severity_rank :: "risk_severity \<Rightarrow> nat" where
  "severity_rank INFO = 0"
| "severity_rank LOW = 1"
| "severity_rank MEDIUM = 2"
| "severity_rank HIGH = 3"
| "severity_rank CRITICAL = 4"

text \<open>Python's \<^verbatim>\<open>max(\<dots>, key=\<dots>)\<close> on a non-empty sequence: the first element of greatest key.\<close>

definition max_by :: "('a \<Rightarrow> nat) \<Rightarrow> 'a \<Rightarrow> 'a list \<Rightarrow> 'a" where
  "max_by key x xs = fold (\<lambda>y m. if key m < key y then y else m) xs x"

fun join_messages :: "message list \<Rightarrow> message" where
  "join_messages [] = []"
| "join_messages [m] = m"
| "join_messages (m # ms) = m @ [Lit ''; ''] @ join_messages ms"

definition triggered_rules :: "risk_check_request \<Rightarrow> risk_limits \<Rightarrow> risk_context \<Rightarrow> triggered_rule list" where
  "triggered_rules req limits ctx = List.map_filter (\<lambda>rule_fn. rule_fn req limits ctx) ALL_RULES"

definition evaluate :: "risk_limits option \<Rightarrow> dt \<Rightarrow> risk_check_request \<Rightarrow> risk_context option \<Rightarrow> risk_check_result" where
  "evaluate engine_limits now req context =
     (let limits = (case engine_limits of Some l \<Rightarrow> l | None \<Rightarrow> default_limits);
          ctx = (case context of Some c \<Rightarrow> c
                 | None \<Rightarrow> default_context\<lparr>cx_is_weekend := default_is_weekend now\<rparr>)
      in case triggered_rules req limits ctx of
           [] \<Rightarrow> \<lparr>ev_action = ALLOW, ev_severity = INFO, ev_triggered_rules = [],
                  ev_explanation = [Lit ''All risk checks passed.''], ev_approval_required = False,
                  ev_suggested_modification = None\<rparr>
         | t # ts \<Rightarrow>
             let action = max_by action_rank (tg_action t) (map tg_action ts);
                 severity = max_by severity_rank (tg_severity t) (map tg_severity ts)
             in \<lparr>ev_action = action, ev_severity = severity, ev_triggered_rules = t # ts,
                 ev_explanation = join_messages (map tg_message (t # ts)),
                 ev_approval_required =
                   (action = WARN \<or> action = BLOCK
                    \<or> list_ex (\<lambda>t. tg_severity t = HIGH \<or> tg_severity t = CRITICAL) (t # ts)),
                 ev_suggested_modification =
                   (if action \<noteq> ALLOW
                    then Some [(''leverage'', Num (min (rq_leverage req) (rl_max_leverage limits))),
                               (''note'', Lit ''Reduce size and leverage; ensure stop loss is set.'')]
                    else None)\<rparr>)"

section \<open>Which rules fire\<close>

lemma max_by_Cons [simp]:
  "max_by key x [] = x" "max_by key x (y # ys) = max_by key (if key x < key y then y else x) ys"
  by (simp_all add: max_by_def)

lemma max_by_in: "max_by key x xs \<in> set (x # xs)"
proof (induction xs arbitrary: x)
  case (Cons y ys)
  from Cons [of y] Cons [of x] show ?case by auto
qed simp

lemma max_by_ge: "y \<in> set (x # xs) \<Longrightarrow> key y \<le> key (max_by key x xs)"
proof (induction xs arbitrary: x y)
  case (Cons z zs)
  let ?m = "if key x < key z then z else x"
  have "key ?m \<le> key (max_by key ?m zs)" by (rule Cons.IH) simp
  moreover have "key x \<le> key ?m" "key z \<le> key ?m" by simp_all
  ultimately show ?case using Cons.prems Cons.IH [of y ?m] by auto
qed simp

lemma triggered_iff:
  "t \<in> set (triggered_rules req l c) \<longleftrightarrow> (\<exists>r \<in> set ALL_RULES. r req l c = Some t)"
  by (auto simp: triggered_rules_def map_filter_def) force

lemma rule_hit_iff [simp]:
  "rule_hit i a s m = Some t \<longleftrightarrow> t = \<lparr>tg_rule_id = i, tg_action = a, tg_severity = s, tg_message = m\<rparr>"
  "rule_hit i a s m \<noteq> None" "None \<noteq> rule_hit i a s m"
  by (auto simp: rule_hit_def)

lemmas rule_defs =
  check_kill_switch_def check_no_stop_loss_def check_invalid_stop_loss_def check_max_leverage_def
  check_max_position_size_def check_daily_loss_lock_def check_weekly_loss_def check_unsupported_coin_def
  check_countertrend_def check_volatile_alt_def check_extreme_funding_def check_low_volume_def
  check_weekend_def check_sleep_test_def check_overtrading_def check_green_day_protection_def

definition BLOCKING_RULES :: "rule_fn list" where
  "BLOCKING_RULES =
     [check_kill_switch, check_no_stop_loss, check_invalid_stop_loss, check_max_leverage,
      check_max_position_size, check_daily_loss_lock, check_weekly_loss, check_sleep_test,
      check_risk_percent]"

definition WARNING_RULES :: "rule_fn list" where
  "WARNING_RULES =
     [check_unsupported_coin, check_countertrend, check_volatile_alt, check_extreme_funding,
      check_low_volume, check_weekend, check_overtrading, check_green_day_protection]"

lemma all_rules_split: "set ALL_RULES = set BLOCKING_RULES \<union> set WARNING_RULES"
  by (auto simp: ALL_RULES_def BLOCKING_RULES_def WARNING_RULES_def)

lemma percent_rule_action: "percent_rule x c = Some t \<Longrightarrow> tg_action t = BLOCK"
  by (auto simp: percent_rule_def Let_def split: option.splits if_splits)

lemma ledger_rule_action: "ledger_rule c = Some t \<Longrightarrow> tg_action t = BLOCK"
  by (auto simp: ledger_rule_def split: option.splits sum.splits bool.splits)

lemma risk_percent_action: "check_risk_percent req l c = Some t \<Longrightarrow> tg_action t = BLOCK"
  by (auto simp: check_risk_percent_def Let_def percent_rule_action ledger_rule_action
      split: option.splits if_splits)

lemma blocking_action: "r \<in> set BLOCKING_RULES \<Longrightarrow> r req l c = Some t \<Longrightarrow> tg_action t = BLOCK"
  by (auto simp: BLOCKING_RULES_def rule_defs Let_def risk_percent_action split: option.splits if_splits)

lemma warning_action: "r \<in> set WARNING_RULES \<Longrightarrow> r req l c = Some t \<Longrightarrow> tg_action t = WARN"
  by (auto simp: WARNING_RULES_def rule_defs split: option.splits if_splits)

text \<open>The verdict of the engine: block if a blocking rule fires, else warn if any rule does.\<close>

definition fires :: "rule_fn list \<Rightarrow> risk_check_request \<Rightarrow> risk_limits \<Rightarrow> risk_context \<Rightarrow> bool" where
  "fires rules req l c \<longleftrightarrow> (\<exists>r \<in> set rules. r req l c \<noteq> None)"

lemma triggered_actions:
  "t \<in> set (triggered_rules req l c) \<Longrightarrow> tg_action t = BLOCK \<or> tg_action t = WARN"
  by (auto simp: triggered_iff all_rules_split dest: blocking_action warning_action)

lemma blocked_iff: "(\<exists>t \<in> set (triggered_rules req l c). tg_action t = BLOCK) \<longleftrightarrow> fires BLOCKING_RULES req l c"
proof
  assume "\<exists>t \<in> set (triggered_rules req l c). tg_action t = BLOCK"
  then obtain t r where t: "tg_action t = BLOCK" "r \<in> set ALL_RULES" "r req l c = Some t"
    by (auto simp: triggered_iff)
  then have "r \<in> set BLOCKING_RULES" using warning_action [of r req l c t] by (auto simp: all_rules_split)
  with t show "fires BLOCKING_RULES req l c" by (auto simp: fires_def)
next
  assume "fires BLOCKING_RULES req l c"
  then obtain r t where "r \<in> set BLOCKING_RULES" "r req l c = Some t" by (auto simp: fires_def)
  then have "t \<in> set (triggered_rules req l c)" "tg_action t = BLOCK"
    using blocking_action [of r req l c t] by (auto simp: triggered_iff all_rules_split)
  then show "\<exists>t \<in> set (triggered_rules req l c). tg_action t = BLOCK" by blast
qed

lemma evaluate_action:
  "ev_action (evaluate (Some l) now req (Some c)) =
     (if fires BLOCKING_RULES req l c then BLOCK else if fires WARNING_RULES req l c then WARN else ALLOW)"
proof (cases "triggered_rules req l c")
  case Nil
  then have "\<not> (\<exists>r \<in> set ALL_RULES. \<exists>t. r req l c = Some t)" using triggered_iff [of _ req l c] by auto
  then have "\<not> fires BLOCKING_RULES req l c" "\<not> fires WARNING_RULES req l c"
    by (auto simp: fires_def all_rules_split)
  then show ?thesis by (simp add: evaluate_def Nil)
next
  case (Cons t ts)
  define m where "m = max_by action_rank (tg_action t) (map tg_action ts)"
  have eq: "ev_action (evaluate (Some l) now req (Some c)) = m"
    by (simp add: evaluate_def Cons m_def Let_def)
  have "m \<in> tg_action ` set (triggered_rules req l c)"
    using max_by_in [of action_rank "tg_action t" "map tg_action ts"] by (simp add: m_def Cons)
  moreover have "action_rank a \<le> action_rank m" if "a \<in> tg_action ` set (triggered_rules req l c)" for a
    using that max_by_ge [of a "tg_action t" "map tg_action ts" action_rank] by (simp add: m_def Cons)
  ultimately have "m = BLOCK \<longleftrightarrow> fires BLOCKING_RULES req l c" "m = BLOCK \<or> m = WARN"
    unfolding blocked_iff [symmetric] using triggered_actions by (force, blast)
  moreover have "fires BLOCKING_RULES req l c \<or> fires WARNING_RULES req l c"
    using triggered_iff [of t req l c] by (auto simp: Cons all_rules_split fires_def)
  ultimately show ?thesis by (auto simp: eq)
qed

text \<open>When each blocking rule fires, as a comparison of the inputs.\<close>

definition risk_ceiling_of :: "risk_context \<Rightarrow> rat" where
  "risk_ceiling_of c =
     (if cx_paper_or_demo_channel c then PAPER_DEMO_MAX_RISK_PER_TRADE_PERCENT else HARD_MAX_RISK_PER_TRADE_PERCENT)"

definition percent_over :: "rat \<Rightarrow> risk_context \<Rightarrow> bool" where
  "percent_over x c \<longleftrightarrow>
     (case cx_profile_risk_percent_cap c of
        None \<Rightarrow> risk_ceiling_of c < x
      | Some k \<Rightarrow> k \<le> 0 \<or> risk_ceiling_of c < x \<or> k < x)"

definition ledger_caps_independent :: "risk_context \<Rightarrow> bool" where
  "ledger_caps_independent c \<longleftrightarrow>
     (\<exists>s n. cx_ledger_max_symbol_notional c = Some (Fin s) \<and> cx_ledger_max_notional c = Some (Fin n) \<and> s < n)"

lemma percent_rule_fires: "percent_rule x c \<noteq> None \<longleftrightarrow> percent_over x c"
  by (auto simp: percent_rule_def percent_over_def risk_ceiling_of_def Let_def min_less_iff_disj split: option.splits)

lemma ledger_rule_fires: "ledger_rule c \<noteq> None \<longleftrightarrow> \<not> ledger_caps_independent c"
  by (auto simp: ledger_rule_def ledger_caps_independent_def ledger_symbol_cap_equals_notional_def
      split: option.splits sum.splits bool.splits num.splits)

lemma risk_percent_fires:
  "check_risk_percent req l c \<noteq> None \<longleftrightarrow>
     cx_autonomous_sizing c
     \<and> ((\<exists>x. rq_risk_percent req = Some x \<and> percent_over x c)
        \<or> (cx_ledger_max_symbol_notional c \<noteq> None \<or> cx_ledger_max_notional c \<noteq> None) \<and> \<not> ledger_caps_independent c)"
  unfolding percent_rule_fires [symmetric] ledger_rule_fires [symmetric] check_risk_percent_def Let_def
  by (auto split: option.splits)

lemma invalid_stop_fires: "check_invalid_stop_loss req l c \<noteq> None \<longleftrightarrow> rq_stop_loss req = Some (rq_entry_price req)"
proof -
  have "dabs (dsub x y) \<le> 0 \<longleftrightarrow> x = y" for x y :: rat
    using dabs_pos_iff [of "dsub x y"] dsub_pos_iff [of x y] dsub_nonneg_iff [of x y]
    by (metis dec28.rnd_eq_0_iff dsub_def eq_iff_diff_eq_0 not_le)
  then show ?thesis by (auto simp: check_invalid_stop_loss_def split: option.splits)
qed

definition order_notional :: "risk_check_request \<Rightarrow> rat" where
  "order_notional req = dmul (rq_position_size req) (rq_entry_price req)"

definition position_cap :: "risk_check_request \<Rightarrow> risk_limits \<Rightarrow> rat" where
  "position_cap req l = dmul (rq_account_equity req) (ddiv (rl_max_position_pct_of_equity l) 100)"

lemma position_fires:
  "check_max_position_size req l c \<noteq> None \<longleftrightarrow>
     position_cap req l < order_notional req
     \<or> position_cap req l < dadd (cx_open_exposure_notional c) (order_notional req)"
  by (auto simp: check_max_position_size_def position_cap_def order_notional_def Let_def)

definition loss_percent :: "risk_check_request \<Rightarrow> risk_context \<Rightarrow> rat" where
  "loss_percent req c = dmul (ddiv (dabs (cx_realized_pnl_today c)) (rq_account_equity req)) 100"

lemma daily_loss_fires:
  "check_daily_loss_lock req l c \<noteq> None \<longleftrightarrow>
     cx_daily_locked c
     \<or> (\<exists>m. cx_daily_loss_limit c = Some m \<and> cx_realized_pnl_today c \<le> dneg m)
     \<or> cx_realized_pnl_today c < 0 \<and> 0 < rq_account_equity req \<and> rl_max_daily_loss_pct l \<le> loss_percent req c"
  by (auto simp: check_daily_loss_lock_def loss_percent_def Let_def split: option.splits)

lemma blocking_fires:
  "fires BLOCKING_RULES req l c \<longleftrightarrow>
     cx_kill_switch_active c
   \<or> rq_stop_loss req = None \<or> rq_stop_loss req = Some (rq_entry_price req)
   \<or> leverage_cap req l < rq_leverage req
   \<or> position_cap req l < order_notional req
   \<or> position_cap req l < dadd (cx_open_exposure_notional c) (order_notional req)
   \<or> check_daily_loss_lock req l c \<noteq> None
   \<or> (\<exists>w. cx_weekly_loss_pct c = Some w \<and> rl_max_weekly_loss_pct l \<le> w)
   \<or> rq_sleep_test_passed req = Some False
   \<or> check_risk_percent req l c \<noteq> None"
proof -
  have "check_weekly_loss req l c \<noteq> None \<longleftrightarrow> (\<exists>w. cx_weekly_loss_pct c = Some w \<and> rl_max_weekly_loss_pct l \<le> w)"
    by (simp add: check_weekly_loss_def split: option.splits)
  moreover have "check_kill_switch req l c \<noteq> None \<longleftrightarrow> cx_kill_switch_active c"
    "check_no_stop_loss req l c \<noteq> None \<longleftrightarrow> rq_stop_loss req = None"
    "check_max_leverage req l c \<noteq> None \<longleftrightarrow> leverage_cap req l < rq_leverage req"
    "check_sleep_test req l c \<noteq> None \<longleftrightarrow> rq_sleep_test_passed req = Some False"
    by (simp_all add: check_kill_switch_def check_no_stop_loss_def check_max_leverage_def check_sleep_test_def Let_def)
  ultimately show ?thesis
    unfolding fires_def BLOCKING_RULES_def list.set Set.bex_simps Set.ball_simps
    by (simp only: invalid_stop_fires position_fires) blast
qed

section \<open>Stricter inputs\<close>

text \<open>
  \<open>at_most k k'\<close>: the optional bound \<open>k\<close> is at least as tight as \<open>k'\<close>. The three relations order limits,
  contexts and requests by how much they allow.
\<close>

definition at_most :: "rat option \<Rightarrow> rat option \<Rightarrow> bool" where
  "at_most k k' \<longleftrightarrow> (case k' of None \<Rightarrow> True | Some y \<Rightarrow> (case k of None \<Rightarrow> False | Some x \<Rightarrow> x \<le> y))"

lemma at_most_Some: "at_most k (Some y) \<Longrightarrow> \<exists>x. k = Some x \<and> x \<le> y"
  by (cases k) (simp_all add: at_most_def)

definition tighter_limits :: "risk_limits \<Rightarrow> risk_limits \<Rightarrow> bool" where
  "tighter_limits l' l \<longleftrightarrow>
     rl_max_leverage l' \<le> rl_max_leverage l
   \<and> rl_max_position_pct_of_equity l' \<le> rl_max_position_pct_of_equity l
   \<and> rl_max_daily_loss_pct l' \<le> rl_max_daily_loss_pct l
   \<and> rl_max_weekly_loss_pct l' \<le> rl_max_weekly_loss_pct l
   \<and> rl_extreme_funding_rate l' \<le> rl_extreme_funding_rate l
   \<and> rl_min_volume_24h l \<le> rl_min_volume_24h l'
   \<and> rl_max_trades_per_day l' \<le> rl_max_trades_per_day l
   \<and> rl_countertrend_max_leverage l' \<le> rl_countertrend_max_leverage l
   \<and> rl_volatile_alt_max_leverage l' \<le> rl_volatile_alt_max_leverage l
   \<and> set (rl_supported_symbols l') \<subseteq> set (rl_supported_symbols l)"

definition worse_context :: "risk_context \<Rightarrow> risk_context \<Rightarrow> bool" where
  "worse_context c' c \<longleftrightarrow>
     (cx_daily_locked c \<longrightarrow> cx_daily_locked c')
   \<and> cx_realized_pnl_today c' \<le> cx_realized_pnl_today c
   \<and> at_most (cx_daily_loss_limit c') (cx_daily_loss_limit c)
   \<and> (\<forall>w. cx_weekly_loss_pct c = Some w \<longrightarrow> (\<exists>w'. cx_weekly_loss_pct c' = Some w' \<and> w \<le> w'))
   \<and> cx_trades_today c \<le> cx_trades_today c'
   \<and> (cx_protect_green_day c \<longrightarrow> cx_protect_green_day c')
   \<and> (cx_kill_switch_active c \<longrightarrow> cx_kill_switch_active c')
   \<and> (cx_overtrading c \<longrightarrow> cx_overtrading c') \<and> (cx_is_weekend c \<longrightarrow> cx_is_weekend c')
   \<and> cx_open_exposure_notional c \<le> cx_open_exposure_notional c'
   \<and> at_most (cx_profile_risk_percent_cap c') (cx_profile_risk_percent_cap c)
   \<and> cx_ledger_max_symbol_notional c' = cx_ledger_max_symbol_notional c
   \<and> cx_ledger_max_notional c' = cx_ledger_max_notional c
   \<and> (cx_autonomous_sizing c \<longrightarrow> cx_autonomous_sizing c')
   \<and> (cx_paper_or_demo_channel c' \<longrightarrow> cx_paper_or_demo_channel c)"

definition riskier_request :: "risk_check_request \<Rightarrow> risk_check_request \<Rightarrow> bool" where
  "riskier_request q' q \<longleftrightarrow>
     rq_symbol q' = rq_symbol q \<and> rq_entry_price q' = rq_entry_price q
   \<and> rq_stop_loss q' = rq_stop_loss q \<and> rq_position_size q \<le> rq_position_size q'
   \<and> rq_leverage q \<le> rq_leverage q' \<and> rq_account_equity q' \<le> rq_account_equity q
   \<and> (\<forall>x. rq_risk_percent q = Some x \<longrightarrow> (\<exists>x'. rq_risk_percent q' = Some x' \<and> x \<le> x'))
   \<and> (rq_is_countertrend q \<longrightarrow> rq_is_countertrend q')
   \<and> (rq_is_volatile_altcoin q \<longrightarrow> rq_is_volatile_altcoin q')
   \<and> rq_funding_rate q' = rq_funding_rate q \<and> rq_volume_24h q' = rq_volume_24h q
   \<and> (rq_sleep_test_passed q = Some False \<longrightarrow> rq_sleep_test_passed q' = Some False)"

lemma tighter_limitsD:
  assumes "tighter_limits l' l"
  shows "rl_max_leverage l' \<le> rl_max_leverage l"
    "rl_max_position_pct_of_equity l' \<le> rl_max_position_pct_of_equity l"
    "rl_max_daily_loss_pct l' \<le> rl_max_daily_loss_pct l" "rl_max_weekly_loss_pct l' \<le> rl_max_weekly_loss_pct l"
    "rl_extreme_funding_rate l' \<le> rl_extreme_funding_rate l" "rl_min_volume_24h l \<le> rl_min_volume_24h l'"
    "rl_max_trades_per_day l' \<le> rl_max_trades_per_day l"
    "rl_countertrend_max_leverage l' \<le> rl_countertrend_max_leverage l"
    "rl_volatile_alt_max_leverage l' \<le> rl_volatile_alt_max_leverage l"
    "set (rl_supported_symbols l') \<subseteq> set (rl_supported_symbols l)"
  using assms by (simp_all add: tighter_limits_def)

lemma worse_contextD:
  assumes "worse_context c' c"
  shows "cx_daily_locked c \<Longrightarrow> cx_daily_locked c'" "cx_realized_pnl_today c' \<le> cx_realized_pnl_today c"
    "at_most (cx_daily_loss_limit c') (cx_daily_loss_limit c)"
    "cx_weekly_loss_pct c = Some w \<Longrightarrow> \<exists>w'. cx_weekly_loss_pct c' = Some w' \<and> w \<le> w'"
    "cx_trades_today c \<le> cx_trades_today c'" "cx_protect_green_day c \<Longrightarrow> cx_protect_green_day c'"
    "cx_kill_switch_active c \<Longrightarrow> cx_kill_switch_active c'" "cx_overtrading c \<Longrightarrow> cx_overtrading c'"
    "cx_is_weekend c \<Longrightarrow> cx_is_weekend c'" "cx_open_exposure_notional c \<le> cx_open_exposure_notional c'"
    "at_most (cx_profile_risk_percent_cap c') (cx_profile_risk_percent_cap c)"
    "cx_ledger_max_symbol_notional c' = cx_ledger_max_symbol_notional c"
    "cx_ledger_max_notional c' = cx_ledger_max_notional c"
    "cx_autonomous_sizing c \<Longrightarrow> cx_autonomous_sizing c'"
    "cx_paper_or_demo_channel c' \<Longrightarrow> cx_paper_or_demo_channel c"
  using assms by (simp_all add: worse_context_def)

lemma riskier_requestD:
  assumes "riskier_request q' q"
  shows "rq_symbol q' = rq_symbol q" "rq_entry_price q' = rq_entry_price q" "rq_stop_loss q' = rq_stop_loss q"
    "rq_position_size q \<le> rq_position_size q'" "rq_leverage q \<le> rq_leverage q'"
    "rq_account_equity q' \<le> rq_account_equity q"
    "rq_risk_percent q = Some x \<Longrightarrow> \<exists>x'. rq_risk_percent q' = Some x' \<and> x \<le> x'"
    "rq_is_countertrend q \<Longrightarrow> rq_is_countertrend q'" "rq_is_volatile_altcoin q \<Longrightarrow> rq_is_volatile_altcoin q'"
    "rq_funding_rate q' = rq_funding_rate q" "rq_volume_24h q' = rq_volume_24h q"
    "rq_sleep_test_passed q = Some False \<Longrightarrow> rq_sleep_test_passed q' = Some False"
  using assms by (simp_all add: riskier_request_def)

lemma warning_stricter:
  assumes "tighter_limits l' l" "worse_context c' c" "riskier_request q' q" "fires WARNING_RULES q l c"
  shows "fires WARNING_RULES q' l' c'"
proof -
  note l = tighter_limitsD [OF assms(1)] and c = worse_contextD [OF assms(2)] and q = riskier_requestD [OF assms(3)]
  have "check_unsupported_coin q l c \<noteq> None \<Longrightarrow> check_unsupported_coin q' l' c' \<noteq> None"
    using l(10) q(1) by (auto simp: check_unsupported_coin_def split: if_splits)
  moreover have "check_countertrend q l c \<noteq> None \<Longrightarrow> check_countertrend q' l' c' \<noteq> None"
    "check_volatile_alt q l c \<noteq> None \<Longrightarrow> check_volatile_alt q' l' c' \<noteq> None"
    using q(8,9) by (simp_all add: check_countertrend_def check_volatile_alt_def split: if_splits)
  moreover have "check_extreme_funding q l c \<noteq> None \<Longrightarrow> check_extreme_funding q' l' c' \<noteq> None"
    using l(5) q(10) by (auto simp: check_extreme_funding_def split: option.splits if_splits)
  moreover have "check_low_volume q l c \<noteq> None \<Longrightarrow> check_low_volume q' l' c' \<noteq> None"
    using l(6) q(11) by (auto simp: check_low_volume_def split: option.splits if_splits)
  moreover have "check_weekend q l c \<noteq> None \<Longrightarrow> check_weekend q' l' c' \<noteq> None"
    "check_green_day_protection q l c \<noteq> None \<Longrightarrow> check_green_day_protection q' l' c' \<noteq> None"
    using c(6,9) by (simp_all add: check_weekend_def check_green_day_protection_def split: if_splits)
  moreover have "check_overtrading q l c \<noteq> None \<Longrightarrow> check_overtrading q' l' c' \<noteq> None"
    using l(7) c(5,8) by (auto simp: check_overtrading_def split: if_splits)
  ultimately show ?thesis using assms(4) unfolding fires_def WARNING_RULES_def list.set by blast
qed

lemma dneg_antimono: "x \<le> y \<Longrightarrow> dneg y \<le> dneg x"
  unfolding dneg_def by (intro dround_mono) auto

lemma daily_loss_stricter:
  assumes "tighter_limits l' l" "worse_context c' c" "riskier_request q' q" "0 < rq_account_equity q'"
    and "check_daily_loss_lock q l c \<noteq> None"
  shows "check_daily_loss_lock q' l' c' \<noteq> None"
proof -
  note c = worse_contextD(1-3) [OF assms(2)] and q = riskier_requestD(6) [OF assms(3)]
  from assms(5) consider "cx_daily_locked c"
    | m where "cx_daily_loss_limit c = Some m" "cx_realized_pnl_today c \<le> dneg m"
    | "cx_realized_pnl_today c < 0" "0 < rq_account_equity q" "rl_max_daily_loss_pct l \<le> loss_percent q c"
    unfolding daily_loss_fires by blast
  then show ?thesis
  proof cases
    case 1
    then show ?thesis unfolding daily_loss_fires using c(1) by blast
  next
    case (2 m)
    then obtain m' where m': "cx_daily_loss_limit c' = Some m'" "m' \<le> m"
      using c(3) at_most_Some [of "cx_daily_loss_limit c'" m] by auto
    have "cx_realized_pnl_today c' \<le> dneg m'" using 2(2) c(2) dneg_antimono [OF m'(2)] by linarith
    with m'(1) show ?thesis unfolding daily_loss_fires by blast
  next
    case 3
    have "dabs (cx_realized_pnl_today c) \<le> dabs (cx_realized_pnl_today c')"
      using 3(1) c(2) unfolding dabs_def by (intro dround_mono) auto
    then have "loss_percent q c \<le> loss_percent q' c'"
      unfolding loss_percent_def using assms(4) q by (intro dmul_mono ddiv_mono) (auto simp: dec_sign)
    then have "cx_realized_pnl_today c' < 0" "rl_max_daily_loss_pct l' \<le> loss_percent q' c'"
      using 3 c(2) tighter_limitsD(3) [OF assms(1)] by linarith+
    with assms(4) show ?thesis unfolding daily_loss_fires by blast
  qed
qed

lemma percent_over_stricter:
  assumes "worse_context c' c" "percent_over x c" "x \<le> x'"
  shows "percent_over x' c'"
proof -
  have ceil: "risk_ceiling_of c' \<le> risk_ceiling_of c"
    using worse_contextD(15) [OF assms(1)] by (simp add: risk_ceiling_of_def
        PAPER_DEMO_MAX_RISK_PER_TRADE_PERCENT_def HARD_MAX_RISK_PER_TRADE_PERCENT_def)
  show ?thesis
  proof (cases "cx_profile_risk_percent_cap c")
    case None
    then show ?thesis using assms(2,3) ceil by (auto simp: percent_over_def split: option.splits)
  next
    case (Some k)
    then obtain k' where "cx_profile_risk_percent_cap c' = Some k'" "k' \<le> k"
      using worse_contextD(11) [OF assms(1)] at_most_Some [of "cx_profile_risk_percent_cap c'" k] by auto
    then show ?thesis using assms(2,3) ceil Some by (auto simp: percent_over_def)
  qed
qed

lemma risk_percent_stricter:
  assumes "worse_context c' c" "riskier_request q' q" "check_risk_percent q l c \<noteq> None"
  shows "check_risk_percent q' l' c' \<noteq> None"
proof -
  note c = worse_contextD [OF assms(1)]
  have on: "cx_autonomous_sizing c'" using assms(3) c(14) unfolding risk_percent_fires by blast
  have percent: "\<exists>x'. rq_risk_percent q' = Some x' \<and> percent_over x' c'"
    if "rq_risk_percent q = Some x" "percent_over x c" for x
    using riskier_requestD(7) [OF assms(2) that(1)] percent_over_stricter [OF assms(1) that(2)] by blast
  have same: "ledger_caps_independent c' = ledger_caps_independent c"
    using c(12,13) by (simp add: ledger_caps_independent_def)
  show ?thesis using assms(3) on percent unfolding risk_percent_fires same c(12,13) by blast
qed

lemma position_stricter:
  assumes "tighter_limits l' l" "riskier_request q' q"
    and "0 < rq_account_equity q'" "0 < rq_position_size q" "0 < rq_entry_price q" "0 \<le> rl_max_position_pct_of_equity l'"
  shows "position_cap q' l' \<le> position_cap q l" "order_notional q \<le> order_notional q'"
  using assms(3-) tighter_limitsD(2) [OF assms(1)] riskier_requestD(2,4,6) [OF assms(2)]
  unfolding position_cap_def order_notional_def
  by (auto intro!: dmul_mono ddiv_mono simp: dec_sign)

lemma blocking_stricter:
  assumes "tighter_limits l' l" "worse_context c' c" "riskier_request q' q"
    and "0 < rq_account_equity q'" "0 < rq_position_size q" "0 < rq_entry_price q" "0 \<le> rl_max_position_pct_of_equity l'"
    and "fires BLOCKING_RULES q l c"
  shows "fires BLOCKING_RULES q' l' c'"
proof -
  note l = tighter_limitsD [OF assms(1)] and c = worse_contextD [OF assms(2)] and q = riskier_requestD [OF assms(3)]
  note pos = position_stricter [OF assms(1,3-7)]
  have "position_cap q l < order_notional q \<Longrightarrow> position_cap q' l' < order_notional q'" using pos by linarith
  moreover have "dadd (cx_open_exposure_notional c) (order_notional q)
      \<le> dadd (cx_open_exposure_notional c') (order_notional q')"
    using pos(2) c(10) by (intro dadd_mono)
  then have "position_cap q l < dadd (cx_open_exposure_notional c) (order_notional q) \<Longrightarrow>
      position_cap q' l' < dadd (cx_open_exposure_notional c') (order_notional q')" using pos(1) by linarith
  moreover have "leverage_cap q' l' \<le> leverage_cap q l"
    using l(1,8,9) q(8,9) by (auto simp: leverage_cap_def Let_def min_le_iff_disj)
  then have "leverage_cap q l < rq_leverage q \<Longrightarrow> leverage_cap q' l' < rq_leverage q'" using q(5) by linarith
  moreover have "\<exists>w'. cx_weekly_loss_pct c' = Some w' \<and> rl_max_weekly_loss_pct l' \<le> w'"
    if "cx_weekly_loss_pct c = Some w" "rl_max_weekly_loss_pct l \<le> w" for w
    using c(4) [OF that(1)] that(2) l(4) by force
  moreover note daily_loss_stricter [OF assms(1-4)] risk_percent_stricter [OF assms(2,3), of l l']
    c(7) q(12)
  ultimately show ?thesis using assms(8) unfolding blocking_fires q(2,3) by blast
qed

lemma approval_iff_not_allowed:
  "ev_approval_required (evaluate (Some l) now req (Some c)) \<longleftrightarrow> ev_action (evaluate (Some l) now req (Some c)) \<noteq> ALLOW"
proof (cases "triggered_rules req l c")
  case Nil
  then show ?thesis by (simp add: evaluate_def)
next
  case (Cons t ts)
  have "ev_action (evaluate (Some l) now req (Some c)) \<in> tg_action ` set (triggered_rules req l c)"
    using max_by_in [of action_rank "tg_action t" "map tg_action ts"] by (simp add: evaluate_def Cons Let_def)
  then have "ev_action (evaluate (Some l) now req (Some c)) = BLOCK \<or> ev_action (evaluate (Some l) now req (Some c)) = WARN"
    by (auto dest: triggered_actions)
  then show ?thesis by (auto simp: evaluate_def Cons Let_def)
qed

text \<open>Two lower roundings below two upper roundings cost at most one part in \<open>10 ^ 26\<close>.\<close>

lemma eps_two:
  assumes "(1 - EPS) ^ 2 * x \<le> (1 + EPS) ^ 2 * z" "0 \<le> z"
  shows "x \<le> (1 + 1 / 10 ^ 26) * z"
proof -
  have "(1 - EPS) ^ 2 * x \<le> (1 + EPS) ^ 2 * z" by (rule assms(1))
  also have "\<dots> \<le> (1 + 1 / 10 ^ 26) * (1 - EPS) ^ 2 * z"
    using assms(2) by (intro mult_right_mono) (simp_all add: EPS_def field_simps)
  finally have "(1 - EPS) ^ 2 * x \<le> (1 - EPS) ^ 2 * ((1 + 1 / 10 ^ 26) * z)" by (simp only: mult_ac)
  moreover have "0 < (1 - EPS) ^ 2" by (simp add: EPS_def)
  ultimately show ?thesis by (simp only: mult_le_cancel_left_pos)
qed

lemma exposure_bound:
  assumes "dadd open_notional (order_notional req) \<le> position_cap req l" "request_bounds req" "0 \<le> open_notional"
    and "0 \<le> rl_max_position_pct_of_equity l"
  shows "open_notional + rq_position_size req * rq_entry_price req
      \<le> (1 + 1 / 10 ^ 26) * (rq_account_equity req * rl_max_position_pct_of_equity l / 100)"
proof -
  have pos: "0 < rq_position_size req" "0 < rq_entry_price req" "0 < rq_account_equity req"
    using assms(2) by (simp_all add: request_bounds_def)
  have "(1 - EPS) ^ 1 * (rq_position_size req * rq_entry_price req) \<le> order_notional req"
    using dmul_low [of "rq_position_size req" "rq_entry_price req" 0] pos by (simp add: order_notional_def)
  then have low: "(1 - EPS) ^ 2 * (open_notional + rq_position_size req * rq_entry_price req)
      \<le> dadd open_notional (order_notional req)"
    using dadd_low [of open_notional "order_notional req" 1 open_notional] assms(3) pos
      dec28.low_pow_mono [of open_notional 0 1 open_notional]
    by (simp add: order_notional_def dec_sign numeral_2_eq_2)
  have "ddiv (rl_max_position_pct_of_equity l) 100 \<le> (1 + EPS) ^ 1 * (rl_max_position_pct_of_equity l / 100)"
    using ddiv_up [of "rl_max_position_pct_of_equity l" 100 0] assms(4) by simp
  from dmul_up [OF _ _ this, of "rq_account_equity req"]
  have "position_cap req l \<le> (1 + EPS) ^ 2 * (rl_max_position_pct_of_equity l / 100 * rq_account_equity req)"
    using assms(4) pos unfolding position_cap_def dmul_def
    by (simp add: mult.commute [of "rq_account_equity req"] dec_sign numeral_2_eq_2 del: mult_Suc_right)
  also have "rl_max_position_pct_of_equity l / 100 * rq_account_equity req
      = rq_account_equity req * rl_max_position_pct_of_equity l / 100" by simp
  finally show ?thesis using low assms(1,4) pos by (intro eps_two) (linarith, simp)
qed

section \<open>Properties\<close>

text \<open>
  C32. The engine blocks an order exactly when one of these holds: the kill switch is on; there is no
  stop, or it is at the entry; the leverage exceeds the cap for the kind of trade; the order alone or
  with the open exposure exceeds the share of equity; the day is locked, the realised loss reaches the
  daily limit or the percent of equity; the weekly loss reaches its limit; the sleep test failed; or an
  autonomous order's risk percent exceeds the channel's ceiling or the profile's cap, or its ledger
  caps are unreadable or not independent. Human approval is required exactly when the verdict is not
  to allow.
\<close>

theorem risk_engine_blocks_exactly:
  "(ev_action (evaluate (Some l) now req (Some c)) = BLOCK \<longleftrightarrow>
       cx_kill_switch_active c
     \<or> rq_stop_loss req = None \<or> rq_stop_loss req = Some (rq_entry_price req)
     \<or> leverage_cap req l < rq_leverage req
     \<or> position_cap req l < order_notional req
     \<or> position_cap req l < dadd (cx_open_exposure_notional c) (order_notional req)
     \<or> cx_daily_locked c
     \<or> (\<exists>m. cx_daily_loss_limit c = Some m \<and> cx_realized_pnl_today c \<le> dneg m)
     \<or> cx_realized_pnl_today c < 0 \<and> 0 < rq_account_equity req \<and> rl_max_daily_loss_pct l \<le> loss_percent req c
     \<or> (\<exists>w. cx_weekly_loss_pct c = Some w \<and> rl_max_weekly_loss_pct l \<le> w)
     \<or> rq_sleep_test_passed req = Some False
     \<or> cx_autonomous_sizing c
       \<and> ((\<exists>x. rq_risk_percent req = Some x \<and> percent_over x c)
          \<or> (cx_ledger_max_symbol_notional c \<noteq> None \<or> cx_ledger_max_notional c \<noteq> None)
            \<and> \<not> ledger_caps_independent c))
   \<and> ev_approval_required (evaluate (Some l) now req (Some c))
       = (ev_action (evaluate (Some l) now req (Some c)) \<noteq> ALLOW)"
proof -
  have "ev_action (evaluate (Some l) now req (Some c)) = BLOCK \<longleftrightarrow> fires BLOCKING_RULES req l c"
    by (simp add: evaluate_action)
  then show ?thesis
    unfolding approval_iff_not_allowed blocking_fires daily_loss_fires risk_percent_fires by blast
qed

definition sample_request :: risk_check_request where
  "sample_request =
     \<lparr>rq_symbol = ''BTCUSDT'', rq_direction = ''long'', rq_strategy_id = None, rq_entry_price = 100,
      rq_stop_loss = Some 97, rq_position_size = 4, rq_leverage = 5, rq_account_equity = 10000,
      rq_risk_percent = Some 1, rq_is_countertrend = False, rq_is_volatile_altcoin = False,
      rq_funding_rate = None, rq_volume_24h = None, rq_sleep_test_passed = None\<rparr>"

lemma sample_not_blocked: "ev_action (evaluate (Some default_limits) (Aware 0) sample_request (Some default_context)) = ALLOW"
  unfolding evaluate_action fires_def BLOCKING_RULES_def WARNING_RULES_def list.set
  by (simp add: rule_defs check_risk_percent_def leverage_cap_def sample_request_def default_limits_def
      default_context_def dec_eval)

theorem risk_engine_blocks_exactly_witness:
  "ev_action (evaluate (Some default_limits) (Aware 0) sample_request
     (Some (default_context\<lparr>cx_kill_switch_active := True\<rparr>))) = BLOCK"
  using risk_engine_blocks_exactly [of default_limits "Aware 0" sample_request
      "default_context\<lparr>cx_kill_switch_active := True\<rparr>"] by simp

text \<open>
  C34. The verdict can only become stricter when the inputs do: with limits that allow no more, a context
  that is no better (flags, losses, exposure, caps, channel) and a request that asks for no less
  (size, leverage, risk percent, equity), the action is at least as restrictive. No rule lets a worse
  situation through that a better one would stop.
\<close>

theorem risk_engine_monotone:
  assumes "tighter_limits l' l" "worse_context c' c" "riskier_request q' q"
    and "request_bounds q" "request_bounds q'" "0 \<le> rl_max_position_pct_of_equity l'"
  shows "action_rank (ev_action (evaluate (Some l) now q (Some c)))
      \<le> action_rank (ev_action (evaluate (Some l') now' q' (Some c')))"
proof -
  have "0 < rq_account_equity q'" "0 < rq_position_size q" "0 < rq_entry_price q"
    using assms(4,5) by (simp_all add: request_bounds_def)
  from blocking_stricter [OF assms(1-3) this assms(6)] warning_stricter [OF assms(1-3)]
  show ?thesis unfolding evaluate_action by auto
qed

theorem risk_engine_monotone_witness:
  "action_rank (ev_action (evaluate (Some default_limits) (Aware 0) sample_request (Some default_context)))
   \<le> action_rank (ev_action (evaluate (Some (default_limits\<lparr>rl_max_leverage := 3\<rparr>)) (Aware 0)
        (sample_request\<lparr>rq_leverage := 6\<rparr>) (Some (default_context\<lparr>cx_is_weekend := True\<rparr>))))"
proof (rule risk_engine_monotone)
  show "tighter_limits (default_limits\<lparr>rl_max_leverage := 3\<rparr>) default_limits"
    by (simp add: tighter_limits_def default_limits_def)
  show "worse_context (default_context\<lparr>cx_is_weekend := True\<rparr>) default_context"
    by (simp add: worse_context_def default_context_def at_most_def)
  show "riskier_request (sample_request\<lparr>rq_leverage := 6\<rparr>) sample_request"
    by (simp add: riskier_request_def sample_request_def)
  show "request_bounds sample_request" "request_bounds (sample_request\<lparr>rq_leverage := 6\<rparr>)"
    by (simp_all add: request_bounds_def sample_request_def)
  show "0 \<le> rl_max_position_pct_of_equity (default_limits\<lparr>rl_max_leverage := 3\<rparr>)"
    by (simp add: default_limits_def)
qed

text \<open>
  What an order that is not blocked satisfies, in exact arithmetic: it has a stop away from the
  entry, its leverage is within the engine's maximum, the open exposure with the order is within the
  limit's share of equity (up to one part in \<open>10 ^ 26\<close> for the rounding of the Decimals), and the risk
  percent of an autonomous order is within 5 percent on paper and demo, 2 percent elsewhere, and the
  profile's cap.
\<close>

theorem risk_engine_unblocked_bounds:
  assumes "ev_action (evaluate (Some l) now req (Some c)) \<noteq> BLOCK" "request_bounds req"
    and "0 \<le> cx_open_exposure_notional c" "0 \<le> rl_max_position_pct_of_equity l"
  shows "(\<exists>stop. rq_stop_loss req = Some stop \<and> stop \<noteq> rq_entry_price req)
    \<and> rq_leverage req \<le> rl_max_leverage l
    \<and> cx_open_exposure_notional c + rq_position_size req * rq_entry_price req
        \<le> (1 + 1 / 10 ^ 26) * (rq_account_equity req * rl_max_position_pct_of_equity l / 100)
    \<and> (cx_autonomous_sizing c \<longrightarrow> (\<forall>x. rq_risk_percent req = Some x \<longrightarrow>
         x \<le> (if cx_paper_or_demo_channel c then 5 else 2)
         \<and> (\<forall>k. cx_profile_risk_percent_cap c = Some k \<longrightarrow> x \<le> k)))"
proof -
  from assms(1) have "\<not> fires BLOCKING_RULES req l c" by (auto simp: evaluate_action)
  then have "\<not> leverage_cap req l < rq_leverage req"
    "\<not> position_cap req l < dadd (cx_open_exposure_notional c) (order_notional req)"
    and n: "rq_stop_loss req \<noteq> None" "rq_stop_loss req \<noteq> Some (rq_entry_price req)" "check_risk_percent req l c = None"
    unfolding blocking_fires by simp_all
  then have le: "rq_leverage req \<le> leverage_cap req l"
    "dadd (cx_open_exposure_notional c) (order_notional req) \<le> position_cap req l" by linarith+
  have "leverage_cap req l \<le> rl_max_leverage l" by (simp add: leverage_cap_def Let_def min_le_iff_disj)
  moreover have "\<not> percent_over x c" if "cx_autonomous_sizing c" "rq_risk_percent req = Some x" for x
    using n(3) that risk_percent_fires [of req l c] by blast
  ultimately show ?thesis
    using n(1,2) le(1) exposure_bound [OF le(2) assms(2-4)]
    by (fastforce simp: percent_over_def risk_ceiling_of_def PAPER_DEMO_MAX_RISK_PER_TRADE_PERCENT_def
        HARD_MAX_RISK_PER_TRADE_PERCENT_def split: option.splits if_splits)
qed

theorem risk_engine_unblocked_bounds_witness:
  "(0 :: rat) + 4 * 100 \<le> (1 + 1 / 10 ^ 26) * (10000 * 5 / 100)"
proof -
  have "ev_action (evaluate (Some default_limits) (Aware 0) sample_request (Some default_context)) \<noteq> BLOCK"
    by (simp add: sample_not_blocked)
  moreover have "request_bounds sample_request" by (simp add: request_bounds_def sample_request_def)
  ultimately show ?thesis
    using risk_engine_unblocked_bounds [of default_limits "Aware 0" sample_request default_context]
    by (simp add: sample_request_def default_limits_def default_context_def)
qed

end
