(* ===== verification/Daily_Risk.thy ===== *)
theory Daily_Risk
  imports Governance
begin

text \<open>
  The daily loss accounting: \<^verbatim>\<open>services/risk/settings_service.py\<close>,
  \<^verbatim>\<open>services/risk/daily_risk_accounting.py\<close>, \<^verbatim>\<open>services/risk/mirror_economics.py\<close> and
  \<^verbatim>\<open>services/risk/paper_cooldown.py\<close> over the tables of \<^verbatim>\<open>db/models.py\<close> they read and write.

  A table is a list of rows; a row has the columns these modules read or write, a nullable column is
  an option. Money columns are exact rationals: SQL adds them exactly, and the Decimal operators the
  Python code applies to them round at 28 digits. A date is the number of its day since the epoch, a
  moment is its instant in microseconds.

  A time zone is what \<^verbatim>\<open>zoneinfo\<close> reads from the zone database: the offset before the first change
  and the list of changes. \<open>wall_offset\<close> is its rule for a wall time of fold 0: the change counts from
  the later of the two wall times it has. The database itself, from names to zones, is the parameter
  \<open>zones\<close>, and \<open>others\<close> is what another session commits between a read and the insert that follows it.
\<close>

section \<open>Time zones\<close>

record zone_change =
  zc_at :: int
  zc_offset :: int

record zone =
  zn_offset :: int
  zn_changes :: "zone_change list"

type_synonym zone_db = "string \<Rightarrow> zone option"

fun offset_scan :: "int \<Rightarrow> zone_change list \<Rightarrow> int \<Rightarrow> int" where
  "offset_scan off [] t = off"
| "offset_scan off (c # cs) t = (if t < zc_at c then off else offset_scan (zc_offset c) cs t)"

fun wall_scan :: "int \<Rightarrow> zone_change list \<Rightarrow> int \<Rightarrow> int" where
  "wall_scan off [] w = off"
| "wall_scan off (c # cs) w =
     (if w < zc_at c + max off (zc_offset c) then off else wall_scan (zc_offset c) cs w)"

definition utc_offset :: "zone \<Rightarrow> int \<Rightarrow> int" where
  "utc_offset z t = offset_scan (zn_offset z) (zn_changes z) t"

definition wall_offset :: "zone \<Rightarrow> int \<Rightarrow> int" where
  "wall_offset z w = wall_scan (zn_offset z) (zn_changes z) w"

definition utc_zone :: zone where
  "utc_zone = \<lparr>zn_offset = 0, zn_changes = []\<rparr>"

definition local_date :: "zone \<Rightarrow> int \<Rightarrow> int" where
  "local_date z t = (t + utc_offset z t) div DAY"

definition day_start :: "zone \<Rightarrow> int \<Rightarrow> int" where
  "day_start z d = d * DAY - wall_offset z (d * DAY)"

definition normalize_timezone :: "zone_db \<Rightarrow> string option \<Rightarrow> string \<times> bool" where
  "normalize_timezone zones timezone_name =
     (let text = (case timezone_name of None \<Rightarrow> ''UTC'' | Some n \<Rightarrow> if n = '''' then ''UTC'' else n);
          label = (if strip text = '''' then ''UTC'' else strip text)
      in if zones label \<noteq> None then (label, False) else (''UTC'', True))"

definition day_bounds_utc :: "zone_db \<Rightarrow> int \<Rightarrow> string \<Rightarrow> int \<times> int" where
  "day_bounds_utc zones day timezone_name =
     (let tz = (case zones timezone_name of Some z \<Rightarrow> z | None \<Rightarrow> utc_zone);
          start_utc = day_start tz day
      in (start_utc, start_utc + DAY))"

section \<open>Tables\<close>

datatype position_status = POSITION_OPEN | POSITION_CLOSED | POSITION_LIQUIDATED

datatype order_status =
    ORDER_PENDING | ORDER_OPEN | ORDER_PARTIALLY_FILLED | ORDER_FILLED | ORDER_CANCELLED | ORDER_REJECTED

datatype execution_mode = MODE_PAPER | MODE_READ_ONLY | MODE_TRADE

datatype journal_source =
    SOURCE_MANUAL | SOURCE_PAPER_EXECUTION | SOURCE_MANUAL_DEMO_TEST | SOURCE_BLOFIN_DEMO_MANUAL
  | SOURCE_PAPER_VALIDATION | SOURCE_BACKTEST | SOURCE_IMPORTED | SOURCE_SYSTEM

datatype journal_status = TRADE_PLANNED | TRADE_OPEN | TRADE_CLOSED | TRADE_CANCELLED

record position_row =
  ps_org :: string
  ps_user :: string
  ps_size :: rat
  ps_entry_price :: rat
  ps_stop_loss :: "rat option"
  ps_unrealized_pnl :: rat
  ps_realized_pnl :: rat
  ps_status :: position_status
  ps_closed_at :: "int option"

record order_row =
  od_org :: string
  od_user :: string
  od_mode :: execution_mode
  od_status :: order_status
  od_created_at :: int

record journal_trade =
  jt_org :: string
  jt_user :: string
  jt_source :: journal_source
  jt_status :: journal_status
  jt_planned_stop_price :: "rat option"
  jt_entry_price :: "rat option"
  jt_entry_time :: "int option"
  jt_exit_time :: "int option"
  jt_size :: "rat option"
  jt_net_pnl :: "rat option"
  jt_linked_position_id :: "string option"
  jt_external_ref :: "string option"
  jt_execution_lifecycle_id :: "string option"

record user_risk_settings =
  st_org :: string
  st_user :: string
  st_daily_loss_limit :: "rat option"
  st_daily_target :: "rat option"
  st_max_trades_per_day :: int
  st_max_risk_per_trade_percent :: rat
  st_default_account_balance :: rat
  st_timezone :: string
  st_green_day_protection_enabled :: bool
  st_one_loss_stop_enabled :: bool
  st_overtrading_guard_enabled :: bool
  st_notes :: "string option"

record user_risk_settings_response = user_risk_settings +
  st_using_defaults :: bool
  st_timezone_fallback :: bool

record daily_risk_state =
  dr_org :: string
  dr_user :: string
  dr_day :: int
  dr_realized_pnl :: rat
  dr_unrealized_pnl :: rat
  dr_daily_loss_limit :: "rat option"
  dr_daily_target :: "rat option"
  dr_max_trades_per_day :: "int option"
  dr_trade_count :: int
  dr_locked :: bool

text \<open>One entry of a partial update of the settings; the unset fields are not in the list.\<close>

datatype setting_update =
    Daily_Loss_Limit "rat option" | Daily_Target "rat option" | Max_Trades_Per_Day "int option"
  | Max_Risk_Per_Trade_Percent "rat option" | Default_Account_Balance "rat option"
  | Timezone "string option" | Green_Day_Protection_Enabled "bool option"
  | One_Loss_Stop_Enabled "bool option" | Overtrading_Guard_Enabled "bool option" | Notes "string option"

datatype settings_audit = Settings_Changed string string "setting_update list" bool | Settings_Reset string string

text \<open>\<open>pb_users\<close> has the timezone of each user by id.\<close>

record portfolio_db =
  pb_users :: "(string \<times> string option) list"
  pb_settings :: "user_risk_settings list"
  pb_daily :: "daily_risk_state list"
  pb_positions :: "position_row list"
  pb_orders :: "order_row list"
  pb_journal :: "journal_trade list"
  pb_audit :: "settings_audit list"

section \<open>Settings\<close>

definition default_settings :: "string \<Rightarrow> string \<Rightarrow> user_risk_settings" where
  "default_settings org user =
     \<lparr>st_org = org, st_user = user, st_daily_loss_limit = None, st_daily_target = None,
      st_max_trades_per_day = 20, st_max_risk_per_trade_percent = 1, st_default_account_balance = 10000,
      st_timezone = ''UTC'', st_green_day_protection_enabled = True, st_one_loss_stop_enabled = False,
      st_overtrading_guard_enabled = True, st_notes = None\<rparr>"

definition load_settings :: "string \<Rightarrow> string \<Rightarrow> portfolio_db \<Rightarrow> user_risk_settings option" where
  "load_settings org user db = find (\<lambda>r. st_org r = org \<and> st_user r = user) (pb_settings db)"

definition settings_response :: "zone_db \<Rightarrow> user_risk_settings \<Rightarrow> bool \<Rightarrow> bool option \<Rightarrow> user_risk_settings_response" where
  "settings_response zones row using_defaults timezone_fallback =
     (let tz_fallback = (case timezone_fallback of Some f \<Rightarrow> f
                         | None \<Rightarrow> snd (normalize_timezone zones (Some (st_timezone row))))
      in user_risk_settings.extend row (user_risk_settings_response.fields using_defaults tz_fallback))"

definition defaults_response :: "zone_db \<Rightarrow> string \<Rightarrow> string \<Rightarrow> portfolio_db \<Rightarrow> user_risk_settings_response" where
  "defaults_response zones org user db =
     (let tz = (case map_of (pb_users db) user of
                  Some (Some name) \<Rightarrow> if name = '''' then ''UTC'' else name
                | _ \<Rightarrow> ''UTC'');
          (tz_label, tz_fallback) = normalize_timezone zones (Some tz)
      in user_risk_settings.extend ((default_settings org user)\<lparr>st_timezone := tz_label\<rparr>)
           (user_risk_settings_response.fields True tz_fallback))"

definition get_settings :: "zone_db \<Rightarrow> string \<Rightarrow> string \<Rightarrow> portfolio_db \<Rightarrow> user_risk_settings_response" where
  "get_settings zones org user db =
     (case load_settings org user db of
        None \<Rightarrow> defaults_response zones org user db
      | Some row \<Rightarrow> settings_response zones row False None)"

definition validate_update :: "setting_update list \<Rightarrow> unit res" where
  "validate_update payload =
     (if list_ex (\<lambda>u. case u of Daily_Loss_Limit (Some x) \<Rightarrow> x \<le> 0 | _ \<Rightarrow> False) payload then Inl ValueError
      else if list_ex (\<lambda>u. case u of Daily_Target (Some x) \<Rightarrow> x \<le> 0 | _ \<Rightarrow> False) payload then Inl ValueError
      else Inr ())"

text \<open>
  One turn of the update loop: the row, the changes recorded for the audit and whether a timezone fell
  back. A field set to null is skipped unless it is one of the three nullable ones.
\<close>

fun set_field ::
    "zone_db \<Rightarrow> setting_update \<Rightarrow> user_risk_settings \<times> setting_update list \<times> bool
     \<Rightarrow> user_risk_settings \<times> setting_update list \<times> bool" where
  "set_field zones (Timezone (Some v)) (row, changes, fell) =
     (case normalize_timezone zones (Some v) of (tz, fallback) \<Rightarrow>
        (row\<lparr>st_timezone := tz\<rparr>, changes @ [Timezone (Some tz)], fell \<or> fallback))"
| "set_field zones (Daily_Loss_Limit v) (row, changes, fell) =
     (row\<lparr>st_daily_loss_limit := v\<rparr>, changes @ [Daily_Loss_Limit v], fell)"
| "set_field zones (Daily_Target v) (row, changes, fell) =
     (row\<lparr>st_daily_target := v\<rparr>, changes @ [Daily_Target v], fell)"
| "set_field zones (Notes v) (row, changes, fell) = (row\<lparr>st_notes := v\<rparr>, changes @ [Notes v], fell)"
| "set_field zones (Max_Trades_Per_Day (Some v)) (row, changes, fell) =
     (row\<lparr>st_max_trades_per_day := v\<rparr>, changes @ [Max_Trades_Per_Day (Some v)], fell)"
| "set_field zones (Max_Risk_Per_Trade_Percent (Some v)) (row, changes, fell) =
     (row\<lparr>st_max_risk_per_trade_percent := v\<rparr>, changes @ [Max_Risk_Per_Trade_Percent (Some v)], fell)"
| "set_field zones (Default_Account_Balance (Some v)) (row, changes, fell) =
     (row\<lparr>st_default_account_balance := v\<rparr>, changes @ [Default_Account_Balance (Some v)], fell)"
| "set_field zones (Green_Day_Protection_Enabled (Some v)) (row, changes, fell) =
     (row\<lparr>st_green_day_protection_enabled := v\<rparr>, changes @ [Green_Day_Protection_Enabled (Some v)], fell)"
| "set_field zones (One_Loss_Stop_Enabled (Some v)) (row, changes, fell) =
     (row\<lparr>st_one_loss_stop_enabled := v\<rparr>, changes @ [One_Loss_Stop_Enabled (Some v)], fell)"
| "set_field zones (Overtrading_Guard_Enabled (Some v)) (row, changes, fell) =
     (row\<lparr>st_overtrading_guard_enabled := v\<rparr>, changes @ [Overtrading_Guard_Enabled (Some v)], fell)"
| "set_field zones _ (row, changes, fell) = (row, changes, fell)"

definition put_settings :: "user_risk_settings \<Rightarrow> portfolio_db \<Rightarrow> portfolio_db" where
  "put_settings row db =
     (if load_settings (st_org row) (st_user row) db = None then db\<lparr>pb_settings := pb_settings db @ [row]\<rparr>
      else db\<lparr>pb_settings := map (\<lambda>r. if st_org r = st_org row \<and> st_user r = st_user row then row else r)
                              (pb_settings db)\<rparr>)"

definition update_settings ::
    "zone_db \<Rightarrow> setting_update list \<Rightarrow> string \<Rightarrow> string \<Rightarrow> portfolio_db
     \<Rightarrow> (user_risk_settings_response \<times> portfolio_db) res" where
  "update_settings zones payload org user db =
     res_bind (validate_update payload) (\<lambda>_.
     let row = (case load_settings org user db of None \<Rightarrow> default_settings org user | Some r \<Rightarrow> r)
     in case fold (set_field zones) payload (row, [], False) of (row', changes, fell) \<Rightarrow>
        let db1 = put_settings row' db
        in Inr (settings_response zones row' False (if fell then Some True else None),
                db1\<lparr>pb_audit := pb_audit db1 @ [Settings_Changed org user changes fell]\<rparr>))"

definition reset_defaults :: "zone_db \<Rightarrow> string \<Rightarrow> string \<Rightarrow> portfolio_db \<Rightarrow> user_risk_settings_response \<times> portfolio_db" where
  "reset_defaults zones org user db =
     (let row = default_settings org user; db1 = put_settings row db
      in (settings_response zones row False None, db1\<lparr>pb_audit := pb_audit db1 @ [Settings_Reset org user]\<rparr>))"

section \<open>The row of a day\<close>

definition find_daily :: "string \<Rightarrow> string \<Rightarrow> int \<Rightarrow> portfolio_db \<Rightarrow> daily_risk_state option" where
  "find_daily org user day db =
     find (\<lambda>r. dr_org r = org \<and> dr_user r = user \<and> dr_day r = day) (pb_daily db)"

definition new_daily :: "string \<Rightarrow> string \<Rightarrow> int \<Rightarrow> portfolio_db \<Rightarrow> daily_risk_state" where
  "new_daily org user day db =
     (let s = (case load_settings org user db of Some r \<Rightarrow> r | None \<Rightarrow> default_settings org user)
      in \<lparr>dr_org = org, dr_user = user, dr_day = day, dr_realized_pnl = 0, dr_unrealized_pnl = 0,
          dr_daily_loss_limit = st_daily_loss_limit s, dr_daily_target = st_daily_target s,
          dr_max_trades_per_day = Some (st_max_trades_per_day s), dr_trade_count = 0, dr_locked = False\<rparr>)"

text \<open>
  The insert meets the unique constraint when another session has inserted the row since the read; the
  savepoint is rolled back and the row is read again.
\<close>

definition ensure_daily_risk_state ::
    "(portfolio_db \<Rightarrow> portfolio_db) \<Rightarrow> string \<Rightarrow> string \<Rightarrow> int \<Rightarrow> portfolio_db \<Rightarrow> daily_risk_state \<times> portfolio_db" where
  "ensure_daily_risk_state others org user day db =
     (case find_daily org user day db of
        Some existing \<Rightarrow> (existing, db)
      | None \<Rightarrow>
          let row = new_daily org user day db; db1 = others db
          in case find_daily org user day db1 of
               Some existing \<Rightarrow> (existing, db1)
             | None \<Rightarrow> (row, db1\<lparr>pb_daily := pb_daily db1 @ [row]\<rparr>))"

definition put_daily :: "daily_risk_state \<Rightarrow> portfolio_db \<Rightarrow> portfolio_db" where
  "put_daily row db =
     db\<lparr>pb_daily := map (\<lambda>r. if dr_org r = dr_org row \<and> dr_user r = dr_user row \<and> dr_day r = dr_day row
                             then row else r) (pb_daily db)\<rparr>"


section \<open>Sums over the tables\<close>

definition in_window :: "int \<times> int \<Rightarrow> int option \<Rightarrow> bool" where
  "in_window w moment = (case moment of None \<Rightarrow> False | Some t \<Rightarrow> fst w \<le> t \<and> t < snd w)"

definition HISTORY_REF_PREFIX :: string where "HISTORY_REF_PREFIX = ''blofin-demo-history:''"
definition MIRROR_REF_PREFIX :: string where "MIRROR_REF_PREFIX = ''blofin-demo-''"

definition exact_prefix :: "string option \<Rightarrow> string \<Rightarrow> bool" where
  "exact_prefix column pre = ((case column of None \<Rightarrow> '''' | Some ref \<Rightarrow> take (length pre) ref) = pre)"

definition journal_mirror_economics :: "journal_trade \<Rightarrow> bool" where
  "journal_mirror_economics t \<longleftrightarrow>
     jt_source t = SOURCE_BLOFIN_DEMO_MANUAL \<or> exact_prefix (jt_external_ref t) HISTORY_REF_PREFIX"

text \<open>What a client may not write as a reference or a tag: \<^verbatim>\<open>"".join(value.split()).casefold()\<close> on ASCII text.\<close>

definition client_mirror_ref :: "string option \<Rightarrow> bool" where
  "client_mirror_ref v =
     (case v of None \<Rightarrow> False
      | Some s \<Rightarrow> exact_prefix (Some (lower (filter (\<lambda>c. \<not> is_space c) s))) MIRROR_REF_PREFIX)"

definition client_reserved_tag :: "string option \<Rightarrow> bool" where
  "client_reserved_tag v =
     (case v of None \<Rightarrow> False
      | Some s \<Rightarrow> CHR 0x22 \<in> set s \<or> exact_prefix (Some (lower (strip s))) ''blofin-'')"

definition canonical_scope :: "string \<Rightarrow> string \<Rightarrow> journal_trade \<Rightarrow> bool" where
  "canonical_scope org user t \<longleftrightarrow>
     jt_org t = org \<and> jt_user t = user
   \<and> (jt_source t = SOURCE_PAPER_EXECUTION \<or> jt_source t = SOURCE_MANUAL_DEMO_TEST)
   \<and> jt_execution_lifecycle_id t \<noteq> None \<and> jt_linked_position_id t = None"

text \<open>SQL's \<^verbatim>\<open>SUM\<close> leaves out the null values; with no row left it is null, which the callers read as zero.\<close>

definition sql_sum :: "rat option list \<Rightarrow> rat" where
  "sql_sum values = sum_list (List.map_filter id values)"

definition sum_realized_closed :: "string \<Rightarrow> string \<Rightarrow> int \<times> int \<Rightarrow> portfolio_db \<Rightarrow> rat" where
  "sum_realized_closed org user w db =
     sum_list (map ps_realized_pnl
       (filter (\<lambda>p. ps_org p = org \<and> ps_user p = user \<and> ps_status p = POSITION_CLOSED
                    \<and> in_window w (ps_closed_at p)) (pb_positions db)))"

definition count_paper_fills :: "string \<Rightarrow> string \<Rightarrow> int \<times> int \<Rightarrow> portfolio_db \<Rightarrow> int" where
  "count_paper_fills org user w db =
     int (length (filter (\<lambda>r. od_org r = org \<and> od_user r = user \<and> od_mode r = MODE_PAPER
                             \<and> od_status r = ORDER_FILLED \<and> in_window w (Some (od_created_at r)))
                    (pb_orders db)))"

definition open_positions :: "string \<Rightarrow> string \<Rightarrow> portfolio_db \<Rightarrow> position_row list" where
  "open_positions org user db =
     filter (\<lambda>p. ps_org p = org \<and> ps_user p = user \<and> ps_status p = POSITION_OPEN) (pb_positions db)"

definition open_position_totals :: "string \<Rightarrow> string \<Rightarrow> portfolio_db \<Rightarrow> rat \<times> rat" where
  "open_position_totals org user db =
     (let rows = open_positions org user db
      in (dsum 0 (map (\<lambda>r. dmul (ps_size r) (ps_entry_price r)) rows), dsum 0 (map ps_unrealized_pnl rows)))"

definition canonical_portfolio_totals :: "string \<Rightarrow> string \<Rightarrow> int \<times> int \<Rightarrow> portfolio_db \<Rightarrow> rat \<times> int \<times> rat" where
  "canonical_portfolio_totals org user w db =
     (let scope = filter (canonical_scope org user) (pb_journal db)
      in (sql_sum (map jt_net_pnl (filter (\<lambda>t. jt_status t = TRADE_CLOSED \<and> in_window w (jt_exit_time t)
                                               \<and> \<not> journal_mirror_economics t) scope)),
          int (length (filter (\<lambda>t. in_window w (jt_entry_time t)
                                   \<and> (jt_status t = TRADE_OPEN \<or> jt_status t = TRADE_CLOSED)) scope)),
          sql_sum (map (\<lambda>t. case (jt_size t, jt_entry_price t) of
                              (Some size_of, Some price) \<Rightarrow> Some (size_of * price) | _ \<Rightarrow> None)
                     (filter (\<lambda>t. jt_status t = TRADE_OPEN) scope))))"

definition paper_loss_cooldown_active :: "string \<Rightarrow> string \<Rightarrow> int \<Rightarrow> int \<Rightarrow> portfolio_db \<Rightarrow> bool" where
  "paper_loss_cooldown_active org user seconds now db =
     (if seconds \<le> 0 then False else
      let since = now - seconds * 10 ^ 6
      in list_ex (\<lambda>p. ps_org p = org \<and> ps_user p = user \<and> ps_status p = POSITION_CLOSED
                      \<and> (case ps_closed_at p of None \<Rightarrow> False | Some t \<Rightarrow> since \<le> t) \<and> ps_realized_pnl p < 0)
           (pb_positions db)
       \<or> list_ex (\<lambda>t. jt_org t = org \<and> jt_user t = user \<and> jt_status t = TRADE_CLOSED
                      \<and> jt_source t = SOURCE_PAPER_EXECUTION \<and> jt_execution_lifecycle_id t \<noteq> None
                      \<and> (case jt_exit_time t of None \<Rightarrow> False | Some x \<Rightarrow> since \<le> x)
                      \<and> (case jt_net_pnl t of None \<Rightarrow> False | Some x \<Rightarrow> x < 0)
                      \<and> \<not> journal_mirror_economics t)
           (pb_journal db))"

section \<open>The sync\<close>

record daily_snapshot =
  ds_day :: int
  ds_realized_pnl :: rat
  ds_unrealized_pnl :: rat
  ds_open_exposure_notional :: rat
  ds_trade_count :: int
  ds_daily_locked :: bool
  ds_daily_loss_limit :: "rat option"
  ds_max_trades_per_day :: int
  ds_account_equity :: rat

definition resolve_day :: "zone_db \<Rightarrow> string \<Rightarrow> string \<Rightarrow> int \<Rightarrow> portfolio_db \<Rightarrow> int \<times> string" where
  "resolve_day zones org user now db =
     (let tz_name = fst (normalize_timezone zones (Some (st_timezone (get_settings zones org user db))))
      in case zones tz_name of
           Some z \<Rightarrow> (local_date z now, tz_name)
         | None \<Rightarrow> (now div DAY, ''UTC''))"

text \<open>The sums of one day, before they are written: realized, trades, exposure, unrealized.\<close>

definition day_totals :: "zone_db \<Rightarrow> string \<Rightarrow> string \<Rightarrow> int \<times> string \<Rightarrow> portfolio_db \<Rightarrow> rat \<times> int \<times> rat \<times> rat" where
  "day_totals zones org user dz db =
     (let w = day_bounds_utc zones (fst dz) (snd dz);
          realized = sum_realized_closed org user w db;
          trade_count = count_paper_fills org user w db;
          (open_exposure, unrealized) = open_position_totals org user db;
          (canonical_realized, canonical_count, canonical_exposure) = canonical_portfolio_totals org user w db
      in (dadd realized canonical_realized, trade_count + canonical_count,
          dadd open_exposure canonical_exposure, unrealized))"

definition sync_from_portfolio ::
    "zone_db \<Rightarrow> (portfolio_db \<Rightarrow> portfolio_db) \<Rightarrow> string \<Rightarrow> string \<Rightarrow> int option \<Rightarrow> string option \<Rightarrow> int
     \<Rightarrow> portfolio_db \<Rightarrow> daily_snapshot \<times> portfolio_db" where
  "sync_from_portfolio zones others org user day_arg tz_arg now db =
     (let user_settings = get_settings zones org user db;
          dz = (case (day_arg, tz_arg) of
                  (Some d, Some n) \<Rightarrow> (d, n) | _ \<Rightarrow> resolve_day zones org user now db);
          (realized, trade_count, open_exposure, unrealized) = day_totals zones org user dz db;
          (row, db1) = ensure_daily_risk_state others org user (fst dz) db;
          daily_loss_limit = (case st_daily_loss_limit user_settings of
                                Some x \<Rightarrow> Some x | None \<Rightarrow> dr_daily_loss_limit row);
          row1 = row\<lparr>dr_daily_loss_limit := st_daily_loss_limit user_settings,
                     dr_daily_target := st_daily_target user_settings,
                     dr_max_trades_per_day := Some (st_max_trades_per_day user_settings),
                     dr_realized_pnl := realized, dr_unrealized_pnl := unrealized,
                     dr_trade_count := trade_count\<rparr>;
          row2 = (if (case daily_loss_limit of None \<Rightarrow> False | Some x \<Rightarrow> realized \<le> dneg x)
                  then row1\<lparr>dr_locked := True\<rparr> else row1)
      in (\<lparr>ds_day = fst dz, ds_realized_pnl = realized, ds_unrealized_pnl = unrealized,
           ds_open_exposure_notional = open_exposure, ds_trade_count = trade_count,
           ds_daily_locked = dr_locked row2, ds_daily_loss_limit = daily_loss_limit,
           ds_max_trades_per_day = st_max_trades_per_day user_settings,
           ds_account_equity = dadd (dadd (st_default_account_balance user_settings) realized) unrealized\<rparr>,
          put_daily row2 db1))"


definition record_after_paper_fill ::
    "zone_db \<Rightarrow> (portfolio_db \<Rightarrow> portfolio_db) \<Rightarrow> string \<Rightarrow> string \<Rightarrow> int \<Rightarrow> portfolio_db \<Rightarrow> daily_snapshot \<times> portfolio_db" where
  "record_after_paper_fill zones others org user now db = sync_from_portfolio zones others org user None None now db"

definition record_after_position_close ::
    "zone_db \<Rightarrow> (portfolio_db \<Rightarrow> portfolio_db) \<Rightarrow> string \<Rightarrow> string \<Rightarrow> int \<Rightarrow> portfolio_db \<Rightarrow> daily_snapshot \<times> portfolio_db" where
  "record_after_position_close zones others org user now db = sync_from_portfolio zones others org user None None now db"

text \<open>
  A reference the client check lets through never hides a result: the exact server prefix is a case of
  what the check refuses.
\<close>

lemma history_prefix_split:
  assumes "exact_prefix (Some r) HISTORY_REF_PREFIX"
  obtains rest where "r = HISTORY_REF_PREFIX @ rest"
proof -
  have "take (length HISTORY_REF_PREFIX) r = HISTORY_REF_PREFIX" using assms by (simp add: exact_prefix_def)
  then have "r = HISTORY_REF_PREFIX @ drop (length HISTORY_REF_PREFIX) r"
    using append_take_drop_id [of "length HISTORY_REF_PREFIX" r] by simp
  then show ?thesis by (rule that)
qed

lemma accepted_ref_is_counted:
  assumes "\<not> client_mirror_ref (jt_external_ref t)" "jt_source t \<noteq> SOURCE_BLOFIN_DEMO_MANUAL"
  shows "\<not> journal_mirror_economics t"
proof
  assume "journal_mirror_economics t"
  with assms(2) have p: "exact_prefix (jt_external_ref t) HISTORY_REF_PREFIX" by (simp add: journal_mirror_economics_def)
  then obtain r where r: "jt_external_ref t = Some r" "exact_prefix (Some r) HISTORY_REF_PREFIX"
    by (cases "jt_external_ref t") (simp_all add: exact_prefix_def HISTORY_REF_PREFIX_def)
  from r(2) obtain rest where "r = HISTORY_REF_PREFIX @ rest" by (rule history_prefix_split)
  then have "client_mirror_ref (Some r)"
    by (simp add: client_mirror_ref_def exact_prefix_def HISTORY_REF_PREFIX_def MIRROR_REF_PREFIX_def lower_def lower_char_def is_space_def)
  with assms(1) r(1) show False by simp
qed

section \<open>Windows and days\<close>

lemma DAY_pos [simp]: "0 < DAY"
  by (simp add: time_defs)

text \<open>
  \<open>steady z off a b\<close>: the offset is \<open>off\<close> at every moment from \<open>a\<close> to \<open>b\<close>. \<open>ordered_zone\<close>: the changes are in
  order, and every offset is less than a day.
\<close>

definition steady :: "zone \<Rightarrow> int \<Rightarrow> int \<Rightarrow> int \<Rightarrow> bool" where
  "steady z off a b \<longleftrightarrow> (\<forall>t. a \<le> t \<longrightarrow> t \<le> b \<longrightarrow> utc_offset z t = off)"

definition ordered_zone :: "zone \<Rightarrow> bool" where
  "ordered_zone z \<longleftrightarrow> sorted_wrt (<) (map zc_at (zn_changes z)) \<and> \<bar>zn_offset z\<bar> < DAY
     \<and> (\<forall>c \<in> set (zn_changes z). \<bar>zc_offset c\<bar> < DAY)"

lemma wall_scan_bound:
  "\<bar>off\<bar> < DAY \<Longrightarrow> \<forall>c \<in> set cs. \<bar>zc_offset c\<bar> < DAY \<Longrightarrow> \<bar>wall_scan off cs w\<bar> < DAY"
  by (induction cs arbitrary: off) auto

lemma offset_scan_early: "\<forall>c \<in> set cs. t < zc_at c \<Longrightarrow> offset_scan off cs t = off"
  by (cases cs) auto

lemma wall_scan_steady:
  assumes "sorted_wrt (<) (map zc_at cs)" "\<bar>off\<bar> < DAY" "\<forall>c \<in> set cs. \<bar>zc_offset c\<bar> < DAY"
    and "\<forall>t. w - 2 * DAY \<le> t \<longrightarrow> t \<le> w + 2 * DAY \<longrightarrow> offset_scan off cs t = k"
  shows "wall_scan off cs w = k"
  using assms
proof (induction cs arbitrary: off)
  case (Cons c cs)
  show ?case
  proof (cases "w < zc_at c + max off (zc_offset c)")
    case True
    then have "w - 2 * DAY < zc_at c" using Cons.prems(2,3) by auto
    then have "offset_scan off (c # cs) (w - 2 * DAY) = off" by simp
    moreover have "offset_scan off (c # cs) (w - 2 * DAY) = k"
      using DAY_pos by (intro Cons.prems(4) [rule_format]) linarith+
    ultimately show ?thesis using True by simp
  next
    case False
    then have early: "zc_at c \<le> w + 2 * DAY" using Cons.prems(2,3) by auto
    have "offset_scan (zc_offset c) cs t = k" if t: "w - 2 * DAY \<le> t" "t \<le> w + 2 * DAY" for t
    proof (cases "t < zc_at c")
      case True
      have later: "\<forall>d \<in> set cs. zc_at c < zc_at d" using Cons.prems(1) by simp
      then have "offset_scan (zc_offset c) cs t = zc_offset c"
        using True by (intro offset_scan_early) auto
      moreover have "offset_scan off (c # cs) (zc_at c) = zc_offset c"
        using offset_scan_early [OF later] by simp
      moreover have "offset_scan off (c # cs) (zc_at c) = k"
        using True t early by (intro Cons.prems(4) [rule_format]) linarith+
      ultimately show ?thesis by simp
    next
      case False
      then show ?thesis using Cons.prems(4) t by (metis offset_scan.simps(2))
    qed
    then have "wall_scan (zc_offset c) cs w = k" using Cons.prems by (intro Cons.IH) auto
    with False show ?thesis by simp
  qed
qed auto

lemma div_day_iff: "x div DAY = d \<longleftrightarrow> d * DAY \<le> x \<and> x < d * DAY + DAY"
proof
  assume "d * DAY \<le> x \<and> x < d * DAY + DAY"
  then show "x div DAY = d" by (intro int_div_pos_eq [of _ _ _ "x - d * DAY"]) (auto simp: mult.commute)
next
  assume d: "x div DAY = d"
  have "x = d * DAY + x mod DAY" using d div_mult_mod_eq [of x DAY] by simp
  moreover have "0 \<le> x mod DAY" "x mod DAY < DAY" by simp_all
  ultimately show "d * DAY \<le> x \<and> x < d * DAY + DAY" by linarith
qed

lemma wall_offset_steady:
  "ordered_zone z \<Longrightarrow> steady z off (w - 2 * DAY) (w + 2 * DAY) \<Longrightarrow> wall_offset z w = off"
  unfolding ordered_zone_def steady_def utc_offset_def wall_offset_def by (rule wall_scan_steady) auto

lemma wall_offset_bound: "ordered_zone z \<Longrightarrow> \<bar>wall_offset z w\<bar> < DAY"
  unfolding ordered_zone_def wall_offset_def by (blast intro: wall_scan_bound)

lemma window_of_local_day:
  assumes "ordered_zone z" "steady z off (t - 4 * DAY) (t + 4 * DAY)" "zones name = Some z"
  shows "in_window (day_bounds_utc zones d name) (Some t) \<longleftrightarrow> local_date z t = d"
proof -
  have off: "utc_offset z t = off"
    using assms(2) DAY_pos unfolding steady_def by (elim allE [of _ t] impE) linarith+
  have start: "day_start z d = d * DAY - off" if "\<bar>d * DAY - t\<bar> < 2 * DAY"
    using wall_offset_steady [OF assms(1), of off "d * DAY"] assms(2) that
    by (simp add: day_start_def steady_def)
  have near: "\<bar>d * DAY - t\<bar> < 2 * DAY" if "day_start z d \<le> t" "t < day_start z d + DAY"
    using wall_offset_bound [OF assms(1), of "d * DAY"] that by (simp add: day_start_def)
  have o: "\<bar>off\<bar> < DAY"
    using wall_offset_bound [OF assms(1), of t] wall_offset_steady [OF assms(1), of off t] assms(2)
    by (simp add: steady_def)
  have "local_date z t = d \<longleftrightarrow> d * DAY \<le> t + off \<and> t + off < d * DAY + DAY"
    unfolding local_date_def off by (rule div_day_iff)
  also have "\<dots> \<longleftrightarrow> day_start z d \<le> t \<and> t < day_start z d + DAY"
    using start near o by (cases "\<bar>d * DAY - t\<bar> < 2 * DAY") auto
  finally show ?thesis using assms(3) by (simp add: in_window_def day_bounds_utc_def Let_def)
qed


section \<open>The lock of a day\<close>

definition locked_on :: "string \<Rightarrow> string \<Rightarrow> int \<Rightarrow> portfolio_db \<Rightarrow> bool" where
  "locked_on org user day db = (case find_daily org user day db of None \<Rightarrow> False | Some r \<Rightarrow> dr_locked r)"

text \<open>
  \<open>risk_run zones db db'\<close>: \<open>db'\<close> is reached from \<open>db\<close> by operations of the two services, with whatever the
  other services write to the tables they own; what another session does in the middle of an
  operation is such a run itself.
\<close>

inductive risk_run :: "zone_db \<Rightarrow> portfolio_db \<Rightarrow> portfolio_db \<Rightarrow> bool" for zones where
  run_refl: "risk_run zones db db"
| run_sync: "risk_run zones db db1 \<Longrightarrow> risk_run zones db1 (others db1) \<Longrightarrow>
     risk_run zones db (snd (sync_from_portfolio zones others org user d n now db1))"
| run_ensure: "risk_run zones db db1 \<Longrightarrow> risk_run zones db1 (others db1) \<Longrightarrow>
     risk_run zones db (snd (ensure_daily_risk_state others org user d db1))"
| run_update: "risk_run zones db db1 \<Longrightarrow> update_settings zones payload org user db1 = Inr (response, db2) \<Longrightarrow>
     risk_run zones db db2"
| run_reset: "risk_run zones db db1 \<Longrightarrow> risk_run zones db (snd (reset_defaults zones org user db1))"
| run_facts: "risk_run zones db db1 \<Longrightarrow>
     risk_run zones db (db1\<lparr>pb_users := us, pb_positions := ps, pb_orders := ors, pb_journal := js\<rparr>)"

lemma run_trans: "risk_run zones db1 db2 \<Longrightarrow> risk_run zones db db1 \<Longrightarrow> risk_run zones db db2"
  by (induction rule: risk_run.induct) (auto intro: risk_run.intros)

lemma find_append: "find P (xs @ ys) = (case find P xs of None \<Rightarrow> find P ys | Some x \<Rightarrow> Some x)"
  by (induction xs) auto

lemma find_daily_key: "find_daily org user day db = Some r \<Longrightarrow> dr_org r = org \<and> dr_user r = user \<and> dr_day r = day"
  by (auto simp: find_daily_def find_Some_iff)

lemma find_put_daily:
  "find_daily org user day (put_daily row db) =
     (if dr_org row = org \<and> dr_user row = user \<and> dr_day row = day
      then map_option (\<lambda>_. row) (find_daily org user day db) else find_daily org user day db)"
proof -
  have "find (\<lambda>r. dr_org r = org \<and> dr_user r = user \<and> dr_day r = day)
          (map (\<lambda>r. if dr_org r = dr_org row \<and> dr_user r = dr_user row \<and> dr_day r = dr_day row then row else r) rows)
      = (if dr_org row = org \<and> dr_user row = user \<and> dr_day row = day
         then map_option (\<lambda>_. row) (find (\<lambda>r. dr_org r = org \<and> dr_user r = user \<and> dr_day r = day) rows)
         else find (\<lambda>r. dr_org r = org \<and> dr_user r = user \<and> dr_day r = day) rows)" for rows
    by (induction rows) auto
  then show ?thesis by (simp add: find_daily_def put_daily_def)
qed

lemma put_settings_daily [simp]: "pb_daily (put_settings row db) = pb_daily db"
  by (simp add: put_settings_def)

text \<open>The row \<open>ensure_daily_risk_state\<close> answers with is the one in the table, and no lock is lost.\<close>

lemma ensure_daily_facts:
  assumes "ensure_daily_risk_state others org user day db = (row, db1)"
  shows "find_daily org user day db1 = Some row"
    and "db1 = db \<or> db1 = others db \<or> db1 = (others db)\<lparr>pb_daily := pb_daily (others db) @ [row]\<rparr>"
  using assms by (auto simp: ensure_daily_risk_state_def new_daily_def find_daily_def find_append Let_def
      split: option.splits)

lemma locked_on_snoc: "locked_on org user day db \<Longrightarrow> locked_on org user day (db\<lparr>pb_daily := pb_daily db @ rows\<rparr>)"
  by (auto simp: locked_on_def find_daily_def find_append split: option.splits)

lemma ensure_keeps_lock:
  assumes "ensure_daily_risk_state others org user day db = (row, db1)" "locked_on o' u' d' db" "locked_on o' u' d' (others db)"
  shows "locked_on o' u' d' db1"
  using ensure_daily_facts(2) [OF assms(1)] assms(2,3) by (auto dest: locked_on_snoc)

lemma sync_cases:
  assumes "sync_from_portfolio zones others org user d n now db = (snap, db')"
  obtains row db1 row' where
    "ensure_daily_risk_state others org user (ds_day snap) db = (row, db1)" "db' = put_daily row' db1"
    "dr_org row' = org" "dr_user row' = user" "dr_day row' = ds_day snap"
    "dr_locked row' = (dr_locked row \<or> (case ds_daily_loss_limit snap of None \<Rightarrow> False
       | Some x \<Rightarrow> ds_realized_pnl snap \<le> dneg x))"
    "ds_daily_locked snap = dr_locked row'"
proof -
  define dz where "dz = (case (d, n) of (Some d, Some n) \<Rightarrow> (d, n) | _ \<Rightarrow> resolve_day zones org user now db)"
  obtain row db1 where e: "ensure_daily_risk_state others org user (fst dz) db = (row, db1)" by fastforce
  note key = find_daily_key [OF ensure_daily_facts(1) [OF e]]
  obtain r c e' u where t: "day_totals zones org user dz db = (r, c, e', u)" by (cases "day_totals zones org user dz db") auto
  define limit where "limit = (case st_daily_loss_limit (get_settings zones org user db) of
    Some x \<Rightarrow> Some x | None \<Rightarrow> dr_daily_loss_limit row)"
  define hit where "hit = (case limit of None \<Rightarrow> False | Some x \<Rightarrow> r \<le> dneg x)"
  have sync: "snap = \<lparr>ds_day = fst dz, ds_realized_pnl = r, ds_unrealized_pnl = u,
           ds_open_exposure_notional = e', ds_trade_count = c,
           ds_daily_locked = (dr_locked row \<or> hit), ds_daily_loss_limit = limit,
           ds_max_trades_per_day = st_max_trades_per_day (get_settings zones org user db),
           ds_account_equity = dadd (dadd (st_default_account_balance (get_settings zones org user db)) r) u\<rparr>"
    "\<exists>row'. db' = put_daily row' db1 \<and> dr_org row' = dr_org row \<and> dr_user row' = dr_user row
       \<and> dr_day row' = dr_day row \<and> dr_locked row' = (dr_locked row \<or> hit)"
    using assms e t unfolding sync_from_portfolio_def Let_def dz_def [symmetric]
    by (auto simp: limit_def [symmetric] hit_def [symmetric])
  have f: "ds_day snap = fst dz" "ds_realized_pnl snap = r" "ds_daily_loss_limit snap = limit"
    "ds_daily_locked snap = (dr_locked row \<or> hit)"
    using sync(1) by simp_all
  have "hit = (case ds_daily_loss_limit snap of None \<Rightarrow> False | Some x \<Rightarrow> ds_realized_pnl snap \<le> dneg x)"
    unfolding hit_def f ..
  with sync(2) show ?thesis using e key by (auto intro!: that simp: f(1,4))
qed


lemma sync_keeps_lock:
  assumes "sync_from_portfolio zones others org user d n now db = (snap, db')"
    and "locked_on o' u' d' db" "locked_on o' u' d' (others db)"
  shows "locked_on o' u' d' db'"
  using assms(1)
proof (cases rule: sync_cases)
  case (1 row db1 row')
  have "locked_on o' u' d' db1" by (rule ensure_keeps_lock [OF 1(1) assms(2,3)])
  then show ?thesis using 1 ensure_daily_facts(1) [OF 1(1)]
    by (auto simp: locked_on_def find_put_daily split: option.splits if_splits)
qed

lemma sync_locks:
  assumes "sync_from_portfolio zones others org user d n now db = (snap, db')"
  shows "locked_on org user (ds_day snap) db' = ds_daily_locked snap"
    and "ds_daily_loss_limit snap = Some x \<Longrightarrow> ds_realized_pnl snap \<le> dneg x \<Longrightarrow> ds_daily_locked snap"
    and "locked_on org user (ds_day snap) db \<Longrightarrow> locked_on org user (ds_day snap) (others db) \<Longrightarrow> ds_daily_locked snap"
proof -
  obtain row db1 row' where f: "ensure_daily_risk_state others org user (ds_day snap) db = (row, db1)" "db' = put_daily row' db1"
    "dr_org row' = org" "dr_user row' = user" "dr_day row' = ds_day snap"
    "dr_locked row' = (dr_locked row \<or> (case ds_daily_loss_limit snap of None \<Rightarrow> False
       | Some x \<Rightarrow> ds_realized_pnl snap \<le> dneg x))" "ds_daily_locked snap = dr_locked row'"
    using assms by (rule sync_cases)
  note found = ensure_daily_facts(1) [OF f(1)]
  show "locked_on org user (ds_day snap) db' = ds_daily_locked snap"
    using f(2-5,7) found by (simp add: locked_on_def find_put_daily)
  show "ds_daily_loss_limit snap = Some x \<Longrightarrow> ds_realized_pnl snap \<le> dneg x \<Longrightarrow> ds_daily_locked snap"
    using f(6,7) by simp
  assume "locked_on org user (ds_day snap) db" "locked_on org user (ds_day snap) (others db)"
  from ensure_keeps_lock [OF f(1) this] have "dr_locked row" using found by (simp add: locked_on_def)
  then show "ds_daily_locked snap" using f(6,7) by simp
qed

lemma run_keeps_lock:
  assumes "risk_run zones db db'" "locked_on org user day db"
  shows "locked_on org user day db'"
  using assms
proof (induction rule: risk_run.induct)
  case (run_sync db db1 others o' u' d n now)
  then show ?case
    by (cases "sync_from_portfolio zones others o' u' d n now db1") (auto dest: sync_keeps_lock)
next
  case (run_ensure db db1 others o' u' d)
  then show ?case
    by (cases "ensure_daily_risk_state others o' u' d db1") (auto dest: ensure_keeps_lock)
next
  case (run_update db db1 payload o' u' response db2)
  then have "pb_daily db2 = pb_daily db1"
    by (auto simp: update_settings_def res_simps Let_def split: prod.splits)
  then show ?case using run_update by (simp add: locked_on_def find_daily_def)
next
  case (run_reset db db1 o' u')
  then show ?case by (simp add: reset_defaults_def Let_def locked_on_def find_daily_def)
next
  case (run_facts db db1 us ps ors js)
  then show ?case by (simp add: locked_on_def find_daily_def)
qed

lemma sync_day:
  assumes "sync_from_portfolio zones others org user None None now db = (snap, db')"
  shows "ds_day snap = fst (resolve_day zones org user now db)"
  using assms unfolding sync_from_portfolio_def Let_def by (auto split: prod.splits)


section \<open>Properties\<close>

abbreviation with_position :: "position_row \<Rightarrow> portfolio_db \<Rightarrow> portfolio_db" where
  "with_position p db \<equiv> db\<lparr>pb_positions := pb_positions db @ [p]\<rparr>"

text \<open>
  C14. A realized result is counted on one day, its own. Away from the clock changes of the user's zone, a
  position closed at a moment adds its result to the realized total of the day that moment has on the
  user's calendar, and to the total of no other day; rows of other users and open rows add nothing.
\<close>

theorem closed_result_counted_once:
  assumes "ordered_zone z" "steady z off (t - 4 * DAY) (t + 4 * DAY)" "zones name = Some z"
    and "ps_closed_at p = Some t"
  shows "sum_realized_closed org user (day_bounds_utc zones d name) (with_position p db)
    = sum_realized_closed org user (day_bounds_utc zones d name) db
      + (if ps_org p = org \<and> ps_user p = user \<and> ps_status p = POSITION_CLOSED \<and> local_date z t = d
         then ps_realized_pnl p else 0)"
  using window_of_local_day [of z off t zones name d] assms by (simp add: sum_realized_closed_def)

definition sample_zone :: zone where
  "sample_zone = \<lparr>zn_offset = 2 * HOUR, zn_changes = []\<rparr>"

definition sample_closed :: "int \<Rightarrow> rat \<Rightarrow> position_row" where
  "sample_closed t pnl = \<lparr>ps_org = ''o'', ps_user = ''u'', ps_size = 1, ps_entry_price = 100, ps_stop_loss = Some 90,
     ps_unrealized_pnl = 0, ps_realized_pnl = pnl, ps_status = POSITION_CLOSED, ps_closed_at = Some t\<rparr>"

definition empty_portfolio :: portfolio_db where
  "empty_portfolio = \<lparr>pb_users = [], pb_settings = [], pb_daily = [], pb_positions = [], pb_orders = [],
     pb_journal = [], pb_audit = []\<rparr>"

theorem closed_result_counted_once_witness:
  "sum_realized_closed ''o'' ''u'' (day_bounds_utc [''Z'' \<mapsto> sample_zone] 1 ''Z'')
     (with_position (sample_closed (23 * HOUR) (- 5)) empty_portfolio) = - 5"
proof -
  have "ordered_zone sample_zone" by (simp add: ordered_zone_def sample_zone_def time_defs)
  moreover have "steady sample_zone (2 * HOUR) (23 * HOUR - 4 * DAY) (23 * HOUR + 4 * DAY)"
    by (simp add: steady_def utc_offset_def sample_zone_def)
  ultimately show ?thesis
    using closed_result_counted_once [of sample_zone "2 * HOUR" "23 * HOUR" "[''Z'' \<mapsto> sample_zone]" "''Z''"
      "sample_closed (23 * HOUR) (- 5)" "''o''" "''u''" 1 empty_portfolio]
    by (simp add: sample_closed_def empty_portfolio_def sum_realized_closed_def local_date_def utc_offset_def
        sample_zone_def time_defs)
qed

text \<open>
  On a day the clocks go back the window of the day ends an hour early, and the next one starts only at
  midnight: in the zone of New York the half hour before midnight of 3 November 2024 is on that day's
  date and in the window of no day, so a loss realized then never reaches a daily total.
\<close>

definition new_york_2024 :: zone where
  "new_york_2024 = \<lparr>zn_offset = - 4 * HOUR,
     zn_changes = [\<lparr>zc_at = 20030 * DAY + 6 * HOUR, zc_offset = - 5 * HOUR\<rparr>]\<rparr>"

theorem long_day_loses_an_hour:
  "local_date new_york_2024 (20031 * DAY + 4 * HOUR + 30 * MINUTE) = 20030
   \<and> (\<forall>d. \<not> in_window (day_bounds_utc [''NY'' \<mapsto> new_york_2024] d ''NY'') (Some (20031 * DAY + 4 * HOUR + 30 * MINUTE)))"
  by (auto simp: local_date_def utc_offset_def new_york_2024_def in_window_def day_bounds_utc_def day_start_def
      wall_offset_def time_defs) presburger

text \<open>
  The equity of the snapshot has no memory of earlier days: a position closed outside the window of the day
  changes no field of it. The drawdown breaker, which reads this equity, therefore never sees a loss
  spread over several days.
\<close>

theorem earlier_results_leave_snapshot:
  assumes "ps_status p \<noteq> POSITION_OPEN"
    and "\<not> in_window (day_bounds_utc zones (fst (resolve_day zones org user now db)) (snd (resolve_day zones org user now db)))
           (ps_closed_at p)"
  shows "fst (sync_from_portfolio zones (\<lambda>db. db) org user None None now (with_position p db))
    = fst (sync_from_portfolio zones (\<lambda>db. db) org user None None now db)"
proof -
  let ?db = "with_position p db"
  have "defaults_response zones org user ?db = defaults_response zones org user db"
    by (simp add: defaults_response_def)
  then have g: "get_settings zones org user ?db = get_settings zones org user db"
    by (simp add: get_settings_def load_settings_def split: option.split)
  then have r: "resolve_day zones org user now ?db = resolve_day zones org user now db"
    by (simp add: resolve_day_def)
  have t: "day_totals zones org user (resolve_day zones org user now db) ?db
      = day_totals zones org user (resolve_day zones org user now db) db"
    using assms by (simp add: day_totals_def sum_realized_closed_def count_paper_fills_def open_position_totals_def
        open_positions_def canonical_portfolio_totals_def)
  have e: "fst (ensure_daily_risk_state (\<lambda>db. db) org user d ?db) = fst (ensure_daily_risk_state (\<lambda>db. db) org user d db)" for d
    by (simp add: ensure_daily_risk_state_def find_daily_def new_daily_def load_settings_def Let_def split: option.splits)
  show ?thesis
    unfolding sync_from_portfolio_def Let_def g r option.case prod.case t split_beta fst_conv e ..
qed


text \<open>
  The lock belongs to a date of the user's calendar, and the user may move the calendar: after a loss over
  the limit the day is locked, a change of the timezone to one fourteen hours ahead makes the same
  moment the next day, and the next sync answers that trading is not locked, with the loss counted on
  the day before.
\<close>

definition moving_zones :: zone_db where
  "moving_zones = [''UTC'' \<mapsto> utc_zone, ''E'' \<mapsto> \<lparr>zn_offset = 14 * HOUR, zn_changes = []\<rparr>]"

definition limited_settings :: user_risk_settings where
  "limited_settings = (default_settings ''o'' ''u'')\<lparr>st_daily_loss_limit := Some 500\<rparr>"

definition limited_portfolio :: portfolio_db where
  "limited_portfolio = empty_portfolio\<lparr>pb_settings := [limited_settings],
     pb_positions := [sample_closed (DAY + HOUR) (- 600)]\<rparr>"

lemma moving_names:
  "normalize_timezone moving_zones (Some ''UTC'') = (''UTC'', False)"
  "normalize_timezone moving_zones (Some ''E'') = (''E'', False)"
  by (simp_all add: normalize_timezone_def moving_zones_def strip_def is_space_def)

lemma get_settings_row:
  assumes "load_settings org user db = Some s"
  shows "st_timezone (get_settings zones org user db) = st_timezone s"
    "st_daily_loss_limit (get_settings zones org user db) = st_daily_loss_limit s"
    "st_daily_target (get_settings zones org user db) = st_daily_target s"
    "st_max_trades_per_day (get_settings zones org user db) = st_max_trades_per_day s"
    "st_default_account_balance (get_settings zones org user db) = st_default_account_balance s"
  using assms by (simp_all add: get_settings_def settings_response_def user_risk_settings.defs Let_def)

lemmas totals_defs = day_totals_def day_bounds_utc_def day_start_def wall_offset_def sum_realized_closed_def
  count_paper_fills_def open_position_totals_def open_positions_def canonical_portfolio_totals_def sql_sum_def in_window_def

lemma limited_sync:
  "\<exists>snap db1. sync_from_portfolio moving_zones (\<lambda>db. db) ''o'' ''u'' None None (DAY + 20 * HOUR) limited_portfolio = (snap, db1)
     \<and> ds_daily_locked snap \<and> ds_day snap = 1 \<and> ds_daily_loss_limit snap = Some 500 \<and> ds_realized_pnl snap = - 600
     \<and> pb_settings db1 = [limited_settings] \<and> pb_positions db1 = pb_positions limited_portfolio
     \<and> pb_orders db1 = [] \<and> pb_journal db1 = [] \<and> map dr_day (pb_daily db1) = [1]
     \<and> resolve_day moving_zones ''o'' ''u'' (DAY + 20 * HOUR) db1 = (1, ''UTC'')"
proof -
  let ?now = "DAY + 20 * HOUR"
  obtain snap db1 where sync: "sync_from_portfolio moving_zones (\<lambda>db. db) ''o'' ''u'' None None ?now limited_portfolio = (snap, db1)"
    by fastforce
  have l: "load_settings ''o'' ''u'' limited_portfolio = Some limited_settings"
    by (simp add: load_settings_def limited_portfolio_def limited_settings_def default_settings_def)
  have lp: "pb_settings limited_portfolio = [limited_settings]" "pb_orders limited_portfolio = []" "pb_journal limited_portfolio = []"
    by (simp_all add: limited_portfolio_def empty_portfolio_def)
  have r: "resolve_day moving_zones ''o'' ''u'' ?now limited_portfolio = (1, ''UTC'')"
    by (simp add: resolve_day_def get_settings_row [OF l] moving_names limited_settings_def default_settings_def)
      (simp add: moving_zones_def utc_zone_def local_date_def utc_offset_def time_defs)
  have t: "day_totals moving_zones ''o'' ''u'' (1, ''UTC'') limited_portfolio = (- 600, 0, 0, 0)"
    by (simp add: totals_defs moving_zones_def utc_zone_def limited_portfolio_def empty_portfolio_def sample_closed_def
        dround_minus dec_eval time_defs)
  have e: "ensure_daily_risk_state (\<lambda>db. db) ''o'' ''u'' 1 limited_portfolio
      = (new_daily ''o'' ''u'' 1 limited_portfolio,
         limited_portfolio\<lparr>pb_daily := [new_daily ''o'' ''u'' 1 limited_portfolio]\<rparr>)"
    by (simp add: ensure_daily_risk_state_def find_daily_def limited_portfolio_def empty_portfolio_def Let_def)
  have "ds_daily_locked snap" "ds_day snap = 1" "ds_daily_loss_limit snap = Some 500" "ds_realized_pnl snap = - 600"
      and s: "pb_settings db1 = [limited_settings]"
      and f: "pb_positions db1 = pb_positions limited_portfolio" "pb_orders db1 = []" "pb_journal db1 = []"
        "map dr_day (pb_daily db1) = [1]"
    using sync lp unfolding sync_from_portfolio_def r option.case prod.case Let_def t fst_conv e get_settings_row [OF l]
    by (auto simp: put_daily_def new_daily_def l limited_settings_def default_settings_def dround_minus dec_eval Let_def)
  moreover have "load_settings ''o'' ''u'' db1 = Some limited_settings"
    by (simp add: load_settings_def s limited_settings_def default_settings_def)
  then have "resolve_day moving_zones ''o'' ''u'' ?now db1 = (1, ''UTC'')"
    using r l by (simp add: resolve_day_def get_settings_row)
  ultimately show ?thesis using sync by (intro exI conjI)
qed

theorem timezone_change_unlocks:
  "\<exists>snap db1 response db2 snap2 db3.
     sync_from_portfolio moving_zones (\<lambda>db. db) ''o'' ''u'' None None (DAY + 20 * HOUR) limited_portfolio = (snap, db1)
   \<and> ds_daily_locked snap \<and> ds_day snap = 1
   \<and> update_settings moving_zones [Timezone (Some ''E'')] ''o'' ''u'' db1 = Inr (response, db2)
   \<and> sync_from_portfolio moving_zones (\<lambda>db. db) ''o'' ''u'' None None (DAY + 20 * HOUR) db2 = (snap2, db3)
   \<and> \<not> ds_daily_locked snap2 \<and> ds_day snap2 = 2 \<and> ds_realized_pnl snap2 = 0 \<and> ds_account_equity snap2 = 10000"
proof -
  let ?now = "DAY + 20 * HOUR" and ?s = limited_settings
  obtain snap db1 where sync: "sync_from_portfolio moving_zones (\<lambda>db. db) ''o'' ''u'' None None ?now limited_portfolio = (snap, db1)"
      and f: "ds_daily_locked snap" "ds_day snap = 1" "pb_settings db1 = [?s]" "pb_positions db1 = pb_positions limited_portfolio"
      "pb_orders db1 = []" "pb_journal db1 = []" "map dr_day (pb_daily db1) = [1]"
    using limited_sync by (elim exE conjE) (rule that)
  let ?s2 = "?s\<lparr>st_timezone := ''E''\<rparr>"
  obtain response db2 where upd: "update_settings moving_zones [Timezone (Some ''E'')] ''o'' ''u'' db1 = Inr (response, db2)"
      and db2: "pb_settings db2 = [?s2]" "pb_daily db2 = pb_daily db1" "pb_positions db2 = pb_positions db1"
      "pb_orders db2 = []" "pb_journal db2 = []"
    using f by (simp add: update_settings_def validate_update_def load_settings_def put_settings_def moving_names
        limited_settings_def default_settings_def Let_def)
  have l2: "load_settings ''o'' ''u'' db2 = Some ?s2"
    by (simp add: load_settings_def db2 limited_settings_def default_settings_def)
  have r2: "resolve_day moving_zones ''o'' ''u'' ?now db2 = (2, ''E'')"
    by (simp add: resolve_day_def get_settings_row [OF l2] moving_names)
      (simp add: moving_zones_def local_date_def utc_offset_def time_defs)
  have t2: "day_totals moving_zones ''o'' ''u'' (2, ''E'') db2 = (0, 0, 0, 0)"
    by (simp add: totals_defs moving_zones_def db2 f limited_portfolio_def sample_closed_def dec_eval time_defs)
  have e2: "fst (ensure_daily_risk_state (\<lambda>db. db) ''o'' ''u'' 2 db2) = new_daily ''o'' ''u'' 2 db2"
    using f(7) by (auto simp: ensure_daily_risk_state_def find_daily_def db2 Let_def map_eq_Cons_conv)
  obtain snap2 db3 where sync2: "sync_from_portfolio moving_zones (\<lambda>db. db) ''o'' ''u'' None None ?now db2 = (snap2, db3)"
    by fastforce
  then have "\<not> ds_daily_locked snap2 \<and> ds_day snap2 = 2 \<and> ds_realized_pnl snap2 = 0 \<and> ds_account_equity snap2 = 10000"
    unfolding sync_from_portfolio_def r2 option.case prod.case Let_def t2 fst_conv split_beta e2 get_settings_row [OF l2]
    by (auto simp: new_daily_def l2 limited_settings_def default_settings_def dround_minus dec_eval Let_def)
  with sync f(1,2) upd sync2 show ?thesis by blast
qed

end
