(* ===== verification/Kill_Switch.thy ===== *)
theory Kill_Switch
  imports Governance
begin

text \<open>
  The organization kill switch of \<^verbatim>\<open>services/risk/kill_switch.py\<close> with the account safety epochs it drives,
  \<^verbatim>\<open>services/safety_epoch.py\<close>. A row of \<^verbatim>\<open>KillSwitchState\<close> has the prefix \<open>ks_\<close>, a row of
  \<^verbatim>\<open>AccountSafetyEpoch\<close> the prefix \<open>ep_\<close>.

  \<open>others\<close> is what other sessions commit between a read of the current session and the statement that
  follows it: before an insert, and before the compare-and-set update of the switch row. The
  statements after that update run while its row lock is held, up to the commit. \<open>global_active\<close> is
  the process setting. A storage failure of a read is \<open>Some e\<close> in \<open>failure\<close>. \<open>Rejected\<close> carries the
  \<^verbatim>\<open>reason\<close> of the \<^verbatim>\<open>TradingPolicyError\<close>, \<^verbatim>\<open>ValidationAppError\<close> or \<^verbatim>\<open>ConflictError\<close> raised.

  The pager (alerts, their retries and the posture row they are kept in) is not modelled: it runs in
  its own savepoint, swallows its failures and writes none of these tables.
\<close>

section \<open>Tables\<close>

datatype actor_type = ACTOR_USER | ACTOR_SYSTEM | ACTOR_AGENT | ACTOR_TOOL

record kill_switch_state =
  ks_org :: string
  ks_active :: bool
  ks_reason :: "string option"
  ks_activated_by :: "string option"
  ks_activated_at :: "int option"
  ks_deactivated_by :: "string option"
  ks_deactivated_at :: "int option"
  ks_version :: int

record safety_epoch =
  ep_org :: string
  ep_account :: string
  ep_epoch :: int
  ep_blocking :: bool
  ep_last_reason_code :: string

datatype switch_audit =
    Switched string "string option" actor_type kill_switch_state
  | Triggered string "string option" string

record switch_db =
  sw_states :: "kill_switch_state list"
  sw_accounts :: "(string \<times> string) list"
  sw_epochs :: "safety_epoch list"
  sw_audit :: "switch_audit list"

record kill_switch_status =
  kt_row :: kill_switch_state
  kt_global_active :: bool
  kt_execution_blocked :: bool

record kill_switch_request =
  kr_confirm :: bool
  kr_reason :: string
  kr_expected_version :: "int option"

record kill_switch_evaluation =
  kv_blocked :: bool
  kv_reason_code :: string
  kv_organization_active :: bool
  kv_global_active :: bool
  kv_status :: "kill_switch_status option"

section \<open>Safety epochs\<close>

definition find_switch :: "string \<Rightarrow> switch_db \<Rightarrow> kill_switch_state option" where
  "find_switch org db = find (\<lambda>r. ks_org r = org) (sw_states db)"

definition organization_kill_active :: "bool \<Rightarrow> string \<Rightarrow> switch_db \<Rightarrow> bool" where
  "organization_kill_active global_active org db =
     (global_active \<or> (case find_switch org db of None \<Rightarrow> False | Some row \<Rightarrow> ks_active row))"

definition find_epoch :: "string \<Rightarrow> string \<Rightarrow> switch_db \<Rightarrow> safety_epoch option" where
  "find_epoch org acc db = find (\<lambda>r. ep_org r = org \<and> ep_account r = acc) (sw_epochs db)"

definition lock_epoch ::
    "bool \<Rightarrow> (switch_db \<Rightarrow> switch_db) \<Rightarrow> string \<Rightarrow> string \<Rightarrow> switch_db \<Rightarrow> safety_epoch \<times> switch_db" where
  "lock_epoch global_active others org acc db =
     (case find_epoch org acc db of
        Some existing \<Rightarrow> (existing, db)
      | None \<Rightarrow>
          let row = \<lparr>ep_org = org, ep_account = acc, ep_epoch = 1,
                     ep_blocking = organization_kill_active global_active org db,
                     ep_last_reason_code = ''initialized''\<rparr>;
              db1 = others db
          in case find_epoch org acc db1 of
               Some locked \<Rightarrow> (locked, db1)
             | None \<Rightarrow> (row, db1\<lparr>sw_epochs := sw_epochs db1 @ [row]\<rparr>))"

text \<open>The order in which the accounts are visited only decides the order of the new rows.\<close>

definition ensure_epochs_for_accounts :: "bool \<Rightarrow> string \<Rightarrow> switch_db \<Rightarrow> switch_db" where
  "ensure_epochs_for_accounts global_active org db =
     fold (\<lambda>acc db. snd (lock_epoch global_active (\<lambda>db. db) org acc db))
       (map snd (filter (\<lambda>a. fst a = org) (sw_accounts db))) db"

definition advance_for_kill_activation :: "bool \<Rightarrow> string \<Rightarrow> switch_db \<Rightarrow> switch_db" where
  "advance_for_kill_activation global_active org db =
     (let db1 = ensure_epochs_for_accounts global_active org db
      in db1\<lparr>sw_epochs := map (\<lambda>r. if ep_org r = org
           then r\<lparr>ep_epoch := ep_epoch r + 1, ep_blocking := True, ep_last_reason_code := ''kill_switch_activated''\<rparr>
           else r) (sw_epochs db1)\<rparr>)"

definition clear_blocking_for_kill_deactivation :: "string \<Rightarrow> switch_db \<Rightarrow> switch_db" where
  "clear_blocking_for_kill_deactivation org db =
     db\<lparr>sw_epochs := map (\<lambda>r. if ep_org r = org
          then r\<lparr>ep_blocking := False, ep_last_reason_code := ''kill_switch_deactivated''\<rparr> else r) (sw_epochs db)\<rparr>"

section \<open>The switch\<close>

definition get_or_create_row ::
    "(switch_db \<Rightarrow> switch_db) \<Rightarrow> string \<Rightarrow> switch_db \<Rightarrow> kill_switch_state \<times> switch_db" where
  "get_or_create_row others org db =
     (case find_switch org db of
        Some row \<Rightarrow> (row, db)
      | None \<Rightarrow>
          let row = \<lparr>ks_org = org, ks_active = False, ks_reason = None, ks_activated_by = None, ks_activated_at = None,
                     ks_deactivated_by = None, ks_deactivated_at = None, ks_version = 1\<rparr>;
              db1 = others db
          in case find_switch org db1 of
               Some existing \<Rightarrow> (existing, db1)
             | None \<Rightarrow> (row, db1\<lparr>sw_states := sw_states db1 @ [row]\<rparr>))"

definition to_status :: "bool \<Rightarrow> kill_switch_state \<Rightarrow> kill_switch_status" where
  "to_status global_active row =
     \<lparr>kt_row = row, kt_global_active = global_active, kt_execution_blocked = ks_active row \<or> global_active\<rparr>"

definition get_status ::
    "bool \<Rightarrow> (switch_db \<Rightarrow> switch_db) \<Rightarrow> string \<Rightarrow> switch_db \<Rightarrow> kill_switch_status \<times> switch_db" where
  "get_status global_active others org db =
     (case get_or_create_row others org db of (row, db1) \<Rightarrow> (to_status global_active row, db1))"

definition require_confirm :: "kill_switch_request \<Rightarrow> unit res" where
  "require_confirm payload =
     (if \<not> kr_confirm payload then Inl (Rejected ''confirmation_required'')
      else if strip (kr_reason payload) = '''' then Inl (Rejected ''reason_required'')
      else Inr ())"

definition check_version :: "kill_switch_state \<Rightarrow> int option \<Rightarrow> unit res" where
  "check_version row expected =
     (case expected of None \<Rightarrow> Inr ()
      | Some v \<Rightarrow> if ks_version row \<noteq> v then Inl (Rejected ''version_conflict'') else Inr ())"

text \<open>
  The compare-and-set: the update applies to the row of the organization that still has the version read
  and the expected flag; \<open>None\<close> is a row count of zero.
\<close>

definition cas_switch ::
    "string \<Rightarrow> int \<Rightarrow> bool \<Rightarrow> (kill_switch_state \<Rightarrow> kill_switch_state) \<Rightarrow> switch_db \<Rightarrow> switch_db option" where
  "cas_switch org version expected_active change db =
     (let hit = (\<lambda>r. ks_org r = org \<and> ks_version r = version \<and> ks_active r = expected_active)
      in if list_ex hit (sw_states db)
         then Some (db\<lparr>sw_states := map (\<lambda>r. if hit r then change r else r) (sw_states db)\<rparr>)
         else None)"

definition activate ::
    "bool \<Rightarrow> (switch_db \<Rightarrow> switch_db) \<Rightarrow> string \<Rightarrow> string \<Rightarrow> kill_switch_request \<Rightarrow> actor_type \<Rightarrow> int \<Rightarrow> switch_db
     \<Rightarrow> (kill_switch_status \<times> switch_db) res" where
  "activate global_active others org actor_user_id payload actor now db =
     res_bind (require_confirm payload) (\<lambda>_.
     case get_or_create_row others org db of (row, db1) \<Rightarrow>
     res_bind (check_version row (kr_expected_version payload)) (\<lambda>_.
     if ks_active row then Inr (to_status global_active row, db1) else
     let current_version = ks_version row;
         stored_user_id = (if actor = ACTOR_SYSTEM then None else Some actor_user_id);
         db2 = others db1
     in case cas_switch org current_version False
               (\<lambda>r. r\<lparr>ks_active := True, ks_reason := Some (strip (kr_reason payload)), ks_activated_by := stored_user_id,
                      ks_activated_at := Some now, ks_deactivated_by := None, ks_deactivated_at := None,
                      ks_version := current_version + 1\<rparr>) db2 of
          None \<Rightarrow>
            (case get_or_create_row others org db2 of (refreshed, db3) \<Rightarrow>
               if ks_active refreshed then Inr (to_status global_active refreshed, db3)
               else Inl (Rejected ''version_conflict''))
        | Some db3 \<Rightarrow>
            (case get_or_create_row others org db3 of (row, db4) \<Rightarrow>
               let db5 = advance_for_kill_activation global_active org db4
               in Inr (to_status global_active row,
                       db5\<lparr>sw_audit := sw_audit db5 @ [Switched org stored_user_id actor row]\<rparr>))))"

definition deactivate ::
    "bool \<Rightarrow> (switch_db \<Rightarrow> switch_db) \<Rightarrow> string \<Rightarrow> string \<Rightarrow> kill_switch_request \<Rightarrow> int \<Rightarrow> switch_db
     \<Rightarrow> (kill_switch_status \<times> switch_db) res" where
  "deactivate global_active others org actor_user_id payload now db =
     res_bind (require_confirm payload) (\<lambda>_.
     case get_or_create_row others org db of (row, db1) \<Rightarrow>
     res_bind (check_version row (kr_expected_version payload)) (\<lambda>_.
     if \<not> ks_active row then Inr (to_status global_active row, db1) else
     let current_version = ks_version row; db2 = others db1
     in case cas_switch org current_version True
               (\<lambda>r. r\<lparr>ks_active := False, ks_reason := Some (strip (kr_reason payload)),
                      ks_deactivated_by := Some actor_user_id, ks_deactivated_at := Some now,
                      ks_version := current_version + 1\<rparr>) db2 of
          None \<Rightarrow>
            (case get_or_create_row others org db2 of (refreshed, db3) \<Rightarrow>
               if \<not> ks_active refreshed then Inr (to_status global_active refreshed, db3)
               else Inl (Rejected ''version_conflict''))
        | Some db3 \<Rightarrow>
            (case get_or_create_row others org db3 of (row, db4) \<Rightarrow>
               let db5 = clear_blocking_for_kill_deactivation org db4
               in Inr (to_status global_active row,
                       db5\<lparr>sw_audit := sw_audit db5 @ [Switched org (Some actor_user_id) ACTOR_USER row]\<rparr>))))"

definition evaluate_switch ::
    "bool \<Rightarrow> exc option \<Rightarrow> (switch_db \<Rightarrow> switch_db) \<Rightarrow> string \<Rightarrow> switch_db \<Rightarrow> kill_switch_evaluation \<times> switch_db" where
  "evaluate_switch global_active failure others org db =
     (case failure of
        Some e \<Rightarrow> (\<lparr>kv_blocked = True, kv_reason_code = ''kill_switch_unavailable'', kv_organization_active = False,
                    kv_global_active = global_active, kv_status = None\<rparr>, db)
      | None \<Rightarrow>
          (case get_status global_active others org db of (status, db1) \<Rightarrow>
           let org_active = ks_active (kt_row status)
           in (if global_active then
                 \<lparr>kv_blocked = True, kv_reason_code = ''global_kill_switch_active'', kv_organization_active = org_active,
                  kv_global_active = True, kv_status = Some status\<rparr>
               else if org_active then
                 \<lparr>kv_blocked = True, kv_reason_code = ''kill_switch_active'', kv_organization_active = True,
                  kv_global_active = False, kv_status = Some status\<rparr>
               else
                 \<lparr>kv_blocked = False, kv_reason_code = ''ok'', kv_organization_active = False,
                  kv_global_active = False, kv_status = Some status\<rparr>, db1)))"

definition is_execution_blocked ::
    "bool \<Rightarrow> exc option \<Rightarrow> (switch_db \<Rightarrow> switch_db) \<Rightarrow> string \<Rightarrow> switch_db \<Rightarrow> bool \<times> switch_db" where
  "is_execution_blocked global_active failure others org db =
     (case evaluate_switch global_active failure others org db of (evaluation, db1) \<Rightarrow> (kv_blocked evaluation, db1))"

text \<open>The refused call leaves its audit entry, so the tables come back with the answer.\<close>

definition assert_execution_allowed ::
    "bool \<Rightarrow> exc option \<Rightarrow> (switch_db \<Rightarrow> switch_db) \<Rightarrow> string \<Rightarrow> string option \<Rightarrow> switch_db \<Rightarrow> unit res \<times> switch_db" where
  "assert_execution_allowed global_active failure others org user db =
     (case evaluate_switch global_active failure others org db of (evaluation, db1) \<Rightarrow>
      if \<not> kv_blocked evaluation then (Inr (), db1)
      else (Inl (Rejected (kv_reason_code evaluation)),
            db1\<lparr>sw_audit := sw_audit db1 @ [Triggered org user (kv_reason_code evaluation)]\<rparr>))"


section \<open>What every operation keeps\<close>

definition org_active :: "string \<Rightarrow> switch_db \<Rightarrow> bool" where
  "org_active org db = (case find_switch org db of None \<Rightarrow> False | Some row \<Rightarrow> ks_active row)"

definition newer_epoch :: "safety_epoch option \<Rightarrow> safety_epoch option \<Rightarrow> bool" where
  "newer_epoch old new = (case new of None \<Rightarrow> False
     | Some e' \<Rightarrow> (case old of None \<Rightarrow> True | Some e \<Rightarrow> ep_epoch e < ep_epoch e'))"

text \<open>
  \<open>switch_ok\<close> is the invariant of the tables. \<open>switch_le db db'\<close> relates two states of a run: no account
  disappears, no epoch falls, a switch row changes only together with its version, and a switch that
  was not active before and is now has given every account it knew a newer epoch.
\<close>

definition switch_ok :: "switch_db \<Rightarrow> bool" where
  "switch_ok db \<longleftrightarrow> distinct (map ks_org (sw_states db))
     \<and> (\<forall>e \<in> set (sw_epochs db). org_active (ep_org e) db \<longrightarrow> ep_blocking e)"

definition switch_le :: "switch_db \<Rightarrow> switch_db \<Rightarrow> bool" where
  "switch_le db db' \<longleftrightarrow> set (sw_accounts db) \<subseteq> set (sw_accounts db')
     \<and> (\<forall>org acc e. find_epoch org acc db = Some e \<longrightarrow> (\<exists>e'. find_epoch org acc db' = Some e' \<and> ep_epoch e \<le> ep_epoch e'))
     \<and> (\<forall>org r. find_switch org db = Some r \<longrightarrow>
          (\<exists>r'. find_switch org db' = Some r' \<and> (r' = r \<or> ks_version r < ks_version r')))
     \<and> (\<forall>org acc. (org, acc) \<in> set (sw_accounts db) \<longrightarrow> org_active org db' \<longrightarrow>
          org_active org db \<or> newer_epoch (find_epoch org acc db) (find_epoch org acc db'))"

definition benign :: "(switch_db \<Rightarrow> switch_db) \<Rightarrow> bool" where
  "benign others \<longleftrightarrow> (\<forall>db. switch_ok db \<longrightarrow> switch_le db (others db) \<and> switch_ok (others db))"

lemma switch_le_refl [simp, intro]: "switch_le db db"
  by (auto simp: switch_le_def)

lemma switch_leD:
  assumes "switch_le db db'"
  shows "x \<in> set (sw_accounts db) \<Longrightarrow> x \<in> set (sw_accounts db')"
    and "find_epoch org acc db = Some e \<Longrightarrow> \<exists>e'. find_epoch org acc db' = Some e' \<and> ep_epoch e \<le> ep_epoch e'"
    and "find_switch org db = Some r \<Longrightarrow> \<exists>r'. find_switch org db' = Some r' \<and> (r' = r \<or> ks_version r < ks_version r')"
    and "(org, acc) \<in> set (sw_accounts db) \<Longrightarrow> org_active org db' \<Longrightarrow>
           org_active org db \<or> newer_epoch (find_epoch org acc db) (find_epoch org acc db')"
  using assms unfolding switch_le_def by blast+

lemma newer_epoch_later:
  "newer_epoch old (find_epoch org acc db) \<Longrightarrow> switch_le db db' \<Longrightarrow> newer_epoch old (find_epoch org acc db')"
  by (auto simp: newer_epoch_def split: option.splits dest!: switch_leD(2))

lemma newer_epoch_earlier:
  "newer_epoch (find_epoch org acc db') new \<Longrightarrow> switch_le db db' \<Longrightarrow> newer_epoch (find_epoch org acc db) new"
  by (auto simp: newer_epoch_def split: option.splits dest!: switch_leD(2))

lemma switch_le_trans:
  assumes "switch_le db1 db2" "switch_le db2 db3"
  shows "switch_le db1 db3"
  unfolding switch_le_def
proof (intro conjI allI impI)
  show "set (sw_accounts db1) \<subseteq> set (sw_accounts db3)" using switch_leD(1) assms by blast
next
  fix org acc e assume "find_epoch org acc db1 = Some e"
  then show "\<exists>e'. find_epoch org acc db3 = Some e' \<and> ep_epoch e \<le> ep_epoch e'"
    using switch_leD(2) [OF assms(1)] switch_leD(2) [OF assms(2)] by (meson order_trans)
next
  fix org r assume "find_switch org db1 = Some r"
  then obtain r1 where r1: "find_switch org db2 = Some r1" "r1 = r \<or> ks_version r < ks_version r1"
    using switch_leD(3) [OF assms(1)] by blast
  then obtain r2 where "find_switch org db3 = Some r2" "r2 = r1 \<or> ks_version r1 < ks_version r2"
    using switch_leD(3) [OF assms(2)] by blast
  with r1 show "\<exists>r'. find_switch org db3 = Some r' \<and> (r' = r \<or> ks_version r < ks_version r')" by force
next
  fix org acc assume "(org, acc) \<in> set (sw_accounts db1)" "org_active org db3"
  then show "org_active org db1 \<or> newer_epoch (find_epoch org acc db1) (find_epoch org acc db3)"
    using switch_leD(1,4) [OF assms(1)] switch_leD(4) [OF assms(2)] newer_epoch_later newer_epoch_earlier assms
    by meson
qed

lemma find_snoc_row: "find P (xs @ [x]) = (case find P xs of None \<Rightarrow> if P x then Some x else None | Some y \<Rightarrow> Some y)"
  by (induction xs) auto

lemma find_map_same:
  "(\<And>x. P (f x) = P x) \<Longrightarrow> find P (map f xs) = map_option f (find P xs)"
  by (induction xs) auto

lemma get_or_create_row_ok:
  assumes "benign others" "get_or_create_row others org db = (row, db')" "switch_ok db"
  shows "switch_le db db'" "switch_ok db'" "find_switch org db' = Some row"
    "find_switch org db = Some r \<Longrightarrow> row = r \<and> db' = db"
proof -
  let ?new = "\<lparr>ks_org = org, ks_active = False, ks_reason = None, ks_activated_by = None, ks_activated_at = None,
    ks_deactivated_by = None, ks_deactivated_at = None, ks_version = 1\<rparr>"
  let ?db = "(others db)\<lparr>sw_states := sw_states (others db) @ [?new]\<rparr>"
  have b: "switch_le db (others db)" "switch_ok (others db)" using assms(1,3) by (auto simp: benign_def)
  have a: "org_active o' ?db = org_active o' (others db)" if "find_switch org (others db) = None" for o'
    using that by (auto simp: org_active_def find_switch_def find_snoc_row split: option.splits)
  have n: "switch_le (others db) ?db" "switch_ok (others db) \<Longrightarrow> switch_ok ?db" if none: "find_switch org (others db) = None"
  proof -
    show "switch_le (others db) ?db"
      using a [OF none] by (auto simp: switch_le_def find_epoch_def) (auto simp: find_switch_def find_snoc_row)
    assume "switch_ok (others db)"
    then show "switch_ok ?db"
      using a [OF none] none by (auto simp: switch_ok_def find_switch_def find_None_iff)
  qed
  show "switch_le db db'" "switch_ok db'" "find_switch org db' = Some row"
    "find_switch org db = Some r \<Longrightarrow> row = r \<and> db' = db"
    using assms(2,3) b n switch_le_trans [OF b(1)]
    by (auto simp: get_or_create_row_def Let_def find_switch_def find_snoc_row split: option.splits)
qed


lemma audit_frame [simp]:
  "find_switch org (db\<lparr>sw_audit := x\<rparr>) = find_switch org db" "find_epoch org acc (db\<lparr>sw_audit := x\<rparr>) = find_epoch org acc db"
  "org_active org (db\<lparr>sw_audit := x\<rparr>) = org_active org db" "switch_ok (db\<lparr>sw_audit := x\<rparr>) = switch_ok db"
  "switch_le db0 (db\<lparr>sw_audit := x\<rparr>) = switch_le db0 db"
  by (simp_all add: find_switch_def find_epoch_def org_active_def switch_ok_def switch_le_def)

lemma epochs_frame [simp]:
  "find_switch org (db\<lparr>sw_epochs := x\<rparr>) = find_switch org db" "org_active org (db\<lparr>sw_epochs := x\<rparr>) = org_active org db"
  by (simp_all add: find_switch_def org_active_def)

lemma lock_epoch_ok:
  assumes "benign others" "(org, acc) \<in> set (sw_accounts db)" "lock_epoch g others org acc db = (row, db')" "switch_ok db"
  shows "switch_le db db'" "switch_ok db'" "find_epoch org acc db' = Some row"
proof -
  let ?new = "\<lparr>ep_org = org, ep_account = acc, ep_epoch = 1, ep_blocking = organization_kill_active g org db,
    ep_last_reason_code = ''initialized''\<rparr>"
  let ?db = "(others db)\<lparr>sw_epochs := sw_epochs (others db) @ [?new]\<rparr>"
  have b: "switch_le db (others db)" "switch_ok (others db)" using assms(1,4) by (auto simp: benign_def)
  have n: "switch_le (others db) ?db" "switch_ok ?db" if none: "find_epoch org acc (others db) = None"
  proof -
    show "switch_le (others db) ?db"
      by (auto simp: switch_le_def newer_epoch_def) (auto simp: find_epoch_def find_snoc_row)
    have "ep_blocking ?new" if "org_active org (others db)"
      using switch_leD(4) [OF b(1) assms(2) that] none
      by (auto simp: newer_epoch_def organization_kill_active_def org_active_def)
    then show "switch_ok ?db" using b(2) by (auto simp: switch_ok_def)
  qed
  show "switch_le db db'" "switch_ok db'" "find_epoch org acc db' = Some row"
    using assms(3,4) b n switch_le_trans [OF b(1)]
    by (auto simp: lock_epoch_def Let_def find_epoch_def find_snoc_row split: option.splits)
qed

lemma lock_epoch_alone:
  "\<exists>new. snd (lock_epoch g (\<lambda>db. db) org acc db) = db\<lparr>sw_epochs := sw_epochs db @ new\<rparr>
     \<and> (\<forall>e \<in> set new. ep_org e = org) \<and> (\<exists>e \<in> set (sw_epochs db @ new). ep_org e = org \<and> ep_account e = acc)"
proof (cases "find_epoch org acc db")
  case None
  then show ?thesis by (auto simp: lock_epoch_def Let_def intro!: exI [of _ "[_]"])
next
  case (Some e)
  then have "e \<in> set (sw_epochs db)" "ep_org e = org" "ep_account e = acc"
    by (auto simp: find_epoch_def find_Some_iff)
  with Some show ?thesis by (auto simp: lock_epoch_def intro!: exI [of _ "[]"])
qed

lemma ensure_epochs_facts:
  "\<exists>new. ensure_epochs_for_accounts g org db = db\<lparr>sw_epochs := sw_epochs db @ new\<rparr>
     \<and> (\<forall>e \<in> set new. ep_org e = org)
     \<and> (\<forall>acc. (org, acc) \<in> set (sw_accounts db) \<longrightarrow>
          (\<exists>e \<in> set (sw_epochs db @ new). ep_org e = org \<and> ep_account e = acc))"
proof -
  have "\<exists>new. fold (\<lambda>acc db. snd (lock_epoch g (\<lambda>db. db) org acc db)) accs db = db\<lparr>sw_epochs := sw_epochs db @ new\<rparr>
      \<and> (\<forall>e \<in> set new. ep_org e = org) \<and> (\<forall>acc \<in> set accs. \<exists>e \<in> set (sw_epochs db @ new). ep_org e = org \<and> ep_account e = acc)" for accs
  proof (induction accs arbitrary: db)
    case (Cons acc accs)
    obtain n1 where n1: "snd (lock_epoch g (\<lambda>db. db) org acc db) = db\<lparr>sw_epochs := sw_epochs db @ n1\<rparr>"
        "\<forall>e \<in> set n1. ep_org e = org" "\<exists>e \<in> set (sw_epochs db @ n1). ep_org e = org \<and> ep_account e = acc"
      using lock_epoch_alone by blast
    from Cons [of "db\<lparr>sw_epochs := sw_epochs db @ n1\<rparr>"] obtain n2 where
        "fold (\<lambda>acc db. snd (lock_epoch g (\<lambda>db. db) org acc db)) accs (db\<lparr>sw_epochs := sw_epochs db @ n1\<rparr>)
           = db\<lparr>sw_epochs := sw_epochs db @ n1 @ n2\<rparr>" "\<forall>e \<in> set n2. ep_org e = org"
        "\<forall>acc \<in> set accs. \<exists>e \<in> set (sw_epochs db @ n1 @ n2). ep_org e = org \<and> ep_account e = acc"
      by auto
    with n1 show ?case by (intro exI [of _ "n1 @ n2"]) auto
  qed (auto intro: exI [of _ "[]"])
  from this [of "map snd (filter (\<lambda>a. fst a = org) (sw_accounts db))"] show ?thesis
    unfolding ensure_epochs_for_accounts_def by force
qed


lemma find_distinct: "distinct (map f xs) \<Longrightarrow> x \<in> set xs \<Longrightarrow> find (\<lambda>y. f y = f x) xs = Some x"
  by (induction xs) force+

lemma find_switch_org: "find_switch org db = Some r \<Longrightarrow> ks_org r = org"
  by (auto simp: find_switch_def find_Some_iff)

lemma cas_switch_Some:
  assumes "cas_switch org v b change db = Some db'" "switch_ok db" "\<And>r. ks_org (change r) = ks_org r"
  obtains r where "find_switch org db = Some r" "ks_version r = v" "ks_active r = b"
    "find_switch org db' = Some (change r)" "\<And>o'. o' \<noteq> org \<Longrightarrow> find_switch o' db' = find_switch o' db"
    "sw_epochs db' = sw_epochs db" "sw_accounts db' = sw_accounts db" "map ks_org (sw_states db') = map ks_org (sw_states db)"
proof -
  let ?hit = "\<lambda>r. ks_org r = org \<and> ks_version r = v \<and> ks_active r = b"
  let ?f = "\<lambda>r. if ?hit r then change r else r"
  have db': "db' = db\<lparr>sw_states := map ?f (sw_states db)\<rparr>" "list_ex ?hit (sw_states db)"
    using assms(1) by (auto simp: cas_switch_def Let_def split: if_splits)
  from db'(2) obtain r where r: "r \<in> set (sw_states db)" "?hit r" by (auto simp: list_ex_iff)
  have fs: "find_switch org db = Some r"
    using find_distinct [of ks_org "sw_states db" r] assms(2) r by (simp add: find_switch_def switch_ok_def)
  have "find (\<lambda>x. ks_org x = o') (map ?f (sw_states db)) = map_option ?f (find (\<lambda>x. ks_org x = o') (sw_states db))" for o'
    by (rule find_map_same) (simp add: assms(3))
  then have look: "find_switch o' db' = map_option ?f (find_switch o' db)" for o'
    by (simp add: find_switch_def db')
  have "find_switch o' db' = find_switch o' db" if "o' \<noteq> org" for o'
    using look [of o'] that by (cases "find_switch o' db") (auto dest: find_switch_org)
  moreover have "find_switch org db' = Some (change r)" using look [of org] fs r(2) by simp
  moreover have "map ks_org (sw_states db') = map ks_org (sw_states db)" by (simp add: db' assms(3))
  ultimately show thesis using fs r(2) by (intro that [of r]) (simp_all add: db')
qed

lemma find_epoch_map:
  assumes "sw_epochs db' = map f (sw_epochs db @ new)" "\<And>e. ep_org (f e) = ep_org e" "\<And>e. ep_account (f e) = ep_account e"
  shows "find_epoch org acc db = Some e \<Longrightarrow> find_epoch org acc db' = Some (f e)"
    and "\<exists>e \<in> set (sw_epochs db @ new). ep_org e = org \<and> ep_account e = acc \<Longrightarrow> find_epoch org acc db' \<noteq> None"
proof -
  have m: "find_epoch org acc db' = map_option f (find (\<lambda>r. ep_org r = org \<and> ep_account r = acc) (sw_epochs db @ new))"
    unfolding find_epoch_def assms(1) by (rule find_map_same) (simp add: assms(2,3))
  have a: "find P xs = Some x \<Longrightarrow> find P (xs @ ys) = Some x" for P :: "safety_epoch \<Rightarrow> bool" and xs ys x
    by (induction xs) (auto split: if_splits)
  show "find_epoch org acc db = Some e \<Longrightarrow> find_epoch org acc db' = Some (f e)"
    using m a by (simp add: find_epoch_def)
  show "\<exists>e \<in> set (sw_epochs db @ new). ep_org e = org \<and> ep_account e = acc \<Longrightarrow> find_epoch org acc db' \<noteq> None"
    unfolding m by (auto simp: find_None_iff)
qed

text \<open>The switch row updated and the epochs after it: the two tails of the compare-and-set.\<close>

lemma activated_ok:
  assumes "cas_switch org v False change db = Some db1" "switch_ok db"
    and "\<And>r. ks_org (change r) = ks_org r" "\<And>r. ks_active (change r)" "\<And>r. ks_version r = v \<Longrightarrow> v < ks_version (change r)"
  shows "switch_le db (advance_for_kill_activation g org db1)" "switch_ok (advance_for_kill_activation g org db1)"
    "\<exists>r. find_switch org db1 = Some r \<and> ks_active r \<and> find_switch org (advance_for_kill_activation g org db1) = Some r"
proof -
  let ?f = "\<lambda>e. if ep_org e = org
     then e\<lparr>ep_epoch := ep_epoch e + 1, ep_blocking := True, ep_last_reason_code := ''kill_switch_activated''\<rparr> else e"
  let ?db = "advance_for_kill_activation g org db1"
  obtain r where r: "find_switch org db = Some r" "ks_version r = v" "\<not> ks_active r"
    "find_switch org db1 = Some (change r)" "\<And>o'. o' \<noteq> org \<Longrightarrow> find_switch o' db1 = find_switch o' db"
    "sw_epochs db1 = sw_epochs db" "sw_accounts db1 = sw_accounts db" "map ks_org (sw_states db1) = map ks_org (sw_states db)"
    using assms(1-3) by (rule cas_switch_Some) auto
  obtain new where new: "ensure_epochs_for_accounts g org db1 = db1\<lparr>sw_epochs := sw_epochs db @ new\<rparr>"
      "\<And>acc. (org, acc) \<in> set (sw_accounts db) \<Longrightarrow> \<exists>e \<in> set (sw_epochs db @ new). ep_org e = org \<and> ep_account e = acc"
      "\<forall>e \<in> set new. ep_org e = org"
    using ensure_epochs_facts [of g org db1] unfolding r by blast
  have db: "?db = db1\<lparr>sw_epochs := map ?f (sw_epochs db @ new)\<rparr>"
    by (simp add: advance_for_kill_activation_def new r)
  have look: "find_switch o' ?db = find_switch o' db1" "org_active o' ?db = (if o' = org then True else org_active o' db)" for o'
    using r(4,5) assms(4) by (auto simp: db org_active_def)
  have e: "find_epoch o' acc db = Some e \<Longrightarrow> find_epoch o' acc ?db = Some (?f e)"
      "\<exists>e \<in> set (sw_epochs db @ new). ep_org e = o' \<and> ep_account e = acc \<Longrightarrow> find_epoch o' acc ?db \<noteq> None" for o' acc e
    using find_epoch_map [of ?db ?f db new] by (simp_all add: db)
  have n: "newer_epoch (find_epoch org acc db) (find_epoch org acc ?db)" if "(org, acc) \<in> set (sw_accounts db)" for acc
  proof (cases "find_epoch org acc db")
    case None
    then show ?thesis using e(2) [OF new(2)] that by (auto simp: newer_epoch_def split: option.split)
  next
    case (Some e0)
    moreover have "ep_org e0 = org" using Some by (auto simp: find_epoch_def find_Some_iff)
    ultimately show ?thesis using e(1) [OF Some] by (simp add: newer_epoch_def)
  qed
  have s: "\<exists>r'. find_switch o' ?db = Some r' \<and> (r' = r0 \<or> ks_version r0 < ks_version r')" if "find_switch o' db = Some r0" for o' r0
    using that r assms(5) look(1) by (cases "o' = org") auto
  show "switch_le db ?db"
    unfolding switch_le_def
  proof (intro conjI allI impI)
    show "set (sw_accounts db) \<subseteq> set (sw_accounts ?db)" by (simp add: db r(7))
    show "\<exists>e'. find_epoch o' acc ?db = Some e' \<and> ep_epoch e0 \<le> ep_epoch e'" if "find_epoch o' acc db = Some e0" for o' acc e0
      using e(1) [OF that] by simp
    show "\<exists>r'. find_switch o' ?db = Some r' \<and> (r' = r0 \<or> ks_version r0 < ks_version r')" if "find_switch o' db = Some r0" for o' r0
      using that by (rule s)
    show "org_active o' db \<or> newer_epoch (find_epoch o' acc db) (find_epoch o' acc ?db)"
      if "(o', acc) \<in> set (sw_accounts db)" "org_active o' ?db" for o' acc
    proof (cases "o' = org")
      case True
      then show ?thesis using n that(1) by blast
    next
      case False
      then show ?thesis using that(2) unfolding look(2) by simp
    qed
  qed
  show "switch_ok ?db"
    unfolding switch_ok_def
  proof (intro conjI ballI impI)
    have "map ks_org (sw_states ?db) = map ks_org (sw_states db)" unfolding db using r(8) by simp
    then show "distinct (map ks_org (sw_states ?db))" using assms(2) by (simp only: switch_ok_def)
    fix e assume e: "e \<in> set (sw_epochs ?db)" "org_active (ep_org e) ?db"
    have "sw_epochs ?db = map ?f (sw_epochs db @ new)" by (simp add: db)
    with e(1) have "e \<in> ?f ` set (sw_epochs db @ new)" by (simp only: set_map)
    then obtain e0 where e0: "e0 \<in> set (sw_epochs db @ new)" "e = ?f e0" by blast
    show "ep_blocking e"
    proof (cases "ep_org e0 = org")
      case False
      then have "e0 \<in> set (sw_epochs db)" "e = e0" using e0 new(3) by auto
      moreover have "org_active (ep_org e0) db" using e(2) \<open>e = e0\<close> False unfolding look(2) by simp
      ultimately show ?thesis using assms(2) by (simp add: switch_ok_def)
    qed (simp add: e0)
  qed
  show "\<exists>r. find_switch org db1 = Some r \<and> ks_active r \<and> find_switch org ?db = Some r"
    using r(4) assms(4) look(1) by simp
qed


lemma deactivated_ok:
  assumes "cas_switch org v True change db = Some db1" "switch_ok db"
    and "\<And>r. ks_org (change r) = ks_org r" "\<And>r. \<not> ks_active (change r)" "\<And>r. ks_version r = v \<Longrightarrow> v < ks_version (change r)"
  shows "switch_le db (clear_blocking_for_kill_deactivation org db1)" "switch_ok (clear_blocking_for_kill_deactivation org db1)"
    "\<exists>r. find_switch org db1 = Some r \<and> \<not> ks_active r \<and> find_switch org (clear_blocking_for_kill_deactivation org db1) = Some r"
proof -
  let ?f = "\<lambda>e. if ep_org e = org
     then e\<lparr>ep_blocking := False, ep_last_reason_code := ''kill_switch_deactivated''\<rparr> else e"
  let ?db = "clear_blocking_for_kill_deactivation org db1"
  obtain r where r: "find_switch org db = Some r" "ks_version r = v" "ks_active r"
    "find_switch org db1 = Some (change r)" "\<And>o'. o' \<noteq> org \<Longrightarrow> find_switch o' db1 = find_switch o' db"
    "sw_epochs db1 = sw_epochs db" "sw_accounts db1 = sw_accounts db" "map ks_org (sw_states db1) = map ks_org (sw_states db)"
    using assms(1-3) by (rule cas_switch_Some) auto
  have db: "?db = db1\<lparr>sw_epochs := map ?f (sw_epochs db)\<rparr>"
    by (simp add: clear_blocking_for_kill_deactivation_def r)
  have look: "find_switch o' ?db = find_switch o' db1" "org_active o' ?db = (if o' = org then False else org_active o' db)" for o'
    using r(4,5) assms(4) by (auto simp: db org_active_def)
  have e: "find_epoch o' acc ?db = Some (?f e)" if "find_epoch o' acc db = Some e" for o' acc e
    by (rule find_epoch_map(1) [of ?db ?f db "[]"]) (simp_all add: db that)
  show "switch_le db ?db"
    unfolding switch_le_def
  proof (intro conjI allI impI)
    show "set (sw_accounts db) \<subseteq> set (sw_accounts ?db)" by (simp add: db r(7))
    show "\<exists>e'. find_epoch o' acc ?db = Some e' \<and> ep_epoch e0 \<le> ep_epoch e'" if "find_epoch o' acc db = Some e0" for o' acc e0
      using e [OF that] by simp
    show "\<exists>r'. find_switch o' ?db = Some r' \<and> (r' = r0 \<or> ks_version r0 < ks_version r')" if "find_switch o' db = Some r0" for o' r0
      using that r assms(5) look(1) by (cases "o' = org") auto
    show "org_active o' db \<or> newer_epoch (find_epoch o' acc db) (find_epoch o' acc ?db)" if "org_active o' ?db" for o' acc
      using that unfolding look(2) by (simp split: if_splits)
  qed
  show "switch_ok ?db"
    unfolding switch_ok_def
  proof (intro conjI ballI impI)
    have "map ks_org (sw_states ?db) = map ks_org (sw_states db)" unfolding db using r(8) by simp
    then show "distinct (map ks_org (sw_states ?db))" using assms(2) by (simp only: switch_ok_def)
    fix e assume e: "e \<in> set (sw_epochs ?db)" "org_active (ep_org e) ?db"
    then have other: "ep_org e \<noteq> org" "org_active (ep_org e) db" unfolding look(2) by (auto split: if_splits)
    then have "e \<in> set (sw_epochs db)" using e(1) by (auto simp: db)
    then show "ep_blocking e" using assms(2) other(2) by (simp add: switch_ok_def)
  qed
  show "\<exists>r. find_switch org db1 = Some r \<and> \<not> ks_active r \<and> find_switch org ?db = Some r"
    using r(4) assms(4) look(1) by simp
qed

lemma activate_ok:
  assumes "activate g others org user payload actor now db = Inr (status, db')" "benign others" "switch_ok db"
  shows "switch_le db db' \<and> switch_ok db' \<and> find_switch org db' = Some (kt_row status) \<and> ks_active (kt_row status)"
proof -
  obtain row db1 where row: "get_or_create_row others org db = (row, db1)" by fastforce
  note r = get_or_create_row_ok [OF assms(2) row assms(3)] and b = assms(2) [unfolded benign_def, rule_format]
  let ?change = "\<lambda>r. r\<lparr>ks_active := True, ks_reason := Some (strip (kr_reason payload)),
     ks_activated_by := if actor = ACTOR_SYSTEM then None else Some user, ks_activated_at := Some now,
     ks_deactivated_by := None, ks_deactivated_at := None, ks_version := ks_version row + 1\<rparr>"
  have le: "switch_le db (others db1)" and ok: "switch_ok (others db1)"
    using switch_le_trans r(1,2) b assms(3) by blast+
  show ?thesis
  proof (cases "ks_active row")
    case True
    then show ?thesis
      using assms(1,3) r unfolding activate_def row by (auto simp: res_simps to_status_def)
  next
    case False
    show ?thesis
    proof (cases "cas_switch org (ks_version row) False ?change (others db1)")
      case None
      obtain refreshed db3 where f: "get_or_create_row others org (others db1) = (refreshed, db3)" by fastforce
      have "status = to_status g refreshed" "db' = db3" "ks_active refreshed"
        using assms(1) False unfolding activate_def row prod.case Let_def None option.case f by (auto simp: res_simps)
      then show ?thesis
        using get_or_create_row_ok [OF assms(2) f ok] switch_le_trans [OF le] by (simp add: to_status_def)
    next
      case (Some db3)
      have a: "switch_le (others db1) (advance_for_kill_activation g org db3)" "switch_ok (advance_for_kill_activation g org db3)"
        "\<exists>r. find_switch org db3 = Some r \<and> ks_active r \<and> find_switch org (advance_for_kill_activation g org db3) = Some r"
        using activated_ok [OF Some ok] by simp_all
      then obtain r3 where r3: "find_switch org db3 = Some r3" "ks_active r3"
        "find_switch org (advance_for_kill_activation g org db3) = Some r3" by blast
      have "status = to_status g r3 \<and> (\<exists>x. db' = (advance_for_kill_activation g org db3)\<lparr>sw_audit := x\<rparr>)"
        using assms(1) False r3(1) unfolding activate_def row prod.case Let_def Some option.case
        by (auto simp: res_simps get_or_create_row_def)
      then show ?thesis using a(1,2) r3 switch_le_trans [OF le] by (auto simp: to_status_def)
    qed
  qed
qed


lemma deactivate_ok:
  assumes "deactivate g others org user payload now db = Inr (status, db')" "benign others" "switch_ok db"
  shows "switch_le db db' \<and> switch_ok db' \<and> find_switch org db' = Some (kt_row status) \<and> \<not> ks_active (kt_row status)"
proof -
  obtain row db1 where row: "get_or_create_row others org db = (row, db1)" by fastforce
  note r = get_or_create_row_ok [OF assms(2) row assms(3)] and b = assms(2) [unfolded benign_def, rule_format]
  let ?change = "\<lambda>r. r\<lparr>ks_active := False, ks_reason := Some (strip (kr_reason payload)),
     ks_deactivated_by := Some user, ks_deactivated_at := Some now, ks_version := ks_version row + 1\<rparr>"
  have le: "switch_le db (others db1)" and ok: "switch_ok (others db1)"
    using switch_le_trans r(1,2) b assms(3) by blast+
  show ?thesis
  proof (cases "\<not> ks_active row")
    case True
    then show ?thesis
      using assms(1,3) r unfolding deactivate_def row by (auto simp: res_simps to_status_def)
  next
    case False
    show ?thesis
    proof (cases "cas_switch org (ks_version row) True ?change (others db1)")
      case None
      obtain refreshed db3 where f: "get_or_create_row others org (others db1) = (refreshed, db3)" by fastforce
      have "status = to_status g refreshed" "db' = db3" "\<not> ks_active refreshed"
        using assms(1) False unfolding deactivate_def row prod.case Let_def None option.case f by (auto simp: res_simps)
      then show ?thesis
        using get_or_create_row_ok [OF assms(2) f ok] switch_le_trans [OF le] by (simp add: to_status_def)
    next
      case (Some db3)
      have a: "switch_le (others db1) (clear_blocking_for_kill_deactivation org db3)" "switch_ok (clear_blocking_for_kill_deactivation org db3)"
        "\<exists>r. find_switch org db3 = Some r \<and> \<not> ks_active r \<and> find_switch org (clear_blocking_for_kill_deactivation org db3) = Some r"
        using deactivated_ok [OF Some ok] by simp_all
      then obtain r3 where r3: "find_switch org db3 = Some r3" "\<not> ks_active r3"
        "find_switch org (clear_blocking_for_kill_deactivation org db3) = Some r3" by blast
      have "status = to_status g r3 \<and> (\<exists>x. db' = (clear_blocking_for_kill_deactivation org db3)\<lparr>sw_audit := x\<rparr>)"
        using assms(1) False r3(1) unfolding deactivate_def row prod.case Let_def Some option.case
        by (auto simp: res_simps get_or_create_row_def)
      then show ?thesis using a(1,2) r3 switch_le_trans [OF le] by (auto simp: to_status_def)
    qed
  qed
qed

lemma evaluate_switch_ok:
  assumes "evaluate_switch g failure others org db = (evaluation, db')" "benign others" "switch_ok db"
  shows "switch_le db db'" "switch_ok db'"
    "kv_blocked evaluation \<longleftrightarrow> failure \<noteq> None \<or> g \<or> org_active org db'"
  using assms
  by (auto simp: evaluate_switch_def get_status_def to_status_def org_active_def Let_def
      dest: get_or_create_row_ok [OF assms(2) _ assms(3)] split: option.splits prod.splits if_splits)

section \<open>Runs\<close>

text \<open>
  \<open>switch_run g db db'\<close>: \<open>db'\<close> is reached from \<open>db\<close> by calls of the two services and new accounts. What
  other sessions do in the middle of a call is a run as well. A call that raises is rolled back. The
  epoch row of an account refers to the account, so \<open>lock_epoch\<close> is for an account that exists.
\<close>

inductive switch_run :: "bool \<Rightarrow> switch_db \<Rightarrow> switch_db \<Rightarrow> bool" for g where
  sw_refl: "switch_run g db db"
| sw_activate: "switch_run g db db1 \<Longrightarrow> (\<And>x. switch_run g x (others x)) \<Longrightarrow>
     activate g others org user payload actor now db1 = Inr (status, db2) \<Longrightarrow> switch_run g db db2"
| sw_deactivate: "switch_run g db db1 \<Longrightarrow> (\<And>x. switch_run g x (others x)) \<Longrightarrow>
     deactivate g others org user payload now db1 = Inr (status, db2) \<Longrightarrow> switch_run g db db2"
| sw_assert: "switch_run g db db1 \<Longrightarrow> (\<And>x. switch_run g x (others x)) \<Longrightarrow>
     assert_execution_allowed g failure others org user_opt db1 = (answer, db2) \<Longrightarrow> switch_run g db db2"
| sw_lock: "switch_run g db db1 \<Longrightarrow> (\<And>x. switch_run g x (others x)) \<Longrightarrow> (org, acc) \<in> set (sw_accounts db1) \<Longrightarrow>
     lock_epoch g others org acc db1 = (row, db2) \<Longrightarrow> switch_run g db db2"
| sw_account: "switch_run g db db1 \<Longrightarrow> switch_run g db (db1\<lparr>sw_accounts := sw_accounts db1 @ [a]\<rparr>)"

lemma account_ok:
  "switch_le db (db\<lparr>sw_accounts := sw_accounts db @ [a]\<rparr>)" "switch_ok db \<Longrightarrow> switch_ok (db\<lparr>sw_accounts := sw_accounts db @ [a]\<rparr>)"
  by (auto simp: switch_le_def switch_ok_def org_active_def find_switch_def find_epoch_def)


lemma switch_run_ok: "switch_run g db db' \<Longrightarrow> switch_ok db \<Longrightarrow> switch_le db db' \<and> switch_ok db'"
proof (induction rule: switch_run.induct)
  case (sw_activate db db1 others org user payload actor now status db2)
  then have "benign others" by (auto simp: benign_def)
  with sw_activate show ?case by (meson activate_ok switch_le_trans)
next
  case (sw_deactivate db db1 others org user payload now status db2)
  then have "benign others" by (auto simp: benign_def)
  with sw_deactivate show ?case by (meson deactivate_ok switch_le_trans)
next
  case (sw_assert db db1 others failure org user_opt answer db2)
  then have b: "benign others" by (auto simp: benign_def)
  obtain ev db3 where ev: "evaluate_switch g failure others org db1 = (ev, db3)" by fastforce
  have "\<exists>x. db2 = db3\<lparr>sw_audit := x\<rparr>"
    using sw_assert.hyps ev by (cases db3) (auto simp: assert_execution_allowed_def split: if_splits)
  with evaluate_switch_ok(1,2) [OF ev b] sw_assert switch_le_trans show ?case by auto
next
  case (sw_lock db db1 others org acc row db2)
  then have "benign others" by (auto simp: benign_def)
  with sw_lock show ?case by (meson lock_epoch_ok(1,2) switch_le_trans)
next
  case (sw_account db db1 a)
  then show ?case using account_ok switch_le_trans by blast
qed simp

lemma run_benign: "(\<And>x. switch_run g x (others x)) \<Longrightarrow> benign others"
  using switch_run_ok by (auto simp: benign_def)

definition empty_switch :: switch_db where
  "empty_switch = \<lparr>sw_states = [], sw_accounts = [], sw_epochs = [], sw_audit = []\<rparr>"

lemma empty_switch_ok [simp]: "switch_ok empty_switch"
  by (simp add: switch_ok_def empty_switch_def)

section \<open>Properties\<close>

text \<open>
  C12. An active switch fences every account: in every state reached from empty tables, with other
  sessions' calls in the middle of any call, no organization has two switch rows, and the safety epoch
  of each account of an organization whose switch is active is blocking. The check of the adapters
  passes only if the state could be read, the global setting is off and the switch of the
  organization is not active, and with a switch row it passes exactly then.
\<close>

theorem active_switch_blocks:
  assumes "switch_run g empty_switch db" "\<And>x. switch_run g x (others x)"
  shows "distinct (map ks_org (sw_states db))
    \<and> (\<forall>e \<in> set (sw_epochs db). \<forall>row \<in> set (sw_states db). ks_org row = ep_org e \<and> ks_active row \<longrightarrow> ep_blocking e)
    \<and> (fst (assert_execution_allowed g failure others org user db) = Inr () \<longrightarrow>
         failure = None \<and> \<not> g \<and> (\<forall>row \<in> set (sw_states db). ks_org row = org \<longrightarrow> \<not> ks_active row))
    \<and> (\<forall>row \<in> set (sw_states db). ks_org row = org \<longrightarrow>
         (fst (assert_execution_allowed g failure others org user db) = Inr () \<longleftrightarrow> failure = None \<and> \<not> g \<and> \<not> ks_active row))"
proof -
  have ok: "switch_ok db" using switch_run_ok [OF assms(1)] by simp
  have b: "benign others" using assms(2) by (rule run_benign)
  have found: "find_switch (ks_org row) db = Some row" if "row \<in> set (sw_states db)" for row
    using that ok by (simp add: find_distinct find_switch_def switch_ok_def)
  have row: "fst (assert_execution_allowed g failure others org user db) = Inr () \<longleftrightarrow> failure = None \<and> \<not> g \<and> \<not> ks_active row"
    if "row \<in> set (sw_states db)" "ks_org row = org" for row
    using found [OF that(1)] that(2)
    by (auto simp: assert_execution_allowed_def evaluate_switch_def get_status_def get_or_create_row_def to_status_def
        Let_def split: option.splits)
  moreover have "failure = None \<and> \<not> g" if "fst (assert_execution_allowed g failure others org user db) = Inr ()"
    using that by (auto simp: assert_execution_allowed_def evaluate_switch_def Let_def split: option.splits prod.splits if_splits)
  moreover have "ep_blocking e" if "e \<in> set (sw_epochs db)" "row \<in> set (sw_states db)" "ks_org row = ep_org e" "ks_active row" for e row
    using ok that found [OF that(2)] by (auto simp: switch_ok_def org_active_def)
  ultimately show ?thesis using ok unfolding switch_ok_def by blast
qed


definition one_account :: switch_db where
  "one_account = empty_switch\<lparr>sw_accounts := [(''o'', ''a'')]\<rparr>"

definition stop_request :: kill_switch_request where
  "stop_request = \<lparr>kr_confirm = True, kr_reason = ''stop'', kr_expected_version = None\<rparr>"

definition switched_on :: switch_db where
  "switched_on = (case activate False (\<lambda>db. db) ''o'' ''u'' stop_request ACTOR_USER 7 one_account of Inr (_, db) \<Rightarrow> db | Inl _ \<Rightarrow> one_account)"

lemma one_account_run: "switch_run False empty_switch one_account"
  using sw_account [OF sw_refl, of False empty_switch "(''o'', ''a'')"] by (simp add: one_account_def empty_switch_def)

lemma sample_activate:
  "activate False (\<lambda>db. db) ''o'' ''u'' stop_request ACTOR_USER 7 one_account
     = Inr (to_status False (hd (sw_states switched_on)), switched_on)"
  "sw_states switched_on = [\<lparr>ks_org = ''o'', ks_active = True, ks_reason = Some ''stop'', ks_activated_by = Some ''u'',
     ks_activated_at = Some 7, ks_deactivated_by = None, ks_deactivated_at = None, ks_version = 2\<rparr>]"
  "sw_epochs switched_on = [\<lparr>ep_org = ''o'', ep_account = ''a'', ep_epoch = 2, ep_blocking = True,
     ep_last_reason_code = ''kill_switch_activated''\<rparr>]"
  by (simp_all add: switched_on_def activate_def require_confirm_def check_version_def stop_request_def one_account_def
      empty_switch_def get_or_create_row_def find_switch_def cas_switch_def advance_for_kill_activation_def
      ensure_epochs_for_accounts_def lock_epoch_def find_epoch_def strip_def is_space_def Let_def)

lemma switched_on_run: "switch_run False empty_switch switched_on"
  by (rule sw_activate [OF one_account_run _ sample_activate(1)]) (rule sw_refl)

theorem active_switch_blocks_witness:
  "fst (assert_execution_allowed False None (\<lambda>db. db) ''o'' (Some ''u'') switched_on) \<noteq> Inr ()
   \<and> list_all ep_blocking (sw_epochs switched_on)"
  using active_switch_blocks [OF switched_on_run sw_refl, of None "''o''" "Some ''u''"]
  by (simp add: sample_activate(2,3))

text \<open>
  An activation is final for what was prepared before it: when \<open>activate\<close> answers, the switch row is
  active and is the row of the answer; if the switch was not active before, the epoch of every account
  of the organization is now greater than it was, and in every later state too, so a claim that was
  authorized under the old epoch never matches again. The version of a switch row never falls, and
  the row does not change while its version stays.
\<close>

theorem activation_fences:
  assumes "switch_run g empty_switch db" "\<And>x. switch_run g x (others x)"
    and "activate g others org user payload actor now db = Inr (status, db')" "switch_run g db' db''"
  shows "find_switch org db' = Some (kt_row status) \<and> ks_active (kt_row status) \<and> kt_execution_blocked status
    \<and> (\<forall>acc. (org, acc) \<in> set (sw_accounts db) \<and> \<not> organization_kill_active False org db \<longrightarrow>
         (\<exists>e''. find_epoch org acc db'' = Some e'' \<and> (\<forall>e. find_epoch org acc db = Some e \<longrightarrow> ep_epoch e < ep_epoch e'')))
    \<and> (\<exists>r. find_switch org db'' = Some r \<and> (r = kt_row status \<or> ks_version (kt_row status) < ks_version r))"
proof -
  have b: "benign others" using assms(2) by (rule run_benign)
  have a: "switch_le db db'" "switch_ok db'" "find_switch org db' = Some (kt_row status)" "ks_active (kt_row status)"
    using activate_ok [OF assms(3) b] switch_run_ok [OF assms(1)] by simp_all
  have le: "switch_le db' db''" using switch_run_ok [OF assms(4) a(2)] by simp
  have "kt_execution_blocked status"
    using assms(3) a(4) by (auto simp: activate_def res_simps to_status_def Let_def split: prod.splits option.splits if_splits)
  moreover have "\<exists>e''. find_epoch org acc db'' = Some e'' \<and> (\<forall>e. find_epoch org acc db = Some e \<longrightarrow> ep_epoch e < ep_epoch e'')"
    if "(org, acc) \<in> set (sw_accounts db)" "\<not> organization_kill_active False org db" for acc
  proof -
    have "org_active org db'" using a(3,4) by (simp add: org_active_def)
    then have "newer_epoch (find_epoch org acc db) (find_epoch org acc db')"
      using switch_leD(4) [OF a(1) that(1)] that(2) by (simp add: organization_kill_active_def org_active_def)
    from newer_epoch_later [OF this le] show ?thesis by (auto simp: newer_epoch_def split: option.splits)
  qed
  ultimately show ?thesis using a(3,4) switch_leD(3) [OF le a(3)] by blast
qed

theorem activation_fences_witness:
  "\<exists>e. find_epoch ''o'' ''a'' switched_on = Some e \<and> ks_active (hd (sw_states switched_on))"
  using activation_fences [OF one_account_run sw_refl sample_activate(1) sw_refl]
  by (auto simp: one_account_def empty_switch_def organization_kill_active_def find_switch_def to_status_def)

end
