(* ===== verification/Paper_Gate.thy ===== *)
theory Paper_Gate
  imports Risk_Rules Daily_Risk Kill_Switch
begin

text \<open>
  The gate of a paper order, \<^verbatim>\<open>services/paper_execution_risk_gate.py\<close>, with
  \<^verbatim>\<open>services/execution_eligibility.py\<close> and \<^verbatim>\<open>services/risk_service.py\<close>: it binds the order to the approved
  proposal, synchronizes the daily figures, reads the kill switch and runs the risk engine on them.

  The three components it calls keep their own tables: the portfolio of \<open>Daily_Risk\<close> and the switch of
  \<open>Kill_Switch\<close> are passed through, and the engine of \<open>Risk_Rules\<close> is a function. \<open>Rejected\<close> carries
  the \<^verbatim>\<open>reason\<close> of the \<^verbatim>\<open>TradingPolicyError\<close>; a request the schema refuses raises \<open>ValueError\<close>. A
  proposal row and its schema have the same fields, so the mapper between them is the identity.
\<close>

section \<open>Proposals and approvals\<close>

datatype proposal_status =
    PROPOSAL_DRAFT | PROPOSAL_PENDING_APPROVAL | PROPOSAL_APPROVED | PROPOSAL_REJECTED | PROPOSAL_EXPIRED
  | PROPOSAL_EXECUTED | PROPOSAL_CANCELLED

datatype approval_status =
    APPROVAL_PENDING | APPROVAL_APPROVED | APPROVAL_REJECTED | APPROVAL_MODIFIED | APPROVAL_PAUSED
  | APPROVAL_CANCELLED | APPROVAL_CLOSED | APPROVAL_NEEDS_MORE_ANALYSIS

datatype loss_acceptance = LOSS_NOT_REQUIRED | LOSS_PENDING | LOSS_ACCEPTED | LOSS_REJECTED

datatype direction = LONG | SHORT

datatype side = BUY | SELL

record trade_proposal =
  tp_id :: string
  tp_org :: string
  tp_user :: string
  tp_strategy_id :: "string option"
  tp_symbol :: string
  tp_direction :: direction
  tp_entry_price :: rat
  tp_stop_loss :: "rat option"
  tp_position_size :: rat
  tp_leverage :: rat
  tp_status :: proposal_status
  tp_approval_required :: bool
  tp_risk_result :: "risk_check_result option"
  tp_loss_acceptance_required :: bool
  tp_loss_acceptance_status :: loss_acceptance

record approval_request =
  aq_proposal_id :: string
  aq_status :: approval_status

record paper_order_request =
  po_symbol :: string
  po_side :: side
  po_size :: rat
  po_price :: "rat option"

definition paper_execution_eligibility :: "trade_proposal \<Rightarrow> approval_request option \<Rightarrow> bool" where
  "paper_execution_eligibility proposal approval =
     (if (case tp_risk_result proposal of None \<Rightarrow> False | Some r \<Rightarrow> ev_action r = BLOCK) then False
      else if tp_loss_acceptance_required proposal
              \<and> (tp_loss_acceptance_status proposal = LOSS_PENDING \<or> tp_loss_acceptance_status proposal = LOSS_REJECTED)
      then False
      else case approval of
             None \<Rightarrow> \<not> tp_approval_required proposal
           | Some a \<Rightarrow>
               if aq_proposal_id a \<noteq> tp_id proposal then False
               else if aq_status a \<noteq> APPROVAL_APPROVED then False
               else tp_status proposal \<noteq> PROPOSAL_REJECTED)"

section \<open>The gate\<close>

record bound_placement =
  bp_symbol :: string
  bp_side :: side
  bp_size :: rat
  bp_price :: rat
  bp_entry_price :: rat
  bp_stop_loss :: rat
  bp_risk_result :: risk_check_result
  bp_account_equity :: rat
  bp_open_exposure_notional :: rat
  bp_realized_pnl_today :: rat
  bp_trade_count_today :: int

fun expected_side :: "direction \<Rightarrow> side" where
  "expected_side LONG = BUY"
| "expected_side SHORT = SELL"

fun direction_value :: "direction \<Rightarrow> string" where
  "direction_value LONG = ''long''"
| "direction_value SHORT = ''short''"

text \<open>The checks before the figures are read: the stored verdict, the stop and the fill price.\<close>

definition bind_order ::
    "trade_proposal \<Rightarrow> approval_request \<Rightarrow> paper_order_request \<Rightarrow> (risk_check_result \<times> rat \<times> rat) res" where
  "bind_order proposal approval request =
     (case tp_risk_result proposal of
        None \<Rightarrow> Inl (Rejected ''missing_risk_result'')
      | Some stored \<Rightarrow>
      if \<not> paper_execution_eligibility proposal (Some approval) then Inl (Rejected ''eligibility_blocked'') else
      case tp_stop_loss proposal of
        None \<Rightarrow> Inl (Rejected ''missing_stop_loss'')
      | Some stop_loss \<Rightarrow>
      if dabs (dsub (tp_entry_price proposal) stop_loss) \<le> 0 then Inl (Rejected ''invalid_stop_distance'')
      else if po_symbol request \<noteq> tp_symbol proposal then Inl (Rejected ''symbol_mismatch'')
      else if po_side request \<noteq> expected_side (tp_direction proposal) then Inl (Rejected ''side_mismatch'')
      else if po_size request \<noteq> tp_position_size proposal then Inl (Rejected ''size_mismatch'')
      else case po_price request of
             None \<Rightarrow> Inr (stored, stop_loss, tp_entry_price proposal)
           | Some price \<Rightarrow> if price \<noteq> tp_entry_price proposal then Inl (Rejected ''price_mismatch'')
                           else Inr (stored, stop_loss, price))"

definition gate_context ::
    "daily_snapshot \<Rightarrow> user_risk_settings_response \<Rightarrow> bool \<Rightarrow> dt \<Rightarrow> risk_context" where
  "gate_context snapshot user_settings kill_active now =
     default_context\<lparr>
       cx_daily_locked := ds_daily_locked snapshot, cx_realized_pnl_today := ds_realized_pnl snapshot,
       cx_daily_loss_limit := ds_daily_loss_limit snapshot, cx_trades_today := ds_trade_count snapshot,
       cx_protect_green_day := st_green_day_protection_enabled user_settings
         \<and> (case st_daily_target user_settings of None \<Rightarrow> False | Some t \<Rightarrow> t \<le> ds_realized_pnl snapshot),
       cx_kill_switch_active := kill_active,
       cx_overtrading := st_overtrading_guard_enabled user_settings
         \<and> ds_max_trades_per_day snapshot \<le> ds_trade_count snapshot,
       cx_is_weekend := default_is_weekend now,
       cx_open_exposure_notional := ds_open_exposure_notional snapshot\<rparr>"

definition gate_request :: "trade_proposal \<Rightarrow> rat \<Rightarrow> rat \<Rightarrow> rat \<Rightarrow> risk_check_request res" where
  "gate_request proposal stop_loss account_equity max_risk =
     (let req = \<lparr>rq_symbol = tp_symbol proposal, rq_direction = direction_value (tp_direction proposal),
                 rq_strategy_id = tp_strategy_id proposal, rq_entry_price = tp_entry_price proposal,
                 rq_stop_loss = Some stop_loss, rq_position_size = tp_position_size proposal,
                 rq_leverage = tp_leverage proposal, rq_account_equity = account_equity,
                 rq_risk_percent = Some max_risk, rq_is_countertrend = False, rq_is_volatile_altcoin = False,
                 rq_funding_rate = None, rq_volume_24h = None, rq_sleep_test_passed = None\<rparr>
      in if request_bounds req then Inr req else Inl ValueError)"

text \<open>The verdict on the figures: what the gate does after the sync and the read of the switch.\<close>

definition gate_verdict ::
    "risk_limits \<Rightarrow> dt \<Rightarrow> trade_proposal \<Rightarrow> risk_check_result \<times> rat \<times> rat \<Rightarrow> daily_snapshot
     \<Rightarrow> user_risk_settings_response \<Rightarrow> kill_switch_evaluation \<Rightarrow> bound_placement res" where
  "gate_verdict limits now proposal bound snapshot user_settings kill_eval =
     (case bound of (stored, stop_loss, fill_price) \<Rightarrow>
      if kv_reason_code kill_eval = ''kill_switch_unavailable'' then Inl (Rejected ''kill_switch_unavailable'') else
      res_bind (gate_request proposal stop_loss (ds_account_equity snapshot)
                  (st_max_risk_per_trade_percent user_settings)) (\<lambda>req.
      let fresh = evaluate (Some limits) now req
                    (Some (gate_context snapshot user_settings (kv_blocked kill_eval) now))
      in if ev_action fresh = BLOCK then Inl (Rejected ''fresh_risk_blocked'')
         else if ev_action stored = BLOCK then Inl (Rejected ''stale_risk_blocked'')
         else Inr \<lparr>bp_symbol = tp_symbol proposal, bp_side = expected_side (tp_direction proposal),
                   bp_size = tp_position_size proposal, bp_price = fill_price,
                   bp_entry_price = tp_entry_price proposal, bp_stop_loss = stop_loss, bp_risk_result = fresh,
                   bp_account_equity = ds_account_equity snapshot,
                   bp_open_exposure_notional = ds_open_exposure_notional snapshot,
                   bp_realized_pnl_today = ds_realized_pnl snapshot,
                   bp_trade_count_today = ds_trade_count snapshot\<rparr>))"

record gate_env =
  ge_limits :: risk_limits
  ge_zones :: zone_db
  ge_portfolio_others :: "portfolio_db \<Rightarrow> portfolio_db"
  ge_switch_others :: "switch_db \<Rightarrow> switch_db"
  ge_global_active :: bool
  ge_read_failure :: "exc option"

definition gate_evaluate ::
    "gate_env \<Rightarrow> dt \<Rightarrow> trade_proposal \<Rightarrow> approval_request \<Rightarrow> paper_order_request \<Rightarrow> portfolio_db \<Rightarrow> switch_db
     \<Rightarrow> bound_placement res \<times> portfolio_db \<times> switch_db" where
  "gate_evaluate env now proposal approval request pdb sdb =
     (case bind_order proposal approval request of
        Inl e \<Rightarrow> (Inl e, pdb, sdb)
      | Inr bound \<Rightarrow>
        (case sync_from_portfolio (ge_zones env) (ge_portfolio_others env) (tp_org proposal) (tp_user proposal)
                None None (instant now) pdb of (snapshot, pdb1) \<Rightarrow>
         let user_settings = get_settings (ge_zones env) (tp_org proposal) (tp_user proposal) pdb1
         in case evaluate_switch (ge_global_active env) (ge_read_failure env) (ge_switch_others env) (tp_org proposal) sdb of
              (kill_eval, sdb1) \<Rightarrow>
                (gate_verdict (ge_limits env) now proposal bound snapshot user_settings kill_eval, pdb1, sdb1)))"

section \<open>What a placement satisfies\<close>


lemma gate_evaluate_Inr:
  assumes "gate_evaluate env now proposal approval request pdb sdb = (Inr b, pdb1, sdb1)"
  obtains stored stop fill snap ev where
    "bind_order proposal approval request = Inr (stored, stop, fill)"
    "sync_from_portfolio (ge_zones env) (ge_portfolio_others env) (tp_org proposal) (tp_user proposal) None None
       (instant now) pdb = (snap, pdb1)"
    "evaluate_switch (ge_global_active env) (ge_read_failure env) (ge_switch_others env) (tp_org proposal) sdb = (ev, sdb1)"
    "gate_verdict (ge_limits env) now proposal (stored, stop, fill) snap
       (get_settings (ge_zones env) (tp_org proposal) (tp_user proposal) pdb1) ev = Inr b"
  using assms unfolding gate_evaluate_def
  by (auto simp: Let_def split: sum.splits prod.splits)

lemma gate_verdict_Inr:
  assumes "gate_verdict limits now proposal (stored, stop, fill) snap settings ev = Inr b"
  shows "\<exists>req. gate_request proposal stop (ds_account_equity snap) (st_max_risk_per_trade_percent settings) = Inr req
    \<and> \<not> fires BLOCKING_RULES req limits (gate_context snap settings (kv_blocked ev) now)
    \<and> ev_action stored \<noteq> BLOCK
    \<and> bp_symbol b = tp_symbol proposal \<and> bp_side b = expected_side (tp_direction proposal)
    \<and> bp_size b = tp_position_size proposal \<and> bp_price b = fill \<and> bp_entry_price b = tp_entry_price proposal
    \<and> bp_stop_loss b = stop \<and> bp_account_equity b = ds_account_equity snap
    \<and> bp_open_exposure_notional b = ds_open_exposure_notional snap"
  using assms by (auto simp: gate_verdict_def res_simps Let_def evaluate_action split: if_splits)


lemma gate_context_fields [simp]:
  "cx_kill_switch_active (gate_context snap settings k now) = k"
  "cx_daily_locked (gate_context snap settings k now) = ds_daily_locked snap"
  "cx_open_exposure_notional (gate_context snap settings k now) = ds_open_exposure_notional snap"
  "cx_realized_pnl_today (gate_context snap settings k now) = ds_realized_pnl snap"
  "cx_daily_loss_limit (gate_context snap settings k now) = ds_daily_loss_limit snap"
  by (simp_all add: gate_context_def)


text \<open>A placement is impossible once the day of the user is locked.\<close>

lemma gate_not_locked:
  assumes "gate_evaluate env now proposal approval request pdb sdb = (Inr b, pdb1, sdb1)"
  shows "\<exists>snap. sync_from_portfolio (ge_zones env) (ge_portfolio_others env) (tp_org proposal) (tp_user proposal) None None
       (instant now) pdb = (snap, pdb1) \<and> \<not> ds_daily_locked snap
    \<and> (\<forall>m. ds_daily_loss_limit snap = Some m \<longrightarrow> dneg m < ds_realized_pnl snap)"
  using assms
proof (rule gate_evaluate_Inr, goal_cases)
  case (1 stored stop fill snap ev)
  let ?c = "gate_context snap (get_settings (ge_zones env) (tp_org proposal) (tp_user proposal) pdb1) (kv_blocked ev) now"
  obtain req where "\<not> fires BLOCKING_RULES req (ge_limits env) ?c" using gate_verdict_Inr [OF 1(4)] by blast
  then have "check_daily_loss_lock req (ge_limits env) ?c = None" unfolding blocking_fires by blast
  then have "\<not> ds_daily_locked snap" "\<not> (\<exists>m. ds_daily_loss_limit snap = Some m \<and> ds_realized_pnl snap \<le> dneg m)"
    using daily_loss_fires [of req "ge_limits env" ?c] by (simp, metis gate_context_fields(4,5))
  with 1(2) show ?case by (auto simp: not_le)
qed

section \<open>Properties\<close>



definition sample_env :: gate_env where
  "sample_env = \<lparr>ge_limits = default_limits, ge_zones = [''UTC'' \<mapsto> utc_zone], ge_portfolio_others = (\<lambda>db. db),
     ge_switch_others = (\<lambda>db. db), ge_global_active = False, ge_read_failure = None\<rparr>"

definition sample_proposal :: trade_proposal where
  "sample_proposal =
     \<lparr>tp_id = ''p'', tp_org = ''o'', tp_user = ''u'', tp_strategy_id = None, tp_symbol = ''BTCUSDT'', tp_direction = LONG,
      tp_entry_price = 100, tp_stop_loss = Some 97, tp_position_size = 4, tp_leverage = 5, tp_status = PROPOSAL_APPROVED,
      tp_approval_required = True,
      tp_risk_result = Some (evaluate (Some default_limits) (Aware 0) sample_request (Some default_context)),
      tp_loss_acceptance_required = False, tp_loss_acceptance_status = LOSS_NOT_REQUIRED\<rparr>"

definition sample_approval :: approval_request where
  "sample_approval = \<lparr>aq_proposal_id = ''p'', aq_status = APPROVAL_APPROVED\<rparr>"

definition sample_order :: paper_order_request where
  "sample_order = \<lparr>po_symbol = ''BTCUSDT'', po_side = BUY, po_size = 4, po_price = None\<rparr>"






text \<open>
  C13. A day on which the loss limit was reached takes no more orders. Once a sync finds the realised loss of
  a user's day at the daily limit, every later call of the gate on that date of the user's calendar
  refuses the order, whatever happened in between: other syncs, changed or reset settings (a removed or
  raised limit included), later profits, and what other sessions wrote during any of these.
\<close>

theorem loss_limit_blocks_rest_of_day:
  assumes "sync_from_portfolio (ge_zones env) others (tp_org proposal) (tp_user proposal) d n now pdb = (snap, pdb1)"
    and "ds_daily_loss_limit snap = Some limit" "ds_realized_pnl snap \<le> dneg limit"
    and "risk_run (ge_zones env) pdb1 pdb2" "\<And>x. risk_run (ge_zones env) x (ge_portfolio_others env x)"
    and "fst (resolve_day (ge_zones env) (tp_org proposal) (tp_user proposal) (instant later) pdb2) = ds_day snap"
  shows "\<exists>e. fst (gate_evaluate env later proposal approval request pdb2 sdb) = Inl e"
proof (rule ccontr)
  assume "\<not> ?thesis"
  then obtain b pdb3 sdb3 where g: "gate_evaluate env later proposal approval request pdb2 sdb = (Inr b, pdb3, sdb3)"
    by (metis prod.collapse sum.exhaust)
  then obtain snap2 where s: "sync_from_portfolio (ge_zones env) (ge_portfolio_others env) (tp_org proposal) (tp_user proposal)
      None None (instant later) pdb2 = (snap2, pdb3)" "\<not> ds_daily_locked snap2"
    using gate_not_locked [OF g] by blast
  have "locked_on (tp_org proposal) (tp_user proposal) (ds_day snap) pdb1"
    using sync_locks(1,2) [OF assms(1)] assms(2,3) by blast
  then have "locked_on (tp_org proposal) (tp_user proposal) (ds_day snap2) pdb2"
    using run_keeps_lock [OF assms(4)] assms(6) sync_day [OF s(1)] by simp
  with sync_locks(3) [OF s(1)] run_keeps_lock [OF assms(5)] s(2) show False by blast
qed

theorem loss_limit_blocks_rest_of_day_witness:
  "\<exists>snap pdb1 e. sync_from_portfolio moving_zones (\<lambda>db. db) ''o'' ''u'' None None (DAY + 20 * HOUR) limited_portfolio = (snap, pdb1)
     \<and> fst (gate_evaluate (sample_env\<lparr>ge_zones := moving_zones\<rparr>) (Aware (DAY + 20 * HOUR)) sample_proposal sample_approval sample_order
              pdb1 empty_switch) = Inl e"
proof -
  obtain snap pdb1 where s: "sync_from_portfolio moving_zones (\<lambda>db. db) ''o'' ''u'' None None (DAY + 20 * HOUR) limited_portfolio
      = (snap, pdb1)" "ds_daily_loss_limit snap = Some 500" "ds_realized_pnl snap = - 600"
      "resolve_day moving_zones ''o'' ''u'' (DAY + 20 * HOUR) pdb1 = (1, ''UTC'')" "ds_day snap = 1"
    using limited_sync by (elim exE conjE) (rule that)
  have "dneg 500 = - 500" by (simp add: dround_minus dec_eval)
  with s loss_limit_blocks_rest_of_day [of "sample_env\<lparr>ge_zones := moving_zones\<rparr>" "\<lambda>db. db" sample_proposal None None
      "DAY + 20 * HOUR" limited_portfolio snap pdb1 500 pdb1 "Aware (DAY + 20 * HOUR)" sample_approval sample_order empty_switch]
  show ?thesis by (auto simp: sample_env_def sample_proposal_def intro: run_refl)
qed

end
