(* ===== verification/Breakers.thy ===== *)
theory Breakers
  imports Governance
begin

text \<open>
  The loss breakers: \<^verbatim>\<open>services/risk_policy/breakers.py\<close> and the decision part of
  \<^verbatim>\<open>services/risk_policy/breaker_trip.py\<close>. \<open>BreakerConfig\<close> has the prefix \<open>bc_\<close>, \<open>BreakerSnapshot\<close> the
  prefix \<open>bs_\<close>, \<open>BreakerVerdict\<close> the prefix \<open>bv_\<close>. \<open>trip_breakers\<close> returns, beside the verdict, the
  arguments of its call to \<open>record_breaker\<close> as a record with the prefix \<open>bw_\<close>; the store of the
  policy executes that call.

  The realised profit of the day comes from the accounting service and is finite. A stored
  timestamp may be naive; \<open>_as_utc\<close> reads it as UTC, which is \<open>instant\<close>.
\<close>

record breaker_config =
  bc_daily_loss_limit_percent :: rat
  bc_drawdown_breaker_percent :: rat
  bc_consecutive_loss_limit :: int

record breaker_snapshot =
  bs_equity :: num
  bs_equity_peak :: num
  bs_reference_equity :: num
  bs_realized_pnl_today :: rat
  bs_unrealized_pnl_today :: num
  bs_consecutive_losses :: int
  bs_drawdown_latched :: bool
  bs_now :: dt

record breaker_verdict =
  bv_daily_loss_active :: bool
  bv_drawdown_active :: bool
  bv_consecutive_loss_active :: bool
  bv_trip_kill_switch :: bool
  bv_paused_until :: "int option"
  bv_equity_peak :: rat
  bv_refuse_new_trades :: bool
  bv_human_reset_required :: bool

record breaker_write =
  bw_equity_peak :: rat
  bw_consecutive_losses :: int
  bw_realized_pnl :: rat
  bw_unrealized_pnl :: rat
  bw_daily_paused_until :: "int option"
  bw_consecutive_paused_until :: "int option"
  bw_drawdown_latched :: bool
  bw_now :: dt

definition require_money :: "num \<Rightarrow> string \<Rightarrow> rat res" where
  "require_money value code =
     (case value of
        NonFinite \<Rightarrow> Inl (Rejected code)
      | Fin x \<Rightarrow> if x \<le> 0 then Inl (Rejected code) else Inr x)"

definition evaluate_breakers :: "breaker_config \<Rightarrow> breaker_snapshot \<Rightarrow> breaker_verdict res" where
  "evaluate_breakers config s =
     res_bind (require_money (bs_equity s) ''equity_invalid'') (\<lambda>equity.
     res_bind (require_money (bs_equity_peak s) ''equity_peak_invalid'') (\<lambda>equity_peak.
     res_bind (require_money (bs_reference_equity s) ''reference_equity_invalid'') (\<lambda>reference.
     if is_naive (bs_now s) then Inl (Rejected ''timestamp_must_be_aware'') else
     if bs_consecutive_losses s < 0 then Inl (Rejected ''consecutive_losses_invalid'') else
     let peak = (if \<not> bs_drawdown_latched s \<and> equity_peak < equity then equity else equity_peak);
         drawdown_percent = dmul (ddiv (dsub peak equity) peak) 100;
         drawdown_hit = (bs_drawdown_latched s \<or> bc_drawdown_breaker_percent config \<le> drawdown_percent)
     in case bs_unrealized_pnl_today s of
          NonFinite \<Rightarrow> Inl (Rejected ''unrealized_pnl_invalid'')
        | Fin unrealized \<Rightarrow>
            let daily_pnl = dadd (bs_realized_pnl_today s) unrealized;
                daily_limit = ddiv (dmul reference (bc_daily_loss_limit_percent config)) 100;
                daily_hit = (daily_pnl \<le> dneg daily_limit \<and> daily_pnl < 0);
                consecutive_hit = (bc_consecutive_loss_limit config \<le> bs_consecutive_losses s)
            in res_bind (if daily_hit \<or> consecutive_hit
                         then res_bind (next_utc_day (bs_now s)) (\<lambda>m. Inr (Some m))
                         else Inr None) (\<lambda>pause.
               Inr \<lparr>bv_daily_loss_active = daily_hit, bv_drawdown_active = drawdown_hit,
                    bv_consecutive_loss_active = consecutive_hit, bv_trip_kill_switch = drawdown_hit,
                    bv_paused_until = pause, bv_equity_peak = peak,
                    bv_refuse_new_trades = (daily_hit \<or> drawdown_hit \<or> consecutive_hit),
                    bv_human_reset_required = drawdown_hit\<rparr>))))"

definition reset_drawdown ::
    "policy_actor \<Rightarrow> breaker_config \<Rightarrow> breaker_snapshot \<Rightarrow> breaker_snapshot res" where
  "reset_drawdown actor config s =
     (if \<not> pa_authenticated actor \<or> pa_channel actor \<noteq> HUMAN
      then Inl (Rejected ''drawdown_reset_requires_human'')
      else res_bind (evaluate_breakers config (s\<lparr>bs_drawdown_latched := False\<rparr>)) (\<lambda>verdict.
           if bv_drawdown_active verdict then Inl (Rejected ''drawdown_still_active'')
           else Inr (s\<lparr>bs_drawdown_latched := False, bs_equity_peak := bs_equity s\<rparr>)))"

section \<open>The trip writer\<close>

definition streak_after_expiry :: "int \<Rightarrow> dt option \<Rightarrow> dt \<Rightarrow> int" where
  "streak_after_expiry consecutive_losses paused_until now =
     (case paused_until of
        None \<Rightarrow> consecutive_losses
      | Some u \<Rightarrow> if instant u \<le> instant now then 0 else consecutive_losses)"

definition consecutive_pause_expiry :: "dt \<Rightarrow> int \<Rightarrow> dt option \<Rightarrow> int res" where
  "consecutive_pause_expiry now cooldown_hours existing_paused_until =
     (if is_naive now then Inl (Rejected ''timestamp_must_be_aware'') else
      case existing_paused_until of
        Some u \<Rightarrow>
          if instant now < instant u then Inr (instant u)
          else if cooldown_hours < 1 then Inl (Rejected ''consecutive_loss_cooldown_invalid'')
          else res_bind (next_utc_day now) (\<lambda>m. Inr (max m (instant now + cooldown_hours * HOUR)))
      | None \<Rightarrow>
          if cooldown_hours < 1 then Inl (Rejected ''consecutive_loss_cooldown_invalid'')
          else res_bind (next_utc_day now) (\<lambda>m. Inr (max m (instant now + cooldown_hours * HOUR))))"

definition profile_close_consecutive :: "int \<Rightarrow> num \<Rightarrow> bool \<Rightarrow> int" where
  "profile_close_consecutive current net_pnl pause_in_force =
     (if (case net_pnl of Fin x \<Rightarrow> x < 0 | NonFinite \<Rightarrow> True) then current + 1
      else if pause_in_force then current else 0)"

definition pause_still_in_force :: "dt option \<Rightarrow> dt \<Rightarrow> bool" where
  "pause_still_in_force paused_until now =
     (case paused_until of None \<Rightarrow> False | Some u \<Rightarrow> instant now < instant u)"

text \<open>
  The unrealised profit that \<open>trip_breakers\<close> passes on was found finite by \<open>evaluate_breakers\<close>.
\<close>

definition finite_money :: "num \<Rightarrow> rat" where
  "finite_money value = (case value of Fin x \<Rightarrow> x | NonFinite \<Rightarrow> 0)"

definition trip_breakers ::
    "breaker_config \<Rightarrow> breaker_snapshot \<Rightarrow> dt \<Rightarrow> dt option \<Rightarrow> dt option \<Rightarrow> int
     \<Rightarrow> (breaker_verdict \<times> breaker_write) res" where
  "trip_breakers config s now existing_consecutive existing_daily cooldown_hours =
     res_bind (evaluate_breakers config s) (\<lambda>verdict.
     res_bind
       (if bv_consecutive_loss_active verdict then
          res_bind (consecutive_pause_expiry now cooldown_hours existing_consecutive) (\<lambda>u. Inr (Some u))
        else if pause_still_in_force existing_consecutive now
        then Inr (map_option instant existing_consecutive)
        else Inr None) (\<lambda>consecutive_until.
     res_bind
       (if pause_still_in_force existing_daily now then Inr (map_option instant existing_daily)
        else if bv_daily_loss_active verdict
        then res_bind (next_utc_day (Aware (instant now))) (\<lambda>m. Inr (Some m))
        else Inr None) (\<lambda>daily_until.
     let pause_held = (daily_until \<noteq> None \<or> consecutive_until \<noteq> None);
         verdict' = (if pause_held \<and> \<not> bv_refuse_new_trades verdict
                     then verdict\<lparr>bv_refuse_new_trades := True\<rparr> else verdict)
     in Inr (verdict',
             \<lparr>bw_equity_peak = bv_equity_peak verdict,
              bw_consecutive_losses = bs_consecutive_losses s,
              bw_realized_pnl = bs_realized_pnl_today s,
              bw_unrealized_pnl = finite_money (bs_unrealized_pnl_today s),
              bw_daily_paused_until = daily_until,
              bw_consecutive_paused_until = consecutive_until,
              bw_drawdown_latched = bv_drawdown_active verdict,
              bw_now = now\<rparr>))))"

section \<open>Lemmas\<close>

lemma require_money_Inr [res_simps]: "require_money v c = Inr x \<longleftrightarrow> v = Fin x \<and> 0 < x"
  by (auto simp: require_money_def split: num.splits)

definition drawdown_of :: "rat \<Rightarrow> rat \<Rightarrow> rat" where
  "drawdown_of peak equity = dmul (ddiv (dsub peak equity) peak) 100"

definition peak_of :: "bool \<Rightarrow> rat \<Rightarrow> rat \<Rightarrow> rat" where
  "peak_of latched stored equity = (if latched then stored else max stored equity)"

text \<open>The verdict of a well-formed snapshot.\<close>

definition verdict_of ::
    "breaker_config \<Rightarrow> breaker_snapshot \<Rightarrow> rat \<Rightarrow> rat \<Rightarrow> rat \<Rightarrow> rat \<Rightarrow> int \<Rightarrow> breaker_verdict" where
  "verdict_of config s e k r u t =
     (let peak = peak_of (bs_drawdown_latched s) k e;
          pnl = dadd (bs_realized_pnl_today s) u;
          dd = (bs_drawdown_latched s \<or> bc_drawdown_breaker_percent config \<le> drawdown_of peak e);
          daily = (pnl \<le> dneg (ddiv (dmul r (bc_daily_loss_limit_percent config)) 100) \<and> pnl < 0);
          cons = (bc_consecutive_loss_limit config \<le> bs_consecutive_losses s)
      in \<lparr>bv_daily_loss_active = daily, bv_drawdown_active = dd,
          bv_consecutive_loss_active = cons, bv_trip_kill_switch = dd,
          bv_paused_until = (if daily \<or> cons then Some ((t div DAY + 1) * DAY) else None),
          bv_equity_peak = peak, bv_refuse_new_trades = (daily \<or> dd \<or> cons),
          bv_human_reset_required = dd\<rparr>)"

definition snapshot_ok :: "breaker_snapshot \<Rightarrow> rat \<Rightarrow> rat \<Rightarrow> rat \<Rightarrow> rat \<Rightarrow> int \<Rightarrow> bool" where
  "snapshot_ok s e k r u t \<longleftrightarrow>
     bs_equity s = Fin e \<and> 0 < e \<and> bs_equity_peak s = Fin k \<and> 0 < k
     \<and> bs_reference_equity s = Fin r \<and> 0 < r \<and> bs_unrealized_pnl_today s = Fin u
     \<and> bs_now s = Aware t \<and> 0 \<le> bs_consecutive_losses s"

lemma evaluate_breakers_ok:
  assumes "snapshot_ok s e k r u t"
  shows "evaluate_breakers config s = Inr (verdict_of config s e k r u t)"
proof -
  have "require_money (bs_equity s) c = Inr e" "require_money (bs_equity_peak s) c = Inr k"
    "require_money (bs_reference_equity s) c = Inr r" for c
    using assms by (simp_all add: snapshot_ok_def require_money_Inr)
  moreover have "(if \<not> bs_drawdown_latched s \<and> k < e then e else k) = peak_of (bs_drawdown_latched s) k e"
    by (simp add: peak_of_def max_def)
  ultimately show ?thesis
    using assms
    by (simp add: evaluate_breakers_def verdict_of_def snapshot_ok_def next_utc_day_def Let_def
        drawdown_of_def)
qed

lemma evaluate_breakers_Inr:
  assumes "evaluate_breakers config s = Inr v"
  obtains e k r u t where "snapshot_ok s e k r u t" "v = verdict_of config s e k r u t"
proof -
  from assms obtain e k r u where w: "bs_equity s = Fin e" "0 < e" "bs_equity_peak s = Fin k" "0 < k"
      "bs_reference_equity s = Fin r" "0 < r" "\<not> is_naive (bs_now s)" "0 \<le> bs_consecutive_losses s"
      "bs_unrealized_pnl_today s = Fin u"
    unfolding evaluate_breakers_def Let_def by (simp only: res_simps not_less) blast
  then obtain t where "snapshot_ok s e k r u t" by (auto simp: snapshot_ok_def not_naive_iff)
  with assms evaluate_breakers_ok [OF this] that show ?thesis by simp
qed

lemmas verdict_simps = verdict_of_def Let_def

lemma drawdown_of_mono:
  assumes "0 < e'" "e' \<le> e" "e \<le> k"
  shows "drawdown_of k e \<le> drawdown_of k e'"
proof -
  have "dsub k e \<le> dsub k e'" using assms by (intro dsub_mono) auto
  moreover have "0 \<le> dsub k e" using assms by (simp add: dsub_nonneg_iff)
  ultimately show ?thesis
    unfolding drawdown_of_def using assms by (intro dmul_mono ddiv_mono ddiv_nonneg) auto
qed

lemma drawdown_of_self [simp]: "drawdown_of k k = 0"
  by (simp add: drawdown_of_def dec_ops)

lemma consecutive_pause_expiry_Inr:
  assumes "consecutive_pause_expiry now h u = Inr t"
  shows "instant now < t"
    "pause_still_in_force u now \<Longrightarrow> Some t = map_option instant u"
    "\<not> pause_still_in_force u now \<Longrightarrow> 1 \<le> h \<and> instant now + h * HOUR \<le> t"
proof -
  have n: "\<not> is_naive now" using assms by (auto simp: consecutive_pause_expiry_def split: if_splits)
  then obtain m where m: "next_utc_day now = Inr m" by (simp add: next_utc_day_def)
  have "t = (if pause_still_in_force u now then instant (the u) else max m (instant now + h * HOUR))
      \<and> (pause_still_in_force u now \<or> 1 \<le> h)"
    using assms n m
    by (auto simp: consecutive_pause_expiry_def pause_still_in_force_def res_simps
        split: option.splits if_splits)
  then show "instant now < t" "pause_still_in_force u now \<Longrightarrow> Some t = map_option instant u"
    "\<not> pause_still_in_force u now \<Longrightarrow> 1 \<le> h \<and> instant now + h * HOUR \<le> t"
    using next_utc_day_bounds(1) [OF m]
    by (auto simp: pause_still_in_force_def split: if_splits option.splits)
qed

lemma trip_breakers_Inr:
  assumes "trip_breakers config s now ec ed h = Inr (v, w)"
  obtains v0 where "evaluate_breakers config s = Inr v0"
    "bw_drawdown_latched w = bv_drawdown_active v0" "bw_equity_peak w = bv_equity_peak v0"
    "bw_consecutive_losses w = bs_consecutive_losses s" "bw_now w = now"
    "bv_drawdown_active v = bv_drawdown_active v0"
    "bv_trip_kill_switch v = bv_trip_kill_switch v0"
    "bv_refuse_new_trades v \<longleftrightarrow> bv_refuse_new_trades v0 \<or> bw_daily_paused_until w \<noteq> None
       \<or> bw_consecutive_paused_until w \<noteq> None"
    "if bv_consecutive_loss_active v0
     then \<exists>t. bw_consecutive_paused_until w = Some t \<and> consecutive_pause_expiry now h ec = Inr t
     else bw_consecutive_paused_until w =
            (if pause_still_in_force ec now then map_option instant ec else None)"
    "bw_daily_paused_until w =
       (if pause_still_in_force ed now then map_option instant ed
        else if bv_daily_loss_active v0 then Some ((instant now div DAY + 1) * DAY) else None)"
proof -
  from assms obtain v0 where v0: "evaluate_breakers config s = Inr v0"
    by (auto simp: trip_breakers_def res_simps)
  let ?pause = "\<lambda>x. if pause_still_in_force x now then map_option instant x else None"
  from assms [unfolded trip_breakers_def v0 Let_def res_bind_Inr] obtain cu du where
    cu: "(if bv_consecutive_loss_active v0
          then res_bind (consecutive_pause_expiry now h ec) (\<lambda>u. Inr (Some u))
          else if pause_still_in_force ec now then Inr (map_option instant ec) else Inr None) = Inr cu"
    and du: "(if pause_still_in_force ed now then Inr (map_option instant ed)
          else if bv_daily_loss_active v0
          then res_bind (next_utc_day (Aware (instant now))) (\<lambda>m. Inr (Some m)) else Inr None) = Inr du"
    and v: "v = (if (du \<noteq> None \<or> cu \<noteq> None) \<and> \<not> bv_refuse_new_trades v0
                 then v0\<lparr>bv_refuse_new_trades := True\<rparr> else v0)"
    and w: "w = \<lparr>bw_equity_peak = bv_equity_peak v0, bw_consecutive_losses = bs_consecutive_losses s,
                bw_realized_pnl = bs_realized_pnl_today s,
                bw_unrealized_pnl = finite_money (bs_unrealized_pnl_today s),
                bw_daily_paused_until = du, bw_consecutive_paused_until = cu,
                bw_drawdown_latched = bv_drawdown_active v0, bw_now = now\<rparr>"
    unfolding res_bind_eq_Inr by (elim exE conjE) (simp only: sum.inject prod.inject)
  have c: "if bv_consecutive_loss_active v0
      then \<exists>t. cu = Some t \<and> consecutive_pause_expiry now h ec = Inr t else cu = ?pause ec"
    using cu by (auto simp: res_bind_eq_Inr split: if_splits)
  have d: "du = (if pause_still_in_force ed now then map_option instant ed
      else if bv_daily_loss_active v0 then Some ((instant now div DAY + 1) * DAY) else None)"
    using du by (auto simp: next_utc_day_def split: if_splits)
  show ?thesis using c d by (intro that [OF v0]) (simp_all add: v w)
qed

section \<open>Properties\<close>

text \<open>
  Once latched, the drawdown breaker stays: every verdict on a latched snapshot is active, trips
  the kill switch, refuses new trades and asks for a human reset, and keeps the stored peak. Without
  the latch the peak only grows, to the equity when that is higher, and the verdict refuses new
  trades exactly when one of the three breakers is active.
\<close>

theorem evaluate_breakers_verdict:
  assumes "evaluate_breakers config s = Inr v"
  shows "(bv_refuse_new_trades v \<longleftrightarrow>
            bv_daily_loss_active v \<or> bv_drawdown_active v \<or> bv_consecutive_loss_active v)
    \<and> bv_trip_kill_switch v = bv_drawdown_active v \<and> bv_human_reset_required v = bv_drawdown_active v
    \<and> (\<exists>k. bs_equity_peak s = Fin k \<and>
         (if bs_drawdown_latched s then bv_drawdown_active v \<and> bv_equity_peak v = k
          else \<exists>e. bs_equity s = Fin e \<and> bv_equity_peak v = max k e))"
  using assms
proof (rule evaluate_breakers_Inr, goal_cases)
  case (1 e k r u t)
  then show ?case by (auto simp: verdict_simps snapshot_ok_def peak_of_def)
qed

definition sample_config :: breaker_config where
  "sample_config = \<lparr>bc_daily_loss_limit_percent = 2, bc_drawdown_breaker_percent = 10,
                    bc_consecutive_loss_limit = 4\<rparr>"

definition sample_snapshot :: breaker_snapshot where
  "sample_snapshot =
     \<lparr>bs_equity = Fin 9500, bs_equity_peak = Fin 10000, bs_reference_equity = Fin 10000,
      bs_realized_pnl_today = - 300, bs_unrealized_pnl_today = Fin 100, bs_consecutive_losses = 1,
      bs_drawdown_latched = False, bs_now = Aware 0\<rparr>"

lemma sample_snapshot_ok: "snapshot_ok sample_snapshot 9500 10000 10000 100 0"
  by (simp add: snapshot_ok_def sample_snapshot_def)

theorem evaluate_breakers_verdict_witness:
  "bv_refuse_new_trades (verdict_of sample_config sample_snapshot 9500 10000 10000 100 0)
   \<longleftrightarrow> bv_daily_loss_active (verdict_of sample_config sample_snapshot 9500 10000 10000 100 0)
     \<or> bv_drawdown_active (verdict_of sample_config sample_snapshot 9500 10000 10000 100 0)
     \<or> bv_consecutive_loss_active (verdict_of sample_config sample_snapshot 9500 10000 10000 100 0)"
  using evaluate_breakers_verdict [OF evaluate_breakers_ok [OF sample_snapshot_ok]] by blast

text \<open>
  A worse situation never reopens trading: if a snapshot refuses new trades, then so does every
  snapshot of the same day's reference with less or equal equity, less or equal realised and
  unrealised profit and at least as many consecutive losses.
\<close>

theorem evaluate_breakers_antitone:
  assumes "evaluate_breakers config s = Inr v" "evaluate_breakers config s' = Inr v'"
    and "bs_equity s = Fin e" "bs_equity s' = Fin e'" "e' \<le> e"
    and "bs_unrealized_pnl_today s = Fin u" "bs_unrealized_pnl_today s' = Fin u'" "u' \<le> u"
    and "bs_realized_pnl_today s' \<le> bs_realized_pnl_today s"
    and "bs_consecutive_losses s \<le> bs_consecutive_losses s'"
    and "bs_equity_peak s' = bs_equity_peak s" "bs_reference_equity s' = bs_reference_equity s"
    and "bs_drawdown_latched s \<longrightarrow> bs_drawdown_latched s'"
    and "0 < bc_drawdown_breaker_percent config" "bv_refuse_new_trades v"
  shows "bv_refuse_new_trades v'"
proof -
  obtain k r t where s: "snapshot_ok s e k r u t" and v: "v = verdict_of config s e k r u t"
    using evaluate_breakers_Inr [OF assms(1)] assms(3,6) by (metis num.inject snapshot_ok_def)
  obtain t' where s': "snapshot_ok s' e' k r u' t'" and v': "v' = verdict_of config s' e' k r u' t'"
    using evaluate_breakers_Inr [OF assms(2)] assms(4,7,11,12) s by (metis num.inject snapshot_ok_def)
  have pnl: "dadd (bs_realized_pnl_today s') u' \<le> dadd (bs_realized_pnl_today s) u"
    using assms(8,9) by (rule dadd_mono [rotated])
  have dd: "bc_drawdown_breaker_percent config \<le> drawdown_of (peak_of (bs_drawdown_latched s') k e') e'"
    if "\<not> bs_drawdown_latched s'" "bc_drawdown_breaker_percent config \<le> drawdown_of (max k e) e"
  proof -
    have "e \<le> k" using that(2) assms(14) by (cases "k \<le> e") (auto simp: max_def)
    then show ?thesis
      using that drawdown_of_mono [of e' e k] assms(5) s' max_absorb1 [of e' k] max_absorb1 [of e k]
      by (simp add: peak_of_def snapshot_ok_def)
  qed
  show ?thesis
    using assms(10,13,15) pnl dd unfolding v v' verdict_simps
    by (auto simp: peak_of_def split: if_splits)
qed

theorem evaluate_breakers_antitone_witness:
  "bv_refuse_new_trades (verdict_of sample_config
     (sample_snapshot\<lparr>bs_equity := Fin 9000, bs_realized_pnl_today := - 400\<rparr>) 9000 10000 10000 100 0)"
proof -
  have ok: "snapshot_ok (sample_snapshot\<lparr>bs_equity := Fin 9000, bs_realized_pnl_today := - 400\<rparr>)
      9000 10000 10000 100 0" (is "snapshot_ok ?s _ _ _ _ _")
    by (simp add: snapshot_ok_def sample_snapshot_def)
  have r: "bv_refuse_new_trades (verdict_of sample_config sample_snapshot 9500 10000 10000 100 0)"
    by (simp add: verdict_simps sample_snapshot_def sample_config_def dec_eval dround_minus)
  show ?thesis
    by (rule evaluate_breakers_antitone [OF evaluate_breakers_ok [OF sample_snapshot_ok]
          evaluate_breakers_ok [OF ok], of 9500 9000 100 100])
       (simp_all add: r, simp_all add: sample_snapshot_def sample_config_def)
qed

text \<open>
  C18. What a scan writes. \<open>trip_breakers\<close> never shortens, moves or clears a pause that is still in
  force, neither the daily one nor the consecutive one; a pause it starts lies in the future and a
  consecutive one lasts at least the cooldown; it never clears the latch; and it reports an open
  market only when it writes no pause and no latch at all.
\<close>

theorem trip_breakers_keeps_pauses:
  assumes "trip_breakers config s now existing_consecutive existing_daily cooldown_hours = Inr (v, w)"
  shows "(pause_still_in_force existing_daily now \<longrightarrow>
            bw_daily_paused_until w = map_option instant existing_daily)
    \<and> (pause_still_in_force existing_consecutive now \<longrightarrow>
            bw_consecutive_paused_until w = map_option instant existing_consecutive)
    \<and> (\<forall>t. bw_consecutive_paused_until w = Some t \<longrightarrow> instant now < t
          \<and> (\<not> pause_still_in_force existing_consecutive now \<longrightarrow> instant now + cooldown_hours * HOUR \<le> t))
    \<and> (bs_drawdown_latched s \<longrightarrow> bw_drawdown_latched w)
    \<and> (bw_daily_paused_until w \<noteq> None \<or> bw_consecutive_paused_until w \<noteq> None \<or> bw_drawdown_latched w
       \<longrightarrow> bv_refuse_new_trades v)"
  using assms
proof (rule trip_breakers_Inr, goal_cases)
  case (1 v0)
  obtain e k r u t where ev: "v0 = verdict_of config s e k r u t"
    using evaluate_breakers_Inr [OF 1(1)] by metis
  have latch: "bs_drawdown_latched s \<longrightarrow> bv_drawdown_active v0"
    "bv_drawdown_active v0 \<longrightarrow> bv_refuse_new_trades v0"
    by (auto simp: ev verdict_simps)
  have force: "instant now < x" if "pause_still_in_force y now" "map_option instant y = Some x" for x y
    using that by (auto simp: pause_still_in_force_def split: option.splits)
  show ?case
    using 1(2,8,9,10) latch force consecutive_pause_expiry_Inr [of now cooldown_hours existing_consecutive]
    by (auto split: if_splits)
qed

lemma sample_trip:
  "trip_breakers sample_config sample_snapshot (Aware 0) None (Some (Naive 5)) 24 =
     Inr (verdict_of sample_config sample_snapshot 9500 10000 10000 100 0,
          \<lparr>bw_equity_peak = 10000, bw_consecutive_losses = 1, bw_realized_pnl = - 300,
           bw_unrealized_pnl = 100, bw_daily_paused_until = Some 5,
           bw_consecutive_paused_until = None, bw_drawdown_latched = False, bw_now = Aware 0\<rparr>)"
  unfolding trip_breakers_def evaluate_breakers_ok [OF sample_snapshot_ok]
  by (simp add: verdict_simps sample_snapshot_def sample_config_def pause_still_in_force_def
      dec_eval dround_minus finite_money_def peak_of_def drawdown_of_def)

theorem trip_breakers_keeps_pauses_witness:
  "bv_refuse_new_trades (verdict_of sample_config sample_snapshot 9500 10000 10000 100 0)
   \<and> pause_still_in_force (Some (Naive 5)) (Aware 0)"
  using trip_breakers_keeps_pauses [OF sample_trip] by (simp add: pause_still_in_force_def)

text \<open>
  Only an authenticated human clears the drawdown latch, and only out of a breach: a successful
  \<open>reset_drawdown\<close> returns the same snapshot with the latch off and the peak at the current equity,
  the drawdown from the old peak is below the threshold, and an immediate rescan of the returned
  snapshot does not report drawdown again.
\<close>

theorem reset_drawdown_sound:
  assumes "reset_drawdown actor config s = Inr s'" "0 < bc_drawdown_breaker_percent config"
  shows "pa_channel actor = HUMAN \<and> pa_authenticated actor
    \<and> s' = s\<lparr>bs_drawdown_latched := False, bs_equity_peak := bs_equity s\<rparr>
    \<and> (\<exists>e k. bs_equity s = Fin e \<and> bs_equity_peak s = Fin k
         \<and> drawdown_of (max k e) e < bc_drawdown_breaker_percent config)
    \<and> (\<exists>v. evaluate_breakers config s' = Inr v \<and> \<not> bv_drawdown_active v)"
proof -
  from assms(1) obtain v where v: "pa_authenticated actor" "pa_channel actor = HUMAN"
      "evaluate_breakers config (s\<lparr>bs_drawdown_latched := False\<rparr>) = Inr v" "\<not> bv_drawdown_active v"
      "s' = s\<lparr>bs_drawdown_latched := False, bs_equity_peak := bs_equity s\<rparr>"
    by (auto simp: reset_drawdown_def res_simps)
  from v(3) obtain e k r u t where
    ok: "snapshot_ok (s\<lparr>bs_drawdown_latched := False\<rparr>) e k r u t"
    and vv: "v = verdict_of config (s\<lparr>bs_drawdown_latched := False\<rparr>) e k r u t"
    by (rule evaluate_breakers_Inr)
  have "snapshot_ok s' e e r u t" using ok v(5) by (simp add: snapshot_ok_def)
  from evaluate_breakers_ok [OF this, of config] show ?thesis
    using v ok vv assms(2)
    by (auto simp: snapshot_ok_def verdict_simps peak_of_def not_le)
qed

lemma sample_reset:
  "reset_drawdown sample_owner sample_config (sample_snapshot\<lparr>bs_drawdown_latched := True\<rparr>) =
     Inr (sample_snapshot\<lparr>bs_equity_peak := Fin 9500\<rparr>)"
proof -
  have "sample_snapshot\<lparr>bs_drawdown_latched := True, bs_drawdown_latched := False\<rparr> = sample_snapshot"
    by (simp add: sample_snapshot_def)
  then show ?thesis
    unfolding reset_drawdown_def
    by (simp add: evaluate_breakers_ok [OF sample_snapshot_ok] sample_owner_def)
       (simp add: verdict_simps sample_snapshot_def sample_config_def drawdown_of_def dec_eval peak_of_def)
qed

theorem reset_drawdown_sound_witness:
  "\<exists>v. evaluate_breakers sample_config (sample_snapshot\<lparr>bs_equity_peak := Fin 9500\<rparr>) = Inr v
     \<and> \<not> bv_drawdown_active v"
proof -
  have "0 < bc_drawdown_breaker_percent sample_config" by (simp add: sample_config_def)
  from reset_drawdown_sound [OF sample_reset this] show ?thesis by blast
qed

end
