(* ===== verification/Breaker_Store.thy ===== *)
theory Breaker_Store
  imports Breakers "HOL-Library.Product_Lexorder" "HOL-Library.Sublist"
begin

text \<open>
  The two breaker tables of \<^verbatim>\<open>db/risk_policy.py\<close> (the live latch of an account and the append-only
  log of its windows), the writers of \<^verbatim>\<open>services/risk_policy/persistence.py\<close> on them, and the
  session-bound half of \<^verbatim>\<open>services/risk_policy/breaker_trip.py\<close>.

  A row of \<^verbatim>\<open>RiskPolicyBreakerState\<close> has the prefix \<open>br_\<close>, a row of \<^verbatim>\<open>RiskPolicyBreakerInterval\<close> the
  prefix \<open>bi_\<close>; primary keys, which nothing reads here, are left out. A \<^verbatim>\<open>DateTime(timezone=True)\<close>
  column holds an instant in microseconds, what \<open>_as_utc\<close> reads from it. Tables are lists in insertion
  order. The policy store extends the record \<open>breaker_db\<close> with its own tables.
  \<open>bd_kill_arms\<close> lists the calls of \<^verbatim>\<open>KillSwitchService.activate\<close> as pairs of organization and user.
\<close>

section \<open>Tables\<close>

type_synonym uid = string

datatype window_kind = DAILY | CONSECUTIVE | DRAWDOWN

datatype phase = OPEN | CLOSE

record breaker_interval =
  bi_org :: uid
  bi_account :: uid
  bi_kind :: window_kind
  bi_phase :: phase
  bi_at :: int

record breaker_state =
  br_org :: uid
  br_account :: uid
  br_equity_peak :: rat
  br_drawdown_latched :: bool
  br_consecutive_losses :: int
  br_realized_pnl :: "rat option"
  br_unrealized_pnl :: "rat option"
  br_daily_paused_until :: "int option"
  br_consecutive_paused_until :: "int option"
  br_updated_at :: int

record breaker_db =
  bd_states :: "breaker_state list"
  bd_intervals :: "breaker_interval list"
  bd_kill_arms :: "(uid \<times> uid) list"

section \<open>Reading\<close>

definition pause_active :: "int option \<Rightarrow> int \<Rightarrow> bool" where
  "pause_active paused_until now = (case paused_until of None \<Rightarrow> False | Some u \<Rightarrow> now < u)"

definition kept_pause :: "int option \<Rightarrow> int option \<Rightarrow> int \<Rightarrow> int option" where
  "kept_pause stored proposed now = (if stored \<noteq> None \<and> pause_active stored now then stored else proposed)"

definition load_breaker :: "uid \<Rightarrow> uid \<Rightarrow> 'a breaker_db_scheme \<Rightarrow> breaker_state option" where
  "load_breaker org acc db = find (\<lambda>r. br_org r = org \<and> br_account r = acc) (bd_states db)"

definition breaker_active :: "uid \<Rightarrow> int \<Rightarrow> 'a breaker_db_scheme \<Rightarrow> bool" where
  "breaker_active org now db =
     list_ex (\<lambda>row. br_drawdown_latched row \<or> pause_active (br_daily_paused_until row) now
                    \<or> pause_active (br_consecutive_paused_until row) now)
       (filter (\<lambda>r. br_org r = org) (bd_states db))"

text \<open>
  The events of one window kind of one account, in the order both readers put them: by time, an
  opening before a closing of the same instant.
\<close>

definition window_events :: "uid \<Rightarrow> uid \<Rightarrow> window_kind \<Rightarrow> 'a breaker_db_scheme \<Rightarrow> breaker_interval list" where
  "window_events org acc k db =
     filter (\<lambda>e. bi_org e = org \<and> bi_account e = acc \<and> bi_kind e = k) (bd_intervals db)"

definition event_key :: "breaker_interval \<Rightarrow> int \<times> int" where
  "event_key e = (bi_at e, if bi_phase e = OPEN then 0 else 1)"

fun open_scan :: "int option \<Rightarrow> breaker_interval list \<Rightarrow> int option" where
  "open_scan opened [] = opened"
| "open_scan opened (e # es) =
     (if bi_phase e = OPEN
      then open_scan (case opened of None \<Rightarrow> Some (bi_at e) | Some t \<Rightarrow> Some t) es
      else open_scan None es)"

fun covered_scan :: "int \<Rightarrow> int option \<Rightarrow> breaker_interval list \<Rightarrow> bool" where
  "covered_scan point opened [] = (case opened of None \<Rightarrow> False | Some t \<Rightarrow> t \<le> point)"
| "covered_scan point opened (e # es) =
     (if bi_phase e = OPEN
      then covered_scan point (case opened of None \<Rightarrow> Some (bi_at e) | Some t \<Rightarrow> Some t) es
      else case opened of
             None \<Rightarrow> covered_scan point None es
           | Some t \<Rightarrow> if t \<le> point \<and> point < bi_at e then True else covered_scan point None es)"

definition breaker_covered :: "uid \<Rightarrow> int \<Rightarrow> 'a breaker_db_scheme \<Rightarrow> bool" where
  "breaker_covered org point db =
     (let rows = filter (\<lambda>e. bi_org e = org) (bd_intervals db);
          groups = remdups (map (\<lambda>e. (bi_account e, bi_kind e)) rows)
      in list_ex (\<lambda>(acc, k).
           covered_scan point None
             (sort_key event_key (filter (\<lambda>e. bi_account e = acc \<and> bi_kind e = k) rows))) groups)"

definition open_started_at :: "uid \<Rightarrow> uid \<Rightarrow> window_kind \<Rightarrow> 'a breaker_db_scheme \<Rightarrow> int option" where
  "open_started_at org acc k db = open_scan None (sort_key event_key (window_events org acc k db))"

definition has_close_at :: "uid \<Rightarrow> uid \<Rightarrow> window_kind \<Rightarrow> int \<Rightarrow> 'a breaker_db_scheme \<Rightarrow> bool" where
  "has_close_at org acc k target db =
     list_ex (\<lambda>e. bi_at e = target) (filter (\<lambda>e. bi_phase e = CLOSE) (window_events org acc k db))"

section \<open>Writing\<close>

definition append_interval ::
    "uid \<Rightarrow> uid \<Rightarrow> window_kind \<Rightarrow> phase \<Rightarrow> int \<Rightarrow> 'a breaker_db_scheme \<Rightarrow> 'a breaker_db_scheme" where
  "append_interval org acc k ph t db =
     (if list_ex (\<lambda>e. bi_phase e = ph \<and> bi_at e = t) (window_events org acc k db) then db
      else db\<lparr>bd_intervals := bd_intervals db @
                [\<lparr>bi_org = org, bi_account = acc, bi_kind = k, bi_phase = ph, bi_at = t\<rparr>]\<rparr>)"

definition note_pause ::
    "uid \<Rightarrow> uid \<Rightarrow> window_kind \<Rightarrow> int \<Rightarrow> int option \<Rightarrow> 'a breaker_db_scheme \<Rightarrow> 'a breaker_db_scheme" where
  "note_pause org acc k now paused_until db =
     (case paused_until of
        None \<Rightarrow> db
      | Some u \<Rightarrow>
          if \<not> pause_active paused_until now then db
          else if open_started_at org acc k db \<noteq> None then db
          else if has_close_at org acc k u db then db
          else append_interval org acc k CLOSE u (append_interval org acc k OPEN now db))"

definition open_breaker ::
    "uid \<Rightarrow> uid \<Rightarrow> window_kind \<Rightarrow> int \<Rightarrow> 'a breaker_db_scheme \<Rightarrow> 'a breaker_db_scheme" where
  "open_breaker org acc k started_at db =
     (if open_started_at org acc k db \<noteq> None then db
      else append_interval org acc k OPEN started_at db)"

definition close_breaker ::
    "uid \<Rightarrow> uid \<Rightarrow> window_kind \<Rightarrow> int \<Rightarrow> 'a breaker_db_scheme \<Rightarrow> 'a breaker_db_scheme" where
  "close_breaker org acc k ended_at db =
     (if open_started_at org acc k db = None then db
      else append_interval org acc k CLOSE ended_at db)"

definition note_consecutive_pause ::
    "uid \<Rightarrow> uid \<Rightarrow> int \<Rightarrow> int option \<Rightarrow> 'a breaker_db_scheme \<Rightarrow> 'a breaker_db_scheme" where
  "note_consecutive_pause org acc now paused_until db =
     (if paused_until \<noteq> None \<and> pause_active paused_until now then
        (if open_started_at org acc CONSECUTIVE db = None
         then append_interval org acc CONSECUTIVE OPEN now db else db)
      else close_breaker org acc CONSECUTIVE now db)"

definition breaker_row ::
    "uid \<Rightarrow> uid \<Rightarrow> rat \<Rightarrow> int \<Rightarrow> 'a breaker_db_scheme \<Rightarrow> breaker_state \<times> 'a breaker_db_scheme" where
  "breaker_row org acc equity_peak now db =
     (case load_breaker org acc db of
        Some row \<Rightarrow> (row, db)
      | None \<Rightarrow>
          let row = \<lparr>br_org = org, br_account = acc, br_equity_peak = equity_peak,
                     br_drawdown_latched = False, br_consecutive_losses = 0,
                     br_realized_pnl = None, br_unrealized_pnl = None,
                     br_daily_paused_until = None, br_consecutive_paused_until = None,
                     br_updated_at = now\<rparr>
          in (row, db\<lparr>bd_states := bd_states db @ [row]\<rparr>))"

text \<open>An assignment to the attributes of a row the session holds: the row of that account is replaced.\<close>

definition put_row :: "breaker_state \<Rightarrow> 'a breaker_db_scheme \<Rightarrow> 'a breaker_db_scheme" where
  "put_row row db =
     db\<lparr>bd_states := map (\<lambda>r. if br_org r = br_org row \<and> br_account r = br_account row then row else r)
                     (bd_states db)\<rparr>"

definition latch_drawdown ::
    "uid \<Rightarrow> uid \<Rightarrow> rat \<Rightarrow> int \<Rightarrow> 'a breaker_db_scheme \<Rightarrow> 'a breaker_db_scheme" where
  "latch_drawdown org acc equity_peak now db =
     (let (row, db1) = breaker_row org acc equity_peak now db;
          row' = row\<lparr>br_drawdown_latched := True, br_equity_peak := equity_peak, br_updated_at := now\<rparr>
      in open_breaker org acc DRAWDOWN now (put_row row' db1))"

definition recorded_row :: "breaker_write \<Rightarrow> breaker_state \<Rightarrow> breaker_state" where
  "recorded_row w row =
     (let now = instant (bw_now w);
          latched = (br_drawdown_latched row \<or> bw_drawdown_latched w);
          pause_held = (br_consecutive_paused_until row \<noteq> None
                        \<and> pause_active (br_consecutive_paused_until row) now);
          losses = (if pause_held \<and> bw_consecutive_losses w < br_consecutive_losses row
                    then br_consecutive_losses row else bw_consecutive_losses w)
      in row\<lparr>br_equity_peak := bw_equity_peak w, br_consecutive_losses := losses,
             br_realized_pnl := Some (bw_realized_pnl w),
             br_unrealized_pnl := Some (bw_unrealized_pnl w),
             br_daily_paused_until :=
               kept_pause (br_daily_paused_until row) (bw_daily_paused_until w) now,
             br_consecutive_paused_until :=
               kept_pause (br_consecutive_paused_until row) (bw_consecutive_paused_until w) now,
             br_drawdown_latched := latched, br_updated_at := now\<rparr>)"

definition record_breaker ::
    "uid \<Rightarrow> uid \<Rightarrow> breaker_write \<Rightarrow> 'a breaker_db_scheme \<Rightarrow> 'a breaker_db_scheme" where
  "record_breaker org acc w db =
     (let now = instant (bw_now w);
          (row0, db1) = breaker_row org acc (bw_equity_peak w) now db;
          row = recorded_row w row0;
          db2 = put_row row db1;
          db3 = note_pause org acc DAILY now (br_daily_paused_until row) db2;
          db4 = note_consecutive_pause org acc now (br_consecutive_paused_until row) db3
      in if br_drawdown_latched row then open_breaker org acc DRAWDOWN now db4
         else close_breaker org acc DRAWDOWN now db4)"

text \<open>
  The last part of the two resets of an account's row, reached once their checks have passed.
\<close>

definition clear_drawdown :: "breaker_state \<Rightarrow> int \<Rightarrow> 'a breaker_db_scheme \<Rightarrow> 'a breaker_db_scheme" where
  "clear_drawdown row now db =
     put_row (row\<lparr>br_drawdown_latched := False, br_updated_at := now\<rparr>)
       (close_breaker (br_org row) (br_account row) DRAWDOWN now db)"

definition clear_consecutive :: "breaker_state \<Rightarrow> int \<Rightarrow> 'a breaker_db_scheme \<Rightarrow> 'a breaker_db_scheme" where
  "clear_consecutive row now db =
     put_row (row\<lparr>br_consecutive_losses := 0, br_consecutive_paused_until := None, br_updated_at := now\<rparr>)
       (close_breaker (br_org row) (br_account row) CONSECUTIVE now db)"

section \<open>A scan of one account\<close>

text \<open>
  The figures of \<^verbatim>\<open>DailyRiskAccounting.sync_from_portfolio\<close> are an argument of the scan. The
  realised and unrealised profit are sums of numeric columns, hence finite.
\<close>

record daily_figures =
  df_account_equity :: num
  df_realized_pnl :: rat
  df_unrealized_pnl :: rat

definition scan_streak :: "int option \<Rightarrow> int \<Rightarrow> int option \<Rightarrow> dt \<Rightarrow> int" where
  "scan_streak consecutive_losses stored existing_pause now =
     (let consecutive = (case consecutive_losses of
            None \<Rightarrow> streak_after_expiry stored (map_option Aware existing_pause) now
          | Some n \<Rightarrow> n)
      in if pause_active existing_pause (instant now) \<and> consecutive < stored then stored
         else consecutive)"

definition stored_field :: "(breaker_state \<Rightarrow> 'b) \<Rightarrow> 'b \<Rightarrow> breaker_state option \<Rightarrow> 'b" where
  "stored_field f d row = (case row of None \<Rightarrow> d | Some r \<Rightarrow> f r)"

definition still_kept :: "int option \<Rightarrow> dt \<Rightarrow> dt option" where
  "still_kept existing now =
     (if pause_still_in_force (map_option Aware existing) now then map_option Aware existing else None)"

definition arm_drawdown_kill_switch :: "uid \<Rightarrow> uid \<Rightarrow> 'a breaker_db_scheme \<Rightarrow> 'a breaker_db_scheme" where
  "arm_drawdown_kill_switch org user_id db = db\<lparr>bd_kill_arms := bd_kill_arms db @ [(org, user_id)]\<rparr>"

definition latch_ruined_equity ::
    "uid \<Rightarrow> uid \<Rightarrow> uid \<Rightarrow> profile \<Rightarrow> dt \<Rightarrow> int option \<Rightarrow> daily_figures \<Rightarrow> 'a breaker_db_scheme
     \<Rightarrow> (bool \<times> 'a breaker_db_scheme) res" where
  "latch_ruined_equity org user_id acc prof now consecutive_losses daily db =
     (let row = load_breaker org acc db;
          consecutive = scan_streak consecutive_losses (stored_field br_consecutive_losses 0 row)
                          (stored_field br_consecutive_paused_until None row) now;
          kept = still_kept (stored_field br_consecutive_paused_until None row) now;
          kept_daily = still_kept (stored_field br_daily_paused_until None row) now;
          latched = stored_field br_drawdown_latched False row;
          peak = (case row of None \<Rightarrow> 1
                  | Some r \<Rightarrow> if 0 < br_equity_peak r then br_equity_peak r else 1)
      in res_bind
           (if p_consecutive_loss_limit prof \<le> consecutive then
              res_bind (consecutive_pause_expiry now (p_consecutive_loss_cooldown_hours prof) kept)
                (\<lambda>u. Inr (Some u))
            else Inr (map_option instant kept)) (\<lambda>consecutive_until.
         let db1 = record_breaker org acc
               \<lparr>bw_equity_peak = peak, bw_consecutive_losses = consecutive,
                bw_realized_pnl = finite_money (Fin (df_realized_pnl daily)),
                bw_unrealized_pnl = finite_money (Fin (df_unrealized_pnl daily)),
                bw_daily_paused_until = map_option instant kept_daily,
                bw_consecutive_paused_until = consecutive_until,
                bw_drawdown_latched = True, bw_now = now\<rparr> db
         in Inr (True, if latched then db1 else arm_drawdown_kill_switch org user_id db1)))"

definition persist_profile_breakers ::
    "uid \<Rightarrow> uid \<Rightarrow> uid \<Rightarrow> profile \<Rightarrow> dt \<Rightarrow> int option \<Rightarrow> daily_figures \<Rightarrow> 'a breaker_db_scheme
     \<Rightarrow> (bool \<times> 'a breaker_db_scheme) res" where
  "persist_profile_breakers org user_id acc prof now consecutive_losses daily db =
     (case df_account_equity daily of
        NonFinite \<Rightarrow> latch_ruined_equity org user_id acc prof now consecutive_losses daily db
      | Fin equity \<Rightarrow>
        if equity \<le> 0 then latch_ruined_equity org user_id acc prof now consecutive_losses daily db else
        let row = load_breaker org acc db;
            peak = (case row of None \<Rightarrow> equity
                    | Some r \<Rightarrow> if 0 < br_equity_peak r then br_equity_peak r else equity);
            consecutive = scan_streak consecutive_losses (stored_field br_consecutive_losses 0 row)
                            (stored_field br_consecutive_paused_until None row) now;
            latched = stored_field br_drawdown_latched False row;
            reference = dsub (dsub equity (df_realized_pnl daily)) (df_unrealized_pnl daily)
        in res_bind
             (trip_breakers
               \<lparr>bc_daily_loss_limit_percent = p_daily_loss_limit_percent prof,
                bc_drawdown_breaker_percent = p_drawdown_breaker_percent prof,
                bc_consecutive_loss_limit = p_consecutive_loss_limit prof\<rparr>
               \<lparr>bs_equity = Fin equity, bs_equity_peak = Fin peak,
                bs_reference_equity = Fin (if reference \<le> 0 then equity else reference),
                bs_realized_pnl_today = df_realized_pnl daily,
                bs_unrealized_pnl_today = Fin (df_unrealized_pnl daily),
                bs_consecutive_losses = consecutive, bs_drawdown_latched = latched, bs_now = now\<rparr>
               now
               (still_kept (stored_field br_consecutive_paused_until None row) now)
               (still_kept (stored_field br_daily_paused_until None row) now)
               (p_consecutive_loss_cooldown_hours prof)) (\<lambda>(verdict, w).
           let db1 = record_breaker org acc w db
           in Inr (bv_refuse_new_trades verdict,
                   if bv_trip_kill_switch verdict \<and> \<not> latched
                   then arm_drawdown_kill_switch org user_id db1 else db1)))"

section \<open>Window lemmas\<close>

text \<open>The state of a window replayed up to a moment, from the events of that moment or before.\<close>

definition replay :: "uid \<Rightarrow> uid \<Rightarrow> window_kind \<Rightarrow> int \<Rightarrow> 'a breaker_db_scheme \<Rightarrow> int option" where
  "replay org acc k point db =
     open_scan None (sort_key event_key (filter (\<lambda>e. bi_at e \<le> point) (window_events org acc k db)))"

lemma event_key_le: "event_key d \<le> event_key e \<Longrightarrow> bi_at d \<le> bi_at e"
  by (auto simp: event_key_def less_eq_prod_def)

lemma event_key_less: "bi_at d < bi_at e \<Longrightarrow> event_key d \<le> event_key e"
  by (simp add: event_key_def less_eq_prod_def)

lemma open_scan_append [simp]: "open_scan opened (xs @ ys) = open_scan (open_scan opened xs) ys"
  by (induction xs arbitrary: opened) auto

lemma covered_scan_later:
  assumes "\<forall>e \<in> set es. point < bi_at e"
  shows "covered_scan point opened es \<longleftrightarrow> (\<exists>t. opened = Some t \<and> t \<le> point)"
  using assms by (induction es arbitrary: opened) (auto split: option.splits)

lemma covered_scan_replay:
  assumes "sorted (map event_key es)" "\<And>t. opened = Some t \<Longrightarrow> t \<le> point"
  shows "covered_scan point opened es \<longleftrightarrow> open_scan opened (filter (\<lambda>e. bi_at e \<le> point) es) \<noteq> None"
  using assms
proof (induction es arbitrary: opened)
  case (Cons e es)
  show ?case
  proof (cases "bi_at e \<le> point")
    case True
    then show ?thesis
      using Cons.prems Cons.IH [of None] Cons.IH [of "Some (bi_at e)"] Cons.IH [of opened]
      by (cases opened) auto
  next
    case False
    then have later: "\<forall>d \<in> set (e # es). point < bi_at d"
      using Cons.prems(1) event_key_le by fastforce
    then have "filter (\<lambda>d. bi_at d \<le> point) (e # es) = []" by (auto simp: filter_empty_conv)
    then show ?thesis using covered_scan_later [OF later, of opened] Cons.prems(2) by auto
  qed
qed (auto split: option.splits)

lemma window_events_alt:
  "filter (\<lambda>e. bi_account e = acc \<and> bi_kind e = k) (filter (\<lambda>e. bi_org e = org) (bd_intervals db))
   = window_events org acc k db"
  by (simp add: window_events_def conj_ac)

lemma breaker_covered_iff: "breaker_covered org point db \<longleftrightarrow> (\<exists>acc k. replay org acc k point db \<noteq> None)"
proof -
  have scan: "covered_scan point None (sort_key event_key (window_events org acc k db))
      \<longleftrightarrow> replay org acc k point db \<noteq> None" for acc k
    by (subst covered_scan_replay) (simp_all add: replay_def filter_sort)
  have mem: "\<exists>e \<in> set (bd_intervals db). bi_org e = org \<and> bi_account e = acc \<and> bi_kind e = k"
    if "replay org acc k point db \<noteq> None" for acc k
  proof (rule ccontr)
    assume "\<not> ?thesis"
    then have "window_events org acc k db = []" by (auto simp: window_events_def filter_empty_conv)
    then show False using that by (simp add: replay_def)
  qed
  have "breaker_covered org point db \<longleftrightarrow>
      (\<exists>x \<in> (\<lambda>e. (bi_account e, bi_kind e)) ` {e \<in> set (bd_intervals db). bi_org e = org}.
         replay org (fst x) (snd x) point db \<noteq> None)"
    unfolding breaker_covered_def Let_def window_events_alt scan list_ex_iff set_remdups set_map set_filter
    by (simp add: case_prod_unfold)
  then show ?thesis using mem by fastforce
qed

section \<open>Frame lemmas\<close>

lemma states_frame [simp]:
  "bd_states (append_interval org acc k ph t db) = bd_states db"
  "bd_states (note_pause org acc k t u db) = bd_states db"
  "bd_states (open_breaker org acc k t db) = bd_states db"
  "bd_states (close_breaker org acc k t db) = bd_states db"
  "bd_states (note_consecutive_pause org acc t u db) = bd_states db"
  by (simp_all add: append_interval_def note_pause_def open_breaker_def close_breaker_def
      note_consecutive_pause_def split: option.splits)

lemma load_frame [simp]:
  "load_breaker org acc (append_interval org' acc' k ph t db) = load_breaker org acc db"
  "load_breaker org acc (note_pause org' acc' k t u db) = load_breaker org acc db"
  "load_breaker org acc (open_breaker org' acc' k t db) = load_breaker org acc db"
  "load_breaker org acc (close_breaker org' acc' k t db) = load_breaker org acc db"
  "load_breaker org acc (note_consecutive_pause org' acc' t u db) = load_breaker org acc db"
  "load_breaker org acc (arm_drawdown_kill_switch org' user_id db) = load_breaker org acc db"
  by (simp_all add: load_breaker_def arm_drawdown_kill_switch_def)

lemma intervals_frame [simp]:
  "bd_intervals (put_row row db) = bd_intervals db"
  "bd_intervals (snd (breaker_row org acc x now db)) = bd_intervals db"
  "bd_intervals (arm_drawdown_kill_switch org user_id db) = bd_intervals db"
  by (simp_all add: put_row_def breaker_row_def arm_drawdown_kill_switch_def Let_def split: option.splits)

lemma events_frame [simp]:
  "window_events org' acc' k' (put_row row db) = window_events org' acc' k' db"
  "window_events org' acc' k' (snd (breaker_row org acc x now db)) = window_events org' acc' k' db"
  "window_events org' acc' k' (arm_drawdown_kill_switch org user_id db) = window_events org' acc' k' db"
  by (simp_all add: window_events_def)

lemma events_append_interval:
  "window_events org' acc' k' (append_interval org acc k ph t db) =
     window_events org' acc' k' db @
       (if (org', acc', k') = (org, acc, k) \<and> \<not> (\<exists>e \<in> set (window_events org acc k db). bi_phase e = ph \<and> bi_at e = t)
        then [\<lparr>bi_org = org, bi_account = acc, bi_kind = k, bi_phase = ph, bi_at = t\<rparr>] else [])"
  by (auto simp: append_interval_def window_events_def list_ex_iff)

lemma events_append_interval_other [simp]:
  "(org', acc', k') \<noteq> (org, acc, k) \<Longrightarrow>
   window_events org' acc' k' (append_interval org acc k ph t db) = window_events org' acc' k' db"
  by (auto simp: events_append_interval)

lemma events_other [simp]:
  assumes "(org', acc', k') \<noteq> (org, acc, k)"
  shows "window_events org' acc' k' (note_pause org acc k t u db) = window_events org' acc' k' db"
    and "window_events org' acc' k' (open_breaker org acc k t db) = window_events org' acc' k' db"
    and "window_events org' acc' k' (close_breaker org acc k t db) = window_events org' acc' k' db"
  using assms by (auto simp: note_pause_def open_breaker_def close_breaker_def split: option.splits)

lemma events_other_consecutive [simp]:
  "(org', acc', k') \<noteq> (org, acc, CONSECUTIVE) \<Longrightarrow>
   window_events org' acc' k' (note_consecutive_pause org acc t u db) = window_events org' acc' k' db"
  by (auto simp: note_consecutive_pause_def)

lemma open_started_cong:
  "window_events org acc k db = window_events org acc k db' \<Longrightarrow>
   open_started_at org acc k db = open_started_at org acc k db'"
  by (simp add: open_started_at_def)

text \<open>A later event goes to the end of the ordered log.\<close>

lemma open_started_append:
  assumes "\<And>e. e \<in> set (window_events org acc k db) \<Longrightarrow> bi_at e < t"
  shows "open_started_at org acc k (append_interval org acc k ph t db) =
    (if ph = OPEN then case open_started_at org acc k db of None \<Rightarrow> Some t | Some x \<Rightarrow> Some x else None)"
proof -
  let ?e = "\<lparr>bi_org = org, bi_account = acc, bi_kind = k, bi_phase = ph, bi_at = t\<rparr>"
  have "window_events org acc k (append_interval org acc k ph t db) = window_events org acc k db @ [?e]"
    using assms by (auto simp: events_append_interval)
  moreover have "sort_key event_key (window_events org acc k db @ [?e])
      = sort_key event_key (window_events org acc k db) @ [?e]"
    using assms by (intro sort_key_snoc event_key_less) simp
  ultimately show ?thesis
    by (cases ph; cases "open_started_at org acc k db") (simp_all add: open_started_at_def)
qed

section \<open>Row lemmas\<close>

definition row_keys :: "'a breaker_db_scheme \<Rightarrow> (uid \<times> uid) list" where
  "row_keys db = map (\<lambda>r. (br_org r, br_account r)) (bd_states db)"

definition base_row :: "uid \<Rightarrow> uid \<Rightarrow> rat \<Rightarrow> int \<Rightarrow> 'a breaker_db_scheme \<Rightarrow> breaker_state" where
  "base_row org acc peak now db = fst (breaker_row org acc peak now db)"

lemma load_breaker_key: "load_breaker org acc db = Some r \<Longrightarrow> br_org r = org \<and> br_account r = acc"
  by (auto simp: load_breaker_def find_Some_iff)



lemma base_row_key [simp]:
  "br_org (base_row org acc peak now db) = org" "br_account (base_row org acc peak now db) = acc"
  using load_breaker_key [of org acc db]
  by (auto simp: base_row_def breaker_row_def Let_def split: option.splits)

lemma base_row_eq:
  "load_breaker org acc db = Some r \<Longrightarrow> base_row org acc peak now db = r"
  "load_breaker org acc db = None \<Longrightarrow>
     \<not> br_drawdown_latched (base_row org acc peak now db)
     \<and> br_daily_paused_until (base_row org acc peak now db) = None
     \<and> br_consecutive_paused_until (base_row org acc peak now db) = None
     \<and> br_consecutive_losses (base_row org acc peak now db) = 0"
  by (simp_all add: base_row_def breaker_row_def Let_def)

lemma recorded_row_key [simp]:
  "br_org (recorded_row w row) = br_org row" "br_account (recorded_row w row) = br_account row"
  by (simp_all add: recorded_row_def Let_def)

lemma find_map_replace:
  assumes "P row"
  shows "find P (map (\<lambda>r. if P r then row else r) xs) = (if find P xs = None then None else Some row)"
  using assms by (induction xs) auto

lemma find_map_other:
  assumes "\<And>x. P x \<Longrightarrow> \<not> Q x" "\<not> P row"
  shows "find P (map (\<lambda>r. if Q r then row else r) xs) = find P xs"
  using assms by (induction xs) auto

lemma find_snoc: "find P (xs @ [y]) = (case find P xs of None \<Rightarrow> if P y then Some y else None | Some x \<Rightarrow> Some x)"
  by (induction xs) auto

lemma load_put_row:
  "load_breaker org acc (put_row row db) =
     (if (org, acc) = (br_org row, br_account row) \<and> load_breaker org acc db \<noteq> None then Some row
      else load_breaker org acc db)"
proof (cases "(org, acc) = (br_org row, br_account row)")
  case True
  then show ?thesis
    using find_map_replace [of "\<lambda>r. br_org r = org \<and> br_account r = acc" row "bd_states db"]
    by (auto simp: load_breaker_def put_row_def)
next
  case False
  then show ?thesis unfolding load_breaker_def put_row_def
    by (auto intro!: find_map_other)
qed

lemma load_breaker_row:
  "load_breaker org' acc' (snd (breaker_row org acc peak now db)) =
     (if (org', acc') = (org, acc) then Some (base_row org acc peak now db)
      else load_breaker org' acc' db)"
proof (cases "load_breaker org acc db")
  case None
  then have "find (\<lambda>r. br_org r = org \<and> br_account r = acc) (bd_states db) = None"
    by (simp add: load_breaker_def)
  then show ?thesis using None
    by (auto simp: breaker_row_def base_row_def Let_def load_breaker_def find_snoc split: option.splits)
qed (auto simp: breaker_row_def base_row_def)

lemma record_breaker_alt:
  "record_breaker org acc w db =
     (let now = instant (bw_now w);
          row = recorded_row w (base_row org acc (bw_equity_peak w) now db);
          db2 = put_row row (snd (breaker_row org acc (bw_equity_peak w) now db));
          db3 = note_pause org acc DAILY now (br_daily_paused_until row) db2;
          db4 = note_consecutive_pause org acc now (br_consecutive_paused_until row) db3
      in if br_drawdown_latched row then open_breaker org acc DRAWDOWN now db4
         else close_breaker org acc DRAWDOWN now db4)"
  by (simp add: record_breaker_def base_row_def Let_def case_prod_unfold)

lemma load_record_breaker:
  "load_breaker org' acc' (record_breaker org acc w db) =
     (if (org', acc') = (org, acc)
      then Some (recorded_row w (base_row org acc (bw_equity_peak w) (instant (bw_now w)) db))
      else load_breaker org' acc' db)"
  by (simp add: record_breaker_alt Let_def load_put_row load_breaker_row)

lemma load_latch_drawdown:
  "load_breaker org' acc' (latch_drawdown org acc peak now db) =
     (if (org', acc') = (org, acc)
      then Some ((base_row org acc peak now db)\<lparr>br_drawdown_latched := True, br_equity_peak := peak,
                   br_updated_at := now\<rparr>)
      else load_breaker org' acc' db)"
  by (simp add: latch_drawdown_def Let_def case_prod_unfold base_row_def [symmetric] load_put_row
      load_breaker_row)

lemma row_keys_frame [simp]:
  "row_keys (append_interval org acc k ph t db) = row_keys db"
  "row_keys (note_pause org acc k t u db) = row_keys db"
  "row_keys (open_breaker org acc k t db) = row_keys db"
  "row_keys (close_breaker org acc k t db) = row_keys db"
  "row_keys (note_consecutive_pause org acc t u db) = row_keys db"
  "row_keys (arm_drawdown_kill_switch org user_id db) = row_keys db"
  "row_keys (put_row row db) = row_keys db"
  by (auto simp: row_keys_def arm_drawdown_kill_switch_def put_row_def)

lemma distinct_breaker_row: "distinct (row_keys db) \<Longrightarrow> distinct (row_keys (snd (breaker_row org acc x now db)))"
  by (auto simp: breaker_row_def row_keys_def Let_def load_breaker_def find_None_iff split: option.splits)

lemma distinct_writers:
  assumes "distinct (row_keys db)"
  shows "distinct (row_keys (record_breaker org acc w db))"
    and "distinct (row_keys (latch_drawdown org acc x now db))"
    and "distinct (row_keys (clear_drawdown row now db))"
    and "distinct (row_keys (clear_consecutive row now db))"
  using assms distinct_breaker_row [OF assms]
  by (simp_all add: record_breaker_alt latch_drawdown_def clear_drawdown_def clear_consecutive_def
      Let_def case_prod_unfold)

section \<open>The windows agree with the live latch\<close>

text \<open>
  What holds of the events of one account after the last write, at moment \<open>t0\<close>: a drawdown window is
  open exactly while the latch is on; a consecutive window is open while its pause runs; the daily
  window of a running pause reaches from the last write to the stored expiry.
\<close>

definition opened :: "breaker_interval list \<Rightarrow> int option" where
  "opened evs = open_scan None (sort_key event_key evs)"

definition drawdown_ok :: "int \<Rightarrow> bool \<Rightarrow> breaker_interval list \<Rightarrow> bool" where
  "drawdown_ok t0 latched evs \<longleftrightarrow>
     (\<forall>e \<in> set evs. bi_at e \<le> t0) \<and> (latched \<longleftrightarrow> opened evs \<noteq> None)"

definition consecutive_ok :: "int \<Rightarrow> int option \<Rightarrow> breaker_interval list \<Rightarrow> bool" where
  "consecutive_ok t0 paused evs \<longleftrightarrow>
     (\<forall>e \<in> set evs. bi_at e \<le> t0) \<and> (pause_active paused t0 \<longrightarrow> opened evs \<noteq> None)"

definition daily_ok :: "int \<Rightarrow> int option \<Rightarrow> breaker_interval list \<Rightarrow> bool" where
  "daily_ok t0 paused evs \<longleftrightarrow>
     opened evs = None
   \<and> (\<forall>e \<in> set evs. bi_at e \<le> t0 \<or> (\<exists>u. paused = Some u \<and> bi_at e \<le> u))
   \<and> (\<forall>u. paused = Some u \<longrightarrow> t0 < u \<longrightarrow>
        (\<exists>e \<in> set evs. bi_phase e = CLOSE \<and> bi_at e = u)
      \<and> (\<forall>p. t0 \<le> p \<and> p < u \<longrightarrow> opened (filter (\<lambda>e. bi_at e \<le> p) evs) \<noteq> None))"

lemmas window_ok_defs = drawdown_ok_def consecutive_ok_def daily_ok_def

lemma opened_Nil [simp]: "opened [] = None"
  by (simp add: opened_def)

lemma open_started_opened: "open_started_at org acc k db = opened (window_events org acc k db)"
  by (simp add: open_started_at_def opened_def)

lemma replay_opened: "replay org acc k p db = opened (filter (\<lambda>e. bi_at e \<le> p) (window_events org acc k db))"
  by (simp add: replay_def opened_def)















lemma base_row_fields:
  "br_drawdown_latched (base_row org acc x now db) = stored_field br_drawdown_latched False (load_breaker org acc db)"
  "br_consecutive_paused_until (base_row org acc x now db) = stored_field br_consecutive_paused_until None (load_breaker org acc db)"
  "br_daily_paused_until (base_row org acc x now db) = stored_field br_daily_paused_until None (load_breaker org acc db)"
  "br_consecutive_losses (base_row org acc x now db) = stored_field br_consecutive_losses 0 (load_breaker org acc db)"
  using base_row_eq [of org acc db] by (auto simp: stored_field_def split: option.splits)





section \<open>Runs of the breaker tables\<close>

text \<open>
  One write at moment \<open>t\<close>, and the tables reachable by writes at increasing moments, none of which is
  the very microsecond at which an event is already logged.
\<close>

inductive breaker_step :: "int \<Rightarrow> 'a breaker_db_scheme \<Rightarrow> 'a breaker_db_scheme \<Rightarrow> bool" where
  recorded: "instant (bw_now w) = t \<Longrightarrow> breaker_step t db (record_breaker org acc w db)"
| latch: "breaker_step t db (latch_drawdown org acc peak t db)"
| clear_drawdown: "load_breaker org acc db = Some row \<Longrightarrow> breaker_step t db (clear_drawdown row t db)"
| clear_consecutive: "load_breaker org acc db = Some row \<Longrightarrow> breaker_step t db (clear_consecutive row t db)"


inductive_cases breaker_stepE: "breaker_step t db db'"





text \<open>Every event a writer logs at moment \<open>t\<close> is at \<open>t\<close> or later.\<close>

definition logs_from :: "int \<Rightarrow> 'a breaker_db_scheme \<Rightarrow> 'a breaker_db_scheme \<Rightarrow> bool" where
  "logs_from t db db' \<longleftrightarrow> (\<exists>new. bd_intervals db' = bd_intervals db @ new \<and> (\<forall>e \<in> set new. t \<le> bi_at e))"

lemma logs_from_trans: "logs_from t db db1 \<Longrightarrow> logs_from t db1 db2 \<Longrightarrow> logs_from t db db2"
  by (fastforce simp: logs_from_def)

lemma logs_from_same: "bd_intervals db' = bd_intervals db \<Longrightarrow> logs_from t db db'"
  by (simp add: logs_from_def)

lemma logs_from_append: "t \<le> x \<Longrightarrow> logs_from t db (append_interval org acc k ph x db)"
  by (simp add: logs_from_def append_interval_def)

lemma logs_from_writers:
  "logs_from t db (note_pause org acc k t u db)"
  "logs_from t db (open_breaker org acc k t db)"
  "logs_from t db (close_breaker org acc k t db)"
  "logs_from t db (note_consecutive_pause org acc t u db)"
proof -
  have "logs_from t db (append_interval org acc k CLOSE x (append_interval org acc k OPEN t db))" if "t < x" for x
    using that by (intro logs_from_trans [OF logs_from_append [of t t] logs_from_append]) auto
  then show "logs_from t db (note_pause org acc k t u db)"
    by (auto simp: note_pause_def pause_active_def intro: logs_from_same split: option.splits)
qed (auto simp: open_breaker_def close_breaker_def note_consecutive_pause_def
      intro: logs_from_same logs_from_append)

lemma breaker_step_logs: "breaker_step t db db' \<Longrightarrow> logs_from t db db'"
proof (induction rule: breaker_step.induct)
  case (recorded w t db org acc)
  let ?row = "recorded_row w (base_row org acc (bw_equity_peak w) t db)"
  let ?db2 = "put_row ?row (snd (breaker_row org acc (bw_equity_peak w) t db))"
  have "logs_from t db ?db2" by (rule logs_from_same) simp
  then have "logs_from t db (note_consecutive_pause org acc t (br_consecutive_paused_until ?row)
      (note_pause org acc DAILY t (br_daily_paused_until ?row) ?db2))"
    by (meson logs_from_trans logs_from_writers)
  then show ?case
    unfolding record_breaker_alt Let_def recorded
    by (simp add: logs_from_trans [OF _ logs_from_writers(2)] logs_from_trans [OF _ logs_from_writers(3)])
next
  case (latch t db org acc peak)
  have "logs_from t db (put_row r (snd (breaker_row org acc peak t db)))" for r by (rule logs_from_same) simp
  then show ?case
    by (simp add: latch_drawdown_def Let_def case_prod_unfold logs_from_trans [OF _ logs_from_writers(2)])
qed (auto simp: clear_drawdown_def clear_consecutive_def
      intro: logs_from_trans [OF logs_from_writers(3) logs_from_same])

lemma logs_from_covered:
  assumes "logs_from t db db'" "p < t"
  shows "breaker_covered org p db' = breaker_covered org p db"
proof -
  obtain new where new: "bd_intervals db' = bd_intervals db @ new" "\<forall>e \<in> set new. t \<le> bi_at e"
    using assms(1) by (auto simp: logs_from_def)
  have "replay org acc k p db' = replay org acc k p db" for acc k
  proof -
    have "filter (\<lambda>e. bi_at e \<le> p) (filter (\<lambda>e. bi_org e = org \<and> bi_account e = acc \<and> bi_kind e = k) new) = []"
      using new(2) assms(2) by (fastforce simp: filter_empty_conv)
    then show ?thesis by (simp add: replay_opened window_events_def new(1))
  qed
  then show ?thesis by (simp add: breaker_covered_iff)
qed


section \<open>What a scan stores\<close>

lemma trip_breakers_refuses:
  assumes "trip_breakers config s now ec ed h = Inr (v, w)"
  shows "bw_now w = now" "bs_drawdown_latched s \<Longrightarrow> bw_drawdown_latched w"
    "bv_trip_kill_switch v = bw_drawdown_latched w"
    "bw_drawdown_latched w \<or> bw_daily_paused_until w \<noteq> None \<or> bw_consecutive_paused_until w \<noteq> None
       \<Longrightarrow> bv_refuse_new_trades v"
    "pause_still_in_force ed now \<Longrightarrow> bw_daily_paused_until w \<noteq> None"
    "pause_still_in_force ec now \<Longrightarrow> bw_consecutive_paused_until w \<noteq> None"
proof -
  obtain v0 where v0: "evaluate_breakers config s = Inr v0"
    and w: "bw_drawdown_latched w = bv_drawdown_active v0" "bw_now w = now"
      "bv_trip_kill_switch v = bv_trip_kill_switch v0"
      "bv_refuse_new_trades v \<longleftrightarrow> bv_refuse_new_trades v0 \<or> bw_daily_paused_until w \<noteq> None
         \<or> bw_consecutive_paused_until w \<noteq> None"
      "if bv_consecutive_loss_active v0
       then \<exists>t. bw_consecutive_paused_until w = Some t \<and> consecutive_pause_expiry now h ec = Inr t
       else bw_consecutive_paused_until w =
              (if pause_still_in_force ec now then map_option instant ec else None)"
      "bw_daily_paused_until w =
         (if pause_still_in_force ed now then map_option instant ed
          else if bv_daily_loss_active v0 then Some ((instant now div DAY + 1) * DAY) else None)"
    by (rule trip_breakers_Inr [OF assms]) blast
  obtain e k r u t where v0': "v0 = verdict_of config s e k r u t"
    using evaluate_breakers_Inr [OF v0] by metis
  show "bw_now w = now" by (rule w(2))
  show "bs_drawdown_latched s \<Longrightarrow> bw_drawdown_latched w" "bv_trip_kill_switch v = bw_drawdown_latched w"
    by (simp_all add: w(1,3) v0' verdict_simps)
  show "bv_refuse_new_trades v"
    if "bw_drawdown_latched w \<or> bw_daily_paused_until w \<noteq> None \<or> bw_consecutive_paused_until w \<noteq> None"
    using that by (auto simp: w(1,4) v0' verdict_simps)
  show "bw_daily_paused_until w \<noteq> None" if "pause_still_in_force ed now"
    using that by (auto simp: w(6) pause_still_in_force_def split: option.splits)
  show "bw_consecutive_paused_until w \<noteq> None" if "pause_still_in_force ec now"
    using that w(5) by (auto simp: pause_still_in_force_def split: option.splits if_splits)
qed

lemma kill_arms_frame [simp]:
  "bd_kill_arms (append_interval org acc k ph t db) = bd_kill_arms db"
  "bd_kill_arms (note_pause org acc k t u db) = bd_kill_arms db"
  "bd_kill_arms (open_breaker org acc k t db) = bd_kill_arms db"
  "bd_kill_arms (close_breaker org acc k t db) = bd_kill_arms db"
  "bd_kill_arms (note_consecutive_pause org acc t u db) = bd_kill_arms db"
  "bd_kill_arms (put_row row db) = bd_kill_arms db"
  "bd_kill_arms (snd (breaker_row org acc x t db)) = bd_kill_arms db"
  by (simp_all add: append_interval_def note_pause_def open_breaker_def close_breaker_def put_row_def
      note_consecutive_pause_def breaker_row_def Let_def split: option.splits)

lemma kill_arms_record: "bd_kill_arms (record_breaker org acc w db) = bd_kill_arms db"
  by (simp add: record_breaker_alt Let_def)

lemma still_kept_force: "pause_still_in_force (still_kept x now) now \<longleftrightarrow> pause_active x (instant now)"
  by (cases x) (simp_all add: still_kept_def pause_still_in_force_def pause_active_def)

lemma still_kept_Some: "still_kept x now \<noteq> None \<longleftrightarrow> pause_active x (instant now)"
  by (cases x) (simp_all add: still_kept_def pause_still_in_force_def pause_active_def)

text \<open>
  Both branches of a scan end in one \<open>record_breaker\<close> whose arguments cover the stored latch and every
  running pause, and in one arming of the kill switch when the latch is new.
\<close>

lemma persist_profile_breakers_Inr:
  assumes "persist_profile_breakers org user_id acc prof now n daily db = Inr (refuse, db')"
  obtains w where "bw_now w = now"
    "db' = (if bw_drawdown_latched w \<and> \<not> stored_field br_drawdown_latched False (load_breaker org acc db)
            then arm_drawdown_kill_switch org user_id (record_breaker org acc w db)
            else record_breaker org acc w db)"
    "stored_field br_drawdown_latched False (load_breaker org acc db) \<Longrightarrow> bw_drawdown_latched w"
    "bw_drawdown_latched w \<or> bw_daily_paused_until w \<noteq> None \<or> bw_consecutive_paused_until w \<noteq> None \<Longrightarrow> refuse"
    "pause_active (stored_field br_daily_paused_until None (load_breaker org acc db)) (instant now)
       \<Longrightarrow> bw_daily_paused_until w \<noteq> None"
    "pause_active (stored_field br_consecutive_paused_until None (load_breaker org acc db)) (instant now)
       \<Longrightarrow> bw_consecutive_paused_until w \<noteq> None"
    "\<not> (\<exists>e. df_account_equity daily = Fin e \<and> 0 < e) \<Longrightarrow> bw_drawdown_latched w"
proof (cases "\<exists>e. df_account_equity daily = Fin e \<and> 0 < e")
  case True
  then obtain e where e: "df_account_equity daily = Fin e" "0 < e" by blast
  let ?row = "load_breaker org acc db"
  from assms e obtain config s v w where
    trip: "trip_breakers config s now
        (still_kept (stored_field br_consecutive_paused_until None ?row) now)
        (still_kept (stored_field br_daily_paused_until None ?row) now)
        (p_consecutive_loss_cooldown_hours prof) = Inr (v, w)"
    and s: "bs_drawdown_latched s = stored_field br_drawdown_latched False ?row"
    and r: "refuse = bv_refuse_new_trades v"
    and db': "db' = (if bv_trip_kill_switch v \<and> \<not> stored_field br_drawdown_latched False ?row
        then arm_drawdown_kill_switch org user_id (record_breaker org acc w db) else record_breaker org acc w db)"
    unfolding persist_profile_breakers_def Let_def by (fastforce simp: res_simps)
  note t = trip_breakers_refuses [OF trip]
  show ?thesis
    using t s r db' True by (intro that [of w]) (auto simp: still_kept_force)
next
  case False
  let ?row = "load_breaker org acc db"
  have eq: "latch_ruined_equity org user_id acc prof now n daily db = Inr (refuse, db')"
    using assms False by (auto simp: persist_profile_breakers_def split: num.splits if_splits)
  then obtain cu w where
    cu: "(if p_consecutive_loss_limit prof \<le> scan_streak n (stored_field br_consecutive_losses 0 ?row)
            (stored_field br_consecutive_paused_until None ?row) now
          then res_bind (consecutive_pause_expiry now (p_consecutive_loss_cooldown_hours prof)
                 (still_kept (stored_field br_consecutive_paused_until None ?row) now)) (\<lambda>u. Inr (Some u))
          else Inr (map_option instant (still_kept (stored_field br_consecutive_paused_until None ?row) now))) = Inr cu"
    and r: "refuse"
    and w: "bw_now w = now" "bw_drawdown_latched w" "bw_consecutive_paused_until w = cu"
      "bw_daily_paused_until w = map_option instant (still_kept (stored_field br_daily_paused_until None ?row) now)"
    and db': "db' = (if stored_field br_drawdown_latched False ?row then record_breaker org acc w db
        else arm_drawdown_kill_switch org user_id (record_breaker org acc w db))"
    unfolding latch_ruined_equity_def Let_def
    by (auto simp only: res_bind_eq_Inr sum.inject prod.inject) (force split: if_splits)
  have "pause_active (stored_field br_consecutive_paused_until None ?row) (instant now) \<Longrightarrow> cu \<noteq> None"
    using cu by (auto simp: res_bind_eq_Inr still_kept_Some [symmetric] split: if_splits)
  then show ?thesis
    using r w db' by (intro that [of w]) (auto simp: still_kept_Some [unfolded not_None_eq])
qed

section \<open>Properties\<close>

text \<open>
  C28. \<open>breaker_covered\<close>, which groups and sorts the whole log and walks each group, answers what
  replaying the log up to the asked moment answers: some account has some window whose events of that
  moment or before leave it open. So a window is closed at its closing instant, an expired pause or a
  stored reset still covers the time before it, and events logged for later moments do not count.
\<close>

theorem breaker_covered_replay:
  "breaker_covered org point db \<longleftrightarrow>
     (\<exists>acc k. open_started_at org acc k
        (db\<lparr>bd_intervals := filter (\<lambda>e. bi_at e \<le> point) (bd_intervals db)\<rparr>) \<noteq> None)"
  by (simp add: breaker_covered_iff replay_opened open_started_opened window_events_def conj_commute)


definition empty_db :: breaker_db where
  "empty_db = \<lparr>bd_states = [], bd_intervals = [], bd_kill_arms = []\<rparr>"

definition sample_write :: "int \<Rightarrow> int option \<Rightarrow> breaker_write" where
  "sample_write t daily =
     \<lparr>bw_equity_peak = 10000, bw_consecutive_losses = 1, bw_realized_pnl = - 300, bw_unrealized_pnl = 0,
      bw_daily_paused_until = daily, bw_consecutive_paused_until = None, bw_drawdown_latched = False,
      bw_now = Aware t\<rparr>"



text \<open>
  C30. The past of the windows is final: a write at a moment only ever logs events of that moment or
  later, so whether an earlier moment was covered never changes again.
\<close>

theorem past_coverage_final:
  assumes "breaker_step t db db'" "point < t"
  shows "breaker_covered org point db' = breaker_covered org point db
    \<and> prefix (bd_intervals db) (bd_intervals db')"
  using logs_from_covered [OF breaker_step_logs [OF assms(1)] assms(2)] breaker_step_logs [OF assms(1)]
  by (auto simp: logs_from_def)

theorem past_coverage_final_witness:
  "breaker_covered ''o'' 4 (record_breaker ''o'' ''a'' (sample_write 5 (Some 9)) empty_db)
   = breaker_covered ''o'' 4 empty_db"
proof -
  have "breaker_step 5 empty_db (record_breaker ''o'' ''a'' (sample_write 5 (Some 9)) empty_db)"
    by (rule breaker_step.recorded) (simp add: sample_write_def)
  from past_coverage_final [OF this, of 4 "''o''"] show ?thesis by simp
qed

text \<open>
  What one scan of an account leaves behind. A latch that was on stays on, a running daily or
  consecutive pause keeps its expiry, and the streak does not fall while the consecutive pause runs;
  equity that is missing or not positive latches the drawdown and refuses; new trades are reported open
  only when the stored row has no latch and no running pause; the kill switch is armed once, exactly on
  the scan that turns the latch on; the other accounts are not touched.
\<close>

theorem persist_profile_breakers_scan:
  assumes "persist_profile_breakers org user_id acc prof now losses daily db = Inr (refuse, db')"
  shows "\<exists>row'. load_breaker org acc db' = Some row'
    \<and> (\<forall>row. load_breaker org acc db = Some row \<longrightarrow>
          (br_drawdown_latched row \<longrightarrow> br_drawdown_latched row')
        \<and> (pause_active (br_daily_paused_until row) (instant now) \<longrightarrow>
             br_daily_paused_until row' = br_daily_paused_until row)
        \<and> (pause_active (br_consecutive_paused_until row) (instant now) \<longrightarrow>
             br_consecutive_paused_until row' = br_consecutive_paused_until row
           \<and> br_consecutive_losses row \<le> br_consecutive_losses row'))
    \<and> (\<not> (\<exists>e. df_account_equity daily = Fin e \<and> 0 < e) \<longrightarrow> br_drawdown_latched row' \<and> refuse)
    \<and> (br_drawdown_latched row' \<or> pause_active (br_daily_paused_until row') (instant now)
       \<or> pause_active (br_consecutive_paused_until row') (instant now) \<longrightarrow> refuse)
    \<and> bd_kill_arms db' = bd_kill_arms db @
        (if br_drawdown_latched row' \<and> \<not> stored_field br_drawdown_latched False (load_breaker org acc db)
         then [(org, user_id)] else [])
    \<and> (\<forall>o' a'. (o', a') \<noteq> (org, acc) \<longrightarrow> load_breaker o' a' db' = load_breaker o' a' db)"
  using assms
proof (rule persist_profile_breakers_Inr, goal_cases)
  case (1 w)
  let ?row0 = "base_row org acc (bw_equity_peak w) (instant (bw_now w)) db"
  let ?row' = "recorded_row w ?row0"
  have arms: "bd_kill_arms (record_breaker org acc w db) = bd_kill_arms db"
    by (rule kill_arms_record)
  have new: "br_drawdown_latched ?row' \<longleftrightarrow> stored_field br_drawdown_latched False (load_breaker org acc db) \<or> bw_drawdown_latched w"
    "br_daily_paused_until ?row' = kept_pause (stored_field br_daily_paused_until None (load_breaker org acc db)) (bw_daily_paused_until w) (instant now)"
    "br_consecutive_paused_until ?row' = kept_pause (stored_field br_consecutive_paused_until None (load_breaker org acc db)) (bw_consecutive_paused_until w) (instant now)"
    by (simp_all add: recorded_row_def Let_def base_row_fields 1(1))
  have load: "load_breaker o' a' db' = (if (o', a') = (org, acc) then Some ?row' else load_breaker o' a' db)" for o' a'
    unfolding 1(2) by (simp add: load_record_breaker)
  have arms': "bd_kill_arms db' = bd_kill_arms db @
      (if br_drawdown_latched ?row' \<and> \<not> stored_field br_drawdown_latched False (load_breaker org acc db)
       then [(org, user_id)] else [])"
    unfolding 1(2) new(1) using arms by (simp add: arm_drawdown_kill_switch_def)
  have losses: "br_consecutive_losses row \<le> br_consecutive_losses ?row'"
    if "load_breaker org acc db = Some row" "pause_active (br_consecutive_paused_until row) (instant now)" for row
    using that by (auto simp: recorded_row_def Let_def base_row_fields stored_field_def 1(1) pause_active_def)
  have pauses: "refuse" if "br_drawdown_latched ?row' \<or> pause_active (br_daily_paused_until ?row') (instant now)
       \<or> pause_active (br_consecutive_paused_until ?row') (instant now)"
    using that 1(3-6) unfolding new
    by (auto simp: kept_pause_def pause_active_def split: if_splits option.splits)
  show ?case
    using load losses pauses arms' 1(4,7)
    by (intro exI [of _ ?row']) (auto simp: new kept_pause_def stored_field_def pause_active_def split: option.splits)
qed

definition ruined_figures :: daily_figures where
  "ruined_figures = \<lparr>df_account_equity = Fin (- 5), df_realized_pnl = - 10005, df_unrealized_pnl = 0\<rparr>"

lemma ruined_scan:
  "\<exists>db'. persist_profile_breakers ''o'' ''u'' ''a'' (placeholder_base DEMO) (Aware 5) (Some 1) ruined_figures
           empty_db = Inr (True, db')"
  by (simp add: persist_profile_breakers_def ruined_figures_def latch_ruined_equity_def Let_def load_breaker_def
      empty_db_def stored_field_def scan_streak_def pause_active_def placeholder_base_def)

theorem persist_profile_breakers_scan_witness:
  "\<exists>db' row'. persist_profile_breakers ''o'' ''u'' ''a'' (placeholder_base DEMO) (Aware 5) (Some 1)
       ruined_figures empty_db = Inr (True, db')
     \<and> load_breaker ''o'' ''a'' db' = Some row' \<and> br_drawdown_latched row'
     \<and> bd_kill_arms db' = [(''o'', ''u'')]"
proof -
  obtain db' where s: "persist_profile_breakers ''o'' ''u'' ''a'' (placeholder_base DEMO) (Aware 5) (Some 1)
      ruined_figures empty_db = Inr (True, db')"
    using ruined_scan by blast
  from persist_profile_breakers_scan [OF s] obtain row' where
    "load_breaker ''o'' ''a'' db' = Some row'" "br_drawdown_latched row'"
    "bd_kill_arms db' = bd_kill_arms empty_db @
       (if br_drawdown_latched row' \<and> \<not> stored_field br_drawdown_latched False (load_breaker ''o'' ''a'' empty_db)
        then [(''o'', ''u'')] else [])"
    by (auto simp: ruined_figures_def)
  then show ?thesis using s by (auto simp: empty_db_def load_breaker_def stored_field_def)
qed

text \<open>
  Why the runs above exclude a write at the very microsecond of a logged event. A daily pause that
  starts at the instant the previous one expires (a scan at midnight sharp) logs its opening at the
  instant of the earlier closing; both readers put the opening first, so the closing ends both windows:
  the pause is active a moment later and no window covers it.
\<close>

theorem reopening_at_expiry_is_not_covered:
  "let db = record_breaker ''o'' ''a'' (sample_write DAY (Some (2 * DAY)))
              (record_breaker ''o'' ''a'' (sample_write 5 (Some DAY)) empty_db)
   in breaker_active ''o'' (DAY + 1) db \<and> \<not> breaker_covered ''o'' (DAY + 1) db"
  by code_simp

end
