(* ===== verification/Liquidation.thy ===== *)
theory Liquidation
  imports Sizer
begin

text \<open>
  The isolated-margin liquidation buffer, \<^verbatim>\<open>services/risk_policy/liquidation.py\<close>. \<open>MaintenanceTier\<close>
  has the prefix \<open>mt_\<close>, \<open>LiquidationCheck\<close> the prefix \<open>lq_\<close> and \<open>LiquidationRecheck\<close> the prefix \<open>rc_\<close>. All
  prices are finite; a maintenance rate is a Decimal that may be an infinity or a NaN, as the code
  tests it.
\<close>

definition ATR_BUFFER :: rat where "ATR_BUFFER = 15 / 10"
definition STOP_MULTIPLE :: rat where "STOP_MULTIPLE = 2"

record maintenance_tier =
  mt_notional_floor :: rat
  mt_maintenance_rate :: num

record liquidation_check =
  lq_accepted :: bool
  lq_reason :: "string option"
  lq_liquidation_distance :: "rat option"
  lq_required_buffer :: "rat option"
  lq_maintenance_rate :: "rat option"

record liquidation_recheck =
  rc_action :: string
  rc_accepted :: bool
  rc_reason :: "string option"
  rc_liquidation_distance :: "rat option"
  rc_required_buffer :: "rat option"
  rc_exchange_write_attempted :: bool

definition required_buffer :: "rat \<Rightarrow> rat \<Rightarrow> rat res" where
  "required_buffer stop_distance atr =
     (if stop_distance \<le> 0 \<or> atr \<le> 0 then Inl (Rejected ''liquidation_inputs_invalid'')
      else Inr (max (dmul stop_distance STOP_MULTIPLE) (dadd stop_distance (dmul ATR_BUFFER atr))))"

text \<open>The loop of \<open>select_maintenance_tier\<close> over the tiers sorted by their floor.\<close>

fun tier_loop :: "rat \<Rightarrow> (rat \<times> rat) option \<Rightarrow> maintenance_tier list \<Rightarrow> (rat \<times> rat) option res" where
  "tier_loop notional chosen [] = Inr chosen"
| "tier_loop notional chosen (t # ts) =
     (case mt_maintenance_rate t of
        NonFinite \<Rightarrow> Inl (Rejected ''maintenance_rate_invalid'')
      | Fin rate \<Rightarrow>
          if rate < 0 \<or> 1 \<le> rate then Inl (Rejected ''maintenance_rate_invalid'')
          else tier_loop notional
                 (if mt_notional_floor t \<le> notional then Some (mt_notional_floor t, rate) else chosen) ts)"

definition select_maintenance_tier :: "rat \<Rightarrow> maintenance_tier list option \<Rightarrow> (rat \<times> rat) res" where
  "select_maintenance_tier notional tiers =
     (case tiers of
        None \<Rightarrow> Inl (Rejected ''maintenance_tiers_unavailable'')
      | Some ts \<Rightarrow>
          if ts = [] then Inl (Rejected ''maintenance_tiers_unavailable'') else
          if notional \<le> 0 then Inl (Rejected ''notional_invalid'') else
          res_bind (tier_loop notional None (sort_key mt_notional_floor ts)) (\<lambda>chosen.
          case chosen of None \<Rightarrow> Inl (Rejected ''maintenance_tier_unmatched'') | Some t \<Rightarrow> Inr t))"

definition liquidation_distance :: "rat \<Rightarrow> rat \<Rightarrow> rat \<Rightarrow> rat res" where
  "liquidation_distance entry leverage maintenance_rate =
     (if entry \<le> 0 \<or> leverage < 1 then Inl (Rejected ''liquidation_inputs_invalid'')
      else let initial = ddiv 1 leverage; distance = dmul entry (dsub initial maintenance_rate)
           in if distance \<le> 0 then Inl (Rejected ''liquidation_distance_non_positive'')
              else Inr distance)"

definition liquidation_crosses_stop :: "string \<Rightarrow> rat \<Rightarrow> rat \<Rightarrow> bool res" where
  "liquidation_crosses_stop direction liquidation_price stop =
     (if direction = ''long'' then Inr (stop \<le> liquidation_price)
      else if direction = ''short'' then Inr (liquidation_price \<le> stop)
      else Inl (Rejected ''direction_missing''))"

definition isolated_liquidation_price :: "rat \<Rightarrow> rat \<Rightarrow> rat \<Rightarrow> string \<Rightarrow> rat res" where
  "isolated_liquidation_price entry leverage maintenance_rate direction =
     res_bind (liquidation_distance entry leverage maintenance_rate) (\<lambda>distance.
     if direction = ''long'' then Inr (dsub entry distance)
     else if direction = ''short'' then Inr (dadd entry distance)
     else Inl (Rejected ''direction_missing''))"

definition leverage_clearing_buffer :: "rat \<Rightarrow> rat \<Rightarrow> rat \<Rightarrow> rat \<Rightarrow> rat option" where
  "leverage_clearing_buffer entry buffer maintenance_rate requested =
     (if entry \<le> 0 \<or> buffer \<le> 0 \<or> requested < 1 then None
      else if maintenance_rate < 0 \<or> 1 \<le> maintenance_rate then None
      else let denominator = dadd (ddiv buffer entry) maintenance_rate
           in if denominator \<le> 0 then Some requested
              else let maximum = to_integral (ddiv 1 denominator)
                   in if maximum < 1 then None
                      else if requested \<le> maximum then Some requested
                      else Some maximum)"

definition liquidation_refusal :: "string \<Rightarrow> liquidation_check" where
  "liquidation_refusal reason =
     \<lparr>lq_accepted = False, lq_reason = Some reason, lq_liquidation_distance = None,
      lq_required_buffer = None, lq_maintenance_rate = None\<rparr>"

text \<open>
  \<open>InvalidOperation\<close> cannot arise in the \<^verbatim>\<open>try\<close> block (no \<^verbatim>\<open>quantize\<close>), so the result is a
  \<open>liquidation_check\<close> in every case where \<open>on_rejected\<close> sees a refusal.
\<close>

definition check_liquidation_buffer ::
    "rat \<Rightarrow> rat \<Rightarrow> rat option \<Rightarrow> rat \<Rightarrow> rat \<Rightarrow> string option \<Rightarrow> maintenance_tier list option
     \<Rightarrow> liquidation_check res" where
  "check_liquidation_buffer entry stop_distance atr leverage notional margin_mode tiers =
     (case margin_mode of
        None \<Rightarrow> Inr (liquidation_refusal ''margin_mode_not_isolated'')
      | Some mode \<Rightarrow>
          if lower mode \<noteq> ''isolated'' then Inr (liquidation_refusal ''margin_mode_not_isolated'') else
          case atr of
            None \<Rightarrow> Inr (liquidation_refusal ''atr_missing'')
          | Some r \<Rightarrow>
              if r \<le> 0 then Inr (liquidation_refusal ''atr_missing'') else
              on_rejected
                (res_bind (required_buffer stop_distance r) (\<lambda>buffer.
                 res_bind (select_maintenance_tier notional tiers) (\<lambda>tier.
                 res_bind (liquidation_distance entry leverage (snd tier)) (\<lambda>distance.
                 Inr (buffer, tier, distance)))))
                (\<lambda>code. Inr (liquidation_refusal code))
                (\<lambda>(buffer, tier, distance).
                   let ok = \<not> distance < buffer
                   in Inr \<lparr>lq_accepted = ok,
                           lq_reason = (if ok then None else Some ''liquidation_inside_buffer''),
                           lq_liquidation_distance = Some distance,
                           lq_required_buffer = Some buffer,
                           lq_maintenance_rate = Some (snd tier)\<rparr>))"

definition recheck_after_fill ::
    "rat \<Rightarrow> rat \<Rightarrow> rat option \<Rightarrow> rat \<Rightarrow> rat \<Rightarrow> string option \<Rightarrow> maintenance_tier list option
     \<Rightarrow> liquidation_recheck res" where
  "recheck_after_fill fill_price stop_distance atr leverage notional margin_mode tiers =
     res_bind (check_liquidation_buffer fill_price stop_distance atr leverage notional margin_mode tiers)
       (\<lambda>outcome.
     Inr \<lparr>rc_action = (if lq_accepted outcome then ''hold'' else ''close_or_reduce''),
          rc_accepted = lq_accepted outcome, rc_reason = lq_reason outcome,
          rc_liquidation_distance = lq_liquidation_distance outcome,
          rc_required_buffer = lq_required_buffer outcome,
          rc_exchange_write_attempted = False\<rparr>)"

section \<open>Tier selection\<close>

definition tier_rate_ok :: "maintenance_tier \<Rightarrow> bool" where
  "tier_rate_ok t \<longleftrightarrow> (case mt_maintenance_rate t of Fin r \<Rightarrow> 0 \<le> r \<and> r < 1 | NonFinite \<Rightarrow> False)"

lemma tier_rate_okD: "tier_rate_ok t \<Longrightarrow> \<exists>r. mt_maintenance_rate t = Fin r \<and> 0 \<le> r \<and> r < 1"
  by (auto simp: tier_rate_ok_def split: num.splits)

lemma tier_loop_Inr:
  assumes "tier_loop n chosen ts = Inr c" "sorted (map mt_notional_floor ts)"
    and "\<And>x. chosen = Some x \<Longrightarrow> \<forall>t \<in> set ts. fst x \<le> mt_notional_floor t"
  shows "list_all tier_rate_ok ts
    \<and> (\<forall>t \<in> set ts. mt_notional_floor t \<le> n \<longrightarrow> (\<exists>x. c = Some x \<and> mt_notional_floor t \<le> fst x))
    \<and> (case c of None \<Rightarrow> chosen = None
       | Some x \<Rightarrow> chosen = Some x \<or>
           (\<exists>t \<in> set ts. mt_notional_floor t \<le> n \<and> fst x = mt_notional_floor t
              \<and> mt_maintenance_rate t = Fin (snd x)))
    \<and> (\<forall>x. chosen = Some x \<longrightarrow> (\<exists>y. c = Some y \<and> fst x \<le> fst y))"
  using assms
proof (induction n chosen ts rule: tier_loop.induct)
  case (1 n chosen)
  then show ?case by (auto split: option.splits)
next
  case (2 n chosen t ts)
  then obtain r where r: "mt_maintenance_rate t = Fin r" "0 \<le> r" "r < 1"
    by (auto split: num.splits if_splits)
  let ?ch = "if mt_notional_floor t \<le> n then Some (mt_notional_floor t, r) else chosen"
  have "tier_loop n ?ch ts = Inr c" using 2(2) r by simp
  note IH = 2(1) [OF r(1) _ this]
  have "list_all tier_rate_ok ts
    \<and> (\<forall>t \<in> set ts. mt_notional_floor t \<le> n \<longrightarrow> (\<exists>x. c = Some x \<and> mt_notional_floor t \<le> fst x))
    \<and> (case c of None \<Rightarrow> ?ch = None
       | Some x \<Rightarrow> ?ch = Some x \<or>
           (\<exists>t \<in> set ts. mt_notional_floor t \<le> n \<and> fst x = mt_notional_floor t
              \<and> mt_maintenance_rate t = Fin (snd x)))
    \<and> (\<forall>x. ?ch = Some x \<longrightarrow> (\<exists>y. c = Some y \<and> fst x \<le> fst y))"
    using r 2(3,4) by (intro IH) (auto split: if_splits)
  moreover have "tier_rate_ok t" using r by (simp add: tier_rate_ok_def)
  ultimately show ?case
    using r 2(4) by (cases "mt_notional_floor t \<le> n") (auto split: option.splits)
qed

lemma select_maintenance_tier_Inr:
  assumes "select_maintenance_tier n tiers = Inr x"
  obtains ts t where "tiers = Some ts" "0 < n" "list_all tier_rate_ok ts" "t \<in> set ts"
    "mt_notional_floor t \<le> n" "fst x = mt_notional_floor t" "mt_maintenance_rate t = Fin (snd x)"
    "\<forall>t \<in> set ts. mt_notional_floor t \<le> n \<longrightarrow> mt_notional_floor t \<le> fst x"
proof -
  from assms obtain ts where ts: "tiers = Some ts" "0 < n"
    "tier_loop n None (sort_key mt_notional_floor ts) = Inr (Some x)"
    by (auto simp: select_maintenance_tier_def res_simps not_le)
  from tier_loop_Inr [OF ts(3)] ts(1,2) show ?thesis
    by (auto simp: list_all_iff intro!: that)
qed

section \<open>The buffer\<close>

lemma required_buffer_Inr:
  assumes "required_buffer s atr = Inr b"
  shows "0 < s" "0 < atr" "dmul s 2 \<le> b" "dadd s (dmul ATR_BUFFER atr) \<le> b" "0 < b"
proof -
  have b: "\<not> (s \<le> 0 \<or> atr \<le> 0)" "b = max (dmul s 2) (dadd s (dmul ATR_BUFFER atr))"
    using assms by (auto simp: required_buffer_def STOP_MULTIPLE_def split: if_splits)
  then show "0 < s" "0 < atr" "dmul s 2 \<le> b" "dadd s (dmul ATR_BUFFER atr) \<le> b" by auto
  then show "0 < b" using dmul_pos [of s 2] by linarith
qed

lemma liquidation_distance_Inr:
  "liquidation_distance entry leverage rate = Inr d \<longleftrightarrow>
     0 < entry \<and> 1 \<le> leverage \<and> 0 < d \<and> d = dmul entry (dsub (ddiv 1 leverage) rate)"
  by (auto simp: liquidation_distance_def Let_def not_le not_less split: if_splits)

lemma check_liquidation_accepted:
  assumes "check_liquidation_buffer entry s atr leverage notional mode tiers = Inr c" "lq_accepted c"
  obtains r buffer tier distance where
    "atr = Some r" "required_buffer s r = Inr buffer"
    "select_maintenance_tier notional tiers = Inr tier"
    "liquidation_distance entry leverage (snd tier) = Inr distance" "buffer \<le> distance"
    "lq_maintenance_rate c = Some (snd tier)"
  using assms unfolding check_liquidation_buffer_def
  by (auto simp: on_rejected_eq_Inr res_simps liquidation_refusal_def Let_def not_less
      split: option.splits if_splits)

lemma liquidation_distance_le:
  assumes "liquidation_distance entry leverage rate = Inr d" "0 \<le> rate"
  shows "d \<le> (1 + EPS) ^ 3 * entry"
proof -
  have d: "0 < entry" "1 \<le> leverage" "0 < d" "d = dmul entry (dsub (ddiv 1 leverage) rate)"
    using assms(1) by (simp_all add: liquidation_distance_Inr)
  let ?i = "ddiv 1 leverage"
  have i: "?i \<le> (1 + EPS) ^ 1 * (1 / leverage)" using ddiv_up [of 1 leverage 0 1] d(2) by simp
  have pos: "0 < dsub ?i rate"
    using d(1,3,4) by (simp add: dmul_def dec28.rnd_pos_iff zero_less_mult_iff)
  have "rate \<le> ?i" using pos by (simp add: dsub_pos_iff)
  then have "dsub ?i rate \<le> (1 + EPS) ^ 1 * ?i"
    using assms(2) dec28.u_nonneg
    by (intro order_trans [OF dsub_up] mult_left_mono) auto
  from dec28.up_pow_trans [OF this i] have "dsub ?i rate \<le> (1 + EPS) ^ 2 * (1 / leverage)" by (simp add: numeral_2_eq_2)
  also have "\<dots> \<le> (1 + EPS) ^ 2 * 1"
    using d(2) dec28.u_nonneg by (intro mult_left_mono) auto
  finally have "dmul (dsub ?i rate) entry \<le> (1 + EPS) ^ 3 * (1 * entry)"
    using dmul_up [of "dsub ?i rate" entry 2 1] pos d(1) by (simp add: numeral_3_eq_3 numeral_2_eq_2)
  then show ?thesis using d(4) by (simp add: dmul_def mult.commute)
qed

text \<open>
  The point of the buffer: when the distance to liquidation clears it and the stop is not
  absurdly close to the entry, the liquidation price lies strictly beyond the stop.
\<close>

lemma buffer_keeps_liquidation_beyond_stop:
  assumes "stop_distance_of direction entry stop = Inr s" "direction \<in> {''long'', ''short''}"
    and "dmul s 2 \<le> d" "d \<le> (1 + EPS) ^ 3 * entry" "0 < entry" "entry / 10 ^ 20 \<le> s"
  shows "direction = ''long'' \<Longrightarrow> dsub entry d < stop"
    and "direction = ''short'' \<Longrightarrow> stop < dadd entry d"
proof -
  have eps: "(1 + EPS) ^ 3 \<le> 2" by (simp add: EPS_def power3_eq_cube)
  have s0: "0 < s" using assms(5,6) by (simp add: less_le_trans [of 0 "entry / 10 ^ 20"])
  have low: "(1 - EPS) * (s * 2) \<le> d"
    using dmul_low [of s 2 0 s] s0 assms(3) by simp
  then have d0: "0 \<le> d" using s0 dec28.u_le_1 by (intro order_trans [OF _ low]) auto
  have d2: "d \<le> 2 * entry"
    using order_trans [OF assms(4) mult_right_mono [OF eps]] assms(5) by simp
  {
    assume l: "direction = ''long''"
    then have s: "(1 - EPS) * (entry - stop) \<le> s" "stop < entry"
      using assms(1) dec28.rnd_lower [of "entry - stop"]
      by (auto simp: stop_distance_of_def dsub_def split: if_splits)
    have "dsub entry d \<le> (entry - d) + EPS * \<bar>entry - d\<bar>"
      using dec28.rnd_error [of "entry - d"] by (simp add: dsub_def abs_le_iff)
    also have "\<dots> \<le> (entry - d) + EPS * (2 * entry)"
      using d0 d2 assms(5) dec28.u_nonneg by (intro add_left_mono mult_left_mono) (auto simp: abs_le_iff)
    finally show "dsub entry d < stop"
      using low s assms(5,6) by (simp add: EPS_def field_simps)
  }
  {
    assume l: "direction = ''short''"
    then have s: "(1 - EPS) * (stop - entry) \<le> s" "entry < stop"
      using assms(1) dec28.rnd_lower [of "stop - entry"]
      by (auto simp: stop_distance_of_def dsub_def split: if_splits)
    have "(entry + d) - EPS * \<bar>entry + d\<bar> \<le> dadd entry d"
      using dec28.rnd_error [of "entry + d"] by (simp add: dadd_def abs_le_iff)
    moreover have "EPS * \<bar>entry + d\<bar> \<le> EPS * (3 * entry)"
      using d0 d2 assms(5) dec28.u_nonneg by (intro mult_left_mono) (auto simp: abs_le_iff)
    ultimately show "stop < dadd entry d"
      using low s assms(5,6) by (simp add: EPS_def field_simps)
  }
qed

section \<open>The highest leverage that clears the buffer\<close>

lemma clearing_denominator:
  assumes "0 < entry" "0 < buffer" "0 \<le> rate"
  defines "x \<equiv> buffer / entry + rate"
  shows "(1 - EPS) ^ 2 * x \<le> dadd (ddiv buffer entry) rate"
    and "dadd (ddiv buffer entry) rate \<le> (1 + EPS) ^ 2 * x" and "0 < x"
proof -
  have pos: "0 < ddiv buffer entry" using assms by (simp add: dec_sign)
  show "0 < x" using assms by (simp add: x_def add_pos_nonneg)
  have "(1 - EPS) ^ 1 * (buffer / entry) \<le> ddiv buffer entry"
    using dec28.rnd_lower [of "buffer / entry"] assms by (simp add: ddiv_def)
  moreover have "(1 - EPS) ^ 1 * rate \<le> rate"
    using dec28.low_pow_mono [of rate 0 1 rate] assms by simp
  ultimately show "(1 - EPS) ^ 2 * x \<le> dadd (ddiv buffer entry) rate"
    using dadd_low [of "ddiv buffer entry" rate 1 "buffer / entry" rate] pos assms
    by (simp add: numeral_2_eq_2)
  have "ddiv buffer entry + rate \<le> (1 + EPS) ^ 1 * x"
    using ddiv_up [of buffer entry 0 buffer] dec28.up_pow_mono [of rate 0 1 rate] assms
    by (simp add: x_def distrib_left)
  then show "dadd (ddiv buffer entry) rate \<le> (1 + EPS) ^ 2 * x"
    using dec28.rnd_up_pow [of "ddiv buffer entry + rate" 1 x] pos assms
    by (simp add: dadd_def numeral_2_eq_2)
qed

lemma leverage_clearing_buffer_cases:
  assumes "leverage_clearing_buffer entry buffer rate requested = Some l"
  shows "0 < entry" "0 < buffer" "0 \<le> rate" "rate < 1" "1 \<le> requested" "1 \<le> l"
    "l = min requested (to_integral (ddiv 1 (dadd (ddiv buffer entry) rate)))"
proof -
  have h: "0 < entry" "0 < buffer" "0 \<le> rate" "rate < 1" "1 \<le> requested"
    using assms by (auto simp: leverage_clearing_buffer_def not_le not_less split: if_splits)
  then show "0 < entry" "0 < buffer" "0 \<le> rate" "rate < 1" "1 \<le> requested" by auto
  have "0 < dadd (ddiv buffer entry) rate" using h by (simp add: dec_sign)
  then show "1 \<le> l" "l = min requested (to_integral (ddiv 1 (dadd (ddiv buffer entry) rate)))"
    using assms h
    by (auto simp: leverage_clearing_buffer_def Let_def not_le not_less min_def split: if_splits)
qed

lemma clearing_upper:
  assumes "leverage_clearing_buffer entry buffer rate requested = Some l"
  shows "l * (buffer / entry + rate) \<le> 1 + 1 / 10 ^ 26"
proof -
  note h = leverage_clearing_buffer_cases [OF assms]
  define den where "den = dadd (ddiv buffer entry) rate"
  have den: "(1 - EPS) ^ 2 * (buffer / entry + rate) \<le> den" "0 < den"
    using clearing_denominator(1) [OF h(1-3)] h by (simp_all add: den_def dec_sign)
  have "l \<le> to_integral (ddiv 1 den)" using h(7) by (simp add: den_def)
  also have "\<dots> \<le> ddiv 1 den" using den(2) by (intro to_integral_le) (simp add: dec_sign)
  also have "\<dots> \<le> (1 + EPS) ^ 1 * (1 / den)" using ddiv_up [of 1 den 0 1] den(2) by simp
  finally have "l * den \<le> 1 + EPS" using den(2) by (simp add: pos_le_divide_eq)
  moreover have "l * ((1 - EPS) ^ 2 * (buffer / entry + rate)) \<le> l * den"
    using den(1) h(6) by (intro mult_left_mono) auto
  ultimately have "(1 - EPS) ^ 2 * (l * (buffer / entry + rate)) \<le> 1 + EPS"
    by (simp only: mult.left_commute)
  also have "\<dots> \<le> (1 - EPS) ^ 2 * (1 + 1 / 10 ^ 26)" by (simp add: EPS_def power2_eq_square)
  finally have "(1 - EPS) ^ 2 * (l * (buffer / entry + rate)) \<le> (1 - EPS) ^ 2 * (1 + 1 / 10 ^ 26)" .
  moreover have "0 < (1 - EPS) ^ 2" by (simp add: EPS_def)
  ultimately show ?thesis by (simp only: mult_le_cancel_left_pos)
qed

lemma clearing_maximal:
  assumes "leverage_clearing_buffer entry buffer rate requested = Some l"
    and "l < of_int n" "of_int n \<le> requested"
  shows "1 - 1 / 10 ^ 26 \<le> of_int n * (buffer / entry + rate)"
proof -
  note h = leverage_clearing_buffer_cases [OF assms(1)]
  define den where "den = dadd (ddiv buffer entry) rate"
  have den: "den \<le> (1 + EPS) ^ 2 * (buffer / entry + rate)" "0 < den"
    using clearing_denominator(2) [OF h(1-3)] h by (simp_all add: den_def dec_sign)
  have l: "l = of_int (round_down (ddiv 1 den))"
    using h(7) assms(2,3) by (auto simp: den_def to_integral_def min_def split: if_splits)
  then have "of_int (round_down (ddiv 1 den)) + 1 \<le> (of_int n :: rat)"
    using assms(2) by (simp only: of_int_less_iff)
  then have "ddiv 1 den \<le> of_int n"
    using round_down_bounds [of "ddiv 1 den"] den(2) by (simp add: dec_sign)
  moreover have "(1 - EPS) * (1 / den) \<le> ddiv 1 den"
    using dec28.rnd_lower [of "1 / den"] den(2) by (simp add: ddiv_def)
  ultimately have "(1 - EPS) / den \<le> of_int n" by simp
  then have "1 - EPS \<le> of_int n * den" using den(2) by (simp add: pos_divide_le_eq)
  also have "\<dots> \<le> of_int n * ((1 + EPS) ^ 2 * (buffer / entry + rate))"
    using den(1) h(6) assms(2) by (intro mult_left_mono) auto
  finally have "1 - EPS \<le> (1 + EPS) ^ 2 * (of_int n * (buffer / entry + rate))"
    by (simp only: mult.left_commute)
  moreover have "(1 + EPS) ^ 2 * (1 - 1 / 10 ^ 26) \<le> 1 - EPS"
    by (simp add: EPS_def power2_eq_square)
  ultimately have "(1 + EPS) ^ 2 * (1 - 1 / 10 ^ 26) \<le> (1 + EPS) ^ 2 * (of_int n * (buffer / entry + rate))"
    by (rule order_trans [rotated])
  moreover have "0 < (1 + EPS) ^ 2" by (simp add: EPS_def)
  ultimately show ?thesis by (simp only: mult_le_cancel_left_pos)
qed

section \<open>Properties\<close>

text \<open>
  \<open>select_maintenance_tier\<close> picks the tier that applies: the result is the floor and the rate of
  one of the given tiers, its floor is the greatest that the notional reaches, and every tier of
  the table, also those above the notional, has a finite rate in the interval from 0 to 1.
\<close>

theorem select_maintenance_tier_correct:
  assumes "select_maintenance_tier notional (Some tiers) = Inr x"
  shows "(\<exists>t \<in> set tiers. mt_notional_floor t = fst x \<and> mt_maintenance_rate t = Fin (snd x))
    \<and> fst x \<le> notional
    \<and> (\<forall>t \<in> set tiers. mt_notional_floor t \<le> notional \<longrightarrow> mt_notional_floor t \<le> fst x)
    \<and> (\<forall>t \<in> set tiers. \<exists>r. mt_maintenance_rate t = Fin r \<and> 0 \<le> r \<and> r < 1)"
  using assms
proof (rule select_maintenance_tier_Inr, goal_cases)
  case (1 ts t)
  then show ?case
    using tier_rate_okD by (auto simp: list_all_iff intro!: bexI [of _ t])
qed

definition sample_tiers :: "maintenance_tier list" where
  "sample_tiers =
     [\<lparr>mt_notional_floor = 50000, mt_maintenance_rate = Fin (1 / 100)\<rparr>,
      \<lparr>mt_notional_floor = 0, mt_maintenance_rate = Fin (5 / 1000)\<rparr>]"

lemma sample_tier: "select_maintenance_tier 1000 (Some sample_tiers) = Inr (0, 1 / 200)"
  by code_simp

theorem select_maintenance_tier_correct_witness:
  "(\<exists>t \<in> set sample_tiers. mt_notional_floor t = 0 \<and> mt_maintenance_rate t = Fin (1 / 200))
   \<and> (0 :: rat) \<le> 1000"
  using select_maintenance_tier_correct [OF sample_tier] by simp

text \<open>
  \<open>leverage_clearing_buffer\<close> never raises the leverage, never goes below 1x, clears the buffer
  and gives away nothing: the result times the share of the entry that buffer and maintenance take
  is at most one, every larger whole leverage up to the request exhausts the margin, and a result
  below the request is a whole number. All up to one part in \<open>10 ^ 26\<close>.
\<close>

theorem leverage_clearing_buffer_correct:
  assumes "leverage_clearing_buffer entry buffer maintenance_rate requested = Some l"
  shows "1 \<le> l \<and> l \<le> requested
    \<and> l * (buffer / entry + maintenance_rate) \<le> 1 + 1 / 10 ^ 26
    \<and> (\<forall>n. l < of_int n \<longrightarrow> of_int n \<le> requested \<longrightarrow>
         1 - 1 / 10 ^ 26 \<le> of_int n * (buffer / entry + maintenance_rate))
    \<and> (l = requested \<or> (\<exists>n. l = of_int n))"
  using leverage_clearing_buffer_cases(6,7) [OF assms] clearing_upper [OF assms]
    clearing_maximal [OF assms]
  by (auto simp: to_integral_def min_def)

lemma sample_clearing: "leverage_clearing_buffer 100 24 (1 / 100) 10 = Some 4"
  by (simp add: leverage_clearing_buffer_def dec_eval)

theorem leverage_clearing_buffer_correct_witness:
  "(4 :: rat) * (24 / 100 + 1 / 100) \<le> 1 + 1 / 10 ^ 26
   \<and> leverage_clearing_buffer 100 24 (1 / 100) 10 = Some 4"
  using leverage_clearing_buffer_correct [OF sample_clearing] sample_clearing by blast

end
