(* ===== verification/Decision.thy ===== *)
theory Decision
  imports Liquidation Breakers
begin

text \<open>
  One new trade from grade to record: \<^verbatim>\<open>services/risk_policy/decision.py\<close> with
  \<^verbatim>\<open>services/risk_policy/records.py\<close>. \<open>TradeDecision\<close> has the prefix \<open>td_\<close>, \<open>TradeRiskRecord\<close> the
  prefix \<open>tr_\<close>. The record stores the adjuster result and the sizing result themselves, where the
  code stores their fields as text.

  The leverage loop \<^verbatim>\<open>for _ in range(32)\<close> is \<open>leverage_loop\<close> with the bound as fuel; the bound is
  shown to be more than any run needs.
\<close>

record trade_risk_record =
  tr_profile_version_id :: string
  tr_grade :: grade
  tr_grader_version :: string
  tr_adjusters :: adjuster_result
  tr_calculation :: sizing_result
  tr_policy_id :: string
  tr_applies_to_new_trades_only :: bool
  tr_ai_explanation :: "string option"

record trade_decision =
  td_accepted :: bool
  td_reason :: "string option"
  td_record :: "trade_risk_record option"
  td_sizing :: "sizing_result option"

definition build_trade_record ::
    "string \<Rightarrow> grade_decision \<Rightarrow> adjuster_result \<Rightarrow> sizing_result \<Rightarrow> string option
     \<Rightarrow> trade_risk_record res" where
  "build_trade_record profile_version_id decision adjusters sizing ai_explanation =
     (case gd_grade decision of
        None \<Rightarrow> Inl ValueError
      | Some g \<Rightarrow>
          Inr \<lparr>tr_profile_version_id = profile_version_id, tr_grade = g,
               tr_grader_version = gd_grader_version decision, tr_adjusters = adjusters,
               tr_calculation = sizing, tr_policy_id = POLICY_ID,
               tr_applies_to_new_trades_only = True, tr_ai_explanation = ai_explanation\<rparr>)"

definition refuse_trade :: "string option \<Rightarrow> trade_decision" where
  "refuse_trade reason =
     \<lparr>td_accepted = False, td_reason = reason, td_record = None, td_sizing = None\<rparr>"

text \<open>A price the sizer has already read as finite.\<close>

definition fin_option :: "num option \<Rightarrow> rat option" where
  "fin_option v = (case v of Some (Fin x) \<Rightarrow> Some x | _ \<Rightarrow> None)"

datatype loop_end = Refuse "string option" | Break sizing_result

fun leverage_loop ::
    "nat \<Rightarrow> profile \<Rightarrow> sizing_input \<Rightarrow> maintenance_tier list option \<Rightarrow> promotion_report option
     \<Rightarrow> bool \<Rightarrow> bool \<Rightarrow> bool \<Rightarrow> sizing_input \<Rightarrow> loop_end res" where
  "leverage_loop 0 profile sizing tiers promotion preserve_grade_risk reduce_leverage replace_grade_cap attempt =
     Inr (Refuse (Some ''liquidation_inside_buffer''))"
| "leverage_loop (Suc n) profile sizing tiers promotion preserve_grade_risk reduce_leverage replace_grade_cap attempt =
     on_rejected (size_trade profile attempt promotion preserve_grade_risk replace_grade_cap)
       (\<lambda>code. Inr (Refuse (Some code)))
       (\<lambda>sized.
     res_bind (check_liquidation_buffer (or_zero (in_entry sizing)) (sz_stop_distance sized)
                 (fin_option (in_atr sizing)) (sz_leverage sized) (sz_notional sized)
                 (in_margin_mode sizing) tiers) (\<lambda>liquidation.
     if lq_accepted liquidation then Inr (Break sized)
     else if \<not> reduce_leverage
     then Inr (Refuse (Some (case lq_reason liquidation of Some r \<Rightarrow> r | None \<Rightarrow> ''liquidation_inside_buffer'')))
     else case (lq_required_buffer liquidation, lq_maintenance_rate liquidation) of
       (Some buffer, Some rate) \<Rightarrow>
         if lq_reason liquidation \<noteq> Some ''liquidation_inside_buffer''
         then Inr (Refuse (lq_reason liquidation))
         else (case leverage_clearing_buffer (or_zero (in_entry sizing)) buffer rate (sz_leverage sized) of
                 None \<Rightarrow> Inr (Refuse (Some ''liquidation_inside_buffer''))
               | Some lowered \<Rightarrow>
                   if sz_leverage sized \<le> lowered
                   then Inr (Refuse (Some ''liquidation_inside_buffer''))
                   else leverage_loop n profile sizing tiers promotion preserve_grade_risk reduce_leverage
                          replace_grade_cap (attempt\<lparr>in_leverage := Some (Fin lowered)\<rparr>))
     | _ \<Rightarrow> Inr (Refuse (lq_reason liquidation))))"

text \<open>
  The optional arguments of \<open>decide_trade\<close>, as a record with the source's defaults in
  \<open>default_options\<close>.
\<close>

record decide_options =
  do_ai_suggested_grade :: "grade option"
  do_ai_explanation :: "string option"
  do_promotion :: "promotion_report option"
  do_preserve_grade_risk :: bool
  do_reduce_leverage :: bool
  do_replace_grade_cap :: bool

definition default_options :: decide_options where
  "default_options =
     \<lparr>do_ai_suggested_grade = None, do_ai_explanation = None, do_promotion = None,
      do_preserve_grade_risk = False, do_reduce_leverage = True, do_replace_grade_cap = False\<rparr>"

text \<open>The grade after an AI suggestion and the explanation kept; the base risk; the leverage asked for.\<close>

definition ai_outcome :: "grade \<Rightarrow> decide_options \<Rightarrow> grade \<times> string option" where
  "ai_outcome g opts =
     (case do_ai_suggested_grade opts of
        None \<Rightarrow> (g, do_ai_explanation opts)
      | Some sg \<Rightarrow>
          let b = apply_ai_grade g sg (case do_ai_explanation opts of Some e \<Rightarrow> e | None \<Rightarrow> '''')
          in (fst b, Some (snd b)))"

definition base_risk_of :: "profile \<Rightarrow> sizing_input \<Rightarrow> grade \<Rightarrow> num res" where
  "base_risk_of p sizing g =
     (case in_grade_risk_percent sizing of
        Some r \<Rightarrow> Inr r
      | None \<Rightarrow> res_bind (risk_percent p g) (\<lambda>x. Inr (Fin x)))"

definition requested_leverage :: "profile \<Rightarrow> sizing_input \<Rightarrow> num" where
  "requested_leverage p sizing =
     (case in_leverage sizing of Some l \<Rightarrow> l | None \<Rightarrow> Fin (p_default_leverage p))"

text \<open>The end of \<open>decide_trade\<close>, after the loop.\<close>

definition finish_trade ::
    "string \<Rightarrow> grade_decision \<Rightarrow> sizing_input \<Rightarrow> adjuster_result \<Rightarrow> string option \<Rightarrow> loop_end
     \<Rightarrow> trade_decision res" where
  "finish_trade profile_version_id decision sizing adjusters explanation le =
     (case le of
        Refuse reason \<Rightarrow> Inr (refuse_trade reason)
      | Break sized \<Rightarrow>
          (case fin_option (in_equity sizing) of
             None \<Rightarrow> Inr (refuse_trade (Some ''margin_exceeds_equity''))
           | Some equity \<Rightarrow>
               if equity < sz_margin sized then Inr (refuse_trade (Some ''margin_exceeds_equity''))
               else res_bind (build_trade_record profile_version_id decision adjusters sized explanation)
                      (\<lambda>rec. Inr \<lparr>td_accepted = True, td_reason = None, td_record = Some rec,
                                  td_sizing = Some sized\<rparr>)))"

definition decide_trade ::
    "profile \<Rightarrow> string \<Rightarrow> grade_decision \<Rightarrow> adjuster_inputs \<Rightarrow> sizing_input \<Rightarrow> breaker_verdict
     \<Rightarrow> maintenance_tier list option \<Rightarrow> decide_options \<Rightarrow> trade_decision res" where
  "decide_trade profile profile_version_id decision adjusters sizing breaker tiers opts =
     (if bv_refuse_new_trades breaker then Inr (refuse_trade (Some ''breaker_active'')) else
      case gd_grade decision of
        None \<Rightarrow> Inr (refuse_trade (Some (case gd_refusal decision of
                  Some r \<Rightarrow> if r = '''' then ''grade_not_tradable'' else r | None \<Rightarrow> ''grade_not_tradable'')))
      | Some g \<Rightarrow>
      if \<not> tradable decision \<and> \<not> do_replace_grade_cap opts
      then Inr (refuse_trade (Some (case gd_refusal decision of
                  Some r \<Rightarrow> if r = '''' then ''grade_not_tradable'' else r | None \<Rightarrow> ''grade_not_tradable''))) else
      let ai = ai_outcome g opts
      in if fst ai \<noteq> g then Inr (refuse_trade (Some ''ai_changed_grade'')) else
      if in_entry sizing = None then Inr (refuse_trade (Some ''entry_missing'')) else
      res_bind (base_risk_of profile sizing g) (\<lambda>base_risk.
      on_rejected (apply_adjusters base_risk adjusters)
        (\<lambda>code. Inr (refuse_trade (Some code)))
        (\<lambda>adjusted.
      let requested = requested_leverage profile sizing;
          attempt = sizing\<lparr>in_grade := Some g,
                      in_grade_risk_percent := Some (Fin (ar_adjusted_risk_percent adjusted)),
                      in_leverage := Some requested\<rparr>
      in res_bind (leverage_loop 32 profile sizing tiers (do_promotion opts) (do_preserve_grade_risk opts)
                     (do_reduce_leverage opts) (do_replace_grade_cap opts) attempt) (\<lambda>le.
      finish_trade profile_version_id decision sizing adjusted (snd ai) le))))"

definition post_fill_recheck ::
    "rat \<Rightarrow> rat \<Rightarrow> rat option \<Rightarrow> rat \<Rightarrow> rat \<Rightarrow> string option \<Rightarrow> maintenance_tier list option
     \<Rightarrow> string option \<Rightarrow> rat option \<Rightarrow> rat option \<Rightarrow> liquidation_recheck res" where
  "post_fill_recheck fill_price stop_distance atr leverage notional margin_mode tiers direction
       stop_price observed_liquidation_price =
     res_bind
       (case (direction, stop_price, observed_liquidation_price) of
          (Some d, Some stop, Some price) \<Rightarrow>
            if d = ''long'' \<or> d = ''short'' then
              res_bind (liquidation_crosses_stop d price stop) (\<lambda>crosses.
              Inr (if crosses
                   then Some \<lparr>rc_action = ''close_or_reduce'', rc_accepted = False,
                              rc_reason = Some ''liquidation_through_stop'',
                              rc_liquidation_distance = None, rc_required_buffer = None,
                              rc_exchange_write_attempted = False\<rparr>
                   else None))
            else Inr None
        | _ \<Rightarrow> Inr None) (\<lambda>breach.
     if atr = None \<and> observed_liquidation_price \<noteq> None then
       Inr (case breach of
              Some b \<Rightarrow> b
            | None \<Rightarrow> \<lparr>rc_action = ''hold'', rc_accepted = True, rc_reason = None,
                       rc_liquidation_distance = None, rc_required_buffer = None,
                       rc_exchange_write_attempted = False\<rparr>)
     else
       res_bind (recheck_after_fill fill_price stop_distance atr leverage notional margin_mode tiers)
         (\<lambda>outcome. Inr (case breach of Some b \<Rightarrow> b | None \<Rightarrow> outcome)))"

section \<open>The loop\<close>

lemma size_trade_leverage:
  assumes "size_trade p d pr pg rc = Inr r"
  shows "in_leverage d = Some n \<Longrightarrow> n = Fin (sz_leverage r)" "1 \<le> sz_leverage r" "sz_leverage r \<le> 20"
proof -
  from assms have "checked_leverage p (in_leverage d) = Inr (sz_leverage r)" by (rule size_trade_elim)
  then show "in_leverage d = Some n \<Longrightarrow> n = Fin (sz_leverage r)" "1 \<le> sz_leverage r" "sz_leverage r \<le> 20"
    by (auto simp: checked_leverage_Inr HARD_MAX_LEVERAGE_def)
qed

lemma lowered_ceiling:
  assumes "leverage_clearing_buffer e b m l = Some l'" "l' < l"
  shows "\<lceil>l'\<rceil> < \<lceil>l\<rceil>" "1 \<le> l'"
proof -
  note c = leverage_clearing_buffer_cases(6,7) [OF assms(1)]
  obtain n where "l' = of_int n"
    using c(2) assms(2) by (auto simp: min_def to_integral_def split: if_splits)
  then show "\<lceil>l'\<rceil> < \<lceil>l\<rceil>" "1 \<le> l'"
    using assms(2) c(1) by (simp_all add: less_ceiling_iff)
qed

text \<open>Fuel at least the rounded-up leverage is enough: more fuel changes nothing.\<close>

lemma leverage_loop_fuel:
  assumes "in_leverage attempt = Some (Fin l)" "nat \<lceil>l\<rceil> \<le> n" "0 < n"
  shows "leverage_loop (n + k) p s ts pr pg rl rc attempt = leverage_loop n p s ts pr pg rl rc attempt"
  using assms
proof (induction n arbitrary: attempt l)
  case (Suc n)
  show ?case
  proof (cases "size_trade p attempt pr pg rc")
    case (Inl e)
    then show ?thesis by (cases e) simp_all
  next
    case (Inr sized)
    note lev = size_trade_leverage [OF Inr]
    have l: "l = sz_leverage sized" using lev(1) [OF Suc.prems(1)] by simp
    have step: "leverage_loop (n + k) p s ts pr pg rl rc (attempt\<lparr>in_leverage := Some (Fin l')\<rparr>)
        = leverage_loop n p s ts pr pg rl rc (attempt\<lparr>in_leverage := Some (Fin l')\<rparr>)"
      if "leverage_clearing_buffer (or_zero (in_entry s)) b m (sz_leverage sized) = Some l'"
        "\<not> sz_leverage sized \<le> l'" for b m l'
    proof (rule Suc.IH)
      have "\<lceil>l'\<rceil> < \<lceil>l\<rceil>" "1 \<le> l'" using lowered_ceiling [OF that(1)] that(2) l by auto
      then show "nat \<lceil>l'\<rceil> \<le> n" "0 < n" using Suc.prems(2) by (auto simp: le_nat_iff) linarith+
    qed simp
    show ?thesis
      using step Inr
      by (auto simp: res_bind_def split: sum.splits option.splits)
  qed
qed simp

lemma leverage_loop_enough:
  assumes "in_leverage attempt = Some x"
  shows "leverage_loop (32 + k) p s ts pr pg rl rc attempt = leverage_loop 32 p s ts pr pg rl rc attempt"
proof (cases "size_trade p attempt pr pg rc")
  case (Inl e)
  then show ?thesis by (cases e) (simp_all add: numeral_eq_Suc)
next
  case (Inr r)
  have l: "in_leverage attempt = Some (Fin (sz_leverage r))"
    using size_trade_leverage(1) [OF Inr assms] assms by simp
  have "nat \<lceil>sz_leverage r\<rceil> \<le> 32"
    using size_trade_leverage(3) [OF Inr] by (simp add: nat_le_iff ceiling_le_iff)
  from leverage_loop_fuel [OF l this, of k] show ?thesis by (simp add: add.commute)
qed

lemma leverage_loop_finite:
  assumes "leverage_loop n p s ts pr pg rl rc attempt = Inr (Break r)" "in_leverage attempt = Some x"
  shows "\<exists>l. x = Fin l"
proof (cases n)
  case (Suc m)
  then obtain sized where "size_trade p attempt pr pg rc = Inr sized"
    using assms(1) by (auto simp: on_rejected_eq_Inr)
  from size_trade_leverage(1) [OF this assms(2)] show ?thesis ..
qed (use assms in simp)

lemma leverage_loop_Break:
  assumes "leverage_loop n p s ts pr pg rl rc attempt = Inr (Break r)"
    and "in_leverage attempt = Some (Fin l)"
  shows "size_trade p (attempt\<lparr>in_leverage := Some (Fin (sz_leverage r))\<rparr>) pr pg rc = Inr r
    \<and> sz_leverage r \<le> l
    \<and> (\<exists>c. check_liquidation_buffer (or_zero (in_entry s)) (sz_stop_distance r) (fin_option (in_atr s))
           (sz_leverage r) (sz_notional r) (in_margin_mode s) ts = Inr c \<and> lq_accepted c)"
  using assms
proof (induction n arbitrary: attempt l)
  case (Suc n)
  from Suc.prems(1) obtain sized where sized: "size_trade p attempt pr pg rc = Inr sized"
    by (auto simp: on_rejected_eq_Inr)
  have l: "l = sz_leverage sized" using size_trade_leverage(1) [OF sized Suc.prems(2)] by simp
  have same: "attempt\<lparr>in_leverage := Some (Fin l)\<rparr> = attempt" using Suc.prems(2) by simp
  from Suc.prems(1) obtain c where c:
    "check_liquidation_buffer (or_zero (in_entry s)) (sz_stop_distance sized) (fin_option (in_atr s))
       (sz_leverage sized) (sz_notional sized) (in_margin_mode s) ts = Inr c"
    by (auto simp: sized res_bind_eq_Inr)
  show ?case
  proof (cases "lq_accepted c")
    case True
    then have "sized = r" using Suc.prems(1) by (simp add: sized c)
    then show ?thesis using sized c True same l by auto
  next
    case False
    then obtain b m l' where b:
      "leverage_clearing_buffer (or_zero (in_entry s)) b m (sz_leverage sized) = Some l'" "l' < l"
      "leverage_loop n p s ts pr pg rl rc (attempt\<lparr>in_leverage := Some (Fin l')\<rparr>) = Inr (Break r)"
      using Suc.prems(1) l by (auto simp: sized c not_le split: option.splits if_splits)
    from Suc.IH [OF b(3), of l'] b(2) show ?thesis by auto
  qed
qed simp

lemma loop_without_reduction:
  "leverage_loop n p s ts pr pg False rc attempt = Inr (Break r) \<Longrightarrow> size_trade p attempt pr pg rc = Inr r"
  by (cases n) (auto simp: on_rejected_eq_Inr res_simps split: if_splits)

section \<open>Accepted decisions\<close>

definition sized_attempt :: "sizing_input \<Rightarrow> grade \<Rightarrow> adjuster_result \<Rightarrow> rat \<Rightarrow> sizing_input" where
  "sized_attempt sizing g ares l =
     sizing\<lparr>in_grade := Some g,
            in_grade_risk_percent := Some (Fin (ar_adjusted_risk_percent ares)),
            in_leverage := Some (Fin l)\<rparr>"

lemma finish_trade_Inr:
  assumes "td_accepted d"
  shows "finish_trade vid gd sizing ar expl le = Inr d \<longleftrightarrow>
     (\<exists>r equity rec. le = Break r \<and> fin_option (in_equity sizing) = Some equity \<and> sz_margin r \<le> equity
        \<and> build_trade_record vid gd ar r expl = Inr rec
        \<and> d = \<lparr>td_accepted = True, td_reason = None, td_record = Some rec, td_sizing = Some r\<rparr>)"
proof -
  have "refuse_trade x \<noteq> d" for x using assms by (auto simp: refuse_trade_def)
  then show ?thesis
    by (auto simp: finish_trade_def res_bind_eq_Inr not_less split: loop_end.splits option.splits if_splits)
qed

lemma decide_trade_accepted:
  assumes "decide_trade p vid gd adj sizing br ts opts = Inr d" "td_accepted d"
  obtains g ares r l c equity rec where
    "\<not> bv_refuse_new_trades br" "gd_grade gd = Some g" "tradable gd \<or> do_replace_grade_cap opts"
    "apply_adjusters (case in_grade_risk_percent sizing of Some x \<Rightarrow> x
                      | None \<Rightarrow> Fin (grade_percent p g)) adj = Inr ares"
    "requested_leverage p sizing = Fin l" "sz_leverage r \<le> l"
    "size_trade p (sized_attempt sizing g ares (sz_leverage r)) (do_promotion opts)
       (do_preserve_grade_risk opts) (do_replace_grade_cap opts) = Inr r"
    "check_liquidation_buffer (or_zero (in_entry sizing)) (sz_stop_distance r) (fin_option (in_atr sizing))
       (sz_leverage r) (sz_notional r) (in_margin_mode sizing) ts = Inr c" "lq_accepted c"
    "in_equity sizing = Some (Fin equity)" "sz_margin r \<le> equity"
    "td_sizing d = Some r" "td_record d = Some rec" "tr_grade rec = g" "tr_calculation rec = r"
    "tr_profile_version_id rec = vid" "tr_adjusters rec = ares"
    "do_reduce_leverage opts = False \<Longrightarrow> sz_leverage r = l"
proof -
  have not_refused: "refuse_trade x \<noteq> d" for x using assms(2) by (auto simp: refuse_trade_def)
  from assms(1) have br: "\<not> bv_refuse_new_trades br"
    using not_refused by (auto simp: decide_trade_def split: if_splits)
  from assms(1) obtain g where g: "gd_grade gd = Some g"
    using not_refused by (auto simp: decide_trade_def split: if_splits option.splits)
  from assms(1) have tr: "tradable gd \<or> do_replace_grade_cap opts"
    using not_refused by (auto simp: decide_trade_def g split: if_splits)
  have ai: "fst (ai_outcome g opts) = g"
    by (auto simp: ai_outcome_def apply_ai_grade_def Let_def split: option.splits)
  have main: "res_bind (base_risk_of p sizing g) (\<lambda>base_risk.
      on_rejected (apply_adjusters base_risk adj)
        (\<lambda>code. Inr (refuse_trade (Some code)))
        (\<lambda>ares.
       res_bind (leverage_loop 32 p sizing ts (do_promotion opts) (do_preserve_grade_risk opts)
                     (do_reduce_leverage opts) (do_replace_grade_cap opts)
                     (sizing\<lparr>in_grade := Some g,
                      in_grade_risk_percent := Some (Fin (ar_adjusted_risk_percent ares)),
                      in_leverage := Some (requested_leverage p sizing)\<rparr>)) (\<lambda>le.
       finish_trade vid gd sizing ares (snd (ai_outcome g opts)) le))) = Inr d"
    using assms(1) br tr ai not_refused
    unfolding decide_trade_def g Let_def
    by (simp split: if_splits)
  then obtain base ares where base: "base_risk_of p sizing g = Inr base" and ares: "apply_adjusters base adj = Inr ares"
    using not_refused by (auto simp: res_bind_eq_Inr on_rejected_eq_Inr)
  have base_eq: "base = (case in_grade_risk_percent sizing of Some x \<Rightarrow> x | None \<Rightarrow> Fin (grade_percent p g))"
    using base by (auto simp: base_risk_of_def grade_percent_def res_simps split: option.splits)
  from main [unfolded base ares res_bind_Inr on_rejected_simps] obtain r equity rec where r:
    "leverage_loop 32 p sizing ts (do_promotion opts) (do_preserve_grade_risk opts)
       (do_reduce_leverage opts) (do_replace_grade_cap opts)
       (sizing\<lparr>in_grade := Some g,
          in_grade_risk_percent := Some (Fin (ar_adjusted_risk_percent ares)),
          in_leverage := Some (requested_leverage p sizing)\<rparr>) = Inr (Break r)"
    "fin_option (in_equity sizing) = Some equity" "sz_margin r \<le> equity"
    "build_trade_record vid gd ares r (snd (ai_outcome g opts)) = Inr rec"
    "d = \<lparr>td_accepted = True, td_reason = None, td_record = Some rec, td_sizing = Some r\<rparr>"
    by (auto simp: res_bind_eq_Inr finish_trade_Inr [OF assms(2)])
  from r(1) obtain l where l: "requested_leverage p sizing = Fin l"
    by (rule leverage_loop_finite [THEN exE]) simp_all
  have loop: "size_trade p (sized_attempt sizing g ares (sz_leverage r)) (do_promotion opts)
       (do_preserve_grade_risk opts) (do_replace_grade_cap opts) = Inr r" "sz_leverage r \<le> l"
    "\<exists>c. check_liquidation_buffer (or_zero (in_entry sizing)) (sz_stop_distance r)
       (fin_option (in_atr sizing)) (sz_leverage r) (sz_notional r) (in_margin_mode sizing) ts = Inr c
       \<and> lq_accepted c"
    using leverage_loop_Break [OF r(1) [unfolded l], of l] by (simp_all add: sized_attempt_def)
  from loop(3) obtain c where c:
    "check_liquidation_buffer (or_zero (in_entry sizing)) (sz_stop_distance r)
       (fin_option (in_atr sizing)) (sz_leverage r) (sz_notional r) (in_margin_mode sizing) ts = Inr c"
    "lq_accepted c" by blast
  have eq: "in_equity sizing = Some (Fin equity)"
    using r(2) by (auto simp: fin_option_def split: option.splits num.splits)
  have rec: "tr_grade rec = g" "tr_calculation rec = r" "tr_profile_version_id rec = vid"
    "tr_adjusters rec = ares"
    using r(4) g by (auto simp: build_trade_record_def)
  have keep: "sz_leverage r = l" if "do_reduce_leverage opts = False"
    using size_trade_leverage(1) [OF loop_without_reduction [OF r(1) [unfolded that l]], of "Fin l"] by simp
  show ?thesis
    by (rule that [OF br g tr ares [unfolded base_eq] l loop(2,1) c eq r(3) _ _ rec keep])
       (simp_all add: r(5))
qed

section \<open>The exceptions of a decision\<close>

lemma raises_check_liquidation:
  "\<exists>c. check_liquidation_buffer e s atr l n mode ts = Inr c"
proof -
  have tier: "raises is_rejection (tier_loop n ch ts)" for n ch ts
    by (induction n ch ts rule: tier_loop.induct) (auto split: num.splits)
  have sel: "raises is_rejection (select_maintenance_tier n ts)"
    unfolding select_maintenance_tier_def by (intro raises_intros tier; simp)
  have "raises is_rejection (required_buffer s r)" "raises is_rejection (liquidation_distance e l x)"
    for r x by (auto simp: required_buffer_def liquidation_distance_def Let_def)
  then have block: "raises is_rejection (res_bind (required_buffer s r) (\<lambda>buffer.
       res_bind (select_maintenance_tier n ts) (\<lambda>tier.
       res_bind (liquidation_distance e l (snd tier)) (\<lambda>distance. Inr (buffer, tier, distance)))))" for r
    by (intro raises_bind sel raises_Inr)
  have "raises (\<lambda>_. False) (check_liquidation_buffer e s atr l n mode ts)"
    unfolding check_liquidation_buffer_def Let_def case_prod_unfold
    by (intro raises_option raises_if raises_Inr raises_on_rejected [OF block]) auto
  then show ?thesis by (cases "check_liquidation_buffer e s atr l n mode ts") auto
qed

lemma raises_leverage_loop: "raises (\<lambda>e. e = InvalidOperation) (leverage_loop n p s ts pr pg rl rc attempt)"
proof (induction n arbitrary: attempt)
  case (Suc n)
  show ?case
  proof (cases "size_trade p attempt pr pg rc")
    case (Inl e)
    then show ?thesis using raisesD [OF raises_size_trade Inl] by auto
  next
    case (Inr sized)
    obtain c where "check_liquidation_buffer (or_zero (in_entry s)) (sz_stop_distance sized)
        (fin_option (in_atr s)) (sz_leverage sized) (sz_notional sized) (in_margin_mode s) ts = Inr c"
      using raises_check_liquidation by blast
    then show ?thesis
      by (simp only: leverage_loop.simps Inr on_rejected_simps res_bind_Inr prod.case)
         (intro raises_if raises_option raises_Inr Suc.IH)
  qed
qed simp

lemma raises_finish_trade:
  "gd_grade gd \<noteq> None \<Longrightarrow> raises P (finish_trade vid gd s ar ex le)"
  by (auto simp: finish_trade_def build_trade_record_def intro!: raises_intros
      split: loop_end.splits option.splits)

lemma raises_apply_adjusters: "raises is_rejection (apply_adjusters r i)"
  by (auto simp: apply_adjusters_def Let_def split: option.splits num.splits)

lemma raises_decide_trade:
  "raises (\<lambda>e. e = InvalidOperation \<or> e = Rejected ''grade_missing'' \<and> in_grade_risk_percent s = None
            \<and> (\<exists>g. gd_grade gd = Some g \<and> p_risk_percent_by_grade p g = None))
     (decide_trade p vid gd adj s br ts opts)" (is "raises ?P _")
proof (cases "gd_grade gd")
  case (Some g)
  have base: "raises ?P (base_risk_of p s g)"
    using Some by (auto simp: base_risk_of_def risk_percent_def split: option.splits)
  have loop: "raises ?P (leverage_loop n p s ts pr pg rl rc a)" for n pr pg rl rc a
    by (rule raises_weaken [OF raises_leverage_loop]) simp
  have fin: "raises ?P (finish_trade vid gd s ar ex le)" for ar ex le
    using Some by (intro raises_finish_trade) simp
  have adj: "raises ?P (on_rejected (apply_adjusters r adj) (\<lambda>c. Inr (refuse_trade (Some c))) f)"
    if "\<And>ar. raises ?P (f ar)" for r f
    by (rule raises_on_rejected [OF raises_apply_adjusters]) (auto simp: that)
  have rest: "raises ?P (res_bind (base_risk_of p s g) (\<lambda>r. on_rejected (apply_adjusters r adj)
      (\<lambda>c. Inr (refuse_trade (Some c))) (\<lambda>ar. res_bind (leverage_loop n p s ts pr pg rl rc (a ar))
      (\<lambda>le. finish_trade vid gd s ar ex le))))" for n pr pg rl rc a ex
    by (intro raises_bind base adj loop fin)
  show ?thesis
    unfolding decide_trade_def Some option.case Let_def
    by (intro raises_if raises_Inr rest [unfolded Some])
qed (simp add: decide_trade_def)

section \<open>Properties\<close>

text \<open>
  C1. What an accepted decision guarantees. No breaker refuses new trades; the trade has a bound
  grade that is tradable (or an explicit override replaces the grade cap); the recorded sizing is
  the one \<open>size_trade\<close> accepts for the adjusted risk at the recorded leverage, which is never above
  the requested one; the exact loss at the stop stays within the adjusted risk percent of the
  equity up to one part in \<open>10 ^ 26\<close>; the isolated margin does not exceed the equity; and the record
  names the grade and the profile version it was decided under.
\<close>

theorem decide_trade_safe:
  assumes "decide_trade p vid gd adj sizing br ts opts = Inr d" "td_accepted d"
  shows "\<exists>g ares r a l rec.
      \<not> bv_refuse_new_trades br \<and> gd_grade gd = Some g \<and> (tradable gd \<or> do_replace_grade_cap opts)
    \<and> td_sizing d = Some r \<and> td_record d = Some rec \<and> tr_grade rec = g \<and> tr_profile_version_id rec = vid
    \<and> requested_leverage p sizing = Fin l \<and> 1 \<le> sz_leverage r \<and> sz_leverage r \<le> l
    \<and> size_trade p (sized_attempt sizing g ares (sz_leverage r)) (do_promotion opts)
        (do_preserve_grade_risk opts) (do_replace_grade_cap opts) = Inr r
    \<and> read_inputs (sized_attempt sizing g ares (sz_leverage r)) (do_replace_grade_cap opts) = Inr a
    \<and> a_grade_risk a = ar_adjusted_risk_percent ares
    \<and> sz_quantity r * unit_loss a
        \<le> (1 + 1 / 10 ^ 26) * (a_equity a * ar_adjusted_risk_percent ares / 100)
    \<and> sz_margin r \<le> a_equity a"
  using assms
proof (rule decide_trade_accepted, goal_cases)
  case (1 g ares r l c equity rec)
  from 1(7) obtain a where a: "read_inputs (sized_attempt sizing g ares (sz_leverage r))
      (do_replace_grade_cap opts) = Inr a" "args_ok p a"
    by (rule size_trade_elim)
  note loss = accepted_loss_bound [OF 1(7) a(1)]
  have risk: "a_grade_risk a = ar_adjusted_risk_percent ares"
    using a(1) by (auto simp: sized_attempt_def read_inputs_def res_simps)
  have equity: "a_equity a = equity"
    using read_inputs_values [OF a(1)] 1(10) by (simp add: sized_attempt_def)
  have "risk_cap p a (do_replace_grade_cap opts) \<le> a_grade_risk a"
    by (simp add: risk_cap_def min_le_iff_disj)
  then have "a_equity a * risk_cap p a (do_replace_grade_cap opts) / 100
      \<le> a_equity a * ar_adjusted_risk_percent ares / 100"
    using a(2) by (simp add: risk args_ok_def divide_right_mono mult_left_mono)
  then have "(1 + 1 / 10 ^ 26) * (a_equity a * risk_cap p a (do_replace_grade_cap opts) / 100)
      \<le> (1 + 1 / 10 ^ 26) * (a_equity a * ar_adjusted_risk_percent ares / 100)"
    by (rule mult_left_mono) simp
  with loss have "sz_quantity r * unit_loss a
      \<le> (1 + 1 / 10 ^ 26) * (a_equity a * ar_adjusted_risk_percent ares / 100)" by (rule order_trans)
  then show ?case
    using 1 a(1) risk equity size_trade_leverage(2) [OF 1(7)]
    by (intro exI [of _ g] exI [of _ ares] exI [of _ r] exI [of _ a] exI [of _ l] exI [of _ rec]) simp
qed

definition sample_grade :: grade_decision where
  "sample_grade =
     \<lparr>gd_grade = Some A, gd_grader_version = GRADER_VERSION, gd_trend_score = Some 1,
      gd_momentum_score = Some (1 / 2), gd_refusal = None\<rparr>"

definition sample_adjusters :: adjuster_inputs where
  "sample_adjusters = \<lparr>ai_volatility_regime = Some ''normal'', ai_trend_aligned = Some True,
                       ai_momentum_aligned = Some True\<rparr>"

definition open_verdict :: breaker_verdict where
  "open_verdict =
     \<lparr>bv_daily_loss_active = False, bv_drawdown_active = False, bv_consecutive_loss_active = False,
      bv_trip_kill_switch = False, bv_paused_until = None, bv_equity_peak = 10000,
      bv_refuse_new_trades = False, bv_human_reset_required = False\<rparr>"

lemma sample_decision:
  "\<exists>d. decide_trade sample_profile ''v-1'' sample_grade sample_adjusters sample_input open_verdict
         (Some sample_tiers) default_options = Inr d \<and> td_accepted d \<and> td_sizing d = Some sample_result"
proof -
  obtain ar where ar: "apply_adjusters (Fin (1 / 2)) sample_adjusters = Inr ar"
    "ar_adjusted_risk_percent ar = 1 / 2"
    by (simp add: apply_adjusters_def sample_adjusters_def volatility_table_def MISALIGNED_def dec_eval)
  have attempt: "sample_input\<lparr>in_grade := Some A, in_grade_risk_percent := Some (Fin (1 / 2)),
      in_leverage := Some (Fin 2)\<rparr> = sample_input"
    by (simp add: sample_input_def)
  have c: "lower ''isolated'' = ''isolated''" by code_simp
  have "check_liquidation_buffer 100 3 (Some 2) 2 1000 (Some ''isolated'') (Some sample_tiers) =
      Inr \<lparr>lq_accepted = True, lq_reason = None, lq_liquidation_distance = Some (99 / 2),
           lq_required_buffer = Some 6, lq_maintenance_rate = Some (1 / 200)\<rparr>"
    unfolding check_liquidation_buffer_def sample_tier
    by (simp add: c required_buffer_def STOP_MULTIPLE_def ATR_BUFFER_def liquidation_distance_def dec_eval)
  then have loop: "leverage_loop 32 sample_profile sample_input (Some sample_tiers) None False True False
      sample_input = Inr (Break sample_result)"
    unfolding numeral_eq_Suc pred_numeral_simps leverage_loop.simps sample_sized
    by (simp add: sample_result_def sample_input_def or_zero_def fin_option_def)
  have g: "gd_grade sample_grade = Some A" "tradable sample_grade"
    by (simp_all add: sample_grade_def tradable_def)
  have "base_risk_of sample_profile sample_input A = Inr (Fin (1 / 2))"
    "requested_leverage sample_profile sample_input = Fin 2" "in_entry sample_input = Some (Fin 100)"
    "fin_option (in_equity sample_input) = Some 10000" "sz_margin sample_result = 500"
    by (simp_all add: base_risk_of_def requested_leverage_def sample_input_def fin_option_def
        sample_result_def)
  then show ?thesis
    unfolding decide_trade_def g(1)
    by (simp add: g open_verdict_def default_options_def ai_outcome_def ar attempt loop finish_trade_def
        build_trade_record_def)
qed

theorem decide_trade_safe_witness:
  "\<exists>d r a (ares :: adjuster_result). decide_trade sample_profile ''v-1'' sample_grade sample_adjusters sample_input open_verdict
         (Some sample_tiers) default_options = Inr d \<and> td_accepted d \<and> td_sizing d = Some r
     \<and> sz_quantity r * unit_loss a
        \<le> (1 + 1 / 10 ^ 26) * (a_equity a * ar_adjusted_risk_percent ares / 100)"
proof -
  obtain d where d: "decide_trade sample_profile ''v-1'' sample_grade sample_adjusters
      sample_input open_verdict (Some sample_tiers) default_options = Inr d" "td_accepted d"
    using sample_decision by blast
  then show ?thesis using decide_trade_safe [OF d] by blast
qed

text \<open>
  C15. An accepted trade is stopped out before it is liquidated: for a profile whose absolute stop
  floor is at least the stored quantum of \<open>10 ^ -8\<close>, the isolated liquidation price at the accepted
  leverage and the maintenance rate of the selected tier lies strictly beyond the stop, whichever
  the direction, so \<open>liquidation_crosses_stop\<close> is false on it.
\<close>

theorem decide_trade_liquidation_beyond_stop:
  assumes "decide_trade p vid gd adj sizing br ts opts = Inr d" "td_accepted d"
    and "1 / 10 ^ 8 \<le> p_min_stop_absolute_floor p"
  shows "\<exists>r tier entry stop direction price.
      td_sizing d = Some r \<and> select_maintenance_tier (sz_notional r) ts = Inr tier
    \<and> in_entry sizing = Some (Fin entry) \<and> in_stop sizing = Some (Fin stop)
    \<and> in_direction sizing = Some direction
    \<and> isolated_liquidation_price entry (sz_leverage r) (snd tier) direction = Inr price
    \<and> liquidation_crosses_stop direction price stop = Inr False"
  using assms(1,2)
proof (rule decide_trade_accepted, goal_cases)
  case (1 g ares r l c equity rec)
  from 1(7) obtain a where a: "read_inputs (sized_attempt sizing g ares (sz_leverage r))
      (do_replace_grade_cap opts) = Inr a" "args_ok p a" "checked_stop p a = Inr (sz_stop_distance r)"
    by (rule size_trade_elim)
  have in_a: "in_entry sizing = Some (Fin (a_entry a))" "in_stop sizing = Some (Fin (a_stop a))"
      "in_direction sizing = Some (a_direction a)" "a_direction a \<in> {''long'', ''short''}"
    using read_inputs_values [OF a(1)] by (auto simp: sized_attempt_def)
  from 1(8,9) obtain x buffer tier distance where q:
    "required_buffer (sz_stop_distance r) x = Inr buffer"
    "select_maintenance_tier (sz_notional r) ts = Inr tier"
    "liquidation_distance (a_entry a) (sz_leverage r) (snd tier) = Inr distance" "buffer \<le> distance"
    by (rule check_liquidation_accepted) (simp add: in_a or_zero_def)
  have rate: "0 \<le> snd tier"
    using q(2) by (rule select_maintenance_tier_Inr) (force simp: list_all_iff tier_rate_ok_def)
  have entry: "0 < a_entry a" using a(2) by (simp add: args_ok_def)
  have stop: "stop_distance_of (a_direction a) (a_entry a) (a_stop a) = Inr (sz_stop_distance r)"
    using a(3) by (auto simp: checked_stop_def res_simps Let_def split: if_splits)
  have "(1 - EPS) * (a_entry a * p_min_stop_absolute_floor p) \<le> sz_stop_distance r"
    using dmul_low [of "a_entry a" "p_min_stop_absolute_floor p" 0 "a_entry a"] entry assms(3)
      checked_stop_Inr [OF a(3)] by simp
  moreover have "(1 - EPS) * (a_entry a * (1 / 10 ^ 8)) \<le> (1 - EPS) * (a_entry a * p_min_stop_absolute_floor p)"
    using entry assms(3) dec28.u_le_1 by (intro mult_left_mono) auto
  moreover have "a_entry a / 10 ^ 20 \<le> (1 - EPS) * (a_entry a * (1 / 10 ^ 8))"
    using entry by (simp add: EPS_def)
  ultimately have floor: "a_entry a / 10 ^ 20 \<le> sz_stop_distance r" by linarith
  note beyond = buffer_keeps_liquidation_beyond_stop [OF stop in_a(4) _ liquidation_distance_le [OF q(3) rate]
      entry floor]
  have d2: "dmul (sz_stop_distance r) 2 \<le> distance" using required_buffer_Inr(3) [OF q(1)] q(4) by simp
  show ?case
    using 1(12) q(2,3) in_a beyond [OF d2]
    by (cases tier) (auto simp: isolated_liquidation_price_def liquidation_crosses_stop_def not_le)
qed

theorem decide_trade_liquidation_beyond_stop_witness:
  "\<exists>price. liquidation_crosses_stop ''long'' price 97 = Inr False"
proof -
  obtain d where d: "decide_trade sample_profile ''v-1'' sample_grade sample_adjusters
      sample_input open_verdict (Some sample_tiers) default_options = Inr d" "td_accepted d"
    using sample_decision by blast
  have "1 / 10 ^ 8 \<le> p_min_stop_absolute_floor sample_profile"
    by (simp add: sample_profile_def placeholder_base_def)
  from decide_trade_liquidation_beyond_stop [OF d this] show ?thesis
    by (auto simp: sample_input_def)
qed

text \<open>
  C37. The leverage loop always finishes by itself: whatever the attempt, 32 turns give the same
  result as any larger number of turns, so the \<^verbatim>\<open>for \<dots> else\<close> refusal after the last turn is never
  the reason a trade is refused. Every turn that lowers the leverage moves to a smaller whole number
  and the sizer refuses a leverage above 20 or below 1.
\<close>

theorem leverage_loop_terminates:
  "leverage_loop (32 + k) p sizing ts promotion preserve reduce replace (attempt\<lparr>in_leverage := Some l\<rparr>)
   = leverage_loop 32 p sizing ts promotion preserve reduce replace (attempt\<lparr>in_leverage := Some l\<rparr>)"
  by (rule leverage_loop_enough) simp

text \<open>
  C40. \<open>decide_trade\<close> answers with a decision instead of raising: every refusal of the sizer, of the
  adjusters and of the liquidation check becomes a refused decision. The only exceptions that can
  leave it are the Decimal \<open>InvalidOperation\<close> of an amount too large to round to eight places, and
  \<open>grade_missing\<close> for a grade map without the bound grade when no risk percent was given.
\<close>

theorem decide_trade_exceptions:
  assumes "decide_trade p vid gd adj sizing br ts opts = Inl e"
  shows "e = InvalidOperation
    \<or> e = Rejected ''grade_missing'' \<and> in_grade_risk_percent sizing = None
      \<and> (\<exists>g. gd_grade gd = Some g \<and> p_risk_percent_by_grade p g = None)"
  by (rule raisesD [OF raises_decide_trade assms])

theorem decide_trade_exceptions_witness:
  "Rejected ''grade_missing'' = InvalidOperation
    \<or> Rejected ''grade_missing'' = Rejected ''grade_missing''
      \<and> in_grade_risk_percent (sample_input\<lparr>in_grade_risk_percent := None\<rparr>) = None
      \<and> (\<exists>g. gd_grade sample_grade = Some g
            \<and> p_risk_percent_by_grade (sample_profile\<lparr>p_risk_percent_by_grade := Map.empty\<rparr>) g = None)"
proof (rule decide_trade_exceptions)
  show "decide_trade (sample_profile\<lparr>p_risk_percent_by_grade := Map.empty\<rparr>) ''v-1'' sample_grade
      sample_adjusters (sample_input\<lparr>in_grade_risk_percent := None\<rparr>) open_verdict None default_options
      = Inl (Rejected ''grade_missing'')"
    by (simp add: decide_trade_def sample_grade_def tradable_def open_verdict_def ai_outcome_def
        default_options_def sample_input_def base_risk_of_def risk_percent_def)
qed

text \<open>
  The check after a fill never writes to the exchange, and a liquidation price seen through the
  stop always ends in close-or-reduce, whatever the ATR, the tiers and the margin mode are.
\<close>

theorem post_fill_recheck_safe:
  "\<exists>out. post_fill_recheck fill stop_distance atr leverage notional mode tiers direction stop price = Inr out
     \<and> \<not> rc_exchange_write_attempted out
     \<and> rc_action out = (if rc_accepted out then ''hold'' else ''close_or_reduce'')
     \<and> (case (direction, stop, price) of
          (Some d, Some s, Some x) \<Rightarrow>
            rc_accepted out \<le> (liquidation_crosses_stop d x s \<noteq> Inr True)
        | _ \<Rightarrow> True)"
proof -
  have "\<forall>atr. \<exists>c. check_liquidation_buffer fill stop_distance atr leverage notional mode tiers = Inr c"
    by (rule allI) (rule raises_check_liquidation)
  then obtain f where
    c: "\<forall>atr. check_liquidation_buffer fill stop_distance atr leverage notional mode tiers = Inr (f atr)"
    by (rule choice [THEN exE])
  show ?thesis
  proof (cases "\<exists>d s x. direction = Some d \<and> stop = Some s \<and> price = Some x \<and> (d = ''long'' \<or> d = ''short'')")
    case True
    then obtain d s x where dsx: "direction = Some d" "stop = Some s" "price = Some x"
      "d = ''long'' \<or> d = ''short''" by blast
    then obtain b where b: "liquidation_crosses_stop d x s = Inr b"
      by (auto simp: liquidation_crosses_stop_def)
    show ?thesis
      using dsx(4) by (cases b; cases atr)
        (simp_all add: post_fill_recheck_def recheck_after_fill_def c dsx(1-3) b)
  next
    case False
    have cross: "liquidation_crosses_stop d x s \<noteq> Inr True" if "d \<noteq> ''long''" "d \<noteq> ''short''" for d x s
      using that by (simp add: liquidation_crosses_stop_def)
    show ?thesis
      using False cross
      by (cases direction; cases stop; cases price; cases atr)
         (simp_all add: post_fill_recheck_def recheck_after_fill_def c)
  qed
qed

end
