(* ===== verification/Policy_Store.thy ===== *)
theory Policy_Store
  imports Breaker_Store Decision
begin

text \<open>
  \<^verbatim>\<open>RiskPolicyService\<close> of \<^verbatim>\<open>services/risk_policy/persistence.py\<close> over the tables of
  \<^verbatim>\<open>db/risk_policy.py\<close>: proposals, immutable versions and their cancellations, grade bindings, trade
  records, calibration samples, promotion reports, drawdown resets and the audit log, beside the breaker
  tables.

  A session is the pair of the committed tables and the tables the open transaction sees. An operation
  returns a result or an exception together with the session it leaves, since a raise does not undo what
  was written before it. \<^verbatim>\<open>session.commit\<close> publishes the current tables; a failed \<^verbatim>\<open>flush\<close> rolls the
  transaction back. The new primary key of an inserted row (\<^verbatim>\<open>uuid4\<close>) is an argument, and so is what
  other sessions commit between the reads of an operation and its insert (\<open>others\<close>). SHA-256 is the
  parameter \<open>sha256\<close>. Column lengths are not modelled.
\<close>

section \<open>Tables\<close>

record proposal_row =
  pr_id :: uid
  pr_org :: uid
  pr_kind :: string
  pr_payload :: "(string \<times> string) list"
  pr_actor_id :: string
  pr_actor_channel :: policy_channel
  pr_reason :: string
  pr_content_hash :: string
  pr_created_at :: int

record version_row =
  vr_id :: uid
  vr_org :: uid
  vr_proposal_id :: uid
  vr_kind :: policy_kind
  vr_version_number :: int
  vr_risk_percent_a_plus :: rat
  vr_risk_percent_a :: rat
  vr_risk_percent_b_plus :: rat
  vr_risk_percent_b :: rat
  vr_risk_percent_c :: rat
  vr_max_leverage :: rat
  vr_daily_loss_limit_percent :: rat
  vr_max_aggregate_open_risk_percent :: rat
  vr_max_open_positions :: int
  vr_max_notional_per_trade_percent :: rat
  vr_max_aggregate_notional_percent :: rat
  vr_min_stop_atr_multiple :: rat
  vr_min_stop_absolute_floor :: rat
  vr_max_cost_share_of_r :: rat
  vr_drawdown_breaker_percent :: rat
  vr_consecutive_loss_limit :: int
  vr_autonomous_internal_paper_enabled :: bool
  vr_autonomous_blofin_demo_enabled :: bool
  vr_profile_name :: string
  vr_default_leverage :: rat
  vr_paper_demo_data_collection :: bool
  vr_change_class :: change_class
  vr_effective_at :: int
  vr_actor_id :: string
  vr_actor_channel :: policy_channel
  vr_reason :: string
  vr_diff :: diff
  vr_content_hash :: string
  vr_created_at :: int

record cancellation_row =
  ca_org :: uid
  ca_version_id :: uid
  ca_reason :: string
  ca_created_at :: int

text \<open>
  The two scores of a binding are stored as the text \<^verbatim>\<open>format(score, "f")\<close> and read back with
  \<^verbatim>\<open>Decimal\<close>, which is exact, so the row holds the number.
\<close>

record binding_row =
  gb_org :: uid
  gb_setup_id :: string
  gb_grade :: grade
  gb_grader_version :: string
  gb_trend_score :: rat
  gb_momentum_score :: rat
  gb_refusal :: "string option"
  gb_created_at :: int

record trade_row =
  tw_org :: uid
  tw_trade_id :: string
  tw_profile_version_id :: uid
  tw_grade :: grade
  tw_grader_version :: string
  tw_adjusters :: adjuster_result
  tw_calculation :: sizing_result
  tw_ai_explanation :: "string option"
  tw_created_at :: int

record sample_row =
  sw_org :: uid
  sw_grade :: string
  sw_grader_version :: string
  sw_r_multiple :: rat
  sw_in_sample :: bool
  sw_walk_forward_fold :: int
  sw_slippage_r :: rat
  sw_created_at :: int

record report_row =
  rr_org :: uid
  rr_grader_version :: string
  rr_eligible :: bool
  rr_ordered :: bool
  rr_walk_forward_ok :: bool
  rr_created_at :: int

record reset_row =
  rs_org :: uid
  rs_account :: uid
  rs_actor_id :: string
  rs_actor_channel :: policy_channel
  rs_created_at :: int

datatype audit_event = POLICY_PROPOSED | POLICY_APPLIED | POLICY_APPLY_REFUSED | POLICY_CONSECUTIVE_RESET

datatype actor_type = ACTOR_USER | ACTOR_AGENT | ACTOR_TOOL

datatype audit_result = SUCCESS | BLOCKED

record audit_row =
  au_event :: audit_event
  au_actor_type :: actor_type
  au_result :: audit_result
  au_severity_high :: bool
  au_org :: uid
  au_resource_id :: string
  au_metadata :: "(string \<times> pyval) list"

record policy_db = breaker_db +
  pd_proposals :: "proposal_row list"
  pd_versions :: "version_row list"
  pd_cancellations :: "cancellation_row list"
  pd_bindings :: "binding_row list"
  pd_trades :: "trade_row list"
  pd_samples :: "sample_row list"
  pd_reports :: "report_row list"
  pd_resets :: "reset_row list"
  pd_audit :: "audit_row list"

record session =
  se_committed :: policy_db
  se_current :: policy_db

section \<open>Operations on a session\<close>

type_synonym 'a op = "session \<Rightarrow> 'a res \<times> session"

definition op_bind :: "'a op \<Rightarrow> ('a \<Rightarrow> 'b op) \<Rightarrow> 'b op" where
  "op_bind m f s = (case m s of (Inl e, s') \<Rightarrow> (Inl e, s') | (Inr x, s') \<Rightarrow> f x s')"

definition op_res :: "'a res \<Rightarrow> 'a op" where
  "op_res r s = (r, s)"

definition op_read :: "(policy_db \<Rightarrow> 'a res) \<Rightarrow> 'a op" where
  "op_read f s = (f (se_current s), s)"

definition op_write :: "(policy_db \<Rightarrow> policy_db) \<Rightarrow> unit op" where
  "op_write f s = (Inr (), s\<lparr>se_current := f (se_current s)\<rparr>)"

definition op_others :: "(policy_db \<Rightarrow> policy_db) \<Rightarrow> unit op" where
  "op_others f s = (Inr (), \<lparr>se_committed = f (se_committed s), se_current = f (se_current s)\<rparr>)"

definition commit :: "session \<Rightarrow> session" where
  "commit s = s\<lparr>se_committed := se_current s\<rparr>"

definition rollback :: "session \<Rightarrow> session" where
  "rollback s = s\<lparr>se_current := se_committed s\<rparr>"

text \<open>\<^verbatim>\<open>session.add\<close> and \<^verbatim>\<open>flush\<close> of a row that a constraint may refuse.\<close>

definition op_insert :: "(policy_db \<Rightarrow> bool) \<Rightarrow> (policy_db \<Rightarrow> policy_db) \<Rightarrow> exc \<Rightarrow> unit op" where
  "op_insert refused add e s =
     (if refused (se_current s) then (Inl e, rollback s)
      else (Inr (), s\<lparr>se_current := add (se_current s)\<rparr>))"

text \<open>\<^verbatim>\<open>try: ... except RiskPolicyRejected as exc: audit; raise\<close>.\<close>

definition op_audited :: "'a op \<Rightarrow> (string \<Rightarrow> policy_db \<Rightarrow> policy_db) \<Rightarrow> 'a op" where
  "op_audited m audit s =
     (case m s of
        (Inl (Rejected code), s') \<Rightarrow> (Inl (Rejected code), s'\<lparr>se_current := audit code (se_current s')\<rparr>)
      | other \<Rightarrow> other)"

fun actor_type_of :: "policy_channel \<Rightarrow> actor_type" where
  "actor_type_of HUMAN = ACTOR_USER"
| "actor_type_of UNDECLARED = ACTOR_USER"
| "actor_type_of AGENT = ACTOR_AGENT"
| "actor_type_of BOT = ACTOR_TOOL"
| "actor_type_of SERVICE = ACTOR_TOOL"

definition audit_entry ::
    "audit_event \<Rightarrow> uid \<Rightarrow> policy_actor \<Rightarrow> string \<Rightarrow> (string \<times> pyval) list \<Rightarrow> audit_result
     \<Rightarrow> policy_db \<Rightarrow> policy_db" where
  "audit_entry ev org actor resource_id metadata result db =
     db\<lparr>pd_audit := pd_audit db @
          [\<lparr>au_event = ev, au_actor_type = actor_type_of (pa_channel actor), au_result = result,
            au_severity_high = (result \<noteq> SUCCESS), au_org = org, au_resource_id = resource_id,
            au_metadata = metadata\<rparr>]\<rparr>"

definition check_reason :: "string \<Rightarrow> unit res" where
  "check_reason reason =
     (let text = strip reason
      in if length text < 3 \<or> 500 < length text then Inl (Rejected ''reason_invalid'') else Inr ())"

section \<open>Proposing\<close>

definition propose ::
    "(string \<Rightarrow> string) \<Rightarrow> uid \<Rightarrow> uid \<Rightarrow> policy_actor \<Rightarrow> profile \<Rightarrow> string \<Rightarrow> dt \<Rightarrow> proposal_row op" where
  "propose sha256 new_id org actor prof reason now =
     op_bind (op_res (assert_can_propose actor)) (\<lambda>_.
     op_bind (op_res (check_reason reason)) (\<lambda>_.
     op_bind (op_res (canonical_profile prof)) (\<lambda>canonical.
     op_bind (op_res (profile_hash sha256 prof)) (\<lambda>content_hash.
     let row = \<lparr>pr_id = new_id, pr_org = org, pr_kind = kind_value (p_kind prof), pr_payload = canonical,
                pr_actor_id = pa_actor_id actor, pr_actor_channel = pa_channel actor,
                pr_reason = strip reason, pr_content_hash = content_hash, pr_created_at = instant now\<rparr>
     in op_bind (op_insert (\<lambda>db. new_id \<in> pr_id ` set (pd_proposals db))
                   (\<lambda>db. db\<lparr>pd_proposals := pd_proposals db @ [row]\<rparr>) IntegrityError) (\<lambda>_.
        op_bind (op_write (audit_entry POLICY_PROPOSED org actor new_id
                   [(''kind'', VStr (kind_value (p_kind prof))), (''content_hash'', VStr content_hash)]
                   SUCCESS)) (\<lambda>_.
        op_res (Inr row)))))))"

section \<open>The version in force\<close>

definition cancel_version :: "version_row \<Rightarrow> dt \<Rightarrow> session \<Rightarrow> session" where
  "cancel_version row now s =
     (if list_ex (\<lambda>c. ca_version_id c = vr_id row) (pd_cancellations (se_current s)) then s
      else commit (s\<lparr>se_current := (se_current s)
             \<lparr>pd_cancellations := pd_cancellations (se_current s) @
                [\<lparr>ca_org = vr_org row, ca_version_id = vr_id row,
                  ca_reason = ''breaker_active_at_activation'', ca_created_at = instant now\<rparr>]\<rparr>\<rparr>))"

fun active_scan :: "uid \<Rightarrow> dt \<Rightarrow> uid list \<Rightarrow> version_row list \<Rightarrow> session \<Rightarrow> version_row option \<times> session" where
  "active_scan org now cancelled [] s = (None, s)"
| "active_scan org now cancelled (row # rows) s =
     (if vr_id row \<in> set cancelled then active_scan org now cancelled rows s
      else if vr_change_class row = LOOSENING \<and> breaker_covered org (vr_effective_at row) (se_current s)
      then active_scan org now cancelled rows (cancel_version row now s)
      else (Some row, s))"

definition active_row :: "uid \<Rightarrow> policy_kind \<Rightarrow> dt \<Rightarrow> session \<Rightarrow> version_row option \<times> session" where
  "active_row org k now s =
     (let rows = rev (sort_key vr_version_number
                   (filter (\<lambda>v. vr_org v = org \<and> vr_kind v = k \<and> vr_effective_at v \<le> instant now)
                     (pd_versions (se_current s))));
          cancelled = map ca_version_id (filter (\<lambda>c. ca_org c = org) (pd_cancellations (se_current s)))
      in active_scan org now cancelled rows s)"

definition scheduled_row :: "uid \<Rightarrow> policy_kind \<Rightarrow> dt \<Rightarrow> policy_db \<Rightarrow> version_row option" where
  "scheduled_row org k now db =
     (case sort_key vr_version_number
             (filter (\<lambda>v. vr_org v = org \<and> vr_kind v = k \<and> instant now < vr_effective_at v) (pd_versions db)) of
        [] \<Rightarrow> None | row # _ \<Rightarrow> Some row)"

definition next_version_number :: "uid \<Rightarrow> policy_kind \<Rightarrow> policy_db \<Rightarrow> int" where
  "next_version_number org k db =
     (case rev (sort_key vr_version_number
             (filter (\<lambda>v. vr_org v = org \<and> vr_kind v = k) (pd_versions db))) of
        [] \<Rightarrow> 0 + 1 | row # _ \<Rightarrow> vr_version_number row + 1)"

text \<open>
  A decimal column is \<^verbatim>\<open>NUMERIC(20, 8)\<close> and was written from an eight-place text, so \<^verbatim>\<open>format(x, "f")\<close>
  prints its eight places.
\<close>

definition column_text :: "rat \<Rightarrow> string" where
  "column_text x = cell_str (CDec x)"

definition row_canonical :: "version_row \<Rightarrow> (string \<times> string) list option \<Rightarrow> (string \<times> string) list" where
  "row_canonical row payload =
     [(''kind'', kind_value (vr_kind row)),
      (''risk_percent_a_plus'', column_text (vr_risk_percent_a_plus row)),
      (''risk_percent_a'', column_text (vr_risk_percent_a row)),
      (''risk_percent_b_plus'', column_text (vr_risk_percent_b_plus row)),
      (''risk_percent_b'', column_text (vr_risk_percent_b row)),
      (''risk_percent_c'', column_text (vr_risk_percent_c row)),
      (''max_leverage'', column_text (vr_max_leverage row)),
      (''daily_loss_limit_percent'', column_text (vr_daily_loss_limit_percent row)),
      (''max_aggregate_open_risk_percent'', column_text (vr_max_aggregate_open_risk_percent row)),
      (''max_open_positions'', int_text (vr_max_open_positions row)),
      (''max_notional_per_trade_percent'', column_text (vr_max_notional_per_trade_percent row)),
      (''max_aggregate_notional_percent'', column_text (vr_max_aggregate_notional_percent row)),
      (''min_stop_atr_multiple'', column_text (vr_min_stop_atr_multiple row)),
      (''min_stop_absolute_floor'', column_text (vr_min_stop_absolute_floor row)),
      (''max_cost_share_of_r'', column_text (vr_max_cost_share_of_r row)),
      (''drawdown_breaker_percent'', column_text (vr_drawdown_breaker_percent row)),
      (''consecutive_loss_limit'', int_text (vr_consecutive_loss_limit row)),
      (''autonomous_internal_paper_enabled'', flag_text (vr_autonomous_internal_paper_enabled row)),
      (''autonomous_blofin_demo_enabled'', flag_text (vr_autonomous_blofin_demo_enabled row)),
      (''profile_name'', vr_profile_name row),
      (''default_leverage'', column_text (vr_default_leverage row)),
      (''paper_demo_data_collection'', flag_text (vr_paper_demo_data_collection row))]
     @ (case Option.bind payload (\<lambda>m. map_of m ''consecutive_loss_cooldown_hours'') of
          None \<Rightarrow> [] | Some hours \<Rightarrow> [(''consecutive_loss_cooldown_hours'', hours)])"

definition profile_from_row :: "version_row \<Rightarrow> (string \<times> string) list option \<Rightarrow> profile res" where
  "profile_from_row row payload = profile_from_canonical (row_canonical row payload)"

definition get_proposal :: "uid \<Rightarrow> policy_db \<Rightarrow> proposal_row option" where
  "get_proposal pid db = find (\<lambda>p. pr_id p = pid) (pd_proposals db)"

definition profile_from_version :: "version_row \<Rightarrow> policy_db \<Rightarrow> profile res" where
  "profile_from_version row db = profile_from_row row (map_option pr_payload (get_proposal (vr_proposal_id row) db))"

definition read_policy ::
    "uid \<Rightarrow> policy_kind \<Rightarrow> dt \<Rightarrow> (profile \<times> version_row option \<times> version_row option) op" where
  "read_policy org k now s =
     (let (active, s1) = active_row org k now s;
          scheduled = scheduled_row org k now (se_current s1)
      in case active of
           None \<Rightarrow> (res_bind (placeholder_profile k) (\<lambda>p. Inr (p, None, scheduled)), s1)
         | Some row \<Rightarrow>
             (res_bind (profile_from_version row (se_current s1)) (\<lambda>p. Inr (p, Some row, scheduled)), s1))"

section \<open>Inserting a version\<close>

definition kind_risk_check :: "policy_kind \<Rightarrow> rat \<Rightarrow> bool" where
  "kind_risk_check k x \<longleftrightarrow>
     ((k = INTERNAL_PAPER \<or> k = DEMO) \<and> 0 < x \<and> x \<le> 5) \<or> (\<not> (k = INTERNAL_PAPER \<or> k = DEMO) \<and> 0 < x \<and> x \<le> 2)"

definition version_checks :: "version_row \<Rightarrow> bool list" where
  "version_checks v =
     [kind_risk_check (vr_kind v) (vr_risk_percent_a_plus v),
      kind_risk_check (vr_kind v) (vr_risk_percent_a v),
      kind_risk_check (vr_kind v) (vr_risk_percent_b_plus v),
      kind_risk_check (vr_kind v) (vr_risk_percent_b v),
      vr_risk_percent_c v = 0,
      1 \<le> vr_max_leverage v \<and> vr_max_leverage v \<le> 20,
      0 < vr_daily_loss_limit_percent v \<and> vr_daily_loss_limit_percent v \<le> 6,
      0 < vr_max_aggregate_open_risk_percent v \<and> vr_max_aggregate_open_risk_percent v \<le> 6,
      vr_max_notional_per_trade_percent v < vr_max_aggregate_notional_percent v,
      0 < vr_max_cost_share_of_r v \<and> vr_max_cost_share_of_r v \<le> 25 / 100,
      vr_actor_channel v = HUMAN,
      vr_change_class v \<in> {INITIAL, TIGHTENING, LOOSENING},
      1 \<le> vr_default_leverage v \<and> vr_default_leverage v \<le> vr_max_leverage v \<and> vr_default_leverage v \<le> 20,
      \<not> vr_paper_demo_data_collection v \<or> vr_kind v = INTERNAL_PAPER \<or> vr_kind v = DEMO]"

text \<open>The profile \<^verbatim>\<open>_validate_version_insert\<close> builds from the columns; the cooldown has its default.\<close>

definition columns_profile :: "version_row \<Rightarrow> profile" where
  "columns_profile v =
     \<lparr>p_kind = vr_kind v,
      p_risk_percent_by_grade = grades_of (vr_risk_percent_a_plus v) (vr_risk_percent_a v)
        (vr_risk_percent_b_plus v) (vr_risk_percent_b v) (vr_risk_percent_c v),
      p_max_leverage = vr_max_leverage v, p_daily_loss_limit_percent = vr_daily_loss_limit_percent v,
      p_max_aggregate_open_risk_percent = vr_max_aggregate_open_risk_percent v,
      p_max_open_positions = vr_max_open_positions v,
      p_max_notional_per_trade_percent = vr_max_notional_per_trade_percent v,
      p_max_aggregate_notional_percent = vr_max_aggregate_notional_percent v,
      p_min_stop_atr_multiple = vr_min_stop_atr_multiple v,
      p_min_stop_absolute_floor = vr_min_stop_absolute_floor v,
      p_max_cost_share_of_r = vr_max_cost_share_of_r v,
      p_drawdown_breaker_percent = vr_drawdown_breaker_percent v,
      p_consecutive_loss_limit = vr_consecutive_loss_limit v,
      p_consecutive_loss_cooldown_hours = 24,
      p_autonomous_internal_paper_enabled = vr_autonomous_internal_paper_enabled v,
      p_autonomous_blofin_demo_enabled = vr_autonomous_blofin_demo_enabled v,
      p_profile_name = vr_profile_name v, p_default_leverage = vr_default_leverage v,
      p_paper_demo_data_collection = vr_paper_demo_data_collection v\<rparr>"

definition version_refused :: "version_row \<Rightarrow> policy_db \<Rightarrow> bool" where
  "version_refused v db \<longleftrightarrow>
     list_ex (\<lambda>x. vr_id x = vr_id v \<or> vr_proposal_id x = vr_proposal_id v
                  \<or> (vr_org x = vr_org v \<and> vr_kind x = vr_kind v
                     \<and> vr_version_number x = vr_version_number v)) (pd_versions db)
     \<or> \<not> list_all id (version_checks v)"

definition insert_version :: "version_row \<Rightarrow> unit op" where
  "insert_version v =
     op_bind (\<lambda>s. case validate_profile (columns_profile v) of
                Inl e \<Rightarrow> (Inl e, rollback s) | Inr _ \<Rightarrow> (Inr (), s)) (\<lambda>_.
     op_insert (version_refused v) (\<lambda>db. db\<lparr>pd_versions := pd_versions db @ [v]\<rparr>)
       (Rejected ''version_conflict''))"

section \<open>Applying\<close>

text \<open>
  \<^verbatim>\<open>Decimal(canonical["..."])\<close> and \<^verbatim>\<open>int(canonical["..."])\<close> on the output of \<^verbatim>\<open>canonical_profile\<close>, whose
  keys exist and whose texts parse; the default is not reached.
\<close>

definition canon_dec :: "(string \<times> string) list \<Rightarrow> string \<Rightarrow> rat" where
  "canon_dec m k = (case get_dec m k of Some x \<Rightarrow> x | None \<Rightarrow> 0)"

definition canon_int :: "(string \<times> string) list \<Rightarrow> string \<Rightarrow> int" where
  "canon_int m k = (case get_int m k of Some x \<Rightarrow> x | None \<Rightarrow> 0)"

definition version_of ::
    "uid \<Rightarrow> uid \<Rightarrow> proposal_row \<Rightarrow> policy_kind \<Rightarrow> int \<Rightarrow> (string \<times> string) list \<Rightarrow> apply_decision
     \<Rightarrow> policy_actor \<Rightarrow> string \<Rightarrow> dt \<Rightarrow> version_row" where
  "version_of new_id org proposal k number m decision actor content_hash now =
     \<lparr>vr_id = new_id, vr_org = org, vr_proposal_id = pr_id proposal, vr_kind = k, vr_version_number = number,
      vr_risk_percent_a_plus = canon_dec m ''risk_percent_a_plus'',
      vr_risk_percent_a = canon_dec m ''risk_percent_a'',
      vr_risk_percent_b_plus = canon_dec m ''risk_percent_b_plus'',
      vr_risk_percent_b = canon_dec m ''risk_percent_b'',
      vr_risk_percent_c = canon_dec m ''risk_percent_c'',
      vr_max_leverage = canon_dec m ''max_leverage'',
      vr_daily_loss_limit_percent = canon_dec m ''daily_loss_limit_percent'',
      vr_max_aggregate_open_risk_percent = canon_dec m ''max_aggregate_open_risk_percent'',
      vr_max_open_positions = canon_int m ''max_open_positions'',
      vr_max_notional_per_trade_percent = canon_dec m ''max_notional_per_trade_percent'',
      vr_max_aggregate_notional_percent = canon_dec m ''max_aggregate_notional_percent'',
      vr_min_stop_atr_multiple = canon_dec m ''min_stop_atr_multiple'',
      vr_min_stop_absolute_floor = canon_dec m ''min_stop_absolute_floor'',
      vr_max_cost_share_of_r = canon_dec m ''max_cost_share_of_r'',
      vr_drawdown_breaker_percent = canon_dec m ''drawdown_breaker_percent'',
      vr_consecutive_loss_limit = canon_int m ''consecutive_loss_limit'',
      vr_autonomous_internal_paper_enabled = False, vr_autonomous_blofin_demo_enabled = False,
      vr_profile_name = get_default m ''profile_name'' '''',
      vr_default_leverage = canon_dec m ''default_leverage'',
      vr_paper_demo_data_collection = (map_of m ''paper_demo_data_collection'' = Some ''true''),
      vr_change_class = ad_change_class decision, vr_effective_at = ad_effective_at decision,
      vr_actor_id = pa_actor_id actor, vr_actor_channel = HUMAN, vr_reason = pr_reason proposal,
      vr_diff = ad_diff decision, vr_content_hash = content_hash, vr_created_at = instant now\<rparr>"

definition stored_promotion_report :: "uid \<Rightarrow> policy_db \<Rightarrow> promotion_report option" where
  "stored_promotion_report org db =
     map_option (\<lambda>r. \<lparr>rep_grader_version = rr_grader_version r, rep_grades = [], rep_ordered = rr_ordered r,
                      rep_walk_forward_ok = rr_walk_forward_ok r, rep_eligible = rr_eligible r,
                      rep_auto_demotion = [], rep_promotion_applied = False\<rparr>)
       (find (\<lambda>r. rr_org r = org \<and> rr_grader_version r = GRADER_VERSION) (pd_reports db))"

fun class_value :: "change_class \<Rightarrow> string" where
  "class_value INITIAL = ''initial''"
| "class_value TIGHTENING = ''tightening''"
| "class_value LOOSENING = ''loosening''"

text \<open>
  \<open>apply\<close>. A timestamp in the audit metadata is its instant. \<open>checked_proposal\<close> is the part up to the
  promotion gate, \<open>apply_profile\<close> the decision against the profile in force and the insert.
\<close>

definition checked_proposal ::
    "uid \<Rightarrow> uid \<Rightarrow> policy_actor \<Rightarrow> human_apply_proof option \<Rightarrow> string \<Rightarrow> string \<Rightarrow> dt
     \<Rightarrow> (proposal_row \<times> profile \<times> policy_kind) op" where
  "checked_proposal org proposal_id actor prf owner_user_id pinned_chat now =
     op_bind (op_read (\<lambda>db. case get_proposal proposal_id db of
                None \<Rightarrow> Inl (Rejected ''proposal_not_found'')
              | Some p \<Rightarrow> if pr_org p \<noteq> org then Inl (Rejected ''proposal_not_found'') else Inr p)) (\<lambda>proposal.
     op_bind (op_audited (op_res (assert_can_apply actor prf owner_user_id pinned_chat (pr_id proposal)
                            (pr_content_hash proposal) now))
                (\<lambda>code. audit_entry POLICY_APPLY_REFUSED org actor proposal_id
                          [(''reason'', VStr code)] BLOCKED)) (\<lambda>_.
     op_bind (op_res (proposal_is_expired (Aware (pr_created_at proposal)) now)) (\<lambda>expired.
     op_bind (op_res (if expired then Inl (Rejected ''proposal_expired'') else
                case kind_of_value (pr_kind proposal) of
                  None \<Rightarrow> Inl (Rejected ''kind_invalid'') | Some k \<Rightarrow> Inr k)) (\<lambda>k.
     op_bind (op_res (profile_from_canonical (pr_payload proposal))) (\<lambda>prof.
     op_bind (op_read (\<lambda>db. assert_promotion_allows prof (stored_promotion_report org db))) (\<lambda>_.
     op_res (Inr (proposal, prof, k))))))))"

definition applied_metadata ::
    "policy_kind \<Rightarrow> int \<Rightarrow> apply_decision \<Rightarrow> proposal_row \<Rightarrow> (string \<times> string) list \<Rightarrow> (string \<times> pyval) list" where
  "applied_metadata k number decision proposal canonical =
     [(''kind'', VStr (kind_value k)), (''version_number'', VInt number),
      (''change_class'', VStr (class_value (ad_change_class decision))),
      (''effective_at'', VInt (ad_effective_at decision)),
      (''proposal_id'', VStr (pr_id proposal)),
      (''applies_to_new_trades_only'', VBool True),
      (''profile_name'', VStr (get_default canonical ''profile_name'' '''')),
      (''paper_demo_data_collection'',
         VBool (map_of canonical ''paper_demo_data_collection'' = Some ''true'')),
      (''default_leverage'', VStr (get_default canonical ''default_leverage'' ''''))]"

definition apply_profile ::
    "(string \<Rightarrow> string) \<Rightarrow> (policy_db \<Rightarrow> policy_db) \<Rightarrow> uid \<Rightarrow> uid \<Rightarrow> policy_actor \<Rightarrow> dt
     \<Rightarrow> proposal_row \<Rightarrow> profile \<Rightarrow> policy_kind \<Rightarrow> version_row op" where
  "apply_profile sha256 others new_id org actor now proposal prof k =
     op_bind (\<lambda>s. case active_row org k now s of (row, s1) \<Rightarrow> (Inr row, s1)) (\<lambda>previous_row.
     op_bind (op_read (\<lambda>db. case previous_row of
                None \<Rightarrow> placeholder_profile k | Some row \<Rightarrow> profile_from_version row db)) (\<lambda>previous.
     op_bind (op_read (\<lambda>db. decide_apply actor (Some previous) prof now
                (breaker_active org (instant now) db) (previous_row = None))) (\<lambda>decision.
     op_bind (op_read (\<lambda>db. Inr (next_version_number org k db))) (\<lambda>number.
     op_bind (op_res (canonical_profile prof)) (\<lambda>canonical.
     op_bind (op_res (profile_hash sha256 prof)) (\<lambda>content_hash.
     let row = version_of new_id org proposal k number canonical decision actor content_hash now
     in op_bind (op_others others) (\<lambda>_.
        op_bind (insert_version row) (\<lambda>_.
        op_bind (op_write (audit_entry POLICY_APPLIED org actor new_id
                   (applied_metadata k number decision proposal canonical) SUCCESS)) (\<lambda>_.
        op_res (Inr row))))))))))"

definition apply_proposal ::
    "(string \<Rightarrow> string) \<Rightarrow> (policy_db \<Rightarrow> policy_db) \<Rightarrow> uid \<Rightarrow> uid \<Rightarrow> uid \<Rightarrow> policy_actor
     \<Rightarrow> human_apply_proof option \<Rightarrow> string \<Rightarrow> string \<Rightarrow> dt \<Rightarrow> version_row op" where
  "apply_proposal sha256 others new_id org proposal_id actor prf owner_user_id pinned_chat now =
     op_bind (checked_proposal org proposal_id actor prf owner_user_id pinned_chat now)
       (\<lambda>(proposal, prof, k). apply_profile sha256 others new_id org actor now proposal prof k)"

section \<open>Grades, trades, samples and reports\<close>

definition decision_from_binding :: "binding_row \<Rightarrow> grade_decision" where
  "decision_from_binding row =
     \<lparr>gd_grade = Some (gb_grade row), gd_grader_version = gb_grader_version row,
      gd_trend_score = Some (gb_trend_score row), gd_momentum_score = Some (gb_momentum_score row),
      gd_refusal = gb_refusal row\<rparr>"

definition find_binding :: "uid \<Rightarrow> string \<Rightarrow> policy_db \<Rightarrow> binding_row option" where
  "find_binding org setup_id db = find (\<lambda>b. gb_org b = org \<and> gb_setup_id b = setup_id) (pd_bindings db)"

definition refusal_code :: "grade_decision \<Rightarrow> string" where
  "refusal_code decision =
     (case gd_refusal decision of None \<Rightarrow> ''ungraded'' | Some c \<Rightarrow> if c = '''' then ''ungraded'' else c)"

text \<open>
  The insert runs in a savepoint: a row that another session bound in between makes it fail, the
  savepoint alone is undone and that row wins.
\<close>

definition bind_grade ::
    "(policy_db \<Rightarrow> policy_db) \<Rightarrow> uid \<Rightarrow> string \<Rightarrow> grade_decision \<Rightarrow> dt \<Rightarrow> grade_decision op" where
  "bind_grade others org setup_id decision now s =
     (case find_binding org setup_id (se_current s) of
        Some existing \<Rightarrow> (Inr (decision_from_binding existing), s)
      | None \<Rightarrow>
          (case (gd_grade decision, gd_trend_score decision, gd_momentum_score decision) of
             (Some g, Some trend, Some mom) \<Rightarrow>
               let row = \<lparr>gb_org = org, gb_setup_id = setup_id, gb_grade = g,
                          gb_grader_version = gd_grader_version decision, gb_trend_score = trend,
                          gb_momentum_score = mom, gb_refusal = gd_refusal decision,
                          gb_created_at = instant now\<rparr>;
                   s1 = snd (op_others others s)
               in if list_ex (\<lambda>b. gb_org b = org \<and> gb_setup_id b = setup_id) (pd_bindings (se_current s1))
                  then (case find_binding org setup_id (se_current s1) of
                          None \<Rightarrow> (Inl (Rejected ''grade_bind_conflict''), s1)
                        | Some winner \<Rightarrow> (Inr (decision_from_binding winner), s1))
                  else (Inr decision,
                        s1\<lparr>se_current := (se_current s1)\<lparr>pd_bindings := pd_bindings (se_current s1) @ [row]\<rparr>\<rparr>)
           | _ \<Rightarrow> (Inl (Rejected (refusal_code decision)), s)))"

definition record_trade :: "uid \<Rightarrow> string \<Rightarrow> trade_risk_record \<Rightarrow> dt \<Rightarrow> trade_row op" where
  "record_trade org trade_id r now =
     (let row = \<lparr>tw_org = org, tw_trade_id = trade_id, tw_profile_version_id = tr_profile_version_id r,
                 tw_grade = tr_grade r, tw_grader_version = tr_grader_version r,
                 tw_adjusters = tr_adjusters r, tw_calculation = tr_calculation r,
                 tw_ai_explanation = tr_ai_explanation r, tw_created_at = instant now\<rparr>
      in op_bind (op_insert
            (\<lambda>db. list_ex (\<lambda>t. tw_org t = org \<and> tw_trade_id t = trade_id) (pd_trades db)
                  \<or> tr_profile_version_id r \<notin> vr_id ` set (pd_versions db))
            (\<lambda>db. db\<lparr>pd_trades := pd_trades db @ [row]\<rparr>) IntegrityError) (\<lambda>_.
         op_res (Inr row)))"

definition add_calibration_sample ::
    "uid \<Rightarrow> string \<Rightarrow> string \<Rightarrow> rat \<Rightarrow> bool \<Rightarrow> int \<Rightarrow> rat \<Rightarrow> dt \<Rightarrow> unit op" where
  "add_calibration_sample org g grader_version r_multiple in_sample walk_forward_fold slippage_r now =
     op_write (\<lambda>db. db\<lparr>pd_samples := pd_samples db @
       [\<lparr>sw_org = org, sw_grade = g, sw_grader_version = grader_version, sw_r_multiple = r_multiple,
         sw_in_sample = in_sample, sw_walk_forward_fold = walk_forward_fold, sw_slippage_r = slippage_r,
         sw_created_at = instant now\<rparr>]\<rparr>)"

definition store_promotion_report :: "uid \<Rightarrow> promotion_report \<Rightarrow> dt \<Rightarrow> unit op" where
  "store_promotion_report org report now =
     (if rep_grader_version report \<noteq> GRADER_VERSION \<or> \<not> rep_eligible report
      then op_res (Inl (Rejected ''promotion_report_not_eligible''))
      else op_insert
        (\<lambda>db. list_ex (\<lambda>r. rr_org r = org \<and> rr_grader_version r = rep_grader_version report) (pd_reports db))
        (\<lambda>db. db\<lparr>pd_reports := pd_reports db @
           [\<lparr>rr_org = org, rr_grader_version = rep_grader_version report, rr_eligible = rep_eligible report,
             rr_ordered = rep_ordered report, rr_walk_forward_ok = rep_walk_forward_ok report,
             rr_created_at = instant now\<rparr>]\<rparr>) IntegrityError)"

section \<open>Human resets\<close>

text \<open>
  \<open>account_owner\<close> is the lookup in the execution accounts, \<open>account_equity\<close> the figure of the portfolio
  accounting for a user.
\<close>

definition audit_drawdown_refusal :: "uid \<Rightarrow> uid \<Rightarrow> policy_actor \<Rightarrow> string \<Rightarrow> policy_db \<Rightarrow> policy_db" where
  "audit_drawdown_refusal org acc actor reason =
     audit_entry POLICY_APPLY_REFUSED org actor acc
       [(''action'', VStr ''drawdown_reset''), (''reason'', VStr reason), (''account_id'', VStr acc)] BLOCKED"

definition account_owner_user_id :: "(uid \<Rightarrow> uid \<Rightarrow> uid option) \<Rightarrow> uid \<Rightarrow> uid \<Rightarrow> uid res" where
  "account_owner_user_id account_owner org acc =
     (case account_owner org acc of
        None \<Rightarrow> Inl (Rejected ''drawdown_account_unbound'') | Some u \<Rightarrow> Inr u)"

definition server_drawdown_breaker_percent :: "uid \<Rightarrow> dt \<Rightarrow> rat op" where
  "server_drawdown_breaker_percent org now =
     op_bind (read_policy org INTERNAL_PAPER now) (\<lambda>(paper, _, _).
     op_bind (op_res (if p_drawdown_breaker_percent paper \<le> 0
                      then Inl (Rejected ''drawdown_threshold_uncomputed'') else Inr ())) (\<lambda>_.
     op_bind (read_policy org DEMO now) (\<lambda>(demo, _, _).
     op_bind (op_res (if p_drawdown_breaker_percent demo \<le> 0
                      then Inl (Rejected ''drawdown_threshold_uncomputed'') else Inr ())) (\<lambda>_.
     op_res (Inr (min (p_drawdown_breaker_percent paper) (p_drawdown_breaker_percent demo)))))))"

definition server_account_equity :: "(uid \<Rightarrow> uid \<Rightarrow> num) \<Rightarrow> uid \<Rightarrow> uid \<Rightarrow> rat res" where
  "server_account_equity account_equity org user_id =
     (case account_equity org user_id of
        NonFinite \<Rightarrow> Inl (Rejected ''drawdown_equity_uncomputed'')
      | Fin x \<Rightarrow> if x \<le> 0 then Inl (Rejected ''drawdown_equity_uncomputed'') else Inr x)"

definition money_or_zero :: "rat option \<Rightarrow> rat" where
  "money_or_zero v = (case v of None \<Rightarrow> 0 | Some x \<Rightarrow> x)"

definition reset_verdict :: "rat \<Rightarrow> rat \<Rightarrow> breaker_state \<Rightarrow> dt \<Rightarrow> breaker_verdict res" where
  "reset_verdict percent equity row now =
     evaluate_breakers
       \<lparr>bc_daily_loss_limit_percent = 100, bc_drawdown_breaker_percent = percent,
        bc_consecutive_loss_limit = br_consecutive_losses row + 1\<rparr>
       \<lparr>bs_equity = Fin equity, bs_equity_peak = Fin (br_equity_peak row),
        bs_reference_equity = Fin (br_equity_peak row),
        bs_realized_pnl_today = money_or_zero (br_realized_pnl row),
        bs_unrealized_pnl_today = Fin (money_or_zero (br_unrealized_pnl row)),
        bs_consecutive_losses = 0, bs_drawdown_latched = False, bs_now = now\<rparr>"

definition reset_drawdown_latch ::
    "(string \<Rightarrow> string) \<Rightarrow> (uid \<Rightarrow> uid \<Rightarrow> uid option) \<Rightarrow> (uid \<Rightarrow> uid \<Rightarrow> num) \<Rightarrow> uid \<Rightarrow> uid \<Rightarrow> policy_actor
     \<Rightarrow> human_apply_proof option \<Rightarrow> string \<Rightarrow> string \<Rightarrow> dt \<Rightarrow> unit op" where
  "reset_drawdown_latch sha256 account_owner account_equity org acc actor prf owner_user_id pinned_chat now =
     op_bind (op_audited (op_res (if pa_channel actor \<noteq> HUMAN
                            then Inl (Rejected ''drawdown_reset_requires_human'') else Inr ()))
                (audit_drawdown_refusal org acc actor)) (\<lambda>_.
     case drawdown_reset_binding sha256 acc of (proposal_id, content_hash) \<Rightarrow>
     op_bind (op_audited (op_res (assert_can_apply actor prf owner_user_id pinned_chat proposal_id content_hash now))
                (audit_drawdown_refusal org acc actor)) (\<lambda>_.
     op_bind (op_read (\<lambda>db. case load_breaker org acc db of
                None \<Rightarrow> Inl (Rejected ''drawdown_not_latched'')
              | Some row \<Rightarrow> if \<not> br_drawdown_latched row then Inl (Rejected ''drawdown_not_latched'')
                            else Inr row)) (\<lambda>row.
     op_bind (op_audited
                (op_bind (op_res (account_owner_user_id account_owner org acc)) (\<lambda>user_id.
                 op_bind (server_drawdown_breaker_percent org now) (\<lambda>percent.
                 op_res (Inr (user_id, percent)))))
                (audit_drawdown_refusal org acc actor)) (\<lambda>(user_id, percent).
     op_bind (op_res (server_account_equity account_equity org user_id)) (\<lambda>equity.
     op_bind (op_res (reset_verdict percent equity row now)) (\<lambda>verdict.
     op_bind (op_audited (op_res (if bv_drawdown_active verdict
                            then Inl (Rejected ''drawdown_still_active'') else Inr ()))
                (audit_drawdown_refusal org acc actor)) (\<lambda>_.
     op_write (\<lambda>db. (clear_drawdown row (instant now) db)\<lparr>pd_resets := pd_resets db @
        [\<lparr>rs_org = org, rs_account = acc, rs_actor_id = pa_actor_id actor,
          rs_actor_channel = pa_channel actor, rs_created_at = instant now\<rparr>]\<rparr>))))))))"

definition reset_consecutive_losses ::
    "(string \<Rightarrow> string) \<Rightarrow> uid \<Rightarrow> uid \<Rightarrow> policy_actor \<Rightarrow> human_apply_proof option \<Rightarrow> string \<Rightarrow> string \<Rightarrow> dt \<Rightarrow> unit op" where
  "reset_consecutive_losses sha256 org acc actor prf owner_user_id pinned_chat now =
     (case consecutive_reset_binding sha256 acc of (proposal_id, content_hash) \<Rightarrow>
     op_bind (op_audited (op_res (assert_can_apply actor prf owner_user_id pinned_chat proposal_id content_hash now))
                (\<lambda>code. audit_entry POLICY_CONSECUTIVE_RESET org actor acc
                          [(''reason'', VStr code), (''account_id'', VStr acc)] BLOCKED)) (\<lambda>_.
     op_bind (op_read (\<lambda>db. case load_breaker org acc db of
                None \<Rightarrow> Inl (Rejected ''consecutive_not_active'')
              | Some row \<Rightarrow>
                  if br_consecutive_losses row = 0 \<and> br_consecutive_paused_until row = None
                  then Inl (Rejected ''consecutive_not_active'') else Inr row)) (\<lambda>row.
     op_bind (op_write (clear_consecutive row (instant now))) (\<lambda>_.
     op_write (audit_entry POLICY_CONSECUTIVE_RESET org actor acc
       [(''account_id'', VStr acc),
        (''proof_method'', VStr (case prf of None \<Rightarrow> '''' | Some p \<Rightarrow> hp_method p)),
        (''drawdown_latched'', VBool (br_drawdown_latched row))] SUCCESS)))))"

end
