(* ===== verification/Policy_History.thy ===== *)
theory Policy_History
  imports Policy_Store
begin

text \<open>
  What the policy store guarantees over any history of service calls. \<open>db_step\<close> is the abstract
  specification of the tables: which rows may be added, and under which conditions. Every public
  operation of \<^verbatim>\<open>RiskPolicyService\<close>, with its commits, its rollbacks and the writes of other sessions
  in its race windows, is a path of such steps; the invariants are proved on the steps, by rule
  induction.
\<close>

section \<open>A version row reads back the proposed profile\<close>

lemma row_lookup [simp]:
  "map_of (row_canonical v m) ''kind'' = Some (kind_value (vr_kind v))"
  "map_of (row_canonical v m) ''risk_percent_a_plus'' = Some (column_text (vr_risk_percent_a_plus v))"
  "map_of (row_canonical v m) ''risk_percent_a'' = Some (column_text (vr_risk_percent_a v))"
  "map_of (row_canonical v m) ''risk_percent_b_plus'' = Some (column_text (vr_risk_percent_b_plus v))"
  "map_of (row_canonical v m) ''risk_percent_b'' = Some (column_text (vr_risk_percent_b v))"
  "map_of (row_canonical v m) ''risk_percent_c'' = Some (column_text (vr_risk_percent_c v))"
  "map_of (row_canonical v m) ''max_leverage'' = Some (column_text (vr_max_leverage v))"
  "map_of (row_canonical v m) ''daily_loss_limit_percent''
     = Some (column_text (vr_daily_loss_limit_percent v))"
  "map_of (row_canonical v m) ''max_aggregate_open_risk_percent''
     = Some (column_text (vr_max_aggregate_open_risk_percent v))"
  "map_of (row_canonical v m) ''max_open_positions'' = Some (int_text (vr_max_open_positions v))"
  "map_of (row_canonical v m) ''max_notional_per_trade_percent''
     = Some (column_text (vr_max_notional_per_trade_percent v))"
  "map_of (row_canonical v m) ''max_aggregate_notional_percent''
     = Some (column_text (vr_max_aggregate_notional_percent v))"
  "map_of (row_canonical v m) ''min_stop_atr_multiple'' = Some (column_text (vr_min_stop_atr_multiple v))"
  "map_of (row_canonical v m) ''min_stop_absolute_floor''
     = Some (column_text (vr_min_stop_absolute_floor v))"
  "map_of (row_canonical v m) ''max_cost_share_of_r'' = Some (column_text (vr_max_cost_share_of_r v))"
  "map_of (row_canonical v m) ''drawdown_breaker_percent''
     = Some (column_text (vr_drawdown_breaker_percent v))"
  "map_of (row_canonical v m) ''consecutive_loss_limit'' = Some (int_text (vr_consecutive_loss_limit v))"
  "map_of (row_canonical v m) ''consecutive_loss_cooldown_hours''
     = Option.bind m (\<lambda>m. map_of m ''consecutive_loss_cooldown_hours'')"
  "map_of (row_canonical v m) ''autonomous_internal_paper_enabled''
     = Some (flag_text (vr_autonomous_internal_paper_enabled v))"
  "map_of (row_canonical v m) ''autonomous_blofin_demo_enabled''
     = Some (flag_text (vr_autonomous_blofin_demo_enabled v))"
  "map_of (row_canonical v m) ''profile_name'' = Some (vr_profile_name v)"
  "map_of (row_canonical v m) ''default_leverage'' = Some (column_text (vr_default_leverage v))"
  "map_of (row_canonical v m) ''paper_demo_data_collection''
     = Some (flag_text (vr_paper_demo_data_collection v))"
  by (simp_all add: row_canonical_def split: option.splits)

lemma canonical_text: "canonical_profile p = Inr m \<Longrightarrow> m = map (\<lambda>(k, c). (k, cell_str c)) (canonical_cells p)"
  using canonical_profile_eq [OF canonical_profile_valid, of p m] by simp

lemma valid_counts:
  assumes "valid_profile p"
  shows "parse_int (int_text (p_max_open_positions p)) = Some (p_max_open_positions p)"
    "parse_int (int_text (p_consecutive_loss_limit p)) = Some (p_consecutive_loss_limit p)"
    "parse_int (int_text (p_consecutive_loss_cooldown_hours p)) = Some (p_consecutive_loss_cooldown_hours p)"
    "name_option (p_profile_name p) = Some (p_profile_name p)"
  using assms by (auto simp: valid_profile_def name_option_def parse_int_text profile_name_ok_def)

lemma valid_validates: "valid_profile p \<Longrightarrow> validate_profile p = Inr ()"
  by (simp add: res_simps)

lemma canon_columns:
  assumes "canonical_profile p = Inr m"
  shows "canon_dec m ''risk_percent_a_plus'' = quantum (grade_percent p A_PLUS)"
    "canon_dec m ''risk_percent_a'' = quantum (grade_percent p A)"
    "canon_dec m ''risk_percent_b_plus'' = quantum (grade_percent p B_PLUS)"
    "canon_dec m ''risk_percent_b'' = quantum (grade_percent p B)"
    "canon_dec m ''risk_percent_c'' = quantum (grade_percent p C)"
    "canon_dec m ''max_leverage'' = quantum (p_max_leverage p)"
    "canon_dec m ''daily_loss_limit_percent'' = quantum (p_daily_loss_limit_percent p)"
    "canon_dec m ''max_aggregate_open_risk_percent'' = quantum (p_max_aggregate_open_risk_percent p)"
    "canon_int m ''max_open_positions'' = p_max_open_positions p"
    "canon_dec m ''max_notional_per_trade_percent'' = quantum (p_max_notional_per_trade_percent p)"
    "canon_dec m ''max_aggregate_notional_percent'' = quantum (p_max_aggregate_notional_percent p)"
    "canon_dec m ''min_stop_atr_multiple'' = quantum (p_min_stop_atr_multiple p)"
    "canon_dec m ''min_stop_absolute_floor'' = quantum (p_min_stop_absolute_floor p)"
    "canon_dec m ''max_cost_share_of_r'' = quantum (p_max_cost_share_of_r p)"
    "canon_dec m ''drawdown_breaker_percent'' = quantum (p_drawdown_breaker_percent p)"
    "canon_int m ''consecutive_loss_limit'' = p_consecutive_loss_limit p"
    "get_default m ''profile_name'' '''' = p_profile_name p"
    "canon_dec m ''default_leverage'' = quantum (p_default_leverage p)"
    "map_of m ''paper_demo_data_collection'' = Some (flag_text (p_paper_demo_data_collection p))"
    "map_of m ''consecutive_loss_cooldown_hours'' = Some (int_text (p_consecutive_loss_cooldown_hours p))"
  unfolding canonical_text [OF assms] canon_dec_def canon_int_def get_dec_def get_int_def get_default_def
    map_of_cells
  by (simp_all add: valid_counts [OF canonical_profile_valid [OF assms]])

lemma version_columns:
  assumes "canonical_profile p = Inr m"
  shows "columns_profile (version_of new_id org pr (p_kind p) n m d actor h now) =
    (quantised p)\<lparr>p_consecutive_loss_cooldown_hours := 24\<rparr>"
proof -
  have v: "\<forall>g. p_risk_percent_by_grade p g \<noteq> None" "\<not> p_autonomous_internal_paper_enabled p"
    "\<not> p_autonomous_blofin_demo_enabled p"
    using canonical_profile_valid [OF assms] by (auto simp: valid_profile_def)
  show ?thesis
    unfolding columns_profile_def version_of_def quantised_def
    by (simp add: canon_columns [OF assms] grades_of_quantum v flag_text_def)
qed

lemma version_reads_profile:
  assumes "canonical_profile p = Inr m" "valid_profile (quantised p)"
  shows "profile_from_row (version_of new_id org pr (p_kind p) n m d actor h now) (Some m) = Inr (quantised p)"
proof -
  have valid: "valid_profile p" by (rule canonical_profile_valid [OF assms(1)])
  have v: "p_autonomous_internal_paper_enabled p = False" "p_autonomous_blofin_demo_enabled p = False"
    "\<forall>g. p_risk_percent_by_grade p g \<noteq> None"
    using valid by (auto simp: valid_profile_def)
  have "read_profile (row_canonical (version_of new_id org pr (p_kind p) n m d actor h now) (Some m))
      = Some (quantised p)"
    unfolding read_profile_def read_grades_def get_dec_def get_int_def get_flag_def get_default_def row_lookup
    unfolding version_of_def column_text_def
    by (auto simp: v valid_counts [OF valid] canon_columns [OF assms(1)] grades_of_quantum quantised_def flag_text_def
        intro!: profile.equality)
  then show ?thesis
    by (simp add: profile_from_row_def profile_from_canonical_def valid_validates [OF assms(2)])
qed

section \<open>The breaker writers leave the policy tables alone\<close>

lemma more_frame [simp]:
  "breaker_db.more (append_interval org acc k ph t db) = breaker_db.more db"
  "breaker_db.more (note_pause org acc k t u db) = breaker_db.more db"
  "breaker_db.more (open_breaker org acc k t db) = breaker_db.more db"
  "breaker_db.more (close_breaker org acc k t db) = breaker_db.more db"
  "breaker_db.more (note_consecutive_pause org acc t u db) = breaker_db.more db"
  "breaker_db.more (put_row row db) = breaker_db.more db"
  "breaker_db.more (snd (breaker_row org acc x t db)) = breaker_db.more db"
  "breaker_db.more (arm_drawdown_kill_switch org user_id db) = breaker_db.more db"
  by (simp_all add: append_interval_def note_pause_def open_breaker_def close_breaker_def put_row_def
      note_consecutive_pause_def breaker_row_def arm_drawdown_kill_switch_def Let_def split: option.splits)

lemma more_writers [simp]:
  "breaker_db.more (record_breaker org acc w db) = breaker_db.more db"
  "breaker_db.more (latch_drawdown org acc x t db) = breaker_db.more db"
  "breaker_db.more (clear_drawdown row t db) = breaker_db.more db"
  "breaker_db.more (clear_consecutive row t db) = breaker_db.more db"
  by (simp_all add: record_breaker_alt latch_drawdown_def clear_drawdown_def clear_consecutive_def Let_def
      case_prod_unfold)

lemma more_tables:
  assumes "breaker_db.more a = breaker_db.more b"
  shows "pd_proposals a = pd_proposals b" "pd_versions a = pd_versions b"
    "pd_cancellations a = pd_cancellations b" "pd_bindings a = pd_bindings b" "pd_trades a = pd_trades b"
    "pd_samples a = pd_samples b" "pd_reports a = pd_reports b" "pd_resets a = pd_resets b"
    "pd_audit a = pd_audit b"
  using assms by (cases a; cases b; simp)+

lemma writers_tables [simp]:
  fixes db :: policy_db
  shows "pd_proposals (record_breaker org acc w db) = pd_proposals db"
    "pd_versions (record_breaker org acc w db) = pd_versions db"
    "pd_cancellations (record_breaker org acc w db) = pd_cancellations db"
    "pd_proposals (latch_drawdown org acc x t db) = pd_proposals db"
    "pd_versions (latch_drawdown org acc x t db) = pd_versions db"
    "pd_cancellations (latch_drawdown org acc x t db) = pd_cancellations db"
    "pd_proposals (clear_drawdown row t db) = pd_proposals db"
    "pd_versions (clear_drawdown row t db) = pd_versions db"
    "pd_cancellations (clear_drawdown row t db) = pd_cancellations db"
    "pd_proposals (clear_consecutive row t db) = pd_proposals db"
    "pd_versions (clear_consecutive row t db) = pd_versions db"
    "pd_cancellations (clear_consecutive row t db) = pd_cancellations db"
    "pd_proposals (arm_drawdown_kill_switch org user_id db) = pd_proposals db"
    "pd_versions (arm_drawdown_kill_switch org user_id db) = pd_versions db"
    "pd_cancellations (arm_drawdown_kill_switch org user_id db) = pd_cancellations db"
  by (rule more_tables, simp)+

section \<open>The abstract store\<close>

definition predecessor_exists :: "version_row \<Rightarrow> policy_db \<Rightarrow> bool" where
  "predecessor_exists v db \<longleftrightarrow> vr_version_number v = 1 \<or>
     (\<exists>x \<in> set (pd_versions db). vr_org x = vr_org v \<and> vr_kind x = vr_kind v
        \<and> vr_version_number x + 1 = vr_version_number v)"

definition version_good :: "policy_db \<Rightarrow> version_row \<Rightarrow> bool" where
  "version_good db v \<longleftrightarrow>
     (\<exists>pr p. get_proposal (vr_proposal_id v) db = Some pr \<and> pr_org pr = vr_org v
        \<and> profile_from_row v (Some (pr_payload pr)) = Inr p \<and> p_kind p = vr_kind v)
   \<and> vr_effective_at v = vr_created_at v + (if vr_change_class v = LOOSENING then LOOSENING_DELAY else 0)
   \<and> vr_actor_channel v = HUMAN"

inductive db_step :: "policy_db \<Rightarrow> policy_db \<Rightarrow> bool" where
  proposed: "pr_id row \<notin> pr_id ` set (pd_proposals db) \<Longrightarrow> canonical_profile p = Inr (pr_payload row) \<Longrightarrow>
     pr_kind row = kind_value (p_kind p) \<Longrightarrow> pr_actor_channel row \<in> {HUMAN, AGENT, BOT} \<Longrightarrow>
     db_step db (db\<lparr>pd_proposals := pd_proposals db @ [row]\<rparr>)"
| versioned: "\<not> version_refused v db \<Longrightarrow> version_good db v \<Longrightarrow> predecessor_exists v db \<Longrightarrow>
     db_step db (db\<lparr>pd_versions := pd_versions db @ [v]\<rparr>)"
| cancelled: "v \<in> set (pd_versions db) \<Longrightarrow> vr_change_class v = LOOSENING \<Longrightarrow>
     breaker_covered (vr_org v) (vr_effective_at v) db \<Longrightarrow>
     ca_version_id c = vr_id v \<Longrightarrow> ca_org c = vr_org v \<Longrightarrow> vr_id v \<notin> ca_version_id ` set (pd_cancellations db) \<Longrightarrow>
     db_step db (db\<lparr>pd_cancellations := pd_cancellations db @ [c]\<rparr>)"
| bound: "find_binding (gb_org b) (gb_setup_id b) db = None \<Longrightarrow>
     db_step db (db\<lparr>pd_bindings := pd_bindings db @ [b]\<rparr>)"
| traded: "\<not> list_ex (\<lambda>x. tw_org x = tw_org t \<and> tw_trade_id x = tw_trade_id t) (pd_trades db) \<Longrightarrow>
     tw_profile_version_id t \<in> vr_id ` set (pd_versions db) \<Longrightarrow>
     db_step db (db\<lparr>pd_trades := pd_trades db @ [t]\<rparr>)"
| sampled: "db_step db (db\<lparr>pd_samples := pd_samples db @ [x]\<rparr>)"
| reported: "rr_eligible r \<Longrightarrow> rr_grader_version r = GRADER_VERSION \<Longrightarrow>
     \<not> list_ex (\<lambda>x. rr_org x = rr_org r \<and> rr_grader_version x = rr_grader_version r) (pd_reports db) \<Longrightarrow>
     db_step db (db\<lparr>pd_reports := pd_reports db @ [r]\<rparr>)"
| audited: "db_step db (db\<lparr>pd_audit := pd_audit db @ [a]\<rparr>)"
| scanned: "db_step db (record_breaker org acc w db)"
| latched: "db_step db (latch_drawdown org acc peak t db)"
| armed: "db_step db (arm_drawdown_kill_switch org user_id db)"
| streak_cleared: "load_breaker org acc db = Some row \<Longrightarrow> db_step db (clear_consecutive row t db)"
| latch_cleared: "load_breaker org acc db = Some row \<Longrightarrow> br_drawdown_latched row \<Longrightarrow>
     rs_org r = org \<Longrightarrow> rs_account r = acc \<Longrightarrow> rs_actor_channel r = HUMAN \<Longrightarrow>
     db_step db ((clear_drawdown row t db)\<lparr>pd_resets := pd_resets db @ [r]\<rparr>)"

inductive session_step :: "session \<Rightarrow> session \<Rightarrow> bool" where
  local_step: "db_step (se_current s) d \<Longrightarrow> session_step s (s\<lparr>se_current := d\<rparr>)"
| committed: "session_step s (commit s)"
| rolled_back: "session_step s (rollback s)"
| interfered: "db_step\<^sup>*\<^sup>* (se_committed s) c \<Longrightarrow> db_step\<^sup>*\<^sup>* (se_current s) d \<Longrightarrow>
     session_step s \<lparr>se_committed = c, se_current = d\<rparr>"

section \<open>Append-only tables\<close>

text \<open>A table that every step only extends. The locale gives the same for every run.\<close>

locale append_only =
  fixes step :: "'s \<Rightarrow> 's \<Rightarrow> bool" and rows :: "'s \<Rightarrow> 'r list"
  assumes step_extends: "step s s' \<Longrightarrow> prefix (rows s) (rows s')"
begin

lemma run_extends: "step\<^sup>*\<^sup>* s s' \<Longrightarrow> prefix (rows s) (rows s')"
  by (induction rule: rtranclp_induct) (auto dest: step_extends intro: prefix_order.trans)

lemma run_keeps: "step\<^sup>*\<^sup>* s s' \<Longrightarrow> x \<in> set (rows s) \<Longrightarrow> x \<in> set (rows s')"
  using run_extends set_mono_prefix by blast

lemma run_find: "step\<^sup>*\<^sup>* s s' \<Longrightarrow> find P (rows s) = Some x \<Longrightarrow> find P (rows s') = Some x"
proof -
  have "find P xs = Some x \<Longrightarrow> find P (xs @ ys) = Some x" for xs ys :: "'r list"
    by (induction xs) (auto split: if_splits)
  then show "step\<^sup>*\<^sup>* s s' \<Longrightarrow> find P (rows s) = Some x \<Longrightarrow> find P (rows s') = Some x"
    using run_extends by (metis prefix_def)
qed

end

definition extends :: "policy_db \<Rightarrow> policy_db \<Rightarrow> bool" where
  "extends db db' \<longleftrightarrow>
     prefix (pd_proposals db) (pd_proposals db') \<and> prefix (pd_versions db) (pd_versions db')
   \<and> prefix (pd_cancellations db) (pd_cancellations db') \<and> prefix (pd_bindings db) (pd_bindings db')
   \<and> prefix (pd_trades db) (pd_trades db') \<and> prefix (pd_samples db) (pd_samples db')
   \<and> prefix (pd_reports db) (pd_reports db') \<and> prefix (pd_resets db) (pd_resets db')
   \<and> prefix (pd_audit db) (pd_audit db')"

lemma extends_writer:
  assumes "breaker_db.more d = breaker_db.more db"
  shows "extends db d" "extends db (d\<lparr>pd_resets := pd_resets db @ xs\<rparr>)"
  by (simp_all add: extends_def more_tables [OF assms])

lemma db_step_extends: "db_step db db' \<Longrightarrow> extends db db'"
  by (erule db_step.cases)
     (simp_all add: extends_writer, simp_all add: extends_def)

interpretation proposals: append_only db_step pd_proposals
  by unfold_locales (simp add: db_step_extends [unfolded extends_def])

interpretation versions: append_only db_step pd_versions
  by unfold_locales (simp add: db_step_extends [unfolded extends_def])

interpretation cancellations: append_only db_step pd_cancellations
  by unfold_locales (simp add: db_step_extends [unfolded extends_def])

interpretation bindings: append_only db_step pd_bindings
  by unfold_locales (simp add: db_step_extends [unfolded extends_def])

interpretation trades: append_only db_step pd_trades
  by unfold_locales (simp add: db_step_extends [unfolded extends_def])

interpretation samples: append_only db_step pd_samples
  by unfold_locales (simp add: db_step_extends [unfolded extends_def])

interpretation reports: append_only db_step pd_reports
  by unfold_locales (simp add: db_step_extends [unfolded extends_def])

interpretation resets: append_only db_step pd_resets
  by unfold_locales (simp add: db_step_extends [unfolded extends_def])

interpretation audit: append_only db_step pd_audit
  by unfold_locales (simp add: db_step_extends [unfolded extends_def])

lemma breaker_step_prefix: "breaker_step t db db' \<Longrightarrow> prefix (bd_intervals db) (bd_intervals db')"
  using breaker_step_logs by (fastforce simp: logs_from_def)

lemma db_step_intervals: "db_step db db' \<Longrightarrow> prefix (bd_intervals db) (bd_intervals db')"
proof (induction rule: db_step.induct)
  case (scanned db org acc w)
  then show ?case by (rule breaker_step_prefix [OF breaker_step.recorded [OF refl]])
next
  case (latched db org acc peak t)
  then show ?case by (rule breaker_step_prefix [OF breaker_step.latch])
next
  case (streak_cleared org acc db row t)
  then show ?case by (rule breaker_step_prefix [OF breaker_step.clear_consecutive])
next
  case (latch_cleared org acc db row r t)
  then show ?case using breaker_step_prefix [OF breaker_step.clear_drawdown] by simp
qed simp_all

interpretation intervals: append_only db_step bd_intervals
  by unfold_locales (rule db_step_intervals)

section \<open>The invariant of the tables\<close>

abbreviation numbers :: "uid \<Rightarrow> policy_kind \<Rightarrow> policy_db \<Rightarrow> int list" where
  "numbers org k db \<equiv> map vr_version_number (filter (\<lambda>v. vr_org v = org \<and> vr_kind v = k) (pd_versions db))"

definition policy_ok :: "policy_db \<Rightarrow> bool" where
  "policy_ok db \<longleftrightarrow>
     (\<forall>pr \<in> set (pd_proposals db). \<exists>p. canonical_profile p = Inr (pr_payload pr) \<and> pr_kind pr = kind_value (p_kind p))
   \<and> distinct (map vr_id (pd_versions db)) \<and> distinct (map vr_proposal_id (pd_versions db))
   \<and> (\<forall>org k. \<exists>n \<ge> 0. numbers org k db = [1..n])
   \<and> (\<forall>v \<in> set (pd_versions db). version_good db v)
   \<and> (\<forall>c \<in> set (pd_cancellations db). \<exists>v \<in> set (pd_versions db).
        vr_id v = ca_version_id c \<and> vr_org v = ca_org c \<and> vr_change_class v = LOOSENING)
   \<and> distinct (map ca_version_id (pd_cancellations db))"

lemma policy_okD:
  assumes "policy_ok db"
  shows "pr \<in> set (pd_proposals db) \<Longrightarrow>
      \<exists>p. canonical_profile p = Inr (pr_payload pr) \<and> pr_kind pr = kind_value (p_kind p)"
    and "distinct (map vr_id (pd_versions db))" "distinct (map vr_proposal_id (pd_versions db))"
    and "\<exists>n \<ge> 0. numbers org k db = [1..n]"
    and "v \<in> set (pd_versions db) \<Longrightarrow> version_good db v"
    and "c \<in> set (pd_cancellations db) \<Longrightarrow> \<exists>v \<in> set (pd_versions db).
        vr_id v = ca_version_id c \<and> vr_org v = ca_org c \<and> vr_change_class v = LOOSENING"
    and "distinct (map ca_version_id (pd_cancellations db))"
  using assms unfolding policy_ok_def by blast+

lemma version_good_step:
  assumes "db_step db db'" "version_good db v"
  shows "version_good db' v"
  using assms(2) proposals.run_find [OF r_into_rtranclp [of db_step, OF assms(1)]]
  unfolding version_good_def get_proposal_def by blast

lemma next_number:
  assumes "numbers org k db = [1..n]" "0 \<le> n" "m \<notin> set [1..n]" "m = 1 \<or> m - 1 \<in> set [1..n]"
  shows "[1..n] @ [m] = [1..n + 1]"
  using assms by (auto simp: upto_rec2 [of 1 "n + 1"])

lemma policy_ok_versioned:
  assumes ok: "policy_ok db" and new: "\<not> version_refused v db" "version_good db v" "predecessor_exists v db"
  shows "policy_ok (db\<lparr>pd_versions := pd_versions db @ [v]\<rparr>)"
proof -
  let ?db = "db\<lparr>pd_versions := pd_versions db @ [v]\<rparr>"
  have good: "version_good ?db x = version_good db x" for x by (simp add: version_good_def get_proposal_def)
  have fresh: "\<forall>x \<in> set (pd_versions db). vr_id x \<noteq> vr_id v \<and> vr_proposal_id x \<noteq> vr_proposal_id v
      \<and> \<not> (vr_org x = vr_org v \<and> vr_kind x = vr_kind v \<and> vr_version_number x = vr_version_number v)"
    using new(1) by (auto simp: version_refused_def list_ex_iff)
  obtain n where n: "0 \<le> n" "numbers (vr_org v) (vr_kind v) db = [1..n]" using policy_okD(4) [OF ok] by blast
  have mem: "m \<in> set [1..n] \<longleftrightarrow> (\<exists>x \<in> set (pd_versions db). vr_org x = vr_org v \<and> vr_kind x = vr_kind v
      \<and> vr_version_number x = m)" for m
    unfolding n(2) [symmetric] by auto
  have "vr_version_number v \<notin> set [1..n]" unfolding mem using fresh by blast
  moreover have "vr_version_number v = 1 \<or> vr_version_number v - 1 \<in> set [1..n]"
    unfolding mem using new(3) by (auto simp: predecessor_exists_def)
  ultimately have "numbers (vr_org v) (vr_kind v) ?db = [1..n + 1]"
    using next_number [OF n(2) n(1)] n(2) by simp
  then have nums: "\<exists>n \<ge> 0. numbers org k ?db = [1..n]" for org k
    using policy_okD(4) [OF ok, of org k] n(1)
    by (cases "org = vr_org v \<and> k = vr_kind v") (auto intro!: exI [of _ "n + 1"])
  show ?thesis
    unfolding policy_ok_def good
  proof (intro conjI)
    show "\<forall>org k. \<exists>n \<ge> 0. numbers org k ?db = [1..n]" using nums by blast
  qed (use ok fresh new(2) in \<open>auto simp: policy_ok_def\<close>)
qed

lemma policy_ok_keep:
  assumes "policy_ok db" "pd_proposals db' = pd_proposals db" "pd_versions db' = pd_versions db"
    "pd_cancellations db' = pd_cancellations db"
  shows "policy_ok db'"
  using assms by (simp add: policy_ok_def version_good_def get_proposal_def)

lemma db_step_ok: "db_step db db' \<Longrightarrow> policy_ok db \<Longrightarrow> policy_ok db'"
proof (induction rule: db_step.induct)
  case (proposed row db p)
  note step = db_step.proposed [OF proposed(1-4)]
  show ?case
    using proposed version_good_step [OF step] by (auto simp: policy_ok_def)
next
  case (versioned v db)
  then show ?case by (simp add: policy_ok_versioned)
next
  case (cancelled v db c)
  note step = db_step.cancelled [OF cancelled(1-6)]
  have "version_good (db\<lparr>pd_cancellations := pd_cancellations db @ [c]\<rparr>) x" if "x \<in> set (pd_versions db)" for x
    using version_good_step [OF step] policy_okD(5) [OF cancelled(7)] that by blast
  then show ?case using cancelled by (auto simp: policy_ok_def)
qed (erule policy_ok_keep; simp)+

lemma db_run_ok: "db_step\<^sup>*\<^sup>* db db' \<Longrightarrow> policy_ok db \<Longrightarrow> policy_ok db'"
  by (induction rule: rtranclp_induct) (auto intro: db_step_ok)

definition session_ok :: "session \<Rightarrow> bool" where
  "session_ok s \<longleftrightarrow> policy_ok (se_committed s) \<and> policy_ok (se_current s)"

lemma session_step_ok: "session_step s s' \<Longrightarrow> session_ok s \<Longrightarrow> session_ok s'"
  by (induction rule: session_step.induct)
     (auto simp: session_ok_def commit_def rollback_def intro: db_step_ok db_run_ok)

lemma session_run_ok: "session_step\<^sup>*\<^sup>* s s' \<Longrightarrow> session_ok s \<Longrightarrow> session_ok s'"
  by (induction rule: rtranclp_induct) (auto intro: session_step_ok)

section \<open>The version in force\<close>

definition blocked :: "uid \<Rightarrow> uid list \<Rightarrow> policy_db \<Rightarrow> version_row \<Rightarrow> bool" where
  "blocked org cancelled db row \<longleftrightarrow> vr_id row \<in> set cancelled
     \<or> vr_change_class row = LOOSENING \<and> breaker_covered org (vr_effective_at row) db"

text \<open>What a scan changes: cancellations are added and published, nothing else moves.\<close>

definition only_cancels :: "session \<Rightarrow> session \<Rightarrow> bool" where
  "only_cancels s s' \<longleftrightarrow>
     (\<exists>cs. se_current s' = (se_current s)\<lparr>pd_cancellations := pd_cancellations (se_current s) @ cs\<rparr>)
   \<and> (s' = s \<or> se_committed s' = se_current s')"

lemma only_cancels_refl: "only_cancels s s"
  by (auto simp: only_cancels_def intro!: exI [of _ "[]"])

lemma only_cancels_trans:
  assumes "only_cancels s s1" "only_cancels s1 s2"
  shows "only_cancels s s2"
proof -
  obtain cs cs' where "se_current s1 = (se_current s)\<lparr>pd_cancellations := pd_cancellations (se_current s) @ cs\<rparr>"
    "se_current s2 = (se_current s1)\<lparr>pd_cancellations := pd_cancellations (se_current s1) @ cs'\<rparr>"
    using assms unfolding only_cancels_def by blast
  then have "se_current s2 = (se_current s)\<lparr>pd_cancellations := pd_cancellations (se_current s) @ (cs @ cs')\<rparr>"
    by simp
  then show ?thesis using assms unfolding only_cancels_def by metis
qed

lemma breaker_covered_tables [simp]:
  "breaker_covered org t (db\<lparr>pd_cancellations := x\<rparr>) = breaker_covered org t db"
  by (simp add: breaker_covered_def)

lemma only_cancels_same:
  assumes "only_cancels s s'"
  shows "pd_versions (se_current s') = pd_versions (se_current s)"
    "pd_proposals (se_current s') = pd_proposals (se_current s)"
    "bd_states (se_current s') = bd_states (se_current s)"
    "bd_intervals (se_current s') = bd_intervals (se_current s)"
    "breaker_covered org t (se_current s') = breaker_covered org t (se_current s)"
    "prefix (pd_cancellations (se_current s)) (pd_cancellations (se_current s'))"
  using assms by (auto simp: only_cancels_def)

lemma cancel_version_step:
  assumes "row \<in> set (pd_versions (se_current s))" "vr_change_class row = LOOSENING" "vr_org row = org"
    "breaker_covered org (vr_effective_at row) (se_current s)"
  shows "session_step\<^sup>*\<^sup>* s (cancel_version row now s)" "only_cancels s (cancel_version row now s)"
    "vr_id row \<in> ca_version_id ` set (pd_cancellations (se_current (cancel_version row now s)))"
proof -
  let ?c = "\<lparr>ca_org = vr_org row, ca_version_id = vr_id row, ca_reason = ''breaker_active_at_activation'',
    ca_created_at = instant now\<rparr>"
  let ?d = "(se_current s)\<lparr>pd_cancellations := pd_cancellations (se_current s) @ [?c]\<rparr>"
  show "only_cancels s (cancel_version row now s)"
    by (auto simp: cancel_version_def commit_def only_cancels_def only_cancels_refl intro: exI [of _ "[]"])
  show "vr_id row \<in> ca_version_id ` set (pd_cancellations (se_current (cancel_version row now s)))"
    by (auto simp: cancel_version_def commit_def list_ex_iff) (metis imageI)
  show "session_step\<^sup>*\<^sup>* s (cancel_version row now s)"
  proof (cases "list_ex (\<lambda>c. ca_version_id c = vr_id row) (pd_cancellations (se_current s))")
    case False
    then have "db_step (se_current s) ?d" using assms by (intro db_step.cancelled [of row]) (auto simp: list_ex_iff)
    then have "session_step s (s\<lparr>se_current := ?d\<rparr>)" by (rule session_step.local_step)
    moreover have "session_step (s\<lparr>se_current := ?d\<rparr>) (cancel_version row now s)"
      using False session_step.committed [of "s\<lparr>se_current := ?d\<rparr>"] by (simp add: cancel_version_def)
    ultimately show ?thesis by (meson converse_rtranclp_into_rtranclp r_into_rtranclp)
  qed (simp add: cancel_version_def)
qed

lemma active_scan_spec:
  assumes "\<And>row. row \<in> set rows \<Longrightarrow> row \<in> set (pd_versions (se_current s)) \<and> vr_org row = org"
    and "active_scan org now cancelled rows s = (r, s')"
  shows "r = find (\<lambda>row. \<not> blocked org cancelled (se_current s) row) rows
    \<and> session_step\<^sup>*\<^sup>* s s' \<and> only_cancels s s'
    \<and> (\<forall>row \<in> set (takeWhile (blocked org cancelled (se_current s)) rows).
         vr_id row \<in> set cancelled \<or> vr_id row \<in> ca_version_id ` set (pd_cancellations (se_current s')))"
  using assms
proof (induction org now cancelled rows s rule: active_scan.induct)
  case (1 org now cancelled s)
  then show ?case by (simp add: only_cancels_refl)
next
  case (2 org now cancelled row rows s)
  consider (skip) "vr_id row \<in> set cancelled"
    | (cancel) "vr_id row \<notin> set cancelled" "vr_change_class row = LOOSENING"
        "breaker_covered org (vr_effective_at row) (se_current s)"
    | (hit) "\<not> blocked org cancelled (se_current s) row"
    by (auto simp: blocked_def)
  then show ?case
  proof cases
    case skip
    then show ?thesis using "2.IH"(1) [OF skip] "2.prems" by (auto simp: blocked_def)
  next
    case cancel
    let ?s1 = "cancel_version row now s"
    have row: "row \<in> set (pd_versions (se_current s))" "vr_org row = org" using "2.prems"(1) by auto
    note c = cancel_version_step [OF row(1) cancel(2) row(2) cancel(3), of now]
    note same = only_cancels_same [OF c(2)]
    have scan: "active_scan org now cancelled rows ?s1 = (r, s')" using "2.prems"(2) cancel by simp
    have "r = find (\<lambda>row. \<not> blocked org cancelled (se_current ?s1) row) rows
        \<and> session_step\<^sup>*\<^sup>* ?s1 s' \<and> only_cancels ?s1 s'
        \<and> (\<forall>row \<in> set (takeWhile (blocked org cancelled (se_current ?s1)) rows).
             vr_id row \<in> set cancelled \<or> vr_id row \<in> ca_version_id ` set (pd_cancellations (se_current s')))"
      using "2.prems"(1) cancel by (intro "2.IH"(2) [OF _ _ _ scan]) (auto simp: same)
    moreover have "blocked org cancelled (se_current ?s1) = blocked org cancelled (se_current s)"
      by (simp add: fun_eq_iff blocked_def same)
    moreover have "blocked org cancelled (se_current s) row" using cancel by (simp add: blocked_def)
    ultimately show ?thesis
      using c(1,3) only_cancels_trans [OF c(2)] set_mono_prefix [OF only_cancels_same(6), of ?s1 s']
      by (auto intro: rtranclp_trans)
  next
    case hit
    then have "\<not> (vr_id row \<in> set cancelled)"
      "\<not> (vr_change_class row = LOOSENING \<and> breaker_covered org (vr_effective_at row) (se_current s))"
      by (auto simp: blocked_def)
    then have "r = Some row" "s' = s" using "2.prems"(2) by auto
    then show ?thesis using hit by (simp add: only_cancels_refl)
  qed
qed

definition due :: "uid \<Rightarrow> policy_kind \<Rightarrow> dt \<Rightarrow> policy_db \<Rightarrow> version_row \<Rightarrow> bool" where
  "due org k now db v \<longleftrightarrow> v \<in> set (pd_versions db) \<and> vr_org v = org \<and> vr_kind v = k
     \<and> vr_effective_at v \<le> instant now"

definition eligible :: "uid \<Rightarrow> policy_kind \<Rightarrow> dt \<Rightarrow> policy_db \<Rightarrow> version_row \<Rightarrow> bool" where
  "eligible org k now db v \<longleftrightarrow> due org k now db v \<and> vr_id v \<notin> ca_version_id ` set (pd_cancellations db)
     \<and> \<not> (vr_change_class v = LOOSENING \<and> breaker_covered org (vr_effective_at v) db)"

text \<open>The version in force as a specification: the eligible version with the highest number.\<close>

definition in_force :: "uid \<Rightarrow> policy_kind \<Rightarrow> dt \<Rightarrow> policy_db \<Rightarrow> version_row option \<Rightarrow> bool" where
  "in_force org k now db r \<longleftrightarrow>
     (case r of
        None \<Rightarrow> \<forall>v. \<not> eligible org k now db v
      | Some v \<Rightarrow> eligible org k now db v
          \<and> (\<forall>w. eligible org k now db w \<longrightarrow> vr_version_number w \<le> vr_version_number v))"

lemma find_descending:
  assumes "sorted_wrt (\<lambda>x y. f y \<le> f x) xs" "find P xs = Some x" "y \<in> set xs" "P y"
  shows "f y \<le> (f x :: int)"
  using assms by (induction xs) (auto split: if_splits)

lemma rev_sort_descending: "sorted_wrt (\<lambda>x y. f y \<le> f x) (rev (sort_key f xs))"
  using sorted_sort_key [of f xs] by (simp add: sorted_wrt_rev sorted_map)

lemma before_find:
  assumes "sorted_wrt (\<lambda>x y. f y \<le> f x) xs" "find (\<lambda>x. \<not> Q x) xs = r" "y \<in> set xs"
    "\<And>x. r = Some x \<Longrightarrow> (f x :: int) < f y"
  shows "y \<in> set (takeWhile Q xs)"
  using assms
proof (induction xs)
  case (Cons a xs)
  show ?case
  proof (cases "Q a")
    case True
    then show ?thesis using Cons by auto
  next
    case False
    then have "r = Some a" using Cons.prems(2) by simp
    then have "f a < f y" using Cons.prems(4) by blast
    then show ?thesis using Cons.prems(1,3) by auto
  qed
qed simp

lemma active_row_spec:
  assumes "session_ok s" "active_row org k now s = (r, s')"
  shows "in_force org k now (se_current s) r" "session_step\<^sup>*\<^sup>* s s'" "only_cancels s s'"
    and "\<And>w. due org k now (se_current s) w \<Longrightarrow>
      (\<And>v. r = Some v \<Longrightarrow> vr_version_number v < vr_version_number w) \<Longrightarrow>
      vr_id w \<in> ca_version_id ` set (pd_cancellations (se_current s'))"
proof -
  let ?db = "se_current s"
  let ?rows = "rev (sort_key vr_version_number
      (filter (\<lambda>v. vr_org v = org \<and> vr_kind v = k \<and> vr_effective_at v \<le> instant now) (pd_versions ?db)))"
  let ?can = "map ca_version_id (filter (\<lambda>c. ca_org c = org) (pd_cancellations ?db))"
  have rows: "row \<in> set ?rows \<longleftrightarrow> due org k now ?db row" for row by (auto simp: due_def)
  have scan: "active_scan org now ?can ?rows s = (r, s')" using assms(2) by (simp add: active_row_def)
  have spec: "r = find (\<lambda>row. \<not> blocked org ?can ?db row) ?rows" "session_step\<^sup>*\<^sup>* s s'" "only_cancels s s'"
    "\<forall>row \<in> set (takeWhile (blocked org ?can ?db) ?rows).
       vr_id row \<in> set ?can \<or> vr_id row \<in> ca_version_id ` set (pd_cancellations (se_current s'))"
    using active_scan_spec [OF _ scan] by auto
  note ok = assms(1) [unfolded session_ok_def, THEN conjunct2]
  have can: "vr_id v \<in> set ?can \<longleftrightarrow> vr_id v \<in> ca_version_id ` set (pd_cancellations ?db)"
    if "due org k now ?db v" for v
  proof -
    have org: "ca_org c = org" if c: "c \<in> set (pd_cancellations ?db)" "ca_version_id c = vr_id v" for c
    proof -
      obtain w where "w \<in> set (pd_versions ?db)" "vr_id w = vr_id v" "vr_org w = ca_org c"
        using policy_okD(6) [OF ok c(1)] c(2) by auto
      then have "w = v"
        using policy_okD(2) [OF ok] \<open>due org k now ?db v\<close> by (auto simp: due_def distinct_map inj_on_def)
      then show ?thesis using \<open>vr_org w = ca_org c\<close> \<open>due org k now ?db v\<close> by (simp add: due_def)
    qed
    show ?thesis
    proof
      assume "vr_id v \<in> ca_version_id ` set (pd_cancellations ?db)"
      then obtain c where c: "c \<in> set (pd_cancellations ?db)" "ca_version_id c = vr_id v" by auto
      then have "c \<in> set (filter (\<lambda>c. ca_org c = org) (pd_cancellations ?db))" using org [OF c] by simp
      then show "vr_id v \<in> set ?can" unfolding set_map c(2) [symmetric] by (rule imageI)
    qed auto
  qed
  have elig: "eligible org k now ?db v \<longleftrightarrow> v \<in> set ?rows \<and> \<not> blocked org ?can ?db v" for v
    using can [of v] rows by (auto simp: eligible_def blocked_def)
  show "in_force org k now ?db r"
  proof (cases r)
    case None
    then have "\<And>v. v \<in> set ?rows \<Longrightarrow> blocked org ?can ?db v"
      using spec(1) [symmetric] unfolding None find_None_iff by blast
    then have "\<not> eligible org k now ?db v" for v using elig by blast
    then show ?thesis by (simp add: in_force_def None)
  next
    case (Some v)
    then have f: "find (\<lambda>row. \<not> blocked org ?can ?db row) ?rows = Some v" using spec(1) by simp
    then have "v \<in> set ?rows" "\<not> blocked org ?can ?db v" unfolding find_Some_iff by (metis nth_mem)+
    then have "eligible org k now ?db v" using elig by blast
    moreover have "vr_version_number w \<le> vr_version_number v" if "eligible org k now ?db w" for w
      using find_descending [OF rev_sort_descending f] that elig by blast
    ultimately show ?thesis by (simp add: in_force_def Some)
  qed
  show "session_step\<^sup>*\<^sup>* s s'" "only_cancels s s'" by (rule spec)+
  fix w assume w: "due org k now ?db w" "\<And>v. r = Some v \<Longrightarrow> vr_version_number v < vr_version_number w"
  have "w \<in> set (takeWhile (blocked org ?can ?db) ?rows)"
    using before_find [OF rev_sort_descending spec(1) [symmetric]] w rows by blast
  then have "vr_id w \<in> set ?can \<or> vr_id w \<in> ca_version_id ` set (pd_cancellations (se_current s'))"
    using spec(4) by blast
  then show "vr_id w \<in> ca_version_id ` set (pd_cancellations (se_current s'))"
    using can [OF w(1)] set_mono_prefix [OF only_cancels_same(6) [OF spec(3)]] by auto
qed

lemma version_profile:
  assumes "policy_ok db" "v \<in> set (pd_versions db)"
  obtains p where "profile_from_version v db = Inr p" "p_kind p = vr_kind v" "valid_profile p"
proof -
  obtain pr p where "get_proposal (vr_proposal_id v) db = Some pr"
    "profile_from_row v (Some (pr_payload pr)) = Inr p" "p_kind p = vr_kind v"
    using policy_okD(5) [OF assms] by (auto simp: version_good_def)
  moreover have "valid_profile p"
    using \<open>profile_from_row v (Some (pr_payload pr)) = Inr p\<close>
    by (auto simp: profile_from_row_def profile_from_canonical_def res_simps)
  ultimately show ?thesis using that by (auto simp: profile_from_version_def)
qed

lemma profile_from_version_only_cancels:
  "only_cancels s s' \<Longrightarrow> profile_from_version v (se_current s') = profile_from_version v (se_current s)"
  by (simp add: profile_from_version_def get_proposal_def only_cancels_same)

lemma placeholder_ok: "placeholder_profile k = Inr (placeholder_base k)" "valid_profile (placeholder_base k)"
proof -
  have "validate_profile (placeholder_base CONSERVATIVE) = Inr ()" by code_simp
  moreover have "validate_profile (placeholder_base STANDARD) = Inr ()" by code_simp
  moreover have "validate_profile (placeholder_base AGGRESSIVE) = Inr ()" by code_simp
  moreover have "validate_profile (placeholder_base INTERNAL_PAPER) = Inr ()" by code_simp
  moreover have "validate_profile (placeholder_base DEMO) = Inr ()" by code_simp
  ultimately have "validate_profile (placeholder_base k) = Inr ()" by (cases k) simp_all
  then show "placeholder_profile k = Inr (placeholder_base k)" "valid_profile (placeholder_base k)"
    by (simp_all add: placeholder_profile_def iffD1 [OF validate_profile_Inr])
qed

lemma read_policy_spec:
  assumes "session_ok s" "read_policy org k now s = (r, s')"
  obtains p active where "r = Inr (p, active, scheduled_row org k now (se_current s))"
    "in_force org k now (se_current s) active" "valid_profile p" "p_kind p = k"
    "case active of None \<Rightarrow> p = placeholder_base k | Some v \<Rightarrow> profile_from_version v (se_current s) = Inr p"
    "active_row org k now s = (active, s')"
proof -
  obtain active s1 where row: "active_row org k now s = (active, s1)" by (cases "active_row org k now s")
  note spec = active_row_spec [OF assms(1) row]
  note ok = assms(1) [unfolded session_ok_def, THEN conjunct2]
  have sch: "scheduled_row org k now (se_current s1) = scheduled_row org k now (se_current s)"
    by (simp add: scheduled_row_def only_cancels_same [OF spec(3)])
  show ?thesis
  proof (cases active)
    case None
    then show ?thesis
      using assms(2) row sch spec(1) placeholder_ok
      by (intro that [of "placeholder_base k" None]) (auto simp: read_policy_def placeholder_base_def)
  next
    case (Some v)
    then have v: "v \<in> set (pd_versions (se_current s))" "vr_kind v = k"
      using spec(1) by (auto simp: in_force_def eligible_def due_def)
    obtain p where "profile_from_version v (se_current s) = Inr p" "p_kind p = vr_kind v" "valid_profile p"
      using version_profile [OF ok v(1)] .
    then show ?thesis
      using assms(2) row sch spec(1) v Some
      by (intro that [of p "Some v"])
         (auto simp: read_policy_def profile_from_version_only_cancels [OF spec(3)])
  qed
qed

end
