(* ===== verification/Policy_Service.thy ===== *)
theory Policy_Service
  imports Policy_History
begin

text \<open>
  Every public operation of \<^verbatim>\<open>RiskPolicyService\<close> refines the abstract store: \<open>service_call\<close> lists the
  calls, and each is a path of \<open>session_step\<close>. The properties of the policy store follow.
\<close>

section \<open>Operations as paths\<close>

definition path :: "'a op \<Rightarrow> session \<Rightarrow> bool" where
  "path m s \<longleftrightarrow> session_step\<^sup>*\<^sup>* s (snd (m s))"

named_theorems path_intros

lemma session_local: "db_step\<^sup>*\<^sup>* (se_current s) d \<Longrightarrow> session_step\<^sup>*\<^sup>* s (s\<lparr>se_current := d\<rparr>)"
proof (induction rule: rtranclp_induct)
  case (step d d')
  have "session_step (s\<lparr>se_current := d\<rparr>) ((s\<lparr>se_current := d\<rparr>)\<lparr>se_current := d'\<rparr>)"
    by (rule session_step.local_step) (simp add: step)
  then show ?case using step.IH by (simp add: rtranclp.rtrancl_into_rtrancl)
qed simp

lemma path_res [path_intros]: "path (op_res r) s"
  by (simp add: path_def op_res_def)

lemma path_read [path_intros]: "path (op_read f) s"
  by (simp add: path_def op_read_def)

lemma path_bind [path_intros]:
  assumes "path m s" "\<And>x s1. m s = (Inr x, s1) \<Longrightarrow> path (f x) s1"
  shows "path (op_bind m f) s"
proof (cases "m s")
  case (Pair r s')
  then show ?thesis
    using assms by (cases r) (auto simp: path_def op_bind_def intro: rtranclp_trans)
qed

lemma path_write: "db_step\<^sup>*\<^sup>* (se_current s) (f (se_current s)) \<Longrightarrow> path (op_write f) s"
  by (simp add: path_def op_write_def session_local)

lemma path_write1 [path_intros]: "db_step (se_current s) (f (se_current s)) \<Longrightarrow> path (op_write f) s"
  by (rule path_write) (rule r_into_rtranclp)

lemma path_insert [path_intros]:
  assumes "\<not> refused (se_current s) \<Longrightarrow> db_step (se_current s) (add (se_current s))"
  shows "path (op_insert refused add e) s"
  using assms
  by (auto simp: path_def op_insert_def intro: session_step.rolled_back session_step.local_step)

lemma path_audited [path_intros]:
  assumes "path m s" "\<And>code db. db_step db (audit code db)"
  shows "path (op_audited m audit) s"
proof -
  have "session_step (snd (m s)) ((snd (m s))\<lparr>se_current := audit code (se_current (snd (m s)))\<rparr>)" for code
    using assms(2) by (rule session_step.local_step)
  then show ?thesis
    using assms(1) unfolding path_def op_audited_def
    by (auto split: prod.splits sum.splits exc.splits intro: rtranclp.rtrancl_into_rtrancl)
qed

lemma audit_step [path_intros]:
  "db_step db (audit_entry ev org actor rid md r db)"
  "db_step db (audit_drawdown_refusal org acc actor reason db)"
  by (auto simp: audit_entry_def audit_drawdown_refusal_def intro: db_step.audited)

definition honest :: "(policy_db \<Rightarrow> policy_db) \<Rightarrow> bool" where
  "honest others \<longleftrightarrow> (\<forall>db. db_step\<^sup>*\<^sup>* db (others db))"

lemma path_others [path_intros]: "honest others \<Longrightarrow> path (op_others others) s"
  unfolding path_def op_others_def honest_def by (auto intro: session_step.interfered)

lemma path_active [path_intros]:
  "session_ok s \<Longrightarrow> path (\<lambda>s. case active_row org k now s of (row, s1) \<Rightarrow> (Inr row, s1)) s"
  using active_row_spec(2) [of s org k now] by (auto simp: path_def split: prod.splits)

lemma read_policy_step: "session_ok s \<Longrightarrow> read_policy org k now s = (r, s') \<Longrightarrow> session_step\<^sup>*\<^sup>* s s'"
  using active_row_spec(2) by (metis read_policy_spec)

lemma path_read_policy [path_intros]: "session_ok s \<Longrightarrow> path (read_policy org k now) s"
  unfolding path_def using read_policy_step by (metis prod.collapse)

lemma path_ok: "path m s \<Longrightarrow> session_ok s \<Longrightarrow> session_ok (snd (m s))"
  unfolding path_def by (rule session_run_ok)

text \<open>A successful step of a chain: what was returned, and the session it left.\<close>

lemma op_bind_Inr:
  "op_bind m f s = (Inr y, s') \<longleftrightarrow> (\<exists>x s1. m s = (Inr x, s1) \<and> f x s1 = (Inr y, s'))"
  by (auto simp: op_bind_def split: prod.splits sum.splits)

lemma op_res_Inr: "op_res r s = (Inr y, s') \<longleftrightarrow> r = Inr y \<and> s' = s"
  by (auto simp: op_res_def)

lemma op_read_Inr: "op_read f s = (Inr y, s') \<longleftrightarrow> f (se_current s) = Inr y \<and> s' = s"
  by (auto simp: op_read_def)

lemma op_write_Inr: "op_write f s = (Inr y, s') \<longleftrightarrow> s' = s\<lparr>se_current := f (se_current s)\<rparr>"
  by (auto simp: op_write_def)

lemma op_audited_Inr: "op_audited m audit s = (Inr y, s') \<longleftrightarrow> m s = (Inr y, s')"
  by (auto simp: op_audited_def split: prod.splits sum.splits exc.splits)

lemma op_insert_Inr:
  "op_insert refused add e s = (Inr y, s') \<longleftrightarrow>
     \<not> refused (se_current s) \<and> s' = s\<lparr>se_current := add (se_current s)\<rparr>"
  by (auto simp: op_insert_def)

lemmas op_simps = op_bind_Inr op_res_Inr op_read_Inr op_write_Inr op_audited_Inr op_insert_Inr

section \<open>Each operation\<close>

lemma propose_path: "path (propose sha256 new_id org actor prof reason now) s"
proof -
  have step: "db_step db (db\<lparr>pd_proposals := pd_proposals db @ [row]\<rparr>)"
    if "canonical_profile prof = Inr m" "assert_can_propose actor = Inr u" "new_id \<notin> pr_id ` set (pd_proposals db)"
      "row = \<lparr>pr_id = new_id, pr_org = org, pr_kind = kind_value (p_kind prof), pr_payload = m,
                pr_actor_id = pa_actor_id actor, pr_actor_channel = pa_channel actor,
                pr_reason = strip reason, pr_content_hash = h, pr_created_at = instant now\<rparr>"
    for db m u h row
    using that by (intro db_step.proposed [of row db prof]) (auto simp: assert_can_propose_def split: if_splits)
  show ?thesis
    unfolding propose_def Let_def
    by (intro path_intros) (auto simp: op_simps intro: step)
qed

lemma record_trade_path: "path (record_trade org trade_id r now) s"
  unfolding record_trade_def Let_def by (intro path_intros) (rule db_step.traded, auto)

lemma sample_path: "path (add_calibration_sample org g gv r i f sl now) s"
  unfolding add_calibration_sample_def by (intro path_intros db_step.sampled)

lemma report_path: "path (store_promotion_report org report now) s"
  unfolding store_promotion_report_def
  by (auto intro!: path_intros db_step.reported)

lemma bind_grade_path:
  assumes "honest others"
  shows "path (bind_grade others org setup_id decision now) s"
proof -
  have o: "session_step\<^sup>*\<^sup>* s (snd (op_others others s))" using path_others [OF assms] by (simp add: path_def)
  have step: "session_step s1 (s1\<lparr>se_current := (se_current s1)\<lparr>pd_bindings := pd_bindings (se_current s1) @ [b]\<rparr>\<rparr>)"
    if "\<not> list_ex (\<lambda>x. gb_org x = gb_org b \<and> gb_setup_id x = gb_setup_id b) (pd_bindings (se_current s1))" for b s1
    using that
    by (intro session_step.local_step db_step.bound) (auto simp: find_binding_def find_None_iff list_ex_iff)
  show ?thesis
    unfolding path_def bind_grade_def Let_def
    by (auto split: option.splits prod.splits intro: o rtranclp.rtrancl_into_rtrancl [OF o step])
qed

lemma percent_path: "session_ok s \<Longrightarrow> path (server_drawdown_breaker_percent org now) s"
proof -
  assume ok: "session_ok s"
  show ?thesis
    unfolding server_drawdown_breaker_percent_def
    by (intro path_intros ok) (auto simp: op_simps intro!: path_intros session_run_ok [OF read_policy_step ok] ok)
qed

lemma read_policy_only_cancels:
  "session_ok s \<Longrightarrow> read_policy org k now s = (r, s') \<Longrightarrow> only_cancels s s'"
  using active_row_spec(3) by (metis read_policy_spec)

lemma percent_spec:
  assumes "session_ok s" "server_drawdown_breaker_percent org now s = (Inr q, s')"
  shows "only_cancels s s'" "0 < q"
proof -
  from assms(2) obtain p a b s1 p' a' b' where
    r1: "read_policy org INTERNAL_PAPER now s = (Inr (p, a, b), s1)" and "0 < p_drawdown_breaker_percent p"
    and r2: "read_policy org DEMO now s1 = (Inr (p', a', b'), s')" and "0 < p_drawdown_breaker_percent p'"
    and "q = min (p_drawdown_breaker_percent p) (p_drawdown_breaker_percent p')"
    unfolding server_drawdown_breaker_percent_def by (auto simp: op_simps split: if_splits)
  then show "only_cancels s s'" "0 < q"
    using only_cancels_trans [OF read_policy_only_cancels [OF assms(1) r1]]
      read_policy_only_cancels [OF session_run_ok [OF read_policy_step [OF assms(1) r1] assms(1)] r2]
    by auto
qed

lemma load_breaker_only_cancels:
  "only_cancels s s' \<Longrightarrow> load_breaker org acc (se_current s') = load_breaker org acc (se_current s)"
  by (simp add: load_breaker_def only_cancels_same)

lemma reset_drawdown_path:
  assumes ok: "session_ok s"
  shows "path (reset_drawdown_latch sha256 owner_of equity_of org acc actor prf owner chat now) s"
proof -
  have last: "path (op_write (\<lambda>db. (clear_drawdown row (instant now) db)\<lparr>pd_resets := pd_resets db @
        [\<lparr>rs_org = org, rs_account = acc, rs_actor_id = pa_actor_id actor,
          rs_actor_channel = pa_channel actor, rs_created_at = instant now\<rparr>]\<rparr>)) s'"
    if "load_breaker org acc (se_current s') = Some row" "br_drawdown_latched row" "pa_channel actor = HUMAN" for s' row
    using that by (intro path_write1 db_step.latch_cleared [of org acc]) auto
  have tail: "path (op_bind (op_audited
                (op_bind (op_res (account_owner_user_id owner_of org acc)) (\<lambda>user_id.
                 op_bind (server_drawdown_breaker_percent org now) (\<lambda>percent.
                 op_res (Inr (user_id, percent)))))
                (audit_drawdown_refusal org acc actor)) (\<lambda>(user_id, percent).
     op_bind (op_res (server_account_equity equity_of org user_id)) (\<lambda>equity.
     op_bind (op_res (reset_verdict percent equity row now)) (\<lambda>verdict.
     op_bind (op_audited (op_res (if bv_drawdown_active verdict
                            then Inl (Rejected ''drawdown_still_active'') else Inr ()))
                (audit_drawdown_refusal org acc actor)) (\<lambda>_.
     op_write (\<lambda>db. (clear_drawdown row (instant now) db)\<lparr>pd_resets := pd_resets db @
        [\<lparr>rs_org = org, rs_account = acc, rs_actor_id = pa_actor_id actor,
          rs_actor_channel = pa_channel actor, rs_created_at = instant now\<rparr>]\<rparr>)))))) s"
    if row: "load_breaker org acc (se_current s) = Some row" "br_drawdown_latched row" and "pa_channel actor = HUMAN" for row
  proof (rule path_bind, goal_cases)
    case 1
    show ?case by (intro path_intros percent_path) (simp_all add: op_simps ok percent_path)
  next
    case (2 x s1)
    then have "only_cancels s s1" using percent_spec(1) [OF ok] by (auto simp: op_simps)
    then have load: "load_breaker org acc (se_current s1) = Some row"
      using load_breaker_only_cancels row(1) by metis
    obtain user_id percent where x: "x = (user_id, percent)" by (cases x)
    show ?case
      unfolding x case_prod_conv
      by (intro path_intros last) (auto simp: op_simps load row(2) that(3))
  qed
  show ?thesis
    unfolding reset_drawdown_latch_def case_prod_unfold
  proof (rule path_bind, goal_cases)
    case 1
    show ?case by (intro path_intros)
  next
    case (2 x s1)
    then have s1: "s1 = s" "pa_channel actor = HUMAN" by (auto simp: op_simps split: if_splits)
    show ?case
      unfolding s1(1)
    proof (rule path_bind, goal_cases)
      case 1
      show ?case by (intro path_intros)
    next
      case (2 y s2)
      then have s2: "s2 = s" by (simp add: op_simps)
      show ?case
        unfolding s2
        by (rule path_bind [OF path_read])
           (auto simp: op_simps split: option.splits if_splits intro!: tail [OF _ _ s1(2), unfolded case_prod_unfold])
    qed
  qed
qed

lemma reset_consecutive_path: "path (reset_consecutive_losses sha256 org acc actor prf owner chat now) s"
proof -
  have step: "db_step db (clear_consecutive row (instant now) db)" if "load_breaker org acc db = Some row" for row db
    using that by (rule db_step.streak_cleared)
  show ?thesis
    unfolding reset_consecutive_losses_def case_prod_unfold
    by (intro path_intros) (auto simp: op_simps split: option.splits if_splits intro: step)
qed

lemma quantised_idem [simp]: "quantised (quantised p) = quantised p"
  by (simp add: quantised_def option.map_comp o_def)

lemma get_proposal_id: "get_proposal pid db = Some pr \<Longrightarrow> pr_id pr = pid \<and> pr \<in> set (pd_proposals db)"
  unfolding get_proposal_def by (metis (mono_tags, lifting) find_Some_iff nth_mem)

lemma get_proposal_run: "db_step\<^sup>*\<^sup>* db db' \<Longrightarrow> get_proposal pid db = Some pr \<Longrightarrow> get_proposal pid db' = Some pr"
  unfolding get_proposal_def by (rule proposals.run_find)

lemma next_version_cases:
  "next_version_number org k db = 1 \<or>
   (\<exists>x \<in> set (pd_versions db). vr_org x = org \<and> vr_kind x = k \<and> vr_version_number x + 1 = next_version_number org k db)"
proof (cases "rev (sort_key vr_version_number (filter (\<lambda>v. vr_org v = org \<and> vr_kind v = k) (pd_versions db)))")
  case (Cons x xs)
  then have "x \<in> set (rev (sort_key vr_version_number (filter (\<lambda>v. vr_org v = org \<and> vr_kind v = k) (pd_versions db))))"
    by (simp only: list.set_intros(1))
  then have "x \<in> set (pd_versions db)" "vr_org x = org" "vr_kind x = k" by simp_all
  moreover have "next_version_number org k db = vr_version_number x + 1"
    unfolding next_version_number_def Cons by simp
  ultimately show ?thesis by auto
qed (simp add: next_version_number_def)

text \<open>
  The row an apply builds may be inserted wherever no constraint refuses it, also after other sessions
  have written.
\<close>

lemma version_row_reads:
  assumes ok: "policy_ok db0" and pr: "get_proposal pid db0 = Some pr"
    and prof: "profile_from_canonical (pr_payload pr) = Inr prof" and m: "canonical_profile prof = Inr m"
  shows "profile_from_row (version_of new_id org pr (p_kind prof) n m d actor h now) (Some (pr_payload pr)) = Inr prof"
proof -
  obtain p0 where p0: "canonical_profile p0 = Inr (pr_payload pr)"
    using policy_okD(1) [OF ok] get_proposal_id [OF pr] by blast
  have q: "prof = quantised p0" "valid_profile (quantised p0)"
    using prof profile_from_canonical_eq [OF p0] by (auto simp: res_simps)
  have "pr_payload pr = m"
    using canonical_quantised [OF canonical_profile_valid [OF p0] q(2)] p0 m q(1) by simp
  then show ?thesis using version_reads_profile [OF m] q by simp
qed

lemma version_step:
  assumes ok: "policy_ok db0" and pr: "get_proposal pid db0 = Some pr" "pr_org pr = org"
    and prof: "profile_from_canonical (pr_payload pr) = Inr prof" "p_kind prof = k"
    and m: "canonical_profile prof = Inr m"
    and eff: "ad_effective_at d = instant now + (if ad_change_class d = LOOSENING then LOOSENING_DELAY else 0)"
    and run: "db_step\<^sup>*\<^sup>* db0 db1"
    and row: "row = version_of new_id org pr k (next_version_number org k db0) m d actor h now"
    and free: "\<not> version_refused row db1"
  shows "db_step db1 (db1\<lparr>pd_versions := pd_versions db1 @ [row]\<rparr>)"
proof (rule db_step.versioned [OF free])
  have "profile_from_row row (Some (pr_payload pr)) = Inr prof"
    using version_row_reads [OF ok pr(1) prof(1) m] unfolding row prof(2) .
  moreover have "get_proposal (vr_proposal_id row) db1 = Some pr"
    using get_proposal_run [OF run] pr(1) get_proposal_id [OF pr(1)] by (simp add: row version_of_def)
  ultimately show "version_good db1 row"
    using pr(2) prof(2) eff unfolding version_good_def by (auto simp: row version_of_def)
  show "predecessor_exists row db1"
    using next_version_cases [of org k db0] versions.run_keeps [OF run]
    unfolding predecessor_exists_def row by (fastforce simp: version_of_def)
qed

lemma checked_proposal_Inr:
  assumes "checked_proposal org pid actor prf owner chat now s = (Inr (pr, prof, k), s')"
  shows "s' = s" "get_proposal pid (se_current s) = Some pr" "pr_org pr = org"
    "assert_can_apply actor prf owner chat (pr_id pr) (pr_content_hash pr) now = Inr ()"
    "instant now - pr_created_at pr \<le> PROPOSAL_TTL" "kind_of_value (pr_kind pr) = Some k"
    "profile_from_canonical (pr_payload pr) = Inr prof"
    "assert_promotion_allows prof (stored_promotion_report org (se_current s)) = Inr ()"
  using assms unfolding checked_proposal_def
  by (auto simp: op_simps res_simps proposal_is_expired_def split: option.splits if_splits)

lemma checked_proposal_path: "path (checked_proposal org pid actor prf owner chat now) s"
  unfolding checked_proposal_def by (intro path_intros)

lemma previous_kind:
  assumes "policy_ok db" "in_force org k now db r"
    and "(case r of None \<Rightarrow> placeholder_profile k | Some row \<Rightarrow> profile_from_version row db) = Inr q"
  shows "p_kind q = k" "valid_profile q"
proof -
  have "p_kind q = k \<and> valid_profile q"
  proof (cases r)
    case None
    then show ?thesis using assms(3) placeholder_ok by (auto simp: placeholder_base_def)
  next
    case (Some v)
    then have v: "v \<in> set (pd_versions db)" "vr_kind v = k"
      using assms(2) by (auto simp: in_force_def eligible_def due_def)
    then show ?thesis using version_profile [OF assms(1) v(1)] assms(3) Some by force
  qed
  then show "p_kind q = k" "valid_profile q" by auto
qed

lemma insert_version_path:
  assumes "\<not> version_refused row (se_current s) \<Longrightarrow>
    db_step (se_current s) ((se_current s)\<lparr>pd_versions := pd_versions (se_current s) @ [row]\<rparr>)"
  shows "path (insert_version row) s"
  unfolding insert_version_def
  by (intro path_bind path_insert)
     (auto simp: path_def assms intro: session_step.rolled_back split: sum.splits)

lemma decided_effective:
  assumes "decide_apply actor previous p now b f = Inr d"
  shows "ad_effective_at d = instant now + (if ad_change_class d = LOOSENING then LOOSENING_DELAY else 0)"
    "\<And>q. previous = Some q \<Longrightarrow> p_kind q = p_kind p" "ad_change_class d = LOOSENING \<Longrightarrow> \<not> b"
  using decide_apply_Inr [OF assms] by (metis (full_types) add.right_neutral instant.simps(1))+

lemma in_force_only_cancels:
  assumes "session_ok s" "active_row org k now s = (r, s1)" "op_read (\<lambda>db. case r of
      None \<Rightarrow> placeholder_profile k | Some row \<Rightarrow> profile_from_version row db) s1 = (Inr q, s2)"
  shows "p_kind q = k" "valid_profile q"
proof -
  note spec = active_row_spec [OF assms(1,2)]
  have "(case r of None \<Rightarrow> placeholder_profile k | Some row \<Rightarrow> profile_from_version row (se_current s)) = Inr q"
    using assms(3) profile_from_version_only_cancels [OF spec(3)]
    by (auto simp: op_simps split: option.splits)
  then show "p_kind q = k" "valid_profile q"
    using previous_kind [OF _ spec(1)] assms(1) by (auto simp: session_ok_def)
qed

lemma apply_profile_path:
  assumes ok: "session_ok s" and others: "honest others"
    and c: "get_proposal pid (se_current s) = Some pr" "pr_org pr = org"
      "profile_from_canonical (pr_payload pr) = Inr prof"
  shows "path (apply_profile sha256 others new_id org actor now pr prof k) s"
  unfolding apply_profile_def Let_def
proof (intro path_bind [OF path_active [OF ok]] path_bind [OF path_read] path_bind [OF path_res]
    path_bind [OF path_others [OF others]] path_bind path_res path_write1 audit_step, goal_cases)
  case (1 r s1 q s2 d s3 n s4 m s5 h s6 u s7)
  have row: "active_row org k now s = (r, s1)" using 1(1) by (auto split: prod.splits)
  note spec = active_row_spec [OF ok row]
  have st: "s2 = s1" "s3 = s1" "s4 = s1" "s5 = s1" "s6 = s1" using 1 by (simp_all add: op_simps)
  have d: "decide_apply actor (Some q) prof now (breaker_active org (instant now) (se_current s1)) (r = None) = Inr d"
    and n: "n = next_version_number org k (se_current s1)" and m: "canonical_profile prof = Inr m"
    using 1 by (simp_all add: op_simps st)
  have cur: "se_current s7 = others (se_current s1)" using 1(7) st by (auto simp: op_others_def)
  have run: "db_step\<^sup>*\<^sup>* (se_current s1) (se_current s7)" using others by (simp add: honest_def cur)
  have ok1: "policy_ok (se_current s1)" using session_run_ok [OF spec(2) ok] by (simp add: session_ok_def)
  have pr: "get_proposal pid (se_current s1) = Some pr"
    using c(1) by (simp add: get_proposal_def only_cancels_same [OF spec(3)])
  have kind: "p_kind prof = k"
    using in_force_only_cancels(1) [OF ok row 1(2)] decided_effective(2) [OF d refl] by simp
  let ?row = "version_of new_id org pr k n m d actor h now"
  have row_eq: "?row = version_of new_id org pr k (next_version_number org k (se_current s1)) m d actor h now"
    by (simp only: n)
  have "db_step (se_current s7) ((se_current s7)\<lparr>pd_versions := pd_versions (se_current s7) @ [?row]\<rparr>)"
    if "\<not> version_refused ?row (se_current s7)"
    by (rule version_step [OF ok1 pr c(2,3) kind m decided_effective(1) [OF d] run row_eq that])
  then show ?case by (rule insert_version_path)
qed

lemma apply_proposal_path:
  assumes ok: "session_ok s" and others: "honest others"
  shows "path (apply_proposal sha256 others new_id org pid actor prf owner chat now) s"
  unfolding apply_proposal_def
proof (rule path_bind [OF checked_proposal_path], clarify)
  fix pr prof k s0
  assume ch: "checked_proposal org pid actor prf owner chat now s = (Inr (pr, prof, k), s0)"
  note c = checked_proposal_Inr [OF ch]
  show "path (apply_profile sha256 others new_id org actor now pr prof k) s0"
    unfolding c(1) by (rule apply_profile_path [OF ok others c(2,3,7)])
qed

section \<open>Service calls\<close>

inductive service_call :: "session \<Rightarrow> session \<Rightarrow> bool" where
  "service_call s (snd (read_policy org k now s))"
| "service_call s (snd (propose sha256 new_id org actor prof reason now s))"
| "honest others \<Longrightarrow>
   service_call s (snd (apply_proposal sha256 others new_id org proposal_id actor prf owner chat now s))"
| "honest others \<Longrightarrow> service_call s (snd (bind_grade others org setup_id decision now s))"
| "service_call s (snd (record_trade org trade_id r now s))"
| "service_call s (snd (add_calibration_sample org g gv rm ins wfold sl now s))"
| "service_call s (snd (store_promotion_report org report now s))"
| "service_call s (snd (op_write (record_breaker org acc w) s))"
| "service_call s (snd (op_write (latch_drawdown org acc peak t) s))"
| "persist_profile_breakers org user_id acc prof now losses daily (se_current s) = Inr (refuse, db) \<Longrightarrow>
   service_call s (s\<lparr>se_current := db\<rparr>)"
| "service_call s (snd (reset_drawdown_latch sha256 owner_of equity_of org acc actor prf owner chat now s))"
| "service_call s (snd (reset_consecutive_losses sha256 org acc actor prf owner chat now s))"
| "service_call s (commit s)"
| "service_call s (rollback s)"
| "honest others \<Longrightarrow> service_call s (snd (op_others others s))"

lemma scan_step:
  assumes "persist_profile_breakers org user_id acc prof now losses daily db = Inr (refuse, db')"
  shows "db_step\<^sup>*\<^sup>* db db'"
proof (rule persist_profile_breakers_Inr [OF assms])
  fix w
  have "db_step\<^sup>*\<^sup>* db (record_breaker org acc w db)" by (rule r_into_rtranclp, rule db_step.scanned)
  moreover have "db_step (record_breaker org acc w db) (arm_drawdown_kill_switch org user_id (record_breaker org acc w db))"
    by (rule db_step.armed)
  moreover assume "db' = (if bw_drawdown_latched w \<and> \<not> stored_field br_drawdown_latched False (load_breaker org acc db)
      then arm_drawdown_kill_switch org user_id (record_breaker org acc w db) else record_breaker org acc w db)"
  ultimately show ?thesis by (auto intro: rtranclp.rtrancl_into_rtrancl)
qed

lemma breaker_paths:
  "path (op_write (record_breaker org acc w)) s" "path (op_write (latch_drawdown org acc peak t)) s"
  by (rule path_write1, rule db_step.scanned, rule path_write1, rule db_step.latched)

lemma service_call_steps:
  assumes "service_call s s'" "session_ok s"
  shows "session_step\<^sup>*\<^sup>* s s'"
  using assms(1)
proof cases
  case (10 org user_id acc prof now losses daily refuse db)
  then show ?thesis using session_local [OF scan_step] by simp
qed (use assms(2) in \<open>auto intro: path_read_policy [unfolded path_def] propose_path [unfolded path_def]
    apply_proposal_path [unfolded path_def] bind_grade_path [unfolded path_def]
    record_trade_path [unfolded path_def] sample_path [unfolded path_def] report_path [unfolded path_def]
    breaker_paths [unfolded path_def]
    reset_drawdown_path [unfolded path_def] reset_consecutive_path [unfolded path_def]
    path_others [unfolded path_def] session_step.committed session_step.rolled_back\<close>)

definition empty_policy_db :: policy_db where
  "empty_policy_db =
     \<lparr>bd_states = [], bd_intervals = [], bd_kill_arms = [], pd_proposals = [], pd_versions = [],
      pd_cancellations = [], pd_bindings = [], pd_trades = [], pd_samples = [], pd_reports = [],
      pd_resets = [], pd_audit = []\<rparr>"

definition empty_session :: session where
  "empty_session = \<lparr>se_committed = empty_policy_db, se_current = empty_policy_db\<rparr>"

abbreviation reachable :: "session \<Rightarrow> bool" where
  "reachable s \<equiv> service_call\<^sup>*\<^sup>* empty_session s"

lemma empty_session_ok: "session_ok empty_session"
  by (auto simp: session_ok_def empty_session_def policy_ok_def empty_policy_db_def intro: exI [of _ 0])

lemma service_run_steps:
  "service_call\<^sup>*\<^sup>* s s' \<Longrightarrow> session_ok s \<Longrightarrow> session_step\<^sup>*\<^sup>* s s' \<and> session_ok s'"
proof (induction rule: rtranclp_induct)
  case (step t u)
  then have "session_step\<^sup>*\<^sup>* t u" using service_call_steps by blast
  then show ?case using step session_run_ok rtranclp_trans [of session_step s t u] by blast
qed simp

lemma reachable_ok: "reachable s \<Longrightarrow> session_ok s"
  using service_run_steps empty_session_ok by blast

section \<open>A successful apply\<close>

lemma insert_version_Inr:
  "insert_version v s = (Inr u, s') \<Longrightarrow>
     \<not> version_refused v (se_current s)
     \<and> s' = s\<lparr>se_current := (se_current s)\<lparr>pd_versions := pd_versions (se_current s) @ [v]\<rparr>\<rparr>"
  unfolding insert_version_def by (auto simp: op_simps split: sum.splits)

lemma apply_proposal_Inr:
  assumes ok: "session_ok s" and others: "honest others"
    and app: "apply_proposal sha256 others new_id org pid actor prf owner chat now s = (Inr v, s')"
  obtains pr prof r s1 q d m h where
    "checked_proposal org pid actor prf owner chat now s = (Inr (pr, prof, p_kind prof), s)"
    "active_row org (p_kind prof) now s = (r, s1)"
    "(case r of None \<Rightarrow> placeholder_profile (p_kind prof) | Some row \<Rightarrow> profile_from_version row (se_current s)) = Inr q"
    "decide_apply actor (Some q) prof now (breaker_active org (instant now) (se_current s)) (r = None) = Inr d"
    "canonical_profile prof = Inr m"
    "v = version_of new_id org pr (p_kind prof) (next_version_number org (p_kind prof) (se_current s)) m d actor h now"
    "\<not> version_refused v (others (se_current s1))"
    "pd_versions (se_current s') = pd_versions (others (se_current s1)) @ [v]"
    "pd_proposals (se_current s') = pd_proposals (others (se_current s1))"
proof -
  from app obtain pr prof k s0 where ch: "checked_proposal org pid actor prf owner chat now s = (Inr (pr, prof, k), s0)"
    and ap: "apply_profile sha256 others new_id org actor now pr prof k s0 = (Inr v, s')"
    unfolding apply_proposal_def by (auto simp: op_simps)
  note c = checked_proposal_Inr [OF ch]
  from ap obtain r s1 q d m h where row: "active_row org k now s = (r, s1)"
    and q: "op_read (\<lambda>db. case r of None \<Rightarrow> placeholder_profile k | Some row \<Rightarrow> profile_from_version row db) s1 = (Inr q, s1)"
    and d: "decide_apply actor (Some q) prof now (breaker_active org (instant now) (se_current s1)) (r = None) = Inr d"
    and m: "canonical_profile prof = Inr m"
    and v: "v = version_of new_id org pr k (next_version_number org k (se_current s1)) m d actor h now"
    and fin: "\<not> version_refused v (others (se_current s1))"
      "se_current s' = audit_entry POLICY_APPLIED org actor new_id
         (applied_metadata k (next_version_number org k (se_current s1)) d pr m) SUCCESS
         ((others (se_current s1))\<lparr>pd_versions := pd_versions (others (se_current s1)) @ [v]\<rparr>)"
    unfolding apply_profile_def Let_def c(1)
    by (auto simp: op_simps op_others_def split: prod.splits dest!: insert_version_Inr)
  note spec = active_row_spec [OF ok row]
  have k: "k = p_kind prof"
    using in_force_only_cancels(1) [OF ok row q] decided_effective(2) [OF d refl] by simp
  have nn: "next_version_number org k (se_current s1) = next_version_number org k (se_current s)"
    by (simp add: next_version_number_def only_cancels_same [OF spec(3)])
  have ba: "breaker_active org t (se_current s1) = breaker_active org t (se_current s)" for t
    by (simp add: breaker_active_def only_cancels_same [OF spec(3)])
  show ?thesis
  proof (rule that)
    show "checked_proposal org pid actor prf owner chat now s = (Inr (pr, prof, p_kind prof), s)" using ch c(1) k by simp
    show "active_row org (p_kind prof) now s = (r, s1)" using row k by simp
    show "(case r of None \<Rightarrow> placeholder_profile (p_kind prof) | Some row \<Rightarrow> profile_from_version row (se_current s)) = Inr q"
      using q k profile_from_version_only_cancels [OF spec(3)] by (auto simp: op_simps split: option.splits)
    show "decide_apply actor (Some q) prof now (breaker_active org (instant now) (se_current s)) (r = None) = Inr d"
      using d ba by simp
    show "v = version_of new_id org pr (p_kind prof) (next_version_number org (p_kind prof) (se_current s)) m d actor h now"
      using v nn k by simp
  qed (use m fin in \<open>simp_all add: audit_entry_def\<close>)
qed


section \<open>A sample run\<close>

text \<open>An owner proposes to double the leverage of the demo profile and applies it twenty minutes in.\<close>

lemma checks_follow:
  assumes "valid_profile (columns_profile v)" "vr_actor_channel v = HUMAN"
  shows "list_all id (version_checks v)"
proof -
  have g: "grade_percent (columns_profile v) A_PLUS = vr_risk_percent_a_plus v"
    "grade_percent (columns_profile v) A = vr_risk_percent_a v"
    "grade_percent (columns_profile v) B_PLUS = vr_risk_percent_b_plus v"
    "grade_percent (columns_profile v) B = vr_risk_percent_b v"
    "grade_percent (columns_profile v) C = vr_risk_percent_c v"
    by (simp_all add: grade_percent_def columns_profile_def)
  have r: "0 < grade_percent (columns_profile v) g \<and>
      grade_percent (columns_profile v) g \<le> (if vr_kind v = INTERNAL_PAPER \<or> vr_kind v = DEMO then 5 else 2)"
    if "g \<noteq> C" for g
  proof -
    have "0 < grade_percent (columns_profile v) g"
      "grade_percent (columns_profile v) g \<le> risk_ceiling_for (p_kind (columns_profile v))"
      using assms(1) that unfolding valid_profile_def by blast+
    moreover have "risk_ceiling_for (p_kind (columns_profile v)) =
        (if vr_kind v = INTERNAL_PAPER \<or> vr_kind v = DEMO then 5 else 2)"
      unfolding risk_ceiling_for_def paper_kind_iff ceiling_defs by (simp add: columns_profile_def)
    ultimately show ?thesis by simp
  qed
  have risks: "kind_risk_check (vr_kind v) (vr_risk_percent_a_plus v)" "kind_risk_check (vr_kind v) (vr_risk_percent_a v)"
    "kind_risk_check (vr_kind v) (vr_risk_percent_b_plus v)" "kind_risk_check (vr_kind v) (vr_risk_percent_b v)"
    using r [of A_PLUS] r [of A] r [of B_PLUS] r [of B] by (auto simp: kind_risk_check_def g split: if_splits)
  have c: "vr_risk_percent_c v = 0" using assms(1) g(5) by (simp add: valid_profile_def)
  have cls: "vr_change_class v \<in> {INITIAL, TIGHTENING, LOOSENING}" by (cases "vr_change_class v") auto
  show ?thesis
    using assms risks c cls unfolding version_checks_def
    by (simp add: valid_profile_def) (auto simp: columns_profile_def)
qed

definition sample_profile2 :: profile where
  "sample_profile2 = (placeholder_base DEMO)\<lparr>p_max_leverage := 2\<rparr>"

definition sample_reason :: string where "sample_reason = ''more room''"

definition proposed_session :: session where
  "proposed_session = snd (propose (\<lambda>_. ''abc'') ''p-1'' ''o'' sample_owner sample_profile2 sample_reason (Aware 0) empty_session)"

lemma sample_profile2_facts:
  "validate_profile sample_profile2 = Inr ()" "valid_profile sample_profile2"
  "quantised sample_profile2 = sample_profile2" "p_kind sample_profile2 = DEMO"
  "looser (placeholder_base DEMO) sample_profile2"
proof -
  show v: "validate_profile sample_profile2 = Inr ()" by code_simp
  then show "valid_profile sample_profile2" by (simp only: validate_profile_Inr)
  show "quantised sample_profile2 = sample_profile2"
  proof -
    have "quantised (p\<lparr>p_max_leverage := x\<rparr>) = (quantised p)\<lparr>p_max_leverage := quantum x\<rparr>" for p x
      by (simp add: quantised_def)
    moreover have "quantum 2 = 2" by (simp add: quantum_def round_half_even_def)
    ultimately show ?thesis by (simp add: sample_profile2_def quantised_placeholder)
  qed
  show "p_kind sample_profile2 = DEMO" by (simp add: sample_profile2_def placeholder_base_def)
  show "looser (placeholder_base DEMO) sample_profile2"
    unfolding looser_def sample_profile2_def by (simp add: placeholder_base_def quantum_def round_half_even_def)
qed

definition sample_canonical :: "(string \<times> string) list" where
  "sample_canonical = map (\<lambda>(k, c). (k, cell_str c)) (canonical_cells sample_profile2)"

lemma sample_canonical: "canonical_profile sample_profile2 = Inr sample_canonical"
  unfolding sample_canonical_def by (rule canonical_profile_eq [OF sample_profile2_facts(2)])

definition sample_proposal :: proposal_row where
  "sample_proposal =
     \<lparr>pr_id = ''p-1'', pr_org = ''o'', pr_kind = ''demo'', pr_payload = sample_canonical,
      pr_actor_id = ''owner'', pr_actor_channel = HUMAN, pr_reason = ''more room'',
      pr_content_hash = ''abc'', pr_created_at = 0\<rparr>"

lemma sample_propose:
  "propose (\<lambda>_. ''abc'') ''p-1'' ''o'' sample_owner sample_profile2 sample_reason (Aware 0) empty_session =
     (Inr sample_proposal, proposed_session)"
  "pd_proposals (se_current proposed_session) = [sample_proposal]"
  "pd_versions (se_current proposed_session) = []" "pd_cancellations (se_current proposed_session) = []"
  "pd_reports (se_current proposed_session) = []" "bd_states (se_current proposed_session) = []"
  "bd_intervals (se_current proposed_session) = []"
proof -
  have r: "check_reason sample_reason = Inr ()" "strip sample_reason = ''more room''" by code_simp+
  have a: "assert_can_propose sample_owner = Inr ()" by code_simp
  show "propose (\<lambda>_. ''abc'') ''p-1'' ''o'' sample_owner sample_profile2 sample_reason (Aware 0) empty_session =
     (Inr sample_proposal, proposed_session)"
    "pd_proposals (se_current proposed_session) = [sample_proposal]"
    "pd_versions (se_current proposed_session) = []" "pd_cancellations (se_current proposed_session) = []"
    "pd_reports (se_current proposed_session) = []" "bd_states (se_current proposed_session) = []"
    "bd_intervals (se_current proposed_session) = []"
    unfolding proposed_session_def propose_def r a sample_canonical profile_hash_def
    by (simp_all add: Let_def op_bind_def op_res_def op_insert_def op_write_def empty_session_def empty_policy_db_def
        audit_entry_def sample_proposal_def sample_profile2_facts(4) r sample_owner_def)
qed

lemma proposed_reachable: "reachable proposed_session"
  unfolding proposed_session_def by (rule r_into_rtranclp) (rule service_call.intros)

definition sample_now :: dt where
  "sample_now = Aware (1200 * 10 ^ 6)"

lemma sample_checked:
  "checked_proposal ''o'' ''p-1'' sample_owner (Some sample_proof) ''owner'' '''' sample_now proposed_session =
     (Inr (sample_proposal, sample_profile2, DEMO), proposed_session)"
proof -
  have a: "assert_can_apply sample_owner (Some sample_proof) ''owner'' '''' ''p-1'' ''abc'' sample_now = Inr ()"
    by code_simp
  have e: "proposal_is_expired (Aware 0) sample_now = Inr False" by code_simp
  have k: "kind_of_value ''demo'' = Some DEMO" by code_simp
  have c: "profile_from_canonical sample_canonical = Inr sample_profile2"
    using profile_from_canonical_eq [OF sample_canonical] by (simp add: sample_profile2_facts)
  have p: "assert_promotion_allows sample_profile2 r = Inr ()" for r
    by (simp add: assert_promotion_allows_def sample_profile2_def placeholder_base_def TRADABLE_GRADES_def
        risk_percent_def PLACEHOLDER_RISK_PERCENT_def)
  show ?thesis
    unfolding checked_proposal_def get_proposal_def op_bind_def op_read_def op_audited_def op_res_def
      sample_propose(2)
    by (simp add: sample_proposal_def a e k c p)
qed

lemma sample_active: "active_row ''o'' DEMO sample_now proposed_session = (None, proposed_session)"
  by (simp add: active_row_def sample_propose)

definition sample_decided :: apply_decision where
  "sample_decided =
     \<lparr>ad_change_class = LOOSENING, ad_effective_at = 1200 * 10 ^ 6 + LOOSENING_DELAY,
      ad_diff = diff_of (placeholder_base DEMO) sample_profile2, ad_applies_to_new_trades_only = True\<rparr>"

lemma sample_decided:
  "decide_apply sample_owner (Some (placeholder_base DEMO)) sample_profile2 sample_now False True =
   Inr sample_decided"
proof -
  note valid = placeholder_ok(2) [of DEMO] sample_profile2_facts(2)
  have "canonical_profile (placeholder_base DEMO) \<noteq> canonical_profile sample_profile2"
    using canonical_eq_quantised [OF valid] quantised_not_looser sample_profile2_facts(5) by blast
  then show ?thesis
    unfolding decide_apply_def sample_profile2_facts(1) profile_diff_eq [OF valid] classify_change_spec [OF valid]
    using sample_profile2_facts(4,5)
    by (simp add: sample_owner_def loosening_effective_at_eq placeholder_base_def sample_decided_def sample_now_def)
qed

definition sample_version :: version_row where
  "sample_version = version_of ''v-1'' ''o'' sample_proposal DEMO 1 sample_canonical sample_decided
     sample_owner ''abc'' sample_now"

lemma sample_insert:
  "insert_version sample_version proposed_session = (Inr (), proposed_session\<lparr>se_current :=
     (se_current proposed_session)\<lparr>pd_versions := [sample_version]\<rparr>\<rparr>)"
proof -
  have cols: "columns_profile sample_version = sample_profile2"
    using version_columns [OF sample_canonical] sample_profile2_facts(3,4)
    unfolding sample_version_def by (simp add: sample_profile2_def placeholder_base_def)
  have "list_all id (version_checks sample_version)"
    by (rule checks_follow, simp add: cols sample_profile2_facts)
       (simp add: sample_version_def version_of_def)
  then have "\<not> version_refused sample_version (se_current proposed_session)"
    by (simp add: version_refused_def sample_propose)
  then show ?thesis
    by (simp add: insert_version_def op_bind_def cols sample_profile2_facts op_insert_def sample_propose)
qed

definition applied_session :: session where
  "applied_session = snd (apply_proposal (\<lambda>_. ''abc'') id ''v-1'' ''o'' ''p-1'' sample_owner (Some sample_proof)
     ''owner'' '''' sample_now proposed_session)"

lemma sample_apply:
  "apply_proposal (\<lambda>_. ''abc'') id ''v-1'' ''o'' ''p-1'' sample_owner (Some sample_proof) ''owner'' ''''
     sample_now proposed_session = (Inr sample_version, applied_session)"
  "pd_versions (se_current applied_session) = [sample_version]"
  "pd_cancellations (se_current applied_session) = []" "bd_intervals (se_current applied_session) = []"
  "pd_proposals (se_current applied_session) = [sample_proposal]" "bd_states (se_current applied_session) = []"
proof -
  have o: "op_others id s = (Inr (), s)" for s by (simp add: op_others_def)
  have nb: "breaker_active ''o'' t (se_current proposed_session) = False" for t
    by (simp add: breaker_active_def sample_propose)
  have nv: "next_version_number ''o'' DEMO (se_current proposed_session) = 1"
    by (simp add: next_version_number_def sample_propose)
  have eq: "apply_proposal (\<lambda>_. ''abc'') id ''v-1'' ''o'' ''p-1'' sample_owner (Some sample_proof) ''owner'' ''''
     sample_now proposed_session = (Inr sample_version, proposed_session\<lparr>se_current :=
       audit_entry POLICY_APPLIED ''o'' sample_owner ''v-1''
         (applied_metadata DEMO 1 sample_decided sample_proposal sample_canonical) SUCCESS
         ((se_current proposed_session)\<lparr>pd_versions := [sample_version]\<rparr>)\<rparr>)"
    unfolding apply_proposal_def apply_profile_def Let_def op_bind_def sample_checked
    by (simp add: sample_active op_read_def op_res_def placeholder_ok nb nv sample_decided sample_canonical
        profile_hash_def o op_write_def sample_insert flip: sample_version_def)
  show "apply_proposal (\<lambda>_. ''abc'') id ''v-1'' ''o'' ''p-1'' sample_owner (Some sample_proof) ''owner'' ''''
     sample_now proposed_session = (Inr sample_version, applied_session)"
    "pd_versions (se_current applied_session) = [sample_version]"
    "pd_cancellations (se_current applied_session) = []" "bd_intervals (se_current applied_session) = []"
    "pd_proposals (se_current applied_session) = [sample_proposal]" "bd_states (se_current applied_session) = []"
    unfolding applied_session_def eq by (simp_all add: audit_entry_def sample_propose)
qed

lemma sample_in_force:
  "read_policy ''o'' DEMO (Aware (1200 * 10 ^ 6 + LOOSENING_DELAY)) applied_session =
     (Inr (sample_profile2, Some sample_version, None), applied_session)"
proof -
  have v: "vr_org sample_version = ''o''" "vr_kind sample_version = DEMO" "vr_proposal_id sample_version = ''p-1''"
    "vr_effective_at sample_version = 1200 * 10 ^ 6 + LOOSENING_DELAY"
    by (simp_all add: sample_version_def version_of_def sample_decided_def sample_proposal_def)
  have "profile_from_row sample_version (Some sample_canonical) = Inr sample_profile2"
    using version_reads_profile [OF sample_canonical] sample_profile2_facts(2,3,4) unfolding sample_version_def by simp
  then have p: "profile_from_version sample_version (se_current applied_session) = Inr sample_profile2"
    by (simp add: profile_from_version_def get_proposal_def sample_apply v) (simp add: sample_proposal_def)
  have "active_row ''o'' DEMO (Aware (1200 * 10 ^ 6 + LOOSENING_DELAY)) applied_session = (Some sample_version, applied_session)"
    by (simp add: active_row_def sample_apply v breaker_covered_def)
  then show ?thesis by (simp add: read_policy_def scheduled_row_def sample_apply v p)
qed

lemma honest_id: "honest id"
  by (simp add: honest_def)

lemma applied_reachable: "reachable applied_session"
proof -
  have "service_call proposed_session applied_session"
    unfolding applied_session_def by (rule service_call.intros(3) [OF honest_id])
  then show ?thesis by (rule rtranclp.rtrancl_into_rtrancl [OF proposed_reachable])
qed

section \<open>Properties\<close>

text \<open>
  C19. The service refines the abstract store. From a reachable session every call of the service, the
  failing ones included, moves the tables only along the steps \<open>db_step\<close> allows: rows are added under
  their guards, the live breaker row is changed by the four breaker writers, a transaction is published
  or dropped as a whole, and other sessions may write in the race windows of an apply and of a grade
  binding.
\<close>

theorem service_refines_store:
  assumes "reachable s" "service_call s s'"
  shows "session_step\<^sup>*\<^sup>* s s'"
  using service_call_steps [OF assms(2) reachable_ok [OF assms(1)]] .

theorem service_refines_store_witness: "session_step\<^sup>*\<^sup>* empty_session proposed_session"
proof -
  have "service_call empty_session proposed_session"
    unfolding proposed_session_def by (rule service_call.intros)
  with service_refines_store [of empty_session] show ?thesis by simp
qed

text \<open>
  C20. The invariant of the version history, in every session the service can reach: the versions of an
  organization and kind are numbered \<open>1\<close> to \<open>n\<close> in the order of their rows, no proposal has two
  versions, every version names a human actor, starts 24 hours after its apply when it loosens and at
  its apply otherwise, and reads back as a valid profile of its kind; a version is cancelled at most
  once, and only a loosening is.
\<close>

theorem version_history_invariant:
  assumes "reachable s"
  shows "(\<exists>n \<ge> 0. map vr_version_number (filter (\<lambda>v. vr_org v = org \<and> vr_kind v = k) (pd_versions (se_current s))) = [1..n])
    \<and> distinct (map vr_proposal_id (pd_versions (se_current s)))
    \<and> (\<forall>v \<in> set (pd_versions (se_current s)). vr_actor_channel v = HUMAN
        \<and> vr_effective_at v = vr_created_at v + (if vr_change_class v = LOOSENING then LOOSENING_DELAY else 0)
        \<and> (\<exists>p. profile_from_version v (se_current s) = Inr p \<and> valid_profile p \<and> p_kind p = vr_kind v))
    \<and> distinct (map ca_version_id (pd_cancellations (se_current s)))
    \<and> (\<forall>c \<in> set (pd_cancellations (se_current s)). \<exists>v \<in> set (pd_versions (se_current s)).
         vr_id v = ca_version_id c \<and> vr_change_class v = LOOSENING)"
proof -
  have ok: "policy_ok (se_current s)" using reachable_ok [OF assms] by (simp add: session_ok_def)
  have good: "vr_actor_channel v = HUMAN
      \<and> vr_effective_at v = vr_created_at v + (if vr_change_class v = LOOSENING then LOOSENING_DELAY else 0)
      \<and> (\<exists>p. profile_from_version v (se_current s) = Inr p \<and> valid_profile p \<and> p_kind p = vr_kind v)"
    if "v \<in> set (pd_versions (se_current s))" for v
    using policy_okD(5) [OF ok that] version_profile [OF ok that] unfolding version_good_def by metis
  have can: "\<exists>v \<in> set (pd_versions (se_current s)). vr_id v = ca_version_id c \<and> vr_change_class v = LOOSENING"
    if "c \<in> set (pd_cancellations (se_current s))" for c
    using policy_okD(6) [OF ok that] by blast
  show ?thesis
    by (intro conjI ballI good can policy_okD(3) [OF ok] policy_okD(4) [OF ok] policy_okD(7) [OF ok])
qed

theorem version_history_invariant_witness:
  "distinct (map vr_proposal_id (pd_versions (se_current proposed_session)))"
  using version_history_invariant [OF proposed_reachable] by blast

text \<open>
  C21. Reading the policy never fails. In every reachable session \<open>read\<close> returns a valid profile of the
  asked kind: the placeholder when no version is eligible, otherwise the profile of the eligible version
  with the highest number, where a version is eligible when it is due, not cancelled and not a loosening
  whose start a breaker window covers; a loosening in force is at least 24 hours old. Every due version
  numbered above it is cancelled afterwards, and what the read cancels it publishes at once.
\<close>

theorem read_policy_in_force:
  assumes "reachable s" "read_policy org k now s = (r, s')"
  shows "\<exists>p active. r = Inr (p, active, scheduled_row org k now (se_current s))
    \<and> valid_profile p \<and> p_kind p = k \<and> in_force org k now (se_current s) active
    \<and> (case active of None \<Rightarrow> p = placeholder_base k
       | Some v \<Rightarrow> profile_from_version v (se_current s) = Inr p
           \<and> (vr_change_class v = LOOSENING \<longrightarrow> vr_created_at v + LOOSENING_DELAY \<le> instant now))
    \<and> (\<forall>w. due org k now (se_current s) w \<and> (\<forall>v. active = Some v \<longrightarrow> vr_version_number v < vr_version_number w)
        \<longrightarrow> vr_id w \<in> ca_version_id ` set (pd_cancellations (se_current s')))
    \<and> (s' = s \<or> se_committed s' = se_current s')"
proof -
  note sok = reachable_ok [OF assms(1)]
  have ok: "policy_ok (se_current s)" using sok by (simp add: session_ok_def)
  obtain p active where r: "r = Inr (p, active, scheduled_row org k now (se_current s))"
    "in_force org k now (se_current s) active" "valid_profile p" "p_kind p = k"
    "case active of None \<Rightarrow> p = placeholder_base k | Some v \<Rightarrow> profile_from_version v (se_current s) = Inr p"
    and row: "active_row org k now s = (active, s')"
    by (rule read_policy_spec [OF sok assms(2)])
  note spec = active_row_spec [OF sok row]
  have "vr_created_at v + LOOSENING_DELAY \<le> instant now"
    if "active = Some v" "vr_change_class v = LOOSENING" for v
  proof -
    have "due org k now (se_current s) v" using r(2) that by (simp add: in_force_def eligible_def)
    then show ?thesis using policy_okD(5) [OF ok, of v] that by (auto simp: due_def version_good_def)
  qed
  then have c: "case active of None \<Rightarrow> p = placeholder_base k
       | Some v \<Rightarrow> profile_from_version v (se_current s) = Inr p
           \<and> (vr_change_class v = LOOSENING \<longrightarrow> vr_created_at v + LOOSENING_DELAY \<le> instant now)"
    using r(5) by (auto split: option.splits)
  have "s' = s \<or> se_committed s' = se_current s'" using spec(3) by (simp add: only_cancels_def)
  then show ?thesis using r(1-4) c spec(4) by blast
qed

theorem read_policy_in_force_witness:
  "\<exists>p active s'. read_policy ''o'' DEMO (Aware 0) empty_session = (Inr (p, active, None), s') \<and> valid_profile p"
proof -
  obtain r s' where r: "read_policy ''o'' DEMO (Aware 0) empty_session = (r, s')" by fastforce
  have "scheduled_row ''o'' DEMO (Aware 0) (se_current empty_session) = None"
    by (simp add: scheduled_row_def empty_session_def empty_policy_db_def)
  then show ?thesis using read_policy_in_force [OF rtranclp.rtrancl_refl r] r by auto
qed





text \<open>
  C24. A proposal is applied at most once: when a version of it exists, a further \<open>apply\<close> of the same
  proposal is refused, whoever asks and whatever other sessions do meanwhile.
\<close>

theorem apply_proposal_once:
  assumes "reachable s" "honest others" "v \<in> set (pd_versions (se_current s))" "vr_proposal_id v = proposal_id"
  shows "\<exists>e s'. apply_proposal sha256 others new_id org proposal_id actor prf owner chat now s = (Inl e, s')"
proof (cases "apply_proposal sha256 others new_id org proposal_id actor prf owner chat now s")
  case (Pair res s')
  show ?thesis
  proof (cases res)
    case (Inr w)
    note sok = reachable_ok [OF assms(1)]
    from apply_proposal_Inr [OF sok assms(2) Pair [unfolded Inr]] obtain pr prof r s1 n m d h k where
      ch: "checked_proposal org proposal_id actor prf owner chat now s = (Inr (pr, prof, p_kind prof), s)"
      and row: "active_row org (p_kind prof) now s = (r, s1)"
      and w: "w = version_of new_id org pr k n m d actor h now"
      and ref: "\<not> version_refused w (others (se_current s1))"
      by metis
    have "v \<in> set (pd_versions (se_current s1))"
      using assms(3) only_cancels_same(1) [OF active_row_spec(3) [OF sok row]] by simp
    then have "v \<in> set (pd_versions (others (se_current s1)))"
      using versions.run_keeps assms(2) by (auto simp: honest_def)
    moreover have "vr_proposal_id w = proposal_id"
      using get_proposal_id [OF checked_proposal_Inr(2) [OF ch]] by (simp add: w version_of_def)
    ultimately show ?thesis using ref assms(4) by (auto simp: version_refused_def list_ex_iff)
  qed (use Pair in auto)
qed

theorem apply_proposal_once_witness:
  "\<exists>e s'. apply_proposal (\<lambda>_. ''abc'') id ''v-2'' ''o'' ''p-1'' sample_owner (Some sample_proof) ''owner'' ''''
     sample_now applied_session = (Inl e, s')"
  by (rule apply_proposal_once [OF applied_reachable honest_id, of sample_version])
     (simp_all add: sample_apply sample_version_def version_of_def sample_proposal_def)


definition latched_session :: session where
  "latched_session =
     snd (op_write (record_breaker ''o'' ''a'' ((sample_write 5 None)\<lparr>bw_drawdown_latched := True\<rparr>)) empty_session)"

definition latched_row :: breaker_state where
  "latched_row =
     \<lparr>br_org = ''o'', br_account = ''a'', br_equity_peak = 10000, br_drawdown_latched = True,
      br_consecutive_losses = 1, br_realized_pnl = Some (- 300), br_unrealized_pnl = Some 0,
      br_daily_paused_until = None, br_consecutive_paused_until = None, br_updated_at = 5\<rparr>"

definition reset_proof :: human_apply_proof where
  "reset_proof = sample_proof\<lparr>hp_proposal_id := ''drawdown-reset:a''\<rparr>"

definition sample_reset_run :: "unit res \<times> session" where
  "sample_reset_run = reset_drawdown_latch (\<lambda>_. ''abc'') (\<lambda>_ _. Some ''u'') (\<lambda>_ _. Fin 9500) ''o'' ''a'' sample_owner
     (Some reset_proof) ''owner'' '''' sample_now latched_session"

lemma latched_facts:
  "load_breaker ''o'' ''a'' (se_current latched_session) = Some latched_row"
  "pd_versions (se_current latched_session) = []" "pd_resets (se_current latched_session) = []"
proof -
  have cur: "se_current latched_session =
      record_breaker ''o'' ''a'' ((sample_write 5 None)\<lparr>bw_drawdown_latched := True\<rparr>) empty_policy_db"
    by (simp add: latched_session_def op_write_def empty_session_def)
  show "load_breaker ''o'' ''a'' (se_current latched_session) = Some latched_row"
    unfolding cur load_record_breaker
    by (simp add: recorded_row_def Let_def base_row_def breaker_row_def load_breaker_def empty_policy_db_def
        sample_write_def latched_row_def pause_active_def kept_pause_def)
  show "pd_versions (se_current latched_session) = []" unfolding cur by (simp add: empty_policy_db_def)
  show "pd_resets (se_current latched_session) = []"
    unfolding cur more_tables(8) [OF more_writers(1)] by (simp add: empty_policy_db_def)
qed

lemma latched_reachable: "reachable latched_session"
  unfolding latched_session_def by (rule r_into_rtranclp) (rule service_call.intros)

lemma read_policy_empty:
  "pd_versions (se_current s) = [] \<Longrightarrow> read_policy org k now s = (Inr (placeholder_base k, None, None), s)"
  by (simp add: read_policy_def active_row_def scheduled_row_def placeholder_ok)

lemma sample_reset_run:
  "sample_reset_run = (Inr (), latched_session\<lparr>se_current :=
     (clear_drawdown latched_row (1200 * 10 ^ 6) (se_current latched_session))\<lparr>pd_resets :=
       [\<lparr>rs_org = ''o'', rs_account = ''a'', rs_actor_id = ''owner'', rs_actor_channel = HUMAN,
         rs_created_at = 1200 * 10 ^ 6\<rparr>]\<rparr>\<rparr>)"
proof -
  have a: "assert_can_apply sample_owner (Some reset_proof) ''owner'' '''' ''drawdown-reset:a'' ''abc'' sample_now = Inr ()"
    by code_simp
  have p: "server_drawdown_breaker_percent ''o'' sample_now latched_session = (Inr 10, latched_session)"
    by (simp add: server_drawdown_breaker_percent_def op_bind_def op_res_def read_policy_empty latched_facts
        placeholder_base_def)
  let ?snap = "\<lparr>bs_equity = Fin 9500, bs_equity_peak = Fin 10000, bs_reference_equity = Fin 10000,
      bs_realized_pnl_today = - 300, bs_unrealized_pnl_today = Fin 0, bs_consecutive_losses = 0,
      bs_drawdown_latched = False, bs_now = sample_now\<rparr>"
  have ok: "snapshot_ok ?snap 9500 10000 10000 0 (1200 * 10 ^ 6)"
    by (simp add: snapshot_ok_def sample_now_def)
  have "\<not> bv_drawdown_active (verdict_of \<lparr>bc_daily_loss_limit_percent = 100, bc_drawdown_breaker_percent = 10,
      bc_consecutive_loss_limit = 2\<rparr> ?snap 9500 10000 10000 0 (1200 * 10 ^ 6))"
    by (simp add: verdict_simps drawdown_of_def peak_of_def dec_eval)
  then have v: "\<exists>v. reset_verdict 10 9500 latched_row sample_now = Inr v \<and> \<not> bv_drawdown_active v"
    using evaluate_breakers_ok [OF ok]
    by (simp add: reset_verdict_def latched_row_def money_or_zero_def)
  then obtain v where v: "reset_verdict 10 9500 latched_row sample_now = Inr v" "\<not> bv_drawdown_active v" by blast
  have l: "br_drawdown_latched latched_row" by (simp add: latched_row_def)
  have h: "pa_channel sample_owner = HUMAN" "pa_actor_id sample_owner = ''owner''" by (simp_all add: sample_owner_def)
  show ?thesis
    unfolding sample_reset_run_def reset_drawdown_latch_def drawdown_reset_binding_def Let_def case_prod_conv
    by (simp add: op_bind_def op_audited_def op_res_def op_read_def op_write_def a p l h v latched_facts
        account_owner_user_id_def server_account_equity_def)
       (simp add: sample_now_def)
qed


text \<open>
  C26. What the human reset of the drawdown latch requires and does. The actor is the authenticated owner
  on a declared human channel with a fresh proof bound to this account; the account was latched and is
  bound to a user whose equity in the portfolio accounting is positive; the drawdown of that equity from
  the stored peak is below the tighter threshold of the internal-paper and the demo profile in force.
  Afterwards the latch is off and the reset is recorded under the actor.
\<close>

theorem reset_drawdown_latch_sound:
  assumes "reachable s"
    and "reset_drawdown_latch sha256 account_owner account_equity org acc actor prf owner chat now s = (Inr u, s')"
  shows "\<exists>pf t row user e paper demo a1 a2 b1 b2 s1 s2.
      pa_channel actor = HUMAN \<and> owner_in_person actor owner \<and> prf = Some pf \<and> now = Aware t
    \<and> proof_binds pf owner chat (''drawdown-reset:'' @ acc) (sha256 (''drawdown-reset:'' @ acc)) t
    \<and> load_breaker org acc (se_current s) = Some row \<and> br_drawdown_latched row
    \<and> account_owner org acc = Some user \<and> account_equity org user = Fin e \<and> 0 < e
    \<and> read_policy org INTERNAL_PAPER now s = (Inr (paper, a1, b1), s1)
    \<and> read_policy org DEMO now s1 = (Inr (demo, a2, b2), s2)
    \<and> drawdown_of (max (br_equity_peak row) e) e
        < min (p_drawdown_breaker_percent paper) (p_drawdown_breaker_percent demo)
    \<and> \<not> stored_field br_drawdown_latched False (load_breaker org acc (se_current s'))
    \<and> (\<exists>r. pd_resets (se_current s') = pd_resets (se_current s2) @ [r] \<and> rs_org r = org \<and> rs_account r = acc
         \<and> rs_actor_id r = pa_actor_id actor \<and> rs_actor_channel r = HUMAN)"
proof -
  note sok = reachable_ok [OF assms(1)]
  from assms(2) obtain row user q s2 e vd where
    human: "pa_channel actor = HUMAN"
    and can: "assert_can_apply actor prf owner chat (''drawdown-reset:'' @ acc) (sha256 (''drawdown-reset:'' @ acc)) now = Inr ()"
    and row: "load_breaker org acc (se_current s) = Some row" "br_drawdown_latched row"
    and user: "account_owner_user_id account_owner org acc = Inr user"
    and q: "server_drawdown_breaker_percent org now s = (Inr q, s2)"
    and e: "server_account_equity account_equity org user = Inr e"
    and vd: "reset_verdict q e row now = Inr vd" "\<not> bv_drawdown_active vd"
    and s': "s' = s2\<lparr>se_current := (clear_drawdown row (instant now) (se_current s2))\<lparr>pd_resets := pd_resets (se_current s2) @
        [\<lparr>rs_org = org, rs_account = acc, rs_actor_id = pa_actor_id actor,
          rs_actor_channel = pa_channel actor, rs_created_at = instant now\<rparr>]\<rparr>\<rparr>"
    unfolding reset_drawdown_latch_def drawdown_reset_binding_def Let_def
    by (auto simp: op_simps split: option.splits if_splits)
  from q obtain paper a1 b1 s1 demo a2 b2 where
    rd: "read_policy org INTERNAL_PAPER now s = (Inr (paper, a1, b1), s1)"
      "read_policy org DEMO now s1 = (Inr (demo, a2, b2), s2)"
    and qm: "q = min (p_drawdown_breaker_percent paper) (p_drawdown_breaker_percent demo)"
    unfolding server_drawdown_breaker_percent_def by (auto simp: op_simps split: if_splits)
  obtain pf t where pf: "prf = Some pf" "now = Aware t" "owner_in_person actor owner"
    "proof_binds pf owner chat (''drawdown-reset:'' @ acc) (sha256 (''drawdown-reset:'' @ acc)) t"
    by (rule assert_can_apply_cases [OF can])
  have eq: "account_equity org user = Fin e" "0 < e" "account_owner org acc = Some user"
    using e user by (auto simp: server_account_equity_def account_owner_user_id_def split: num.splits if_splits option.splits)
  have dd: "drawdown_of (max (br_equity_peak row) e) e < q"
    using vd(1) [unfolded reset_verdict_def]
  proof (rule evaluate_breakers_Inr, goal_cases)
    case (1 e' k' r' u' t')
    then show ?case using vd(2) by (auto simp: verdict_simps snapshot_ok_def peak_of_def)
  qed
  have key: "br_org row = org" "br_account row = acc" using load_breaker_key [OF row(1)] by auto
  have "load_breaker org acc (se_current s2) = Some row"
    using load_breaker_only_cancels [OF percent_spec(1) [OF sok q]] row(1) by simp
  then have "load_breaker org acc (clear_drawdown row (instant now) (se_current s2)) =
      Some (row\<lparr>br_drawdown_latched := False, br_updated_at := instant now\<rparr>)"
    by (simp add: clear_drawdown_def load_put_row key)
  then have off: "\<not> stored_field br_drawdown_latched False (load_breaker org acc (se_current s'))"
    by (simp add: s' load_breaker_def stored_field_def)
  show ?thesis
    using human pf row eq rd dd [unfolded qm] off by (simp add: s')
qed

theorem reset_drawdown_latch_sound_witness:
  "\<not> stored_field br_drawdown_latched False (load_breaker ''o'' ''a'' (se_current (snd sample_reset_run)))"
proof -
  have "reset_drawdown_latch (\<lambda>_. ''abc'') (\<lambda>_ _. Some ''u'') (\<lambda>_ _. Fin 9500) ''o'' ''a'' sample_owner
     (Some reset_proof) ''owner'' '''' sample_now latched_session = (Inr (), snd sample_reset_run)"
    using sample_reset_run unfolding sample_reset_run_def by (metis prod.sel(2))
  from reset_drawdown_latch_sound [OF latched_reachable this] show ?thesis by blast
qed

section \<open>Grade bindings\<close>

text \<open>
  The grade table keeps the first grade of a setup: the contract of the in-memory grade book, here with
  any steps of the store between the binds and with other sessions binding in the race window.
\<close>

definition bound_grade :: "uid \<times> string \<Rightarrow> policy_db \<Rightarrow> grade_decision option" where
  "bound_grade k db = map_option decision_from_binding (find_binding (fst k) (snd k) db)"

lemma find_binding_run: "db_step\<^sup>*\<^sup>* db db' \<Longrightarrow> find_binding org sid db = Some b \<Longrightarrow> find_binding org sid db' = Some b"
  unfolding find_binding_def by (rule bindings.run_find)

lemma bind_grade_Inr:
  assumes "honest others" "bind_grade others org sid d now s = (Inr r, s')"
  shows "bound_grade (org, sid) (se_current s') = Some r"
    and "bound_grade (org, sid) (se_current s) = Some x \<Longrightarrow> r = x"
proof -
  have full: "decision_from_binding \<lparr>gb_org = org, gb_setup_id = sid, gb_grade = g, gb_grader_version = gd_grader_version c,
      gb_trend_score = t, gb_momentum_score = m, gb_refusal = gd_refusal c, gb_created_at = moment\<rparr> = c"
    if "gd_grade c = Some g" "gd_trend_score c = Some t" "gd_momentum_score c = Some m" for c g t m moment
    using that by (simp add: decision_from_binding_def)
  have fresh: "find_binding org sid (db\<lparr>pd_bindings := pd_bindings db @ [b]\<rparr>) = Some b"
    if "\<not> list_ex (\<lambda>b. gb_org b = org \<and> gb_setup_id b = sid) (pd_bindings db)" "gb_org b = org" "gb_setup_id b = sid" for db b
    using that by (auto simp: find_binding_def find_snoc find_None_iff list_ex_iff split: option.splits dest: find_Some_iff [THEN iffD1])
  show "bound_grade (org, sid) (se_current s') = Some r"
    using assms(2) unfolding bind_grade_def Let_def
    by (auto simp: bound_grade_def fresh full split: option.splits if_splits)
  show "bound_grade (org, sid) (se_current s) = Some x \<Longrightarrow> r = x"
    using assms(2) unfolding bind_grade_def Let_def by (auto simp: bound_grade_def)
qed

interpretation grade_table: first_bind_store
  "\<lambda>s k d r s'. \<exists>others now. honest others \<and> bind_grade others (fst k) (snd k) d now s = (Inr r, s')"
  "\<lambda>s k. bound_grade k (se_current s)" "\<lambda>s s'. db_step\<^sup>*\<^sup>* (se_current s) (se_current s')"
proof unfold_locales
  fix s k d r s'
  assume "\<exists>others now. honest others \<and> bind_grade others (fst k) (snd k) d now s = (Inr r, s')"
  then show "bound_grade k (se_current s') = Some r" using bind_grade_Inr(1) by (cases k) auto
next
  fix s k d r s' x
  assume "\<exists>others now. honest others \<and> bind_grade others (fst k) (snd k) d now s = (Inr r, s')"
    "bound_grade k (se_current s) = Some x"
  then show "r = x" using bind_grade_Inr(2) by (cases k) auto
next
  fix s s' j x
  assume "db_step\<^sup>*\<^sup>* (se_current s) (se_current s')" "bound_grade j (se_current s) = Some x"
  then show "bound_grade j (se_current s') = Some x"
    using find_binding_run by (auto simp: bound_grade_def)
qed

text \<open>
  C27. The first grade bound to a setup in the database is final: after any further steps of the store, a
  later bind of the same setup returns the first grade, whatever it proposes and whichever session won
  the race for the row.
\<close>

theorem stored_grade_is_final:
  assumes "honest others" "bind_grade others org setup_id d now s = (Inr r, s')"
    and "db_step\<^sup>*\<^sup>* (se_current s') (se_current t)"
    and "honest others'" "bind_grade others' org setup_id d' now' t = (Inr r', t')"
  shows "r' = r"
proof (rule grade_table.rebind)
  show "\<exists>others now. honest others \<and> bind_grade others (fst (org, setup_id)) (snd (org, setup_id)) d now s = (Inr r, s')"
    using assms(1,2) by auto
  show "(\<lambda>s s'. db_step\<^sup>*\<^sup>* (se_current s) (se_current s'))\<^sup>*\<^sup>* s' t" using assms(3) by (rule r_into_rtranclp)
  show "\<exists>others now. honest others \<and> bind_grade others (fst (org, setup_id)) (snd (org, setup_id)) d' now t = (Inr r', t')"
    using assms(4,5) by auto
qed

definition graded :: "grade \<Rightarrow> grade_decision" where
  "graded g = \<lparr>gd_grade = Some g, gd_grader_version = GRADER_VERSION, gd_trend_score = Some 1,
     gd_momentum_score = Some 1, gd_refusal = None\<rparr>"

theorem stored_grade_is_final_witness:
  "fst (bind_grade id ''o'' ''s'' (graded A_PLUS) (Aware 9)
     (snd (bind_grade id ''o'' ''s'' (graded B) (Aware 5) empty_session))) = Inr (graded B)"
proof -
  let ?one = "bind_grade id ''o'' ''s'' (graded B) (Aware 5) empty_session"
  let ?two = "bind_grade id ''o'' ''s'' (graded A_PLUS) (Aware 9) (snd ?one)"
  have one: "?one = (Inr (graded B), snd ?one)"
    by (simp add: bind_grade_def find_binding_def empty_session_def empty_policy_db_def graded_def op_others_def)
  have "\<exists>r. fst ?two = Inr r"
    by (simp add: bind_grade_def find_binding_def empty_session_def empty_policy_db_def graded_def op_others_def)
  then obtain r where r: "fst ?two = Inr r" by blast
  have "?two = (Inr r, snd ?two)" using r by (metis prod.collapse)
  then have "r = graded B"
    using stored_grade_is_final [OF honest_id one _ honest_id, of "snd ?one"] by blast
  then show ?thesis using r by simp
qed

end
