(* ===== verification/Plan_Sizing.thy ===== *)
theory Plan_Sizing
  imports Risk_Rules Decision
begin

text \<open>
  How a paper or demo plan is sized and rechecked, \<^verbatim>\<open>services/risk_policy/plan_sizing.py\<close>: funding and
  unit costs, the open risk of the stored stops, the grade written on a plan, the recheck of a stored
  plan and \<open>size_for_profile\<close>. \<open>ActiveProfile\<close> has the prefix \<open>ap_\<close>, \<open>ProfileOpenBook\<close> \<open>bk_\<close>, the keyword
  arguments of \<open>size_for_profile\<close> \<open>pq_\<close>, \<open>SizedPlan\<close> \<open>sp_\<close> and \<open>CalculationInput\<close> \<open>ci_\<close>. A value that the code
  tests with \<^verbatim>\<open>is_finite\<close> is a \<open>num\<close>, or a \<open>num option\<close> where it may be absent or not a Decimal; the
  other Decimals come from numeric columns or checked quotes and are finite. A Python result
  \<^verbatim>\<open>X | str\<close> is an \<open>answer\<close>.

  The lemmas tie this path to the sizer: both charge the same unit costs, the plan's cash ceiling
  bounds its exact stop-out loss, and a plan that was just sized fits its own book when it is
  rechecked.
\<close>

section \<open>Data\<close>

datatype 'a answer = Refused string | Given 'a

record active_profile =
  ap_profile :: profile
  ap_version_id :: string

record profile_open_book =
  bk_open_risk_percent :: rat
  bk_open_notional :: rat
  bk_open_positions :: int
  bk_remaining_daily_budget_percent :: rat

text \<open>
  The record of a sized plan: the trade record of \<open>decide_trade\<close> with the entries \<open>size_for_profile\<close> adds
  to its calculation.
\<close>

record plan_record = trade_risk_record +
  pl_entry :: rat
  pl_stop :: rat
  pl_target :: rat
  pl_planned_r :: rat
  pl_outcome :: string
  pl_profile_name :: string
  pl_paper_demo_data_collection :: bool

record sized_plan =
  sp_quantity :: rat
  sp_leverage :: rat
  sp_record :: plan_record
  sp_grade :: grade
  sp_risk_percent :: rat
  sp_planned_r :: rat
  sp_entry :: rat
  sp_stop :: rat
  sp_target :: rat
  sp_funding_rate :: rat
  sp_funding_periods :: rat
  sp_risk_cash_ceiling :: rat

definition PAPER_DEMO_TAKER_FEE_RATE :: rat where "PAPER_DEMO_TAKER_FEE_RATE = 6 / 10000"
definition PAPER_DEMO_FUNDING_RATE_PER_8H :: rat where "PAPER_DEMO_FUNDING_RATE_PER_8H = 1 / 10000"
definition PAPER_DEMO_FUNDING_PERIOD_HOURS :: rat where "PAPER_DEMO_FUNDING_PERIOD_HOURS = 8"
definition PAPER_DEMO_EXPECTED_HOLD_HOURS :: rat where "PAPER_DEMO_EXPECTED_HOLD_HOURS = 8"
definition DEMO_BOOK_BUFFER_RATE :: rat where "DEMO_BOOK_BUFFER_RATE = 2 / 1000"
definition PAPER_CONSERVATIVE_MAINTENANCE_RATE :: rat where "PAPER_CONSERVATIVE_MAINTENANCE_RATE = 2 / 100"
definition OPEN_NOTIONAL_MATCH_TOLERANCE :: rat where "OPEN_NOTIONAL_MATCH_TOLERANCE = 1 / 10 ^ 8"

definition PAPER_CONSERVATIVE_MAINTENANCE_TIERS :: "maintenance_tier list" where
  "PAPER_CONSERVATIVE_MAINTENANCE_TIERS =
     [\<lparr>mt_notional_floor = 0, mt_maintenance_rate = Fin PAPER_CONSERVATIVE_MAINTENANCE_RATE\<rparr>]"

definition STORED_PLAN_EXCEEDS_LIMITS :: string where
  "STORED_PLAN_EXCEEDS_LIMITS = ''stored_plan_exceeds_current_limits''"

definition PROFILE_SIZING_GRADE :: string where "PROFILE_SIZING_GRADE = ''profile_sizing_grade''"

fun grade_code :: "grade \<Rightarrow> rat" where
  "grade_code A_PLUS = 1" | "grade_code A = 2" | "grade_code B_PLUS = 3" | "grade_code B = 4"
| "grade_code C = 5"

definition grade_by_code :: "rat \<Rightarrow> grade option" where
  "grade_by_code code = find (\<lambda>g. grade_code g = code) GRADE_ORDER"

section \<open>Budget, funding and costs\<close>

definition remaining_daily_budget_percent :: "num \<Rightarrow> num option \<Rightarrow> num \<Rightarrow> rat answer" where
  "remaining_daily_budget_percent daily_loss_limit_percent realized_pnl equity =
     (case (daily_loss_limit_percent, equity, realized_pnl) of
        (Fin limit, Fin e, Some (Fin pnl)) \<Rightarrow>
          if e \<le> 0 then Refused ''daily_budget_uncomputed'' else
          let loss = (if pnl < 0 then dneg pnl else 0)
          in Given (dsub limit (dmul (ddiv loss e) 100))
      | _ \<Rightarrow> Refused ''daily_budget_uncomputed'')"

definition paper_demo_funding :: "num option \<Rightarrow> bool \<Rightarrow> num option \<Rightarrow> rat \<times> rat" where
  "paper_demo_funding live_rate live_verified expected_hold_hours =
     (let hold = (case expected_hold_hours of
            Some (Fin h) \<Rightarrow> if h \<le> 0 then PAPER_DEMO_EXPECTED_HOLD_HOURS else h
          | _ \<Rightarrow> PAPER_DEMO_EXPECTED_HOLD_HOURS);
          periods = ddiv hold PAPER_DEMO_FUNDING_PERIOD_HOURS;
          periods = (if periods < 1 then 1 else periods);
          floor_rate = PAPER_DEMO_FUNDING_RATE_PER_8H
      in case live_rate of
           Some (Fin r) \<Rightarrow>
             if live_verified then (if dabs r < floor_rate then floor_rate else dabs r, periods)
             else (floor_rate, periods)
         | _ \<Rightarrow> (floor_rate, periods))"

text \<open>
  The optional funding arguments of the cost functions: a rate still to be resolved by
  \<open>paper_demo_funding\<close>, or the pair a caller has already resolved, of which the rate may be left out.
\<close>

datatype funding = Quoted "num option" bool "num option" | Resolved "rat option" rat

fun resolve_funding :: "funding \<Rightarrow> rat \<times> rat" where
  "resolve_funding (Quoted rate live_verified hold) = paper_demo_funding rate live_verified hold"
| "resolve_funding (Resolved rate periods) =
     ((case rate of None \<Rightarrow> PAPER_DEMO_FUNDING_RATE_PER_8H | Some r \<Rightarrow> r), periods)"

definition profile_unit_cost :: "rat \<Rightarrow> rat \<Rightarrow> bool \<Rightarrow> funding \<Rightarrow> rat" where
  "profile_unit_cost entry stop include_book_buffer fund =
     (case resolve_funding fund of (rate, periods) \<Rightarrow>
      let slippage = (if include_book_buffer then DEMO_BOOK_BUFFER_RATE else 0)
      in dadd (dadd (dadd (dmul entry PAPER_DEMO_TAKER_FEE_RATE) (dmul stop PAPER_DEMO_TAKER_FEE_RATE))
                 (dmul (dmul entry (dabs rate)) periods))
           (dmul entry slippage))"

definition stop_out_cash :: "rat \<Rightarrow> rat \<Rightarrow> rat \<Rightarrow> bool \<Rightarrow> funding \<Rightarrow> rat" where
  "stop_out_cash size_of entry stop include_book_buffer fund =
     dmul size_of (dadd (dabs (dsub entry stop)) (profile_unit_cost entry stop include_book_buffer fund))"

definition reserved_maximum_loss :: "rat \<Rightarrow> rat \<Rightarrow> rat \<Rightarrow> rat \<Rightarrow> bool \<Rightarrow> funding \<Rightarrow> rat" where
  "reserved_maximum_loss size_of adverse_entry stop worse_price profile_costs fund =
     (if profile_costs then stop_out_cash size_of adverse_entry stop True fund
      else dmul size_of (dadd (dabs (dsub adverse_entry stop)) (dmul worse_price (2 / 1000))))"

section \<open>The open book\<close>

type_synonym open_position = "rat \<times> rat \<times> num option"

text \<open>The loop of \<open>open_risk_from_stops\<close> with its two accumulators.\<close>

fun stop_loop :: "bool \<Rightarrow> funding \<Rightarrow> open_position list \<Rightarrow> rat \<Rightarrow> rat \<Rightarrow> (rat \<times> rat) answer" where
  "stop_loop buffer fund [] risk_cash explained = Given (risk_cash, explained)"
| "stop_loop buffer fund ((size_of, entry, stop) # rest) risk_cash explained =
     (case stop of
        Some (Fin s) \<Rightarrow>
          if size_of \<le> 0 \<or> entry \<le> 0 then Refused ''open_risk_uncomputed''
          else stop_loop buffer fund rest (dadd risk_cash (stop_out_cash size_of entry s buffer fund))
                 (dadd explained (dmul size_of entry))
      | _ \<Rightarrow> Refused ''open_risk_uncomputed'')"

definition open_risk_from_stops ::
    "num \<Rightarrow> open_position list \<Rightarrow> num \<Rightarrow> bool \<Rightarrow> num option \<Rightarrow> bool \<Rightarrow> num option \<Rightarrow> (rat \<times> int) answer" where
  "open_risk_from_stops equity positions open_notional include_book_buffer funding_rate live_verified hold =
     (case (equity, open_notional) of
        (Fin e, Fin n) \<Rightarrow>
          if e \<le> 0 \<or> n < 0 then Refused ''open_book_uncomputed'' else
          (case stop_loop include_book_buffer (Quoted funding_rate live_verified hold) positions 0 0 of
             Refused code \<Rightarrow> Refused code
           | Given (risk_cash, explained) \<Rightarrow>
               if OPEN_NOTIONAL_MATCH_TOLERANCE < dabs (dsub n explained)
               then Refused ''open_risk_uncomputed''
               else Given (dmul (ddiv risk_cash e) 100, int (length positions)))
      | _ \<Rightarrow> Refused ''open_book_uncomputed'')"

fun canonical_open_stop_positions ::
    "(num option \<times> num option \<times> num option) list \<Rightarrow> (rat \<times> rat \<times> rat) list answer" where
  "canonical_open_stop_positions [] = Given []"
| "canonical_open_stop_positions (row # rows) =
     (case row of
        (Some (Fin size_of), Some (Fin entry), Some (Fin stop)) \<Rightarrow>
          if size_of \<le> 0 \<or> entry \<le> 0 then Refused ''open_risk_uncomputed''
          else (case canonical_open_stop_positions rows of
                  Refused code \<Rightarrow> Refused code
                | Given priced \<Rightarrow> Given ((size_of, entry, stop) # priced))
      | _ \<Rightarrow> Refused ''open_risk_uncomputed'')"

section \<open>The grade on a plan\<close>

record calculation_input =
  ci_name :: "string option"
  ci_input_value :: "num option"
  ci_result_value :: "num option"
  ci_unit :: string
  ci_formula_id :: string
  ci_formula_version :: string
  ci_precision :: int
  ci_rounding_mode :: string
  ci_conservative_remainder :: rat

definition profile_sizing_grade_payload :: "grade \<Rightarrow> rat \<Rightarrow> calculation_input" where
  "profile_sizing_grade_payload g percent =
     \<lparr>ci_name = Some PROFILE_SIZING_GRADE, ci_input_value = Some (Fin (grade_code g)),
      ci_result_value = Some (Fin percent), ci_unit = ''PERCENT'', ci_formula_id = ''profile-grade-cap'',
      ci_formula_version = ''1'', ci_precision = 8, ci_rounding_mode = ''ROUND_FLOOR'',
      ci_conservative_remainder = 0\<rparr>"

text \<open>The copy of the terms is the list of their calculation inputs with the marker at the end.\<close>

definition with_profile_sizing_grade :: "calculation_input list \<Rightarrow> grade \<Rightarrow> rat \<Rightarrow> calculation_input list" where
  "with_profile_sizing_grade inputs g percent = inputs @ [profile_sizing_grade_payload g percent]"

text \<open>The markers of a plan, or \<open>None\<close> when one of them does not carry two Decimals.\<close>

fun grade_markers :: "calculation_input list \<Rightarrow> (num \<times> num) list option" where
  "grade_markers [] = Some []"
| "grade_markers (item # items) =
     (if ci_name item \<noteq> Some PROFILE_SIZING_GRADE then grade_markers items
      else case (ci_input_value item, ci_result_value item) of
             (Some code, Some stored) \<Rightarrow> map_option (\<lambda>found. (code, stored) # found) (grade_markers items)
           | _ \<Rightarrow> None)"

definition stored_sizing_grade_cap :: "calculation_input list option \<Rightarrow> profile \<Rightarrow> rat option" where
  "stored_sizing_grade_cap inputs p =
     (case inputs of None \<Rightarrow> None | Some items \<Rightarrow>
      case grade_markers items of
        Some [(Fin code, Fin stored)] \<Rightarrow>
          (case grade_by_code code of None \<Rightarrow> None | Some g \<Rightarrow>
           if stored \<le> 0 then None else
           case risk_percent p g of
             Inl _ \<Rightarrow> None
           | Inr current \<Rightarrow> if current \<le> 0 then Some stored else Some (min stored current))
      | _ \<Rightarrow> None)"

section \<open>Channel ceiling and overrides\<close>

definition sized_risk_blocked_for_channel :: "string \<Rightarrow> rat \<Rightarrow> rat \<Rightarrow> bool res" where
  "sized_risk_blocked_for_channel channel percent profile_cap =
     (let req = \<lparr>rq_symbol = ''BTCUSDT'', rq_direction = ''long'', rq_strategy_id = None, rq_entry_price = 100,
                 rq_stop_loss = Some 99, rq_position_size = 1, rq_leverage = 1, rq_account_equity = 10000,
                 rq_risk_percent = Some percent, rq_is_countertrend = False, rq_is_volatile_altcoin = False,
                 rq_funding_rate = None, rq_volume_24h = None, rq_sleep_test_passed = None\<rparr>
      in if \<not> request_bounds req then Inl ValueError
         else Inr (check_risk_percent req default_limits
                     (default_context\<lparr>cx_is_weekend := False, cx_autonomous_sizing := True,
                        cx_paper_or_demo_channel := channel \<in> set PAPER_DEMO_KINDS,
                        cx_profile_risk_percent_cap := Some profile_cap\<rparr>) \<noteq> None))"

definition fixed_risk_override_refusal :: "num \<Rightarrow> profile \<Rightarrow> string option res" where
  "fixed_risk_override_refusal fixed p =
     (case fixed of
        NonFinite \<Rightarrow> Inr (Some ''risk_override_invalid'')
      | Fin x \<Rightarrow>
          if x \<le> 0 then Inr (Some ''risk_override_invalid'') else
          if min PAPER_DEMO_MAX_RISK_PER_TRADE_PERCENT (risk_ceiling_for (p_kind p)) < x
          then Inr (Some ''risk_override_exceeds_ceiling'') else
          res_bind (profile_max_risk p) (\<lambda>profile_max.
          if profile_max < x then Inr (Some ''risk_override_exceeds_profile_max'') else Inr None))"

definition demo_leverage_block :: "rat \<Rightarrow> rat \<Rightarrow> string option" where
  "demo_leverage_block account_leverage required_leverage =
     (if account_leverage \<noteq> required_leverage then Some ''demo_account_leverage_mismatch'' else None)"

definition demo_margin_mode_block :: "string option \<Rightarrow> string option" where
  "demo_margin_mode_block margin_mode =
     (case margin_mode of
        None \<Rightarrow> Some ''demo_margin_mode_not_isolated''
      | Some m \<Rightarrow> if lower m \<noteq> ''isolated'' then Some ''demo_margin_mode_not_isolated'' else None)"

section \<open>Recheck of a stored plan\<close>

text \<open>\<open>plan_numbers\<close> is the first guard: the five amounts are positive and finite, and so is the cap.\<close>

definition plan_numbers ::
    "num \<Rightarrow> num \<Rightarrow> num \<Rightarrow> num \<Rightarrow> num \<Rightarrow> num option \<Rightarrow> (rat \<times> rat \<times> rat \<times> rat \<times> rat \<times> rat) option" where
  "plan_numbers quantity entry stop multiplier equity cap =
     (case (quantity, entry, stop, multiplier, equity, cap) of
        (Fin q, Fin en, Fin st, Fin m, Fin e, Some (Fin c)) \<Rightarrow>
          if q \<le> 0 \<or> en \<le> 0 \<or> st \<le> 0 \<or> m \<le> 0 \<or> e \<le> 0 \<or> c \<le> 0 then None else Some (q, en, st, m, e, c)
      | _ \<Rightarrow> None)"

definition stored_plan_limit_refusal ::
    "num \<Rightarrow> num \<Rightarrow> num \<Rightarrow> num \<Rightarrow> num \<Rightarrow> profile_open_book \<Rightarrow> profile \<Rightarrow> string \<Rightarrow> bool \<Rightarrow> num option
     \<Rightarrow> num option \<Rightarrow> bool \<Rightarrow> string option res" where
  "stored_plan_limit_refusal quantity entry stop multiplier equity book p execution_channel
       include_book_buffer sizing_grade_cap funding_rate live_verified =
     (case plan_numbers quantity entry stop multiplier equity sizing_grade_cap of
        None \<Rightarrow> Inr (Some ''stored_plan_limits_uncomputed'')
      | Some (q, en, st, m, e, cap) \<Rightarrow>
        let size_of = dmul q m;
            cash = stop_out_cash size_of en st include_book_buffer (Quoted funding_rate live_verified None);
            added = dmul (ddiv cash e) 100;
            notional = dmul size_of en
        in if p_max_open_positions p < bk_open_positions book + 1
           then Inr (Some STORED_PLAN_EXCEEDS_LIMITS)
           else if bk_remaining_daily_budget_percent book \<le> 0
             \<or> dadd (bk_remaining_daily_budget_percent book) OPEN_NOTIONAL_MATCH_TOLERANCE
                 < dadd (bk_open_risk_percent book) added
           then Inr (Some STORED_PLAN_EXCEEDS_LIMITS)
           else if dadd (p_max_aggregate_open_risk_percent p) OPEN_NOTIONAL_MATCH_TOLERANCE
                     < dadd (bk_open_risk_percent book) added
           then Inr (Some STORED_PLAN_EXCEEDS_LIMITS)
           else let per_trade = ddiv (dmul e (p_max_notional_per_trade_percent p)) 100;
                    aggregate = ddiv (dmul e (p_max_aggregate_notional_percent p)) 100
           in if dadd per_trade OPEN_NOTIONAL_MATCH_TOLERANCE < notional
              then Inr (Some STORED_PLAN_EXCEEDS_LIMITS)
              else if dadd aggregate OPEN_NOTIONAL_MATCH_TOLERANCE < dadd (bk_open_notional book) notional
              then Inr (Some STORED_PLAN_EXCEEDS_LIMITS)
              else res_bind (sized_risk_blocked_for_channel execution_channel added cap) (\<lambda>blocked.
                   Inr (if blocked then Some ''risk_percent_exceeds_channel_ceiling'' else None)))"

section \<open>Grading from bars\<close>

record ohlcv_bar =
  ob_open :: rat
  ob_high :: rat
  ob_low :: rat
  ob_close :: rat
  ob_volume :: rat
  ob_timestamp :: dt

definition atr_of :: "num option \<Rightarrow> rat option" where
  "atr_of value = (case value of Some (Fin x) \<Rightarrow> if x \<le> 0 then None else Some x | _ \<Rightarrow> None)"

text \<open>
  \<open>analyze\<close> is the analysis engine: from symbol, timeframe and bars to the structure, the indicators and
  the ATR among them.
\<close>

definition grade_from_bars ::
    "(string \<Rightarrow> string \<Rightarrow> ohlcv_bar list \<Rightarrow> market_structure \<times> indicators \<times> num option)
     \<Rightarrow> string \<Rightarrow> string \<Rightarrow> string \<Rightarrow> ohlcv_bar list \<Rightarrow> grade_decision \<times> rat option" where
  "grade_from_bars analyze direction symbol timeframe bars =
     (if length bars < 20
      then (\<lparr>gd_grade = None, gd_grader_version = ''deterministic-grade/v1'', gd_trend_score = None,
             gd_momentum_score = None, gd_refusal = Some ''grade_unavailable''\<rparr>, None)
      else case analyze symbol timeframe bars of (structure, inds, atr) \<Rightarrow>
             (grade_setup (Some direction) structure inds, atr_of atr))"

section \<open>size_for_profile\<close>

definition volatility :: "rat \<Rightarrow> rat \<Rightarrow> string" where
  "volatility atr entry =
     (let ratio = ddiv atr entry
      in if ratio < 1 / 100 then ''low'' else if ratio < 3 / 100 then ''normal''
         else if ratio < 6 / 100 then ''high'' else ''extreme'')"

definition plan_verdict :: "rat \<Rightarrow> bool \<Rightarrow> breaker_verdict" where
  "plan_verdict equity refusing =
     \<lparr>bv_daily_loss_active = refusing, bv_drawdown_active = False, bv_consecutive_loss_active = False,
      bv_trip_kill_switch = False, bv_paused_until = None, bv_equity_peak = equity,
      bv_refuse_new_trades = refusing, bv_human_reset_required = False\<rparr>"

record plan_request =
  pq_equity :: rat
  pq_entry :: rat
  pq_stop :: rat
  pq_target :: rat
  pq_direction :: string
  pq_atr :: "rat option"
  pq_lot_step :: num
  pq_min_quantity :: num
  pq_open_risk_percent :: rat
  pq_open_notional :: rat
  pq_open_positions :: int
  pq_remaining_daily_budget_percent :: rat
  pq_breaker_refusing :: bool
  pq_leverage :: "num option"
  pq_include_book_buffer :: bool
  pq_maintenance_tiers :: "maintenance_tier list option"
  pq_funding_rate :: "num option"
  pq_funding_rate_verified :: bool
  pq_expected_hold_hours :: "num option"
  pq_execution_channel :: "string option"
  pq_fixed_risk_percent :: "num option"

text \<open>\<^verbatim>\<open>x or "\<dots>"\<close> on an optional reason.\<close>

definition reason_or :: "string option \<Rightarrow> string \<Rightarrow> string" where
  "reason_or r d = (case r of None \<Rightarrow> d | Some c \<Rightarrow> if c = '''' then d else c)"

definition plan_sizing_input :: "plan_request \<Rightarrow> profile \<Rightarrow> grade \<Rightarrow> num \<Rightarrow> rat \<Rightarrow> rat \<times> rat \<Rightarrow> sizing_input" where
  "plan_sizing_input rq p g grade_risk atr fund =
     \<lparr>in_equity = Some (Fin (pq_equity rq)), in_entry = Some (Fin (pq_entry rq)), in_stop = Some (Fin (pq_stop rq)),
      in_direction = Some (pq_direction rq), in_grade = Some g, in_grade_risk_percent = Some grade_risk,
      in_atr = Some (Fin atr), in_gap_beyond_stop = Some (Fin 0),
      in_fee_rate = Some (Fin PAPER_DEMO_TAKER_FEE_RATE), in_funding_rate = Some (Fin (fst fund)),
      in_funding_periods = Some (Fin (snd fund)),
      in_slippage_rate = Some (Fin (if pq_include_book_buffer rq then DEMO_BOOK_BUFFER_RATE else 0)),
      in_lot_step = Some (pq_lot_step rq), in_min_quantity = Some (pq_min_quantity rq),
      in_remaining_daily_budget_percent = Some (Fin (pq_remaining_daily_budget_percent rq)),
      in_open_risk_percent = Some (Fin (pq_open_risk_percent rq)),
      in_open_notional = Some (Fin (pq_open_notional rq)), in_open_positions = Some (pq_open_positions rq),
      in_leverage = Some (case pq_leverage rq of Some l \<Rightarrow> l | None \<Rightarrow> Fin (p_default_leverage p)),
      in_margin_mode = Some ''isolated''\<rparr>"

text \<open>The checks before \<open>decide_trade\<close>: the grade, the ATR and the risk percent the plan is sized with.\<close>

definition plan_grade_risk :: "profile \<Rightarrow> grade_decision \<Rightarrow> plan_request \<Rightarrow> (grade \<times> rat \<times> rat \<times> rat \<times> num) answer res" where
  "plan_grade_risk p gd rq =
     (case gd_grade gd of
        None \<Rightarrow> Inr (Refused (reason_or (gd_refusal gd) ''grade_not_tradable''))
      | Some g \<Rightarrow>
      case (gd_trend_score gd, gd_momentum_score gd) of
        (Some trend, Some mom) \<Rightarrow>
          if pq_fixed_risk_percent rq = None \<and> \<not> tradable gd
          then Inr (Refused (reason_or (gd_refusal gd) ''grade_not_tradable'')) else
          (case pq_atr rq of
             None \<Rightarrow> Inr (Refused ''atr_missing'')
           | Some atr \<Rightarrow>
             if atr \<le> 0 then Inr (Refused ''atr_missing'') else
             if 0 < pq_open_notional rq \<and> pq_open_risk_percent rq \<le> 0 then Inr (Refused ''open_risk_uncomputed'') else
             case pq_fixed_risk_percent rq of
               Some fixed \<Rightarrow>
                 res_bind (fixed_risk_override_refusal fixed p) (\<lambda>refusal.
                 Inr (case refusal of Some code \<Rightarrow> Refused code | None \<Rightarrow> Given (g, trend, mom, atr, fixed)))
             | None \<Rightarrow> res_bind (risk_percent p g) (\<lambda>x. Inr (Given (g, trend, mom, atr, Fin x))))
      | _ \<Rightarrow> Inr (Refused ''grade_unavailable''))"

text \<open>The end: the channel ceiling, the cash ceiling and the plan.\<close>

definition finish_plan ::
    "active_profile \<Rightarrow> plan_request \<Rightarrow> grade \<Rightarrow> rat \<times> rat \<Rightarrow> rat \<Rightarrow> rat \<Rightarrow> trade_risk_record \<Rightarrow> sizing_result
     \<Rightarrow> sized_plan answer res" where
  "finish_plan ap rq g fund distance reward rec sizing =
     (let p = ap_profile ap;
          channel = (case pq_execution_channel rq of None \<Rightarrow> kind_value (p_kind p) | Some c \<Rightarrow> c)
      in res_bind (if pq_fixed_risk_percent rq \<noteq> None then profile_max_risk p else risk_percent p g) (\<lambda>profile_cap.
      res_bind (sized_risk_blocked_for_channel channel (sz_effective_risk_percent sizing) profile_cap) (\<lambda>blocked.
      if blocked then Inr (Refused ''risk_percent_exceeds_channel_ceiling'') else
      let cash_ceiling = ddiv (dmul (pq_equity rq)
            (min4 (sz_grade_risk_percent sizing) profile_cap (sz_ceiling_percent sizing)
               (sz_budget_room_percent sizing))) 100
      in res_bind (quantize8 round_half_even (ddiv reward distance)) (\<lambda>planned_r.
      Inr (Given
        \<lparr>sp_quantity = sz_quantity sizing, sp_leverage = sz_leverage sizing,
         sp_record = trade_risk_record.extend rec
           (plan_record.fields (pq_entry rq) (pq_stop rq) (pq_target rq) planned_r ''open''
              (p_profile_name p) (p_paper_demo_data_collection p)),
         sp_grade = g, sp_risk_percent = sz_effective_risk_percent sizing, sp_planned_r = planned_r,
         sp_entry = pq_entry rq, sp_stop = pq_stop rq, sp_target = pq_target rq,
         sp_funding_rate = fst fund, sp_funding_periods = snd fund, sp_risk_cash_ceiling = cash_ceiling\<rparr>)))))"

definition plan_options :: "bool \<Rightarrow> decide_options" where
  "plan_options replace_grade_cap =
     default_options\<lparr>do_preserve_grade_risk := True, do_reduce_leverage := False,
       do_replace_grade_cap := replace_grade_cap\<rparr>"

definition size_for_profile :: "active_profile \<Rightarrow> grade_decision \<Rightarrow> plan_request \<Rightarrow> sized_plan answer res" where
  "size_for_profile ap gd rq =
     res_bind (plan_grade_risk (ap_profile ap) gd rq) (\<lambda>start.
     case start of
       Refused code \<Rightarrow> Inr (Refused code)
     | Given (g, trend, mom, atr, grade_risk) \<Rightarrow>
       let fund = paper_demo_funding (pq_funding_rate rq) (pq_funding_rate_verified rq) (pq_expected_hold_hours rq);
           distance = dabs (dsub (pq_entry rq) (pq_stop rq));
           reward = dabs (dsub (pq_target rq) (pq_entry rq))
       in if distance \<le> 0 \<or> reward \<le> 0 \<or> pq_entry rq \<le> 0 then Inr (Refused ''invalidation_unavailable'') else
       res_bind (decide_trade (ap_profile ap) (ap_version_id ap) gd
                   \<lparr>ai_volatility_regime = Some (volatility atr (pq_entry rq)),
                    ai_trend_aligned = Some (trend = 1), ai_momentum_aligned = Some (mom = 1)\<rparr>
                   (plan_sizing_input rq (ap_profile ap) g grade_risk atr fund)
                   (plan_verdict (pq_equity rq) (pq_breaker_refusing rq))
                   (Some (case pq_maintenance_tiers rq of
                            None \<Rightarrow> PAPER_CONSERVATIVE_MAINTENANCE_TIERS | Some ts \<Rightarrow> ts))
                   (plan_options (pq_fixed_risk_percent rq \<noteq> None))) (\<lambda>decision.
       case (td_accepted decision, td_record decision, td_sizing decision) of
         (True, Some rec, Some sizing) \<Rightarrow> finish_plan ap rq g fund distance reward rec sizing
       | _ \<Rightarrow> Inr (Refused (reason_or (td_reason decision) ''risk_policy_refused''))))"

section \<open>The sizing behind a plan\<close>

lemma unit_cost_of_profile:
  "profile_unit_cost entry stop buffer (Resolved (Some rate) periods) =
     unit_cost entry stop PAPER_DEMO_TAKER_FEE_RATE rate periods (if buffer then DEMO_BOOK_BUFFER_RATE else 0)"
  by (simp add: profile_unit_cost_def unit_cost_def)

lemma resolve_paper_demo:
  "paper_demo_funding rate verified hold = (r, k) \<Longrightarrow>
     profile_unit_cost entry stop buffer (Quoted rate verified hold)
       = profile_unit_cost entry stop buffer (Resolved (Some r) k)"
  by (simp add: profile_unit_cost_def)

lemma not_blocked_for_channel:
  "sized_risk_blocked_for_channel channel x cap = Inr False \<longleftrightarrow>
     0 \<le> x \<and> x \<le> 100 \<and> 0 < cap \<and> x \<le> cap \<and> x \<le> (if channel \<in> set PAPER_DEMO_KINDS then 5 else 2)"
proof -
  have "check_risk_percent q l c = None \<longleftrightarrow> \<not> (check_risk_percent q l c \<noteq> None)" for q l c by simp
  then show ?thesis
    unfolding sized_risk_blocked_for_channel_def Let_def risk_percent_fires
    by (auto simp: request_bounds_def default_context_def percent_over_def risk_ceiling_of_def not_le not_less
        PAPER_DEMO_MAX_RISK_PER_TRADE_PERCENT_def HARD_MAX_RISK_PER_TRADE_PERCENT_def ledger_caps_independent_def
        split: if_splits)
qed

lemma blocked_for_channel_value:
  "0 \<le> x \<Longrightarrow> x \<le> 100 \<Longrightarrow> \<exists>b. sized_risk_blocked_for_channel channel x cap = Inr b"
  by (simp add: sized_risk_blocked_for_channel_def request_bounds_def)

text \<open>The percent a plan may use: its grade's, or the override's with the profile's highest grade above it.\<close>

definition plan_percent :: "profile \<Rightarrow> grade \<Rightarrow> num option \<Rightarrow> rat \<Rightarrow> bool" where
  "plan_percent p g fixed x \<longleftrightarrow>
     (case fixed of None \<Rightarrow> p_risk_percent_by_grade p g = Some x
      | Some f \<Rightarrow> f = Fin x \<and> 0 < x \<and> x \<le> 5 \<and> (\<exists>m. profile_max_risk p = Inr m \<and> x \<le> m))"

lemma fixed_override_ok:
  "fixed_risk_override_refusal f p = Inr None \<Longrightarrow>
     \<exists>x m. f = Fin x \<and> 0 < x \<and> x \<le> 5 \<and> x \<le> risk_ceiling_for (p_kind p) \<and> profile_max_risk p = Inr m \<and> x \<le> m"
  by (auto simp: fixed_risk_override_refusal_def res_simps PAPER_DEMO_MAX_RISK_PER_TRADE_PERCENT_def
      min_less_iff_disj not_less not_le split: num.splits if_splits)

lemma plan_grade_risk_Given:
  assumes "plan_grade_risk p gd rq = Inr (Given (g, trend, mom, atr, risk))"
  obtains x where "gd_grade gd = Some g" "pq_fixed_risk_percent rq \<noteq> None \<or> tradable gd"
    "risk = Fin x" "plan_percent p g (pq_fixed_risk_percent rq) x"
proof (cases "pq_fixed_risk_percent rq")
  case None
  with assms obtain x where "gd_grade gd = Some g" "tradable gd" "risk = Fin x" "p_risk_percent_by_grade p g = Some x"
    by (auto simp: plan_grade_risk_def res_simps split: option.splits if_splits)
  with None show ?thesis by (auto intro!: that simp: plan_percent_def)
next
  case (Some f)
  with assms have "fixed_risk_override_refusal f p = Inr None" "gd_grade gd = Some g" "risk = f"
    by (auto simp: plan_grade_risk_def res_simps split: option.splits if_splits)
  with Some fixed_override_ok [OF this(1)] show ?thesis by (auto intro!: that simp: plan_percent_def)
qed

definition plan_funding :: "plan_request \<Rightarrow> rat \<times> rat" where
  "plan_funding rq = paper_demo_funding (pq_funding_rate rq) (pq_funding_rate_verified rq) (pq_expected_hold_hours rq)"

definition plan_channel :: "profile \<Rightarrow> plan_request \<Rightarrow> string" where
  "plan_channel p rq = (case pq_execution_channel rq of None \<Rightarrow> kind_value (p_kind p) | Some c \<Rightarrow> c)"

definition plan_cap :: "profile \<Rightarrow> grade \<Rightarrow> num option \<Rightarrow> rat res" where
  "plan_cap p g fixed = (if fixed \<noteq> None then profile_max_risk p else risk_percent p g)"

text \<open>The arguments the sizer reads from a plan request.\<close>

definition plan_args :: "plan_request \<Rightarrow> sizing_args \<Rightarrow> bool" where
  "plan_args rq a \<longleftrightarrow>
     a_equity a = pq_equity rq \<and> a_entry a = pq_entry rq \<and> a_stop a = pq_stop rq \<and> a_gap a = 0
   \<and> a_fee_rate a = PAPER_DEMO_TAKER_FEE_RATE \<and> a_funding_rate a = fst (plan_funding rq)
   \<and> a_funding_periods a = snd (plan_funding rq)
   \<and> a_slippage_rate a = (if pq_include_book_buffer rq then DEMO_BOOK_BUFFER_RATE else 0)
   \<and> a_remaining_daily a = pq_remaining_daily_budget_percent rq \<and> a_open_risk a = pq_open_risk_percent rq
   \<and> a_open_notional a = pq_open_notional rq \<and> a_open_positions a = pq_open_positions rq"

lemma plan_read_inputs:
  assumes "read_inputs (sized_attempt (plan_sizing_input rq p g risk atr (plan_funding rq)) g ares l) rc = Inr a"
  shows "plan_args rq a" "a_grade_risk a = ar_adjusted_risk_percent ares" "a_grade a = g"
  using assms by (auto simp: read_inputs_def res_simps sized_attempt_def plan_sizing_input_def plan_args_def)

lemma finish_plan_Given:
  assumes "finish_plan ap rq g fund distance reward rec r = Inr (Given sp)"
  shows "\<exists>cap planned. plan_cap (ap_profile ap) g (pq_fixed_risk_percent rq) = Inr cap
     \<and> sized_risk_blocked_for_channel (plan_channel (ap_profile ap) rq) (sz_effective_risk_percent r) cap = Inr False
     \<and> sp_risk_cash_ceiling sp = ddiv (dmul (pq_equity rq) (min4 (sz_grade_risk_percent r) cap (sz_ceiling_percent r)
          (sz_budget_room_percent r))) 100
     \<and> sp_quantity sp = sz_quantity r \<and> sp_leverage sp = sz_leverage r \<and> sp_grade sp = g
     \<and> sp_risk_percent sp = sz_effective_risk_percent r \<and> sp_entry sp = pq_entry rq \<and> sp_stop sp = pq_stop rq
     \<and> sp_target sp = pq_target rq
     \<and> sp_funding_rate sp = fst fund \<and> sp_funding_periods sp = snd fund"
  using assms unfolding finish_plan_def Let_def plan_cap_def plan_channel_def
  by (auto simp: res_bind_eq_Inr split: if_splits)

lemma size_for_profile_Given:
  assumes "size_for_profile ap gd rq = Inr (Given sp)"
  obtains g x ares r a cap where
    "\<not> pq_breaker_refusing rq" "gd_grade gd = Some g" "pq_fixed_risk_percent rq \<noteq> None \<or> tradable gd"
    "plan_percent (ap_profile ap) g (pq_fixed_risk_percent rq) x"
    "\<exists>adj. apply_adjusters (Fin x) adj = Inr ares"
    "\<exists>d. size_trade (ap_profile ap) d None True (pq_fixed_risk_percent rq \<noteq> None) = Inr r
       \<and> read_inputs d (pq_fixed_risk_percent rq \<noteq> None) = Inr a"
    "plan_args rq a" "a_grade_risk a = ar_adjusted_risk_percent ares" "a_grade a = g"
    "(case pq_leverage rq of Some l \<Rightarrow> l | None \<Rightarrow> Fin (p_default_leverage (ap_profile ap))) = Fin (sz_leverage r)"
    "sz_margin r \<le> pq_equity rq"
    "plan_cap (ap_profile ap) g (pq_fixed_risk_percent rq) = Inr cap"
    "sized_risk_blocked_for_channel (plan_channel (ap_profile ap) rq) (sz_effective_risk_percent r) cap = Inr False"
    "sp_risk_cash_ceiling sp = ddiv (dmul (pq_equity rq) (min4 (sz_grade_risk_percent r) cap (sz_ceiling_percent r)
          (sz_budget_room_percent r))) 100"
    "sp_quantity sp = sz_quantity r" "sp_leverage sp = sz_leverage r" "sp_grade sp = g"
    "sp_risk_percent sp = sz_effective_risk_percent r"
    "sp_entry sp = pq_entry rq" "sp_stop sp = pq_stop rq" "(sp_funding_rate sp, sp_funding_periods sp) = plan_funding rq"
proof -
  let ?p = "ap_profile ap" and ?fixed = "pq_fixed_risk_percent rq"
  let ?tiers = "Some (case pq_maintenance_tiers rq of None \<Rightarrow> PAPER_CONSERVATIVE_MAINTENANCE_TIERS | Some ts \<Rightarrow> ts)"
  obtain y where y: "plan_grade_risk ?p gd rq = Inr y"
    using assms by (cases "plan_grade_risk ?p gd rq") (simp_all add: size_for_profile_def)
  then obtain g trend mom atr risk where start: "plan_grade_risk ?p gd rq = Inr (Given (g, trend, mom, atr, risk))"
    using assms by (cases y rule: answer.exhaust) (auto simp: size_for_profile_def)
  from start obtain x where x: "gd_grade gd = Some g" "?fixed \<noteq> None \<or> tradable gd" "risk = Fin x" "plan_percent ?p g ?fixed x"
    by (rule plan_grade_risk_Given)
  define adj where "adj = \<lparr>ai_volatility_regime = Some (volatility atr (pq_entry rq)),
      ai_trend_aligned = Some (trend = 1), ai_momentum_aligned = Some (mom = 1)\<rparr>"
  define input where "input = plan_sizing_input rq ?p g risk atr (plan_funding rq)"
  from assms [unfolded size_for_profile_def start res_bind_Inr answer.case prod.case Let_def
      plan_funding_def [symmetric] adj_def [symmetric] input_def [symmetric]]
  obtain d rec r where d: "decide_trade ?p (ap_version_id ap) gd adj input (plan_verdict (pq_equity rq) (pq_breaker_refusing rq))
      ?tiers (plan_options (?fixed \<noteq> None)) = Inr d" "td_accepted d" "td_sizing d = Some r"
    and fin: "finish_plan ap rq g (plan_funding rq) (dabs (dsub (pq_entry rq) (pq_stop rq)))
        (dabs (dsub (pq_target rq) (pq_entry rq))) rec r = Inr (Given sp)"
    by (auto simp: res_bind_eq_Inr split: if_splits bool.splits option.splits)
  obtain cap where cap: "plan_cap ?p g ?fixed = Inr cap"
     "sized_risk_blocked_for_channel (plan_channel ?p rq) (sz_effective_risk_percent r) cap = Inr False"
     "sp_risk_cash_ceiling sp = ddiv (dmul (pq_equity rq) (min4 (sz_grade_risk_percent r) cap (sz_ceiling_percent r)
          (sz_budget_room_percent r))) 100"
     "sp_quantity sp = sz_quantity r" "sp_leverage sp = sz_leverage r" "sp_grade sp = g"
     "sp_risk_percent sp = sz_effective_risk_percent r"
     "sp_entry sp = pq_entry rq" "sp_stop sp = pq_stop rq" "(sp_funding_rate sp, sp_funding_periods sp) = plan_funding rq"
    using finish_plan_Given [OF fin] by auto
  from d(1,2) show ?thesis
  proof (rule decide_trade_accepted, goal_cases)
    case (1 g' ares r' l c equity rec')
    have eqs: "r' = r" "g' = g" using 1(12) d(3) 1(2) x(1) by simp_all
    have sized: "size_trade ?p (sized_attempt input g ares (sz_leverage r)) None True (?fixed \<noteq> None) = Inr r"
      using 1(7) by (simp add: eqs plan_options_def default_options_def)
    then obtain a where a: "read_inputs (sized_attempt input g ares (sz_leverage r)) (?fixed \<noteq> None) = Inr a"
      by (rule size_trade_elim)
    have lev: "sz_leverage r = l" using 1(18) by (simp add: plan_options_def eqs)
    show ?thesis
    proof (rule that [OF _ x(1,2,4) _ _ plan_read_inputs [OF a [unfolded input_def]] _ _ cap])
      show "\<not> pq_breaker_refusing rq" using 1(1) by (simp add: plan_verdict_def)
      show "\<exists>adj. apply_adjusters (Fin x) adj = Inr ares"
        using 1(4) x(3) by (auto simp: input_def plan_sizing_input_def)
      show "\<exists>d. size_trade ?p d None True (?fixed \<noteq> None) = Inr r \<and> read_inputs d (?fixed \<noteq> None) = Inr a"
        using sized a by blast
      show "(case pq_leverage rq of Some l \<Rightarrow> l | None \<Rightarrow> Fin (p_default_leverage ?p)) = Fin (sz_leverage r)"
        using 1(5) lev by (simp add: requested_leverage_def input_def plan_sizing_input_def)
      show "sz_margin r \<le> pq_equity rq"
        using 1(10,11) by (simp add: input_def plan_sizing_input_def eqs)
    qed
  qed
qed

section \<open>The cash of a plan\<close>

lemma dabs_dsub: "dabs (dsub x y) = dsub (max x y) (min x y)"
proof -
  have "dsub y x = - dsub x y" using dround_minus [of 28 "x - y"] by (simp add: dsub_def)
  moreover have "dround 28 \<bar>dsub x y\<bar> = \<bar>dsub x y\<bar>"
    by (cases "0 \<le> dsub x y") (simp_all add: dsub_def dround_idem dround_minus)
  ultimately show ?thesis
    using dsub_nonneg_iff [of x y] by (cases "y \<le> x") (auto simp: dabs_def max_def min_def abs_if)
qed

lemma effective_risk_min:
  assumes "effective_risk p a rc = Inr er" "(if rc then profile_max_risk p else risk_percent p (a_grade a)) = Inr cap"
  shows "fst er = min4 (a_grade_risk a) cap (risk_ceiling_for (p_kind p)) (budget_room_of p a)"
  using assms unfolding effective_risk_def Let_def
  by (cases rc) (auto simp: res_simps not_less min_def split: if_splits)

text \<open>
  What the sizer did for a plan: the quantity is the rounded lot of the risk amount, which is the plan's
  cash ceiling, and the stop-out cash of the plan is the product of its quantity and the sizer's
  denominator.
\<close>

lemma plan_sizing:
  assumes "size_trade p d None True rc = Inr r" "read_inputs d rc = Inr a" "plan_args rq a"
    and "(if rc then profile_max_risk p else risk_percent p (a_grade a)) = Inr cap"
    and "cash = ddiv (dmul (pq_equity rq) (min4 (sz_grade_risk_percent r) cap (sz_ceiling_percent r)
          (sz_budget_room_percent r))) 100"
  obtains er room den where "valid_profile p" "args_ok p a" "effective_risk p a rc = Inr er"
    "cash = ddiv (dmul (a_equity a) (fst er)) 100"
    "notional_room_of p a = Inr room" "dmul (sz_quantity r) (a_entry a) \<le> room"
    "0 < den" "(1 - EPS) ^ 6 * unit_loss a \<le> den"
    "\<And>fund. resolve_funding fund = plan_funding rq \<Longrightarrow>
       stop_out_cash (sz_quantity r) (pq_entry rq) (pq_stop rq) (pq_include_book_buffer rq) fund = dmul (sz_quantity r) den"
    "0 < sz_quantity r" "sz_quantity r * den \<le> (1 + EPS) ^ 3 * cash" "0 < cash"
    "dmul (sz_quantity r) 1 = sz_quantity r"
  using assms(1)
proof (rule size_trade_elim, goal_cases)
  case (1 a' er room price_risk)
  note ar = assms(3) [unfolded plan_args_def]
  have a: "a' = a" using 1(4) assms(2) by simp
  note ok = 1(5) [unfolded a] and stop = 1(6) [unfolded a]
  define den where "den = dadd (sz_stop_distance r) (args_unit_cost a)"
  have s: "0 < sz_stop_distance r" using checked_stop_pos [OF stop] .
  have dist: "dabs (dsub (a_entry a) (a_stop a)) = sz_stop_distance r"
    using checked_stop_Inr [OF stop] by (simp add: dabs_dsub)
  then have fixed: "dround 28 (sz_stop_distance r) = sz_stop_distance r"
    unfolding dist [symmetric] by (simp add: dabs_def dround_idem)
  have adverse: "sz_adverse_distance r = sz_stop_distance r" using 1(9) ar fixed by (simp add: a dadd_def)
  have den_pos: "0 < den" using s args_unit_cost_nonneg [OF ok] by (simp add: den_def dec_sign)
  have den_low: "(1 - EPS) ^ 6 * unit_loss a \<le> den"
    using denominator_low [OF ok stop] ar fixed by (simp add: den_def dadd_def)
  have er: "fst er = min4 (a_grade_risk a) cap (risk_ceiling_for (p_kind p)) (budget_room_of p a)" "0 < fst er"
    using effective_risk_min [OF 1(8) [unfolded a] assms(4)] effective_risk_up [OF 1(8)] by simp_all
  have ceil: "cash = ddiv (dmul (a_equity a) (fst er)) 100"
    using assms(5) ar by (simp add: er(1) 1(22-25) a)
  have pos: "0 < a_equity a" "0 < a_lot_step a" "0 < a_min_quantity a" using ok by (auto simp: args_ok_def)
  have ceil_pos: "0 < cash" using ceil er(2) pos by (simp add: dec_sign)
  note cq = capped_quantity_Inr [OF 1(11)]
  have q: "sz_quantity r = round_lot (ddiv cash den) (a_lot_step a)" "dmul (sz_quantity r) (a_entry a) \<le> room"
    "0 < sz_quantity r"
    using cq pos by (auto simp: a adverse ceil den_def)
  have "sz_quantity r \<le> (1 + EPS) ^ 2 * ddiv cash den"
    using round_lot_le [of "ddiv cash den" "a_lot_step a"] ceil_pos den_pos pos by (simp add: q(1) dec_sign)
  from dec28.up_pow_trans [OF this, of 1 "cash / den"]
  have "sz_quantity r \<le> (1 + EPS) ^ 3 * (cash / den)"
    using ddiv_up [of cash den 0 cash] ceil_pos den_pos by simp
  then have qd: "sz_quantity r * den \<le> (1 + EPS) ^ 3 * cash" using den_pos by (simp add: field_simps)
  have cost: "profile_unit_cost (pq_entry rq) (pq_stop rq) (pq_include_book_buffer rq) fund = args_unit_cost a"
    if "resolve_funding fund = plan_funding rq" for fund
    using ar by (simp add: profile_unit_cost_def args_unit_cost_def unit_cost_def that split: prod.split)
  have outc: "stop_out_cash (sz_quantity r) (pq_entry rq) (pq_stop rq) (pq_include_book_buffer rq) fund = dmul (sz_quantity r) den"
    if "resolve_funding fund = plan_funding rq" for fund
    unfolding stop_out_cash_def cost [OF that] den_def using ar dist by simp
  have one: "dmul (sz_quantity r) 1 = sz_quantity r" by (simp add: q(1) round_lot_def dmul_def dround_idem)
  show ?case
    by (rule 1(1) [OF 1(2) ok 1(8) [unfolded a] ceil 1(10) [unfolded a] q(2) den_pos den_low _ q(3) qd ceil_pos one])
       (rule outc)
qed

lemma dmul_commute: "dmul x y = dmul y x"
  by (simp add: dmul_def mult.commute)

lemma eps_scale:
  assumes "(1 - EPS) ^ 6 * x \<le> (1 + EPS) ^ 3 * z" "0 \<le> z"
  shows "x \<le> (1 + 1 / 10 ^ 26) * z"
proof -
  have "(1 - EPS) ^ 6 * x \<le> (1 + EPS) ^ 3 * z" by (rule assms(1))
  also have "\<dots> \<le> (1 + EPS) ^ 10 * z"
    using assms(2) dec28.u_nonneg by (intro mult_right_mono power_increasing) auto
  also have "\<dots> \<le> (1 + 1 / 10 ^ 26) * (1 - EPS) ^ 6 * z" by (rule mult_right_mono [OF eps_budget(1) assms(2)])
  finally have "(1 - EPS) ^ 6 * x \<le> (1 - EPS) ^ 6 * ((1 + 1 / 10 ^ 26) * z)" by (simp only: mult_ac)
  moreover have "0 < (1 - EPS) ^ 6" by (simp add: EPS_def)
  ultimately show ?thesis by (simp only: mult_le_cancel_left_pos)
qed

lemma eps_up: "x \<le> (1 + EPS) ^ 3 * z \<Longrightarrow> 0 \<le> z \<Longrightarrow> 0 \<le> x \<Longrightarrow> x \<le> (1 + 1 / 10 ^ 26) * z"
  using eps_scale [of x z] mult_right_mono [of "(1 - EPS) ^ 6" 1 x] dec28.u_nonneg dec28.u_le_1
  by (simp add: power_le_one)

lemma plan_percent_nonneg: "valid_profile p \<Longrightarrow> plan_percent p g fixed x \<Longrightarrow> 0 \<le> x"
  by (cases g) (auto simp: plan_percent_def valid_profile_def grade_percent_def all_grade_iff split: option.splits)

lemma plan_percent_le:
  assumes "plan_percent p g fixed x" "valid_profile p" "risk_ceiling_for (p_kind p) \<le> 5"
  shows "x \<le> 5"
proof (cases fixed)
  case None
  with assms show ?thesis
    by (cases g) (auto simp: plan_percent_def valid_profile_def grade_percent_def all_grade_iff)
qed (use assms(1) in \<open>auto simp: plan_percent_def\<close>)

lemma apply_adjusters_bound: "apply_adjusters (Fin x) adj = Inr r \<Longrightarrow> ar_adjusted_risk_percent r \<le> dround 28 x"
  by (erule apply_adjusters_Inr) (auto simp: dmul_def intro!: dround_mono mult_left_le)

text \<open>The exact loss of one unit of a plan between entry and stop, with its fees, funding and buffer.\<close>

definition plan_unit_loss :: "plan_request \<Rightarrow> rat" where
  "plan_unit_loss rq =
     \<bar>pq_entry rq - pq_stop rq\<bar> + pq_entry rq * PAPER_DEMO_TAKER_FEE_RATE + pq_stop rq * PAPER_DEMO_TAKER_FEE_RATE
     + pq_entry rq * \<bar>fst (plan_funding rq)\<bar> * snd (plan_funding rq)
     + (if pq_include_book_buffer rq then pq_entry rq * DEMO_BOOK_BUFFER_RATE else 0)"

lemma plan_unit_loss_eq: "plan_args rq a \<Longrightarrow> unit_loss a = plan_unit_loss rq"
  by (simp add: plan_args_def unit_loss_def plan_unit_loss_def)

section \<open>The plan on its own book\<close>

lemma added_bound:
  assumes "cash \<le> (1 + EPS) ^ 4 * amount" "0 \<le> cash" "amount = ddiv (dmul e x) 100" "0 < e" "0 < x" "x \<le> 6"
  shows "dmul (ddiv cash e) 100 \<le> x + 1 / 10 ^ 20"
proof -
  have "dmul e x \<le> (1 + EPS) ^ 1 * (e * x)" using dmul_up [of e x 0 e] assms(4,5) by simp
  from ddiv_up [OF _ _ this, of 100] have "amount \<le> (1 + EPS) ^ 2 * (e * x / 100)"
    using assms(3-5) by (simp add: dec_sign numeral_2_eq_2)
  from dec28.up_pow_trans [OF assms(1) this] have "cash \<le> (1 + EPS) ^ 6 * (e * x / 100)" by simp
  from ddiv_up [OF assms(2,4) this] have "ddiv cash e \<le> (1 + EPS) ^ 7 * (x / 100)"
    using assms(4) by simp
  from dmul_up [OF _ _ this, of 100] have "dmul (ddiv cash e) 100 \<le> (1 + EPS) ^ 8 * x"
    using assms(2,4) by (simp add: dec_sign)
  also have "\<dots> \<le> (1 + 1 / 10 ^ 26) * x"
    using assms(5) by (intro mult_right_mono) (simp_all add: EPS_def field_simps)
  also have "\<dots> \<le> x + 1 / 10 ^ 20" using assms(6) by (simp add: field_simps)
  finally show ?thesis .
qed

lemma fits_room:
  assumes "x \<le> dsub cap used" "0 < x" "x \<le> 6" "added \<le> x + 1 / 10 ^ 20"
  shows "dadd used added \<le> dadd cap OPEN_NOTIONAL_MATCH_TOLERANCE"
proof -
  have room: "used < cap" "dsub cap used \<le> (1 + EPS) ^ 1 * (cap - used)"
    using assms(1,2) dsub_pos_iff [of cap used] dsub_up [of used cap] by auto
  have "x \<le> (cap - used) + 1 / 10 ^ 20"
  proof (cases "cap - used \<le> 10")
    case True
    have "x \<le> (1 + EPS) * (cap - used)" using assms(1) room(2) by simp
    also have "\<dots> = (cap - used) + EPS * (cap - used)" by (simp add: algebra_simps)
    also have "EPS * (cap - used) \<le> EPS * 10" using True dec28.u_nonneg by (intro mult_left_mono) auto
    also have "EPS * 10 \<le> 1 / 10 ^ 20" by (simp add: EPS_def)
    finally show ?thesis by simp
  qed (use assms(3) in simp)
  then have "used + added \<le> cap + OPEN_NOTIONAL_MATCH_TOLERANCE"
    using assms(4) by (simp add: OPEN_NOTIONAL_MATCH_TOLERANCE_def)
  then show ?thesis unfolding dadd_def by (rule dround_mono) simp
qed

lemma notional_fits:
  assumes "notional \<le> dsub agg used" "0 < notional" "0 \<le> used" "agg \<le> 10 ^ 14"
  shows "dadd used notional \<le> dadd agg OPEN_NOTIONAL_MATCH_TOLERANCE"
proof -
  have room: "used < agg" "dsub agg used \<le> (1 + EPS) ^ 1 * (agg - used)"
    using assms(1,2) dsub_pos_iff [of agg used] dsub_up [of used agg] by auto
  have "notional \<le> (agg - used) + EPS * (agg - used)" using assms(1) room(2) by (simp add: algebra_simps)
  also have "EPS * (agg - used) \<le> EPS * 10 ^ 14" using assms(3,4) dec28.u_nonneg by (intro mult_left_mono) auto
  also have "EPS * 10 ^ 14 \<le> OPEN_NOTIONAL_MATCH_TOLERANCE" by (simp add: EPS_def OPEN_NOTIONAL_MATCH_TOLERANCE_def)
  finally show ?thesis unfolding dadd_def by (intro dround_mono) auto
qed

lemma within_tolerance: "dround 28 x = x \<Longrightarrow> y \<le> x \<Longrightarrow> y \<le> dadd x OPEN_NOTIONAL_MATCH_TOLERANCE"
  using dadd_ge_left [of x OPEN_NOTIONAL_MATCH_TOLERANCE] by (simp add: OPEN_NOTIONAL_MATCH_TOLERANCE_def)

lemma aggregate_small:
  assumes "valid_profile p" "0 < e" "e \<le> 10 ^ 12"
  shows "ddiv (dmul e (p_max_aggregate_notional_percent p)) 100 \<le> 10 ^ 14"
proof -
  have pct: "0 \<le> p_max_aggregate_notional_percent p" "p_max_aggregate_notional_percent p \<le> 2000"
    using assms(1) by (auto simp: valid_profile_def notional_ceiling_for_def ceiling_defs split: if_splits)
  have "dmul e (p_max_aggregate_notional_percent p) \<le> (1 + EPS) ^ 1 * (e * p_max_aggregate_notional_percent p)"
    using dmul_up [of e "p_max_aggregate_notional_percent p" 0 e] assms(2) pct by simp
  from ddiv_up [OF _ _ this, of 100] have "ddiv (dmul e (p_max_aggregate_notional_percent p)) 100
      \<le> (1 + EPS) ^ 2 * (e * p_max_aggregate_notional_percent p / 100)"
    using assms(2) pct by (simp add: dec_sign numeral_2_eq_2)
  also have "\<dots> \<le> (1 + EPS) ^ 2 * (10 ^ 12 * 2000 / 100)"
    using assms(2,3) pct by (intro mult_left_mono divide_right_mono mult_mono) auto
  also have "\<dots> \<le> 10 ^ 14" by (simp add: EPS_def power2_eq_square)
  finally show ?thesis .
qed

definition plan_book :: "plan_request \<Rightarrow> profile_open_book" where
  "plan_book rq =
     \<lparr>bk_open_risk_percent = pq_open_risk_percent rq, bk_open_notional = pq_open_notional rq,
      bk_open_positions = pq_open_positions rq, bk_remaining_daily_budget_percent = pq_remaining_daily_budget_percent rq\<rparr>"

text \<open>The figures a recheck of the plan on its own book computes, and that each fits.\<close>

lemma plan_figures:
  assumes "size_trade p d None True rc = Inr r" "read_inputs d rc = Inr a" "plan_args rq a"
    and "(if rc then profile_max_risk p else risk_percent p (a_grade a)) = Inr k"
    and "pq_expected_hold_hours rq = None" "pq_equity rq \<le> 10 ^ 12"
  obtains added er where "0 < sz_quantity r" "0 < pq_equity rq" "0 < pq_entry rq" "0 < pq_stop rq"
    "dmul (sz_quantity r) 1 = sz_quantity r"
    "dmul (ddiv (stop_out_cash (sz_quantity r) (pq_entry rq) (pq_stop rq) (pq_include_book_buffer rq)
       (Quoted (pq_funding_rate rq) (pq_funding_rate_verified rq) None)) (pq_equity rq)) 100 = added"
    "pq_open_positions rq + 1 \<le> p_max_open_positions p" "0 < pq_remaining_daily_budget_percent rq"
    "dadd (pq_open_risk_percent rq) added \<le> dadd (pq_remaining_daily_budget_percent rq) OPEN_NOTIONAL_MATCH_TOLERANCE"
    "dadd (pq_open_risk_percent rq) added \<le> dadd (p_max_aggregate_open_risk_percent p) OPEN_NOTIONAL_MATCH_TOLERANCE"
    "dmul (sz_quantity r) (pq_entry rq)
       \<le> dadd (ddiv (dmul (pq_equity rq) (p_max_notional_per_trade_percent p)) 100) OPEN_NOTIONAL_MATCH_TOLERANCE"
    "dadd (pq_open_notional rq) (dmul (sz_quantity r) (pq_entry rq))
       \<le> dadd (ddiv (dmul (pq_equity rq) (p_max_aggregate_notional_percent p)) 100) OPEN_NOTIONAL_MATCH_TOLERANCE"
    "0 \<le> added" "added \<le> er + 1 / 10 ^ 20" "er \<le> 5" "er \<le> a_grade_risk a" "valid_profile p"
proof -
  let ?q = "sz_quantity r"
  note ar = assms(3) [unfolded plan_args_def]
  obtain er room den cash where z: "valid_profile p" "args_ok p a" "effective_risk p a rc = Inr er"
    "cash = ddiv (dmul (a_equity a) (fst er)) 100"
    "notional_room_of p a = Inr room" "dmul ?q (a_entry a) \<le> room" "0 < den"
    "\<And>fund. resolve_funding fund = plan_funding rq \<Longrightarrow>
       stop_out_cash ?q (pq_entry rq) (pq_stop rq) (pq_include_book_buffer rq) fund = dmul ?q den"
    "0 < ?q" "?q * den \<le> (1 + EPS) ^ 3 * cash" "dmul ?q 1 = ?q"
    by (rule plan_sizing [OF assms(1-4) refl]) blast
  note ok = z(2) [unfolded args_ok_def]
  have pos: "0 < pq_equity rq" "0 < pq_entry rq" "0 < pq_stop rq" "0 \<le> pq_open_notional rq"
    "pq_open_positions rq + 1 \<le> p_max_open_positions p" using ok ar by auto
  have "risk_ceiling_for (p_kind p) \<le> 5" by (simp add: risk_ceiling_for_def ceiling_defs)
  with effective_risk_Inr [OF z(3)] have er: "0 < fst er" "fst er \<le> 5" "fst er \<le> budget_room_of p a" "fst er \<le> a_grade_risk a"
    by auto
  then have six: "fst er \<le> 6" by simp
  have rooms: "fst er \<le> dsub (pq_remaining_daily_budget_percent rq) (pq_open_risk_percent rq)"
    "fst er \<le> dsub (p_max_aggregate_open_risk_percent p) (pq_open_risk_percent rq)"
    using er(3) ar dsub_mono [of "min3 (p_daily_loss_limit_percent p) HARD_MAX_DAILY_LOSS_PERCENT (a_remaining_daily a)"
        "a_remaining_daily a" "a_open_risk a" "a_open_risk a"]
    by (auto simp: budget_room_of_def Let_def)
  have left: "0 < pq_remaining_daily_budget_percent rq"
    using rooms(1) er(1) dsub_pos_iff [of "pq_remaining_daily_budget_percent rq" "pq_open_risk_percent rq"] ok ar by auto
  have out: "stop_out_cash ?q (pq_entry rq) (pq_stop rq) (pq_include_book_buffer rq)
      (Quoted (pq_funding_rate rq) (pq_funding_rate_verified rq) None) = dmul ?q den"
    using assms(5) by (intro z(8)) (simp add: plan_funding_def)
  have qd: "0 \<le> dmul ?q den" using z(7,9) by (simp add: dec_sign)
  have "dmul ?q den \<le> (1 + EPS) ^ 4 * cash"
    using z(7,9) dec28.rnd_up_pow [OF _ z(10)] by (simp add: dmul_def)
  note added = added_bound [OF this qd z(4) _ er(1) six]
  have notional: "0 < dmul ?q (pq_entry rq)"
    "dmul ?q (pq_entry rq) \<le> ddiv (dmul (pq_equity rq) (p_max_notional_per_trade_percent p)) 100"
    "dmul ?q (pq_entry rq) \<le> dsub (ddiv (dmul (pq_equity rq) (p_max_aggregate_notional_percent p)) 100) (pq_open_notional rq)"
    using z(5,6,9) pos ar by (auto simp: notional_room_of_def Let_def dec_sign split: if_splits)
  define added where "added = dmul (ddiv (dmul ?q den) (pq_equity rq)) 100"
  have add: "0 \<le> added" "added \<le> fst er + 1 / 10 ^ 20"
    using added ok ar qd pos(1) by (auto simp: added_def dec_sign)
  show ?thesis
    by (rule that [OF z(9) pos(1-3) z(11) _ pos(5) left fits_room [OF rooms(1) er(1) six add(2)]
          fits_room [OF rooms(2) er(1) six add(2)] within_tolerance [OF _ notional(2)]
          notional_fits [OF notional(3,1) pos(4) aggregate_small [OF z(1) pos(1) assms(6)]] add er(2,4) z(1)])
       (simp_all add: out added_def ddiv_def dround_idem)
qed

lemma channel_verdict:
  assumes "0 \<le> x" "x \<le> 100" "0 < cap"
  shows "sized_risk_blocked_for_channel channel x cap
     = Inr (\<not> (x \<le> cap \<and> x \<le> (if channel \<in> set PAPER_DEMO_KINDS then 5 else 2)))"
proof -
  obtain b where "sized_risk_blocked_for_channel channel x cap = Inr b"
    using blocked_for_channel_value [OF assms(1,2)] by blast
  then show ?thesis using not_blocked_for_channel [of channel x cap] assms by auto
qed

section \<open>Stored grades and open positions\<close>

lemma grade_by_code_code: "grade_by_code (grade_code g) = Some g"
  by (cases g) (simp_all add: grade_by_code_def GRADE_ORDER_def)

lemma grade_markers_snoc:
  "list_all (\<lambda>i. ci_name i \<noteq> Some PROFILE_SIZING_GRADE) inputs \<Longrightarrow>
     grade_markers (with_profile_sizing_grade inputs g x) = Some [(Fin (grade_code g), Fin x)]"
  by (induction inputs) (simp_all add: with_profile_sizing_grade_def profile_sizing_grade_payload_def)

text \<open>The exact loss of one open position at its stop, with the costs the sizer reserves.\<close>

definition position_loss :: "bool \<Rightarrow> rat \<times> rat \<Rightarrow> open_position \<Rightarrow> rat" where
  "position_loss buffer fund pos =
     (case pos of (q, entry, stop) \<Rightarrow>
      let s = (case stop of Some (Fin x) \<Rightarrow> x | _ \<Rightarrow> 0)
      in q * (\<bar>entry - s\<bar> + (entry * PAPER_DEMO_TAKER_FEE_RATE + s * PAPER_DEMO_TAKER_FEE_RATE
          + entry * \<bar>fst fund\<bar> * snd fund + entry * (if buffer then DEMO_BOOK_BUFFER_RATE else 0))))"

definition priced :: "open_position \<Rightarrow> bool" where
  "priced pos \<longleftrightarrow> (case pos of (q, entry, stop) \<Rightarrow> 0 < q \<and> 0 < entry \<and> (\<exists>s. stop = Some (Fin s)))"

definition stop_not_negative :: "open_position \<Rightarrow> bool" where
  "stop_not_negative pos \<longleftrightarrow> (case pos of (q, entry, stop) \<Rightarrow> \<forall>s. stop = Some (Fin s) \<longrightarrow> 0 \<le> s)"

lemma stop_out_cash_low:
  assumes "0 \<le> q" "0 \<le> entry" "0 \<le> s" "0 \<le> snd (resolve_funding fund)"
  shows "(1 - EPS) ^ 7 * position_loss buffer (resolve_funding fund) (q, entry, Some (Fin s))
      \<le> stop_out_cash q entry s buffer fund"
    "0 \<le> stop_out_cash q entry s buffer fund"
proof -
  obtain rate periods where f: "resolve_funding fund = (rate, periods)" by (cases "resolve_funding fund")
  define slip where "slip = (if buffer then DEMO_BOOK_BUFFER_RATE else 0)"
  have pos: "0 \<le> PAPER_DEMO_TAKER_FEE_RATE" "0 \<le> slip" "0 \<le> periods"
    using assms(4) by (simp_all add: PAPER_DEMO_TAKER_FEE_RATE_def slip_def DEMO_BOOK_BUFFER_RATE_def f)
  define cost where "cost = unit_cost entry s PAPER_DEMO_TAKER_FEE_RATE rate periods slip"
  define exact where "exact = entry * PAPER_DEMO_TAKER_FEE_RATE + s * PAPER_DEMO_TAKER_FEE_RATE
      + entry * \<bar>rate\<bar> * periods + entry * slip"
  have low: "(1 - EPS) ^ 5 * exact \<le> cost"
    unfolding exact_def cost_def using assms(2,3) pos by (intro unit_cost_low)
  have cost0: "0 \<le> cost" using assms(2,3) pos by (simp add: cost_def unit_cost_def dec_sign)
  have cash: "stop_out_cash q entry s buffer fund = dmul q (dadd (dabs (dsub entry s)) cost)"
    by (simp add: stop_out_cash_def profile_unit_cost_def f cost_def unit_cost_def slip_def)
  then show "0 \<le> stop_out_cash q entry s buffer fund" using cost0 assms(1) by (simp add: dec_sign)
  have "(1 - EPS) ^ 1 * \<bar>entry - s\<bar> \<le> dabs (dsub entry s)"
    using dsub_low [of "min entry s" "max entry s"] by (auto simp: dabs_dsub max_def min_def abs_if split: if_splits)
  then have "(1 - EPS) ^ 5 * \<bar>entry - s\<bar> \<le> dabs (dsub entry s)" by (intro dec28.low_pow_mono [of _ 1 5]) auto
  from dadd_low [OF _ cost0 this low] have "(1 - EPS) ^ 6 * (\<bar>entry - s\<bar> + exact) \<le> dadd (dabs (dsub entry s)) cost"
    by simp
  from dmul_low [OF _ assms(1) this] have "(1 - EPS) ^ 7 * ((\<bar>entry - s\<bar> + exact) * q) \<le> dmul (dadd (dabs (dsub entry s)) cost) q"
    using cost0 by (simp add: dec_sign)
  moreover have eq: "position_loss buffer (resolve_funding fund) (q, entry, Some (Fin s)) = (\<bar>entry - s\<bar> + exact) * q"
    by (simp only: position_loss_def f exact_def slip_def prod.case option.case num.case fst_conv snd_conv Let_def mult.commute [of q])
  ultimately show "(1 - EPS) ^ 7 * position_loss buffer (resolve_funding fund) (q, entry, Some (Fin s)) \<le> stop_out_cash q entry s buffer fund"
    unfolding cash dmul_commute [of q] by (simp only: eq)
qed

lemma position_loss_nonneg:
  "0 \<le> q \<Longrightarrow> 0 \<le> entry \<Longrightarrow> 0 \<le> s \<Longrightarrow> 0 \<le> snd fund \<Longrightarrow> 0 \<le> position_loss buffer fund (q, entry, Some (Fin s))"
  by (simp add: position_loss_def PAPER_DEMO_TAKER_FEE_RATE_def DEMO_BOOK_BUFFER_RATE_def)

lemma stop_loop_low:
  assumes "stop_loop buffer fund ps risk_cash explained = Given (risk_cash', explained')" "list_all stop_not_negative ps"
    and "0 \<le> risk_cash" "0 \<le> acc" "(1 - EPS) ^ k * acc \<le> risk_cash" "7 \<le> k" "0 \<le> snd (resolve_funding fund)"
  shows "list_all priced ps
    \<and> (1 - EPS) ^ (k + length ps) * (acc + sum_list (map (position_loss buffer (resolve_funding fund)) ps)) \<le> risk_cash'
    \<and> 0 \<le> risk_cash'"
  using assms
proof (induction ps arbitrary: risk_cash explained acc k)
  case (Cons pos ps)
  obtain q entry stop where pos: "pos = (q, entry, stop)" by (cases pos)
  from Cons.prems(1) obtain s where s: "stop = Some (Fin s)" "0 < q" "0 < entry"
    "stop_loop buffer fund ps (dadd risk_cash (stop_out_cash q entry s buffer fund)) (dadd explained (dmul q entry))
      = Given (risk_cash', explained')"
    by (auto simp: pos split: option.splits num.splits if_splits)
  have s0: "0 \<le> s" "0 \<le> q" "0 \<le> entry" using Cons.prems(2) s by (auto simp: pos stop_not_negative_def)
  note cash = stop_out_cash_low [OF s0(2,3,1) Cons.prems(7), of buffer]
  note loss = position_loss_nonneg [OF s0(2,3,1) Cons.prems(7), of buffer]
  have "(1 - EPS) ^ Suc k * (acc + position_loss buffer (resolve_funding fund) (q, entry, Some (Fin s)))
      \<le> dadd risk_cash (stop_out_cash q entry s buffer fund)"
    using dec28.low_pow_mono [OF loss Cons.prems(6) cash(1)] by (intro dadd_low Cons.prems(3,5) cash(2))
  from Cons.IH [OF s(4) _ _ _ this] show ?case
    using Cons.prems s s0 cash loss by (simp add: pos priced_def dec_sign add.assoc)
qed simp

lemma funding_periods_ge_1: "1 \<le> snd (paper_demo_funding rate verified hold)"
  by (auto simp: paper_demo_funding_def Let_def split: option.splits num.splits)

lemma open_risk_low:
  assumes "open_risk_from_stops (Fin e) positions (Fin n) buffer rate verified hold = Given (risk, count)"
    and "list_all stop_not_negative positions"
  shows "list_all priced positions \<and> count = int (length positions)
    \<and> (1 - EPS) ^ (length positions + 9)
        * (sum_list (map (position_loss buffer (paper_demo_funding rate verified hold)) positions) / e * 100) \<le> risk"
proof -
  let ?fund = "Quoted rate verified hold"
  from assms(1) obtain cash explained where f: "0 < e" "stop_loop buffer ?fund positions 0 0 = Given (cash, explained)"
    "risk = dmul (ddiv cash e) 100" "count = int (length positions)"
    by (auto simp: open_risk_from_stops_def split: if_splits answer.splits)
  have periods: "0 \<le> snd (resolve_funding ?fund)" using funding_periods_ge_1 [of rate verified hold] by simp
  from stop_loop_low [OF f(2) assms(2), of 0 7] periods
  have low: "list_all priced positions" "0 \<le> cash"
    "(1 - EPS) ^ (7 + length positions) * sum_list (map (position_loss buffer (paper_demo_funding rate verified hold)) positions) \<le> cash"
    by simp_all
  from ddiv_low [OF low(2) f(1) low(3)] have "(1 - EPS) ^ Suc (7 + length positions)
      * (sum_list (map (position_loss buffer (paper_demo_funding rate verified hold)) positions) / e) \<le> ddiv cash e" .
  from dmul_low [OF _ _ this, of 100] low f show ?thesis by (simp add: dec_sign add.commute)
qed

section \<open>A sized plan\<close>

text \<open>A plan sized with an override of one percent for a setup of grade B.\<close>

definition plan_profile :: profile where
  "plan_profile = (placeholder_base DEMO)\<lparr>
     p_risk_percent_by_grade := [A_PLUS \<mapsto> 1, A \<mapsto> 1, B_PLUS \<mapsto> 1 / 2, B \<mapsto> 1 / 2, C \<mapsto> 0],
     p_max_notional_per_trade_percent := 100, p_max_aggregate_notional_percent := 200,
     p_max_aggregate_open_risk_percent := 4, p_daily_loss_limit_percent := 4\<rparr>"

definition plan_active :: active_profile where
  "plan_active = \<lparr>ap_profile = plan_profile, ap_version_id = ''v-1''\<rparr>"

definition plan_grade :: grade_decision where
  "plan_grade = \<lparr>gd_grade = Some B, gd_grader_version = GRADER_VERSION, gd_trend_score = Some 1,
     gd_momentum_score = Some 1, gd_refusal = None\<rparr>"

definition sample_plan_request :: plan_request where
  "sample_plan_request =
     \<lparr>pq_equity = 10000, pq_entry = 100, pq_stop = 97, pq_target = 106, pq_direction = ''long'', pq_atr = Some 2,
      pq_lot_step = Fin (1 / 1000), pq_min_quantity = Fin (1 / 1000), pq_open_risk_percent = 0, pq_open_notional = 0,
      pq_open_positions = 0, pq_remaining_daily_budget_percent = 4, pq_breaker_refusing = False, pq_leverage = None,
      pq_include_book_buffer = False, pq_maintenance_tiers = None, pq_funding_rate = Some (Fin (409 / 500000)),
      pq_funding_rate_verified = True, pq_expected_hold_hours = None, pq_execution_channel = Some ''demo'',
      pq_fixed_risk_percent = Some (Fin 1)\<rparr>"

definition sample_plan_args :: sizing_args where
  "sample_plan_args =
     \<lparr>a_equity = 10000, a_entry = 100, a_stop = 97, a_atr = 2, a_gap = 0, a_fee_rate = 6 / 10000,
      a_funding_rate = 409 / 500000, a_funding_periods = 1, a_slippage_rate = 0, a_lot_step = 1 / 1000,
      a_min_quantity = 1 / 1000, a_remaining_daily = 4, a_open_risk = 0, a_open_notional = 0, a_grade_risk = 1,
      a_open_positions = 0, a_direction = ''long'', a_grade = B\<rparr>"

definition sample_plan_input :: sizing_input where
  "sample_plan_input = plan_sizing_input sample_plan_request plan_profile B (Fin 1) 2 (409 / 500000, 1)"

definition sample_plan_sizing :: sizing_result where
  "sample_plan_sizing =
     \<lparr>sz_quantity = 125 / 4, sz_notional = 3125, sz_margin = 3125, sz_effective_risk_percent = 1, sz_risk_amount = 100,
      sz_cost_amount = 25 / 4, sz_cost_share_of_r = 1 / 16, sz_stop_distance = 3, sz_adverse_distance = 3,
      sz_notional_capped = False, sz_grade_risk_percent = 1, sz_profile_risk_percent = 1, sz_ceiling_percent = 5,
      sz_budget_room_percent = 4, sz_leverage = 1\<rparr>"

lemma plan_profile_ok:
  "validate_profile plan_profile = Inr ()" "assert_promotion_allows plan_profile None = Inr ()"
  by code_simp+

lemma plan_profile_max: "profile_max_risk plan_profile = Inr 1"
  by (simp add: profile_max_risk_def plan_profile_def GRADE_ORDER_def map_filter_simps)

lemma plan_profile_kind: "p_kind plan_profile = DEMO"
  by (simp add: plan_profile_def placeholder_base_def)

lemma sample_funding: "plan_funding sample_plan_request = (409 / 500000, 1)"
  by (simp add: plan_funding_def paper_demo_funding_def sample_plan_request_def dec_eval
      PAPER_DEMO_EXPECTED_HOLD_HOURS_def PAPER_DEMO_FUNDING_PERIOD_HOURS_def PAPER_DEMO_FUNDING_RATE_PER_8H_def)

lemma sample_plan_read: "read_inputs sample_plan_input True = Inr sample_plan_args"
  by (simp add: read_inputs_def sample_plan_input_def plan_sizing_input_def sample_plan_request_def sample_plan_args_def
      required_def PAPER_DEMO_TAKER_FEE_RATE_def) code_simp

lemma sample_plan_stages:
  "check_inputs plan_profile sample_plan_args = Inr ()"
  "checked_stop plan_profile sample_plan_args = Inr 3"
  "checked_leverage plan_profile (in_leverage sample_plan_input) = Inr 1"
  "args_unit_cost sample_plan_args = 1 / 5"
  "budget_room_of plan_profile sample_plan_args = 4"
  "notional_room_of plan_profile sample_plan_args = Inr 10000"
  by (simp_all add: plan_profile_def sample_plan_input_def plan_sizing_input_def sample_plan_request_def sample_plan_args_def
      placeholder_base_def check_inputs_def positive_def non_negative_def checked_stop_def stop_distance_of_def
      checked_leverage_def ceiling_defs args_unit_cost_def unit_cost_def budget_room_of_def notional_room_of_def
      dec_eval round_lot_def)

lemma sample_plan_effective: "effective_risk plan_profile sample_plan_args True = Inr (1, 1)"
  unfolding effective_risk_def sample_plan_stages plan_profile_max
  by (simp add: sample_plan_args_def plan_profile_def placeholder_base_def risk_percent_def
      risk_ceiling_for_def PAPER_DEMO_KINDS_def ceiling_defs)

lemma sample_plan_sized: "size_trade plan_profile sample_plan_input None True True = Inr sample_plan_sizing"
  unfolding size_trade_def plan_profile_ok sample_plan_read sample_plan_stages sample_plan_effective sample_plan_sizing_def
    res_bind_Inr
  by (simp add: sample_plan_args_def plan_profile_def placeholder_base_def cost_share_def capped_quantity_def QUANTUM_def
      risk_ceiling_for_def PAPER_DEMO_KINDS_def ceiling_defs dec_eval round_lot_def sample_plan_stages)

lemma sample_plan_liquidation:
  "\<exists>c. check_liquidation_buffer 100 3 (Some 2) 1 3125 (Some ''isolated'') (Some PAPER_CONSERVATIVE_MAINTENANCE_TIERS) = Inr c
     \<and> lq_accepted c"
proof -
  have c: "lower ''isolated'' = ''isolated''" by code_simp
  have "select_maintenance_tier 3125 (Some PAPER_CONSERVATIVE_MAINTENANCE_TIERS) = Inr (0, 2 / 100)"
    by (simp add: select_maintenance_tier_def PAPER_CONSERVATIVE_MAINTENANCE_TIERS_def PAPER_CONSERVATIVE_MAINTENANCE_RATE_def)
  then show ?thesis unfolding check_liquidation_buffer_def
    by (simp add: c required_buffer_def STOP_MULTIPLE_def ATR_BUFFER_def liquidation_distance_def dec_eval)
qed

lemma sample_plan_decision:
  "\<exists>d rec. decide_trade plan_profile ''v-1'' plan_grade
      \<lparr>ai_volatility_regime = Some ''normal'', ai_trend_aligned = Some True, ai_momentum_aligned = Some True\<rparr>
      sample_plan_input (plan_verdict 10000 False) (Some PAPER_CONSERVATIVE_MAINTENANCE_TIERS) (plan_options True) = Inr d
     \<and> td_accepted d \<and> td_record d = Some rec \<and> td_sizing d = Some sample_plan_sizing"
proof -
  obtain ar where ar: "apply_adjusters (Fin 1) \<lparr>ai_volatility_regime = Some ''normal'', ai_trend_aligned = Some True,
      ai_momentum_aligned = Some True\<rparr> = Inr ar" "ar_adjusted_risk_percent ar = 1"
    by (simp add: apply_adjusters_def volatility_table_def MISALIGNED_def dec_eval)
  have attempt: "sample_plan_input\<lparr>in_grade := Some B, in_grade_risk_percent := Some (Fin 1), in_leverage := Some (Fin 1)\<rparr>
      = sample_plan_input"
    by (simp add: sample_plan_input_def plan_sizing_input_def sample_plan_request_def plan_profile_def placeholder_base_def)
  have "leverage_loop 32 plan_profile sample_plan_input (Some PAPER_CONSERVATIVE_MAINTENANCE_TIERS) None True False True
      sample_plan_input = Inr (Break sample_plan_sizing)"
    using sample_plan_liquidation
    unfolding numeral_eq_Suc pred_numeral_simps leverage_loop.simps sample_plan_sized
    by (auto simp: sample_plan_sizing_def sample_plan_input_def plan_sizing_input_def sample_plan_request_def or_zero_def
        fin_option_def)
  moreover have "base_risk_of plan_profile sample_plan_input B = Inr (Fin 1)"
    "requested_leverage plan_profile sample_plan_input = Fin 1" "in_entry sample_plan_input = Some (Fin 100)"
    "fin_option (in_equity sample_plan_input) = Some 10000" "sz_margin sample_plan_sizing = 3125"
    by (simp_all add: base_risk_of_def requested_leverage_def sample_plan_input_def plan_sizing_input_def
        sample_plan_request_def fin_option_def sample_plan_sizing_def plan_profile_def placeholder_base_def)
  ultimately show ?thesis
    unfolding decide_trade_def
    by (simp add: plan_grade_def tradable_def plan_verdict_def plan_options_def default_options_def ai_outcome_def ar attempt
        finish_trade_def build_trade_record_def)
qed

lemma sample_plan:
  "\<exists>sp. size_for_profile plan_active plan_grade sample_plan_request = Inr (Given sp) \<and> sp_quantity sp = 125 / 4
     \<and> sp_risk_cash_ceiling sp = 100 \<and> sp_grade sp = B"
proof -
  have start: "plan_grade_risk plan_profile plan_grade sample_plan_request = Inr (Given (B, 1, 1, 2, Fin 1))"
    by (simp add: plan_grade_risk_def plan_grade_def tradable_def sample_plan_request_def fixed_risk_override_refusal_def
        plan_profile_max plan_profile_kind risk_ceiling_for_def PAPER_DEMO_KINDS_def ceiling_defs)
  obtain d rec where d: "decide_trade plan_profile ''v-1'' plan_grade
      \<lparr>ai_volatility_regime = Some ''normal'', ai_trend_aligned = Some True, ai_momentum_aligned = Some True\<rparr>
      sample_plan_input (plan_verdict 10000 False) (Some PAPER_CONSERVATIVE_MAINTENANCE_TIERS) (plan_options True) = Inr d"
    "td_accepted d" "td_record d = Some rec" "td_sizing d = Some sample_plan_sizing"
    using sample_plan_decision by blast
  have rq: "pq_entry sample_plan_request = 100" "pq_stop sample_plan_request = 97" "pq_target sample_plan_request = 106"
    "pq_equity sample_plan_request = 10000" "pq_breaker_refusing sample_plan_request = False"
    "pq_maintenance_tiers sample_plan_request = None" "pq_fixed_risk_percent sample_plan_request = Some (Fin 1)"
    "pq_execution_channel sample_plan_request = Some ''demo''"
    by (simp_all add: sample_plan_request_def)
  have vol: "volatility 2 100 = ''normal''" by (simp add: volatility_def dec_eval)
  have open_channel: "sized_risk_blocked_for_channel ''demo'' 1 1 = Inr False"
    by (simp add: not_blocked_for_channel PAPER_DEMO_KINDS_def)
  have "\<exists>sp. finish_plan plan_active sample_plan_request B (409 / 500000, 1) 3 6 rec sample_plan_sizing = Inr (Given sp)
      \<and> sp_quantity sp = 125 / 4 \<and> sp_risk_cash_ceiling sp = 100 \<and> sp_grade sp = B"
    unfolding finish_plan_def Let_def
    by (simp add: plan_active_def rq plan_profile_max sample_plan_sizing_def open_channel quantize8_def round_half_even_def dec_eval)
  moreover have "size_for_profile plan_active plan_grade sample_plan_request
      = finish_plan plan_active sample_plan_request B (409 / 500000, 1) 3 6 rec sample_plan_sizing"
    unfolding size_for_profile_def Let_def plan_funding_def [symmetric]
    using d by (simp add: plan_active_def start rq sample_funding vol sample_plan_input_def [symmetric] dec_eval)
  ultimately show ?thesis by metis
qed

section \<open>Properties\<close>

text \<open>
  C31. A plan \<open>size_for_profile\<close> returns is safe: no breaker was refusing and the grade is tradable or a
  risk override was given; its recorded risk percent is within the channel's ceiling (5 percent for
  internal paper and demo, 2 percent for any other channel) and within the percent of its grade, or the
  profile's highest under an override; the leverage is the requested one, never lowered; and the exact
  loss at the stop with both fees, the funding and the book buffer is at most the plan's cash ceiling,
  which is at most the grade's or the override's percent of the equity, each up to one part in
  \<open>10 ^ 26\<close>.
\<close>

theorem size_for_profile_safe:
  assumes "size_for_profile ap gd rq = Inr (Given sp)"
  shows "\<exists>g cap x. \<not> pq_breaker_refusing rq \<and> gd_grade gd = Some g \<and> sp_grade sp = g
    \<and> (pq_fixed_risk_percent rq \<noteq> None \<or> tradable gd)
    \<and> plan_cap (ap_profile ap) g (pq_fixed_risk_percent rq) = Inr cap \<and> sp_risk_percent sp \<le> cap
    \<and> sp_risk_percent sp \<le> (if plan_channel (ap_profile ap) rq \<in> set PAPER_DEMO_KINDS then 5 else 2)
    \<and> (case pq_leverage rq of Some l \<Rightarrow> l | None \<Rightarrow> Fin (p_default_leverage (ap_profile ap))) = Fin (sp_leverage sp)
    \<and> 0 < sp_quantity sp
    \<and> sp_quantity sp * plan_unit_loss rq \<le> (1 + 1 / 10 ^ 26) * sp_risk_cash_ceiling sp
    \<and> plan_percent (ap_profile ap) g (pq_fixed_risk_percent rq) x
    \<and> sp_risk_cash_ceiling sp \<le> (1 + 1 / 10 ^ 26) * (pq_equity rq * x / 100)"
  using assms
proof (rule size_for_profile_Given, goal_cases)
  case (1 g x ares r a cap)
  from 1(6) obtain d where d: "size_trade (ap_profile ap) d None True (pq_fixed_risk_percent rq \<noteq> None) = Inr r"
    "read_inputs d (pq_fixed_risk_percent rq \<noteq> None) = Inr a" by blast
  have cap: "(if pq_fixed_risk_percent rq \<noteq> None then profile_max_risk (ap_profile ap)
      else risk_percent (ap_profile ap) (a_grade a)) = Inr cap"
    using 1(12) unfolding plan_cap_def 1(9) .
  obtain er den where z: "valid_profile (ap_profile ap)" "args_ok (ap_profile ap) a"
    "effective_risk (ap_profile ap) a (pq_fixed_risk_percent rq \<noteq> None) = Inr er"
    "sp_risk_cash_ceiling sp = ddiv (dmul (a_equity a) (fst er)) 100" "(1 - EPS) ^ 6 * unit_loss a \<le> den"
    "0 < sz_quantity r" "sz_quantity r * den \<le> (1 + EPS) ^ 3 * sp_risk_cash_ceiling sp" "0 < sp_risk_cash_ceiling sp"
    by (rule plan_sizing [OF d 1(7) cap 1(14)]) blast
  have eq: "a_equity a = pq_equity rq" "0 < pq_equity rq" using 1(7) z(2) by (auto simp: plan_args_def args_ok_def)
  have "sz_quantity r * ((1 - EPS) ^ 6 * unit_loss a) \<le> sz_quantity r * den"
    using z(5,6) by (intro mult_left_mono) auto
  then have loss: "sz_quantity r * plan_unit_loss rq \<le> (1 + 1 / 10 ^ 26) * sp_risk_cash_ceiling sp"
    using z(7,8) plan_unit_loss_eq [OF 1(7)] by (intro eps_scale) (simp_all add: mult.left_commute)
  obtain adj where "apply_adjusters (Fin x) adj = Inr ares" using 1(5) by blast
  then have "a_grade_risk a \<le> dround 28 x"
    using apply_adjusters_bound [of x adj ares] 1(8) by simp
  then have er: "0 < fst er" "fst er \<le> (1 + EPS) ^ 1 * x"
    using effective_risk_Inr [OF z(3)] plan_percent_nonneg [OF z(1) 1(4)] dec28.rnd_upper [of x] by auto
  have "dmul (fst er) (pq_equity rq) \<le> (1 + EPS) ^ 2 * (x * pq_equity rq)"
    using dmul_up [OF _ _ er(2), of "pq_equity rq"] er(1) eq(2) by (simp add: numeral_2_eq_2)
  from ddiv_up [OF _ _ this, of 100] have "sp_risk_cash_ceiling sp \<le> (1 + EPS) ^ 3 * (pq_equity rq * x / 100)"
    using dmul_pos [OF er(1) eq(2)] unfolding z(4) eq(1) dmul_commute [of "pq_equity rq"]
    by (simp add: numeral_3_eq_3 mult.commute)
  then have "sp_risk_cash_ceiling sp \<le> (1 + 1 / 10 ^ 26) * (pq_equity rq * x / 100)"
    using z(8) eq(2) plan_percent_nonneg [OF z(1) 1(4)] by (intro eps_up) auto
  moreover have "sp_risk_percent sp \<le> cap"
    "sp_risk_percent sp \<le> (if plan_channel (ap_profile ap) rq \<in> set PAPER_DEMO_KINDS then 5 else 2)"
    using 1(13) by (auto simp: not_blocked_for_channel 1(18))
  ultimately show ?case using 1 loss z(6) by auto
qed

theorem size_for_profile_safe_witness:
  "\<exists>sp. size_for_profile plan_active plan_grade sample_plan_request = Inr (Given sp)
     \<and> sp_quantity sp * plan_unit_loss sample_plan_request \<le> (1 + 1 / 10 ^ 26) * sp_risk_cash_ceiling sp"
proof -
  obtain sp where "size_for_profile plan_active plan_grade sample_plan_request = Inr (Given sp)"
    using sample_plan by blast
  with size_for_profile_safe [OF this] show ?thesis by blast
qed

text \<open>
  C33. A plan that was just sized fits the book it was sized on: rechecked with the same book, equity (of
  at most \<open>10 ^ 12\<close>, the range of the money columns) and funding, \<open>stored_plan_limit_refusal\<close> never
  answers that the plan exceeds the current limits, the roundings of both paths included, and it never
  raises. It either passes or finds the plan's percent above the channel ceiling or above the grade cap
  stored on the plan; the percent it compares is at most the percent the plan was sized with, up to
  \<open>2 / 10 ^ 20\<close>.
\<close>

theorem fresh_plan_fits_its_book:
  assumes "size_for_profile ap gd rq = Inr (Given sp)" "pq_expected_hold_hours rq = None" "pq_equity rq \<le> 10 ^ 12" "0 < cap"
  shows "\<exists>added g x. gd_grade gd = Some g \<and> plan_percent (ap_profile ap) g (pq_fixed_risk_percent rq) x
    \<and> 0 \<le> added \<and> added \<le> x + 2 / 10 ^ 20
    \<and> stored_plan_limit_refusal (Fin (sp_quantity sp)) (Fin (sp_entry sp)) (Fin (sp_stop sp)) (Fin 1) (Fin (pq_equity rq))
        (plan_book rq) (ap_profile ap) channel (pq_include_book_buffer rq) (Some (Fin cap)) (pq_funding_rate rq)
        (pq_funding_rate_verified rq)
      = Inr (if added \<le> cap \<and> added \<le> (if channel \<in> set PAPER_DEMO_KINDS then 5 else 2) then None
             else Some ''risk_percent_exceeds_channel_ceiling'')"
  using assms(1)
proof (rule size_for_profile_Given, goal_cases)
  case (1 g x ares r a k)
  let ?p = "ap_profile ap" and ?rc = "pq_fixed_risk_percent rq \<noteq> None"
  from 1(6) obtain d where d: "size_trade ?p d None True ?rc = Inr r" "read_inputs d ?rc = Inr a" by blast
  have k: "(if ?rc then profile_max_risk ?p else risk_percent ?p (a_grade a)) = Inr k"
    using 1(12) unfolding plan_cap_def 1(9) .
  show ?case
  proof (rule plan_figures [OF d 1(7) k assms(2,3)], goal_cases)
    case (1 added er)
    note f = this and plan = \<open>plan_percent ?p g (pq_fixed_risk_percent rq) x\<close>
    have x: "0 \<le> x" "x \<le> 5"
      using plan_percent_nonneg [OF f(17) plan] plan_percent_le [OF plan f(17)]
      by (auto simp: risk_ceiling_for_def ceiling_defs)
    from \<open>\<exists>adj. apply_adjusters (Fin x) adj = Inr ares\<close> \<open>a_grade_risk a = ar_adjusted_risk_percent ares\<close>
    have "er \<le> dround 28 x" using f(16) by (auto dest!: apply_adjusters_bound)
    then have "er \<le> x + EPS * x" using dec28.rnd_upper [OF x(1)] by (simp add: algebra_simps)
    moreover have "EPS * x \<le> 1 / 10 ^ 20" using x by (simp add: EPS_def)
    ultimately have small: "added \<le> x + 2 / 10 ^ 20" using f(14) by simp
    have "plan_numbers (Fin (sp_quantity sp)) (Fin (sp_entry sp)) (Fin (sp_stop sp)) (Fin 1) (Fin (pq_equity rq)) (Some (Fin cap))
        = Some (sz_quantity r, pq_entry rq, pq_stop rq, 1, pq_equity rq, cap)"
      using f(1-4) assms(4) \<open>sp_quantity sp = sz_quantity r\<close> \<open>sp_entry sp = pq_entry rq\<close> \<open>sp_stop sp = pq_stop rq\<close>
      by (simp add: plan_numbers_def)
    moreover have "sized_risk_blocked_for_channel channel added cap
        = Inr (\<not> (added \<le> cap \<and> added \<le> (if channel \<in> set PAPER_DEMO_KINDS then 5 else 2)))"
      using f(13-15) assms(4) by (intro channel_verdict) auto
    ultimately have "stored_plan_limit_refusal (Fin (sp_quantity sp)) (Fin (sp_entry sp)) (Fin (sp_stop sp)) (Fin 1) (Fin (pq_equity rq))
          (plan_book rq) ?p channel (pq_include_book_buffer rq) (Some (Fin cap)) (pq_funding_rate rq) (pq_funding_rate_verified rq)
        = Inr (if added \<le> cap \<and> added \<le> (if channel \<in> set PAPER_DEMO_KINDS then 5 else 2) then None
               else Some ''risk_percent_exceeds_channel_ceiling'')"
      unfolding stored_plan_limit_refusal_def using f(5-12) by (simp add: plan_book_def not_less not_le Let_def)
    with \<open>gd_grade gd = Some g\<close> plan f(13) small show ?case by blast
  qed
qed

theorem fresh_plan_fits_its_book_witness:
  "\<exists>sp. size_for_profile plan_active plan_grade sample_plan_request = Inr (Given sp)
     \<and> stored_plan_limit_refusal (Fin (sp_quantity sp)) (Fin (sp_entry sp)) (Fin (sp_stop sp)) (Fin 1) (Fin 10000)
        (plan_book sample_plan_request) plan_profile ''demo'' False (Some (Fin 2)) (Some (Fin (409 / 500000))) True = Inr None"
proof -
  obtain sp where sp: "size_for_profile plan_active plan_grade sample_plan_request = Inr (Given sp)"
    using sample_plan by blast
  have rq: "pq_expected_hold_hours sample_plan_request = None" "pq_equity sample_plan_request \<le> 10 ^ 12"
    "pq_equity sample_plan_request = 10000" "pq_include_book_buffer sample_plan_request = False"
    "pq_funding_rate sample_plan_request = Some (Fin (409 / 500000))" "pq_funding_rate_verified sample_plan_request = True"
    "pq_fixed_risk_percent sample_plan_request = Some (Fin 1)" "ap_profile plan_active = plan_profile"
    by (simp_all add: sample_plan_request_def plan_active_def)
  obtain added x where x: "plan_percent plan_profile B (Some (Fin 1)) x" "added \<le> x + 2 / 10 ^ 20"
    "stored_plan_limit_refusal (Fin (sp_quantity sp)) (Fin (sp_entry sp)) (Fin (sp_stop sp)) (Fin 1) (Fin 10000)
        (plan_book sample_plan_request) plan_profile ''demo'' False (Some (Fin 2)) (Some (Fin (409 / 500000))) True
      = Inr (if added \<le> 2 \<and> added \<le> (if ''demo'' \<in> set PAPER_DEMO_KINDS then 5 else 2) then None
             else Some ''risk_percent_exceeds_channel_ceiling'')"
    using fresh_plan_fits_its_book [OF sp rq(1,2), of 2 "''demo''"] unfolding rq
    by (auto simp: plan_grade_def)
  then have "added \<le> 2" by (simp add: plan_percent_def)
  with sp x(3) show ?thesis by (auto simp: PAPER_DEMO_KINDS_def)
qed

text \<open>
  C35. The open risk at the stops is never understated: when \<open>open_risk_from_stops\<close> answers with a
  percent, every position has a positive size and entry and a stop, and the percent is at least the
  exact sum of the losses at the stops with both fees, the funding and the buffer, as a percent of the
  equity, less one part in \<open>2 \<cdot> 10 ^ 27\<close> for each of the roundings, of which there are nine more than
  positions. The count it returns is the number of positions.
\<close>

theorem open_risk_not_understated:
  assumes "open_risk_from_stops (Fin e) positions (Fin n) buffer rate verified hold = Given (risk, count)"
    and "list_all stop_not_negative positions"
  shows "list_all priced positions \<and> count = int (length positions)
    \<and> (1 - EPS) ^ (length positions + 9)
        * (sum_list (map (position_loss buffer (paper_demo_funding rate verified hold)) positions) / e * 100) \<le> risk"
  using open_risk_low [OF assms] .

theorem open_risk_not_understated_witness:
  "(1 - EPS) ^ (1 + 9) * (position_loss False (409 / 500000, 1) (125 / 4, 100, Some (Fin 97)) / 10000 * 100) \<le> (1 :: rat)"
proof -
  have f: "paper_demo_funding (Some (Fin (409 / 500000))) True None = (409 / 500000, 1)"
    using sample_funding by (simp add: plan_funding_def sample_plan_request_def)
  have "stop_out_cash (125 / 4) 100 97 False (Quoted (Some (Fin (409 / 500000))) True None) = 100"
    by (simp add: stop_out_cash_def profile_unit_cost_def f PAPER_DEMO_TAKER_FEE_RATE_def dec_eval)
  then have "open_risk_from_stops (Fin 10000) [(125 / 4, 100, Some (Fin 97))] (Fin 3125) False (Some (Fin (409 / 500000))) True None
      = Given (1, 1)"
    by (simp add: open_risk_from_stops_def OPEN_NOTIONAL_MATCH_TOLERANCE_def dec_eval)
  from open_risk_not_understated [OF this] show ?thesis by (simp add: f stop_not_negative_def)
qed

text \<open>
  The grade written on a plan is read back: with no other marker on the plan, the cap of the recheck
  is the stored percent, lowered to the same grade's percent on the profile now in force; for grade C,
  whose own percent is zero, it is the stored percent. A plan without a marker, or with two, has no cap,
  so the recheck refuses it.
\<close>

theorem sizing_grade_round_trip:
  assumes "list_all (\<lambda>i. ci_name i \<noteq> Some PROFILE_SIZING_GRADE) inputs" "0 < x" "valid_profile p"
  shows "stored_sizing_grade_cap (Some (with_profile_sizing_grade inputs g x)) p
      = Some (if g = C then x else min x (grade_percent p g))
    \<and> stored_sizing_grade_cap (Some inputs) p = None
    \<and> stored_sizing_grade_cap (Some (with_profile_sizing_grade (with_profile_sizing_grade inputs g x) g' y)) p = None"
proof -
  have two: "grade_markers (with_profile_sizing_grade (with_profile_sizing_grade inputs g x) g' y)
      = Some [(Fin (grade_code g), Fin x), (Fin (grade_code g'), Fin y)]"
    using assms(1) by (induction inputs) (simp_all add: with_profile_sizing_grade_def profile_sizing_grade_payload_def)
  have none: "grade_markers inputs = Some []" using assms(1) by (induction inputs) simp_all
  obtain c where c: "p_risk_percent_by_grade p g = Some c" using assms(3) by (auto simp: valid_profile_def)
  have "grade_percent p g = c" "g \<noteq> C \<longrightarrow> 0 < c" "g = C \<longrightarrow> c = 0"
    using assms(3) c by (auto simp: valid_profile_def grade_percent_def)
  then show ?thesis
    using assms(2) by (auto simp: stored_sizing_grade_cap_def grade_markers_snoc [OF assms(1)] two none grade_by_code_code
        risk_percent_def c)
qed

theorem sizing_grade_round_trip_witness:
  "stored_sizing_grade_cap (Some (with_profile_sizing_grade [] A 1)) plan_profile = Some 1
   \<and> stored_sizing_grade_cap (Some (with_profile_sizing_grade [] C 1)) plan_profile = Some 1"
proof -
  have "valid_profile plan_profile" using plan_profile_ok(1) by (simp add: validate_profile_Inr)
  from sizing_grade_round_trip [OF _ _ this, of "[]" 1 A] sizing_grade_round_trip [OF _ _ this, of "[]" 1 C]
  show ?thesis by (simp add: grade_percent_def plan_profile_def)
qed

text \<open>
  A plan sized with a risk override above its grade's own percent is refused by its first recheck:
  the override of one percent for grade B is accepted and sized, the stored cap reads back as B's half
  percent, and on the unchanged book \<open>stored_plan_limit_refusal\<close> answers that the risk percent exceeds
  the ceiling. For grade C the stored override is kept.
\<close>

theorem override_refused_on_recheck:
  "\<exists>sp cap. size_for_profile plan_active plan_grade sample_plan_request = Inr (Given sp)
    \<and> stored_sizing_grade_cap (Some (with_profile_sizing_grade [] (sp_grade sp) 1)) plan_profile = Some cap
    \<and> stored_plan_limit_refusal (Fin (sp_quantity sp)) (Fin (sp_entry sp)) (Fin (sp_stop sp)) (Fin 1) (Fin 10000)
        (plan_book sample_plan_request) plan_profile ''demo'' False (Some (Fin cap)) (Some (Fin (409 / 500000))) True
      = Inr (Some ''risk_percent_exceeds_channel_ceiling'')"
proof -
  obtain sp where sp: "size_for_profile plan_active plan_grade sample_plan_request = Inr (Given sp)"
      "sp_quantity sp = 125 / 4" "sp_grade sp = B"
    using sample_plan by blast
  then have es: "sp_entry sp = 100" "sp_stop sp = 97"
    by (auto elim!: size_for_profile_Given simp: sample_plan_request_def)
  have cap: "stored_sizing_grade_cap (Some (with_profile_sizing_grade [] B 1)) plan_profile = Some (1 / 2)"
    by (simp add: stored_sizing_grade_cap_def grade_markers_snoc grade_by_code_def GRADE_ORDER_def risk_percent_def plan_profile_def)
  have f: "paper_demo_funding (Some (Fin (409 / 500000))) True None = (409 / 500000, 1)"
    using sample_funding by (simp add: plan_funding_def sample_plan_request_def)
  have cash: "stop_out_cash (125 / 4) 100 97 False (Quoted (Some (Fin (409 / 500000))) True None) = 100"
    by (simp add: stop_out_cash_def profile_unit_cost_def f PAPER_DEMO_TAKER_FEE_RATE_def dec_eval)
  have "sized_risk_blocked_for_channel ''demo'' 1 (1 / 2) = Inr True"
    using channel_verdict [of 1 "1 / 2" "''demo''"] by simp
  then have "stored_plan_limit_refusal (Fin (125 / 4)) (Fin 100) (Fin 97) (Fin 1) (Fin 10000) (plan_book sample_plan_request)
      plan_profile ''demo'' False (Some (Fin (1 / 2))) (Some (Fin (409 / 500000))) True
      = Inr (Some ''risk_percent_exceeds_channel_ceiling'')"
    by (simp add: stored_plan_limit_refusal_def plan_numbers_def plan_book_def sample_plan_request_def plan_profile_def
        placeholder_base_def cash dec_eval OPEN_NOTIONAL_MATCH_TOLERANCE_def)
  with sp(1) cap show ?thesis unfolding sp(2,3) [symmetric] es [symmetric] by blast
qed

end
