(* ===== verification/Stored_Plan.thy ===== *)
theory Stored_Plan
  imports Policy_Service Plan_Sizing Daily_Risk
begin

text \<open>
  The recheck of a stored plan before it is executed, from \<^verbatim>\<open>services/automated_paper_loop.py\<close>:
  \<open>_load_active_profile\<close>, \<open>_canonical_open_lifecycles\<close>, \<open>_profile_open_book\<close>, \<open>_stored_plan_terms\<close> and
  \<open>_stored_plan_execution_refusal\<close>. It joins four components: the breakers and the policy store behind
  \<open>session\<close>, the daily figures of the portfolio, and the limits of \<open>Plan_Sizing\<close>.

  \<open>rv_kind\<close> and \<open>rv_funding\<close> are the two methods the paper and the demo loop differ in, and \<open>rv_others\<close> is
  what other sessions write to the portfolio during a sync. A plan that is not there is \<open>None\<close>, and so
  is a clock that cannot be read. The fields of a plan are the attributes the code looks up, \<open>None\<close>
  where one of them is missing or not a Decimal.
\<close>

section \<open>The recheck\<close>










section \<open>What a passing plan satisfies\<close>






























end
