(* ===== verification/Execution_Log.thy ===== *)
theory Execution_Log
  imports Kill_Switch Daily_Risk Ledger
begin

text \<open>
  The tables of the execution protocol and its log: \<^verbatim>\<open>schemas/execution_protocol.py\<close>, the rows of
  \<^verbatim>\<open>db/models.py\<close> and \<^verbatim>\<open>services/execution_transitions.py\<close>. A receipt's history is an append-only list
  of transitions; its projection is the row the other services read and update by compare-and-set.
  \<open>rebuild_projection_from_transitions\<close> folds the history back into a projection.

  One record holds all tables, the kill switch with its epochs and the portfolio included, because the
  operations lock rows of several of them. Hashes that are stored and never compared (of a transition),
  the times a row was observed and recorded, and columns these operations never change (fees, funding,
  the position of a projection) are left out. A projection is read back after each write, so its money
  columns hold what the column keeps of the value written: \<open>xe_money\<close>.
\<close>

section \<open>Tables\<close>

datatype command_outcome = OUTCOME_ALLOW | OUTCOME_BLOCKED

datatype receipt_state =
    RECEIPT_BLOCKED | SUBMITTING | BLOCKED_BEFORE_DISPATCH | ACKNOWLEDGED | PARTIALLY_FILLED | RECEIPT_REJECTED
  | RECEIPT_EXPIRED | RECEIPT_CANCELLED | PARTIALLY_FILLED_CANCELLED | RECONCILIATION_REQUIRED | ABSENCE_PENDING
  | ABSENCE_PROVEN | RESUBMIT_AUTHORIZED | OPERATOR_HOLD

fun receipt_value :: "receipt_state \<Rightarrow> string" where
  "receipt_value RECEIPT_BLOCKED = ''BLOCKED''"
| "receipt_value SUBMITTING = ''SUBMITTING''"
| "receipt_value BLOCKED_BEFORE_DISPATCH = ''BLOCKED_BEFORE_DISPATCH''"
| "receipt_value ACKNOWLEDGED = ''ACKNOWLEDGED''"
| "receipt_value PARTIALLY_FILLED = ''PARTIALLY_FILLED''"
| "receipt_value RECEIPT_REJECTED = ''REJECTED''"
| "receipt_value RECEIPT_EXPIRED = ''EXPIRED''"
| "receipt_value RECEIPT_CANCELLED = ''CANCELLED''"
| "receipt_value PARTIALLY_FILLED_CANCELLED = ''PARTIALLY_FILLED_CANCELLED''"
| "receipt_value RECONCILIATION_REQUIRED = ''RECONCILIATION_REQUIRED''"
| "receipt_value ABSENCE_PENDING = ''ABSENCE_PENDING''"
| "receipt_value ABSENCE_PROVEN = ''ABSENCE_PROVEN''"
| "receipt_value RESUBMIT_AUTHORIZED = ''RESUBMIT_AUTHORIZED''"
| "receipt_value OPERATOR_HOLD = ''OPERATOR_HOLD''"

datatype effect_state =
  EFFECT_CREATED | LEASED | DISPATCH_AUTHORIZED | PROVEN_UNSENT | SEND_ATTEMPTED | SEND_AMBIGUOUS | RECONCILING

datatype send_disposition = NOT_SENT | SENT_NEVER | SEND_ACCEPTED | SEND_REJECTED | SEND_UNKNOWN

datatype release_state = CHARGED | PARTIALLY_RELEASED | RELEASED

datatype release_reason =
    AFTER_REJECTION | AFTER_CANCELLATION | AFTER_EXPIRY | AFTER_ABSENCE | AFTER_PROVEN_UNSENT
  | FILL_CONVERSION | VERIFIED_DEMO_EXIT

datatype reconciliation_status = RECON_NOT_REQUIRED | RECON_REQUIRED | RECON_IN_PROGRESS | RECON_RESOLVED | RECON_OPERATOR_HOLD

record execution_plan =
  xp_revision_id :: string
  xp_org :: string
  xp_user :: string
  xp_account :: string
  xp_content_hash :: string
  xp_valid_from :: int
  xp_valid_until :: int
  xp_venue :: string
  xp_schema_version :: string
  xp_instrument :: string
  xp_quantity :: rat
  xp_quantity_unit :: string
  xp_multiplier :: rat
  xp_contract_type :: string
  xp_limit_price :: "(rat \<times> string) option"
  xp_execution_price :: "rat \<times> string"
  xp_entry_upper :: rat
  xp_fee_allowance :: rat
  xp_slippage_allowance :: rat
  xp_maximum_loss :: rat
  xp_margin_assumption :: "string option"

record execution_command =
  xc_id :: string
  xc_org :: string
  xc_user :: string
  xc_account :: string
  xc_revision_id :: string
  xc_receipt_id :: string
  xc_authorization :: string
  xc_payload_hash :: string
  xc_key :: string
  xc_outcome :: command_outcome
  xc_blocked_reason :: "string option"

datatype authorization_state = AUTH_AVAILABLE | AUTH_CONSUMED | AUTH_REVOKED | AUTH_EXPIRED

record authorization =
  au_id :: string
  au_org :: string
  au_user :: string
  au_account :: string
  au_state :: authorization_state
  au_expires_at :: int
  au_plan_hash :: string
  au_consumed_by :: "string option"

record idempotency_binding =
  ib_org :: string
  ib_user :: string
  ib_account :: string
  ib_namespace :: string
  ib_key :: string
  ib_payload_hash :: string
  ib_revision_id :: string
  ib_command :: "string option"
  ib_receipt :: "string option"
  ib_outcome :: "command_outcome option"

record projection =
  pj_receipt :: string
  pj_version :: int
  pj_state :: receipt_state
  pj_filled :: rat
  pj_remaining :: rat
  pj_quantity_unit :: string
  pj_weighted :: "rat option"
  pj_reconciliation :: reconciliation_status
  pj_watermark :: int

record transition =
  tr_receipt :: string
  tr_sequence :: int
  tr_prior_state :: "receipt_state option"
  tr_new_state :: receipt_state
  tr_source_fact :: string
  tr_source_identity :: string
  tr_quantity :: "rat option"
  tr_unit_price :: "rat option"
  tr_occurred_at :: int
  tr_actor :: string

record submit_effect =
  fx_command :: string
  fx_client_order_id :: string
  fx_state :: effect_state
  fx_lease_owner :: "string option"
  fx_lease_expires_at :: "int option"
  fx_fencing_token :: int
  fx_attempt :: int
  fx_dispatch_authorized_at :: "int option"
  fx_dispatch_safety_epoch :: "int option"
  fx_dispatch_fencing_token :: "int option"
  fx_dispatch_attempt :: "int option"
  fx_safety_epoch :: int
  fx_uncertainty :: bool
  fx_disposition :: send_disposition

record fill_fact =
  ff_command :: string
  ff_receipt :: string
  ff_source_identity :: string
  ff_quantity :: rat
  ff_price :: rat
  ff_content_hash :: string

record risk_reservation =
  rr_id :: string
  rr_org :: string
  rr_account :: string
  rr_plan_revision_id :: string
  rr_command_id :: string
  rr_receipt_id :: string
  rr_instrument :: string
  rr_daily_trade_allocation :: int
  rr_daily_loss_allocation :: rat
  rr_remaining_reserved_notional :: rat
  rr_converted_trade_slots :: int
  rr_contract_multiplier :: rat
  rr_contract_type :: string
  rr_quantity_unit :: string
  rr_exposure_unit :: string
  rr_safety_epoch :: int
  rr_release_state :: release_state
  rr_release_reason :: "release_reason option"
  rr_created_at :: int

record account_row = accounting +
  ar_org :: string
  ar_account :: string
  ar_exposure_unit :: string
  ar_trade_slot_business_date :: "int option"
  ar_version :: int

record release_audit =
  ra_reservation :: string
  ra_user :: string
  ra_cause :: string
  ra_slots_released :: int

record exec_db =
  xd_portfolio :: portfolio_db
  xd_switch :: switch_db
  xd_plans :: "execution_plan list"
  xd_accounting :: "account_row list"
  xd_reservations :: "risk_reservation list"
  xd_commands :: "execution_command list"
  xd_claims :: "(string \<times> string \<times> string) list"
  xd_authorizations :: "authorization list"
  xd_bindings :: "idempotency_binding list"
  xd_projections :: "projection list"
  xd_transitions :: "transition list"
  xd_effects :: "submit_effect list"
  xd_fills :: "fill_fact list"
  xd_audit :: "release_audit list"

text \<open>
  What the operations take from outside: the time zones, the process-wide kill flag, the rounding of a
  money column, the reservations another transaction holds locked, and what other sessions write between
  the two reads of an insert-or-lock.
\<close>

record exec_env =
  xe_zones :: zone_db
  xe_global_active :: bool
  xe_money :: "rat \<Rightarrow> rat"
  xe_held :: "string \<Rightarrow> bool"
  xe_switch_others :: "switch_db \<Rightarrow> switch_db"
  xe_others :: "exec_db \<Rightarrow> exec_db"

section \<open>The log and its projection\<close>

definition list_for_receipt :: "string \<Rightarrow> exec_db \<Rightarrow> transition list" where
  "list_for_receipt receipt db = sort_key tr_sequence (filter (\<lambda>t. tr_receipt t = receipt) (xd_transitions db))"

definition next_sequence :: "string \<Rightarrow> exec_db \<Rightarrow> int" where
  "next_sequence receipt db =
     (let rows = list_for_receipt receipt db in if rows = [] then 1 else tr_sequence (last rows) + 1)"

definition append_transition ::
    "string \<Rightarrow> receipt_state option \<Rightarrow> receipt_state \<Rightarrow> string \<Rightarrow> string \<Rightarrow> int \<Rightarrow> string \<Rightarrow> rat option \<Rightarrow> rat option
     \<Rightarrow> exec_db \<Rightarrow> transition \<times> exec_db" where
  "append_transition receipt prior_state new_state source_fact source_identity occurred_at actor quantity unit_price db =
     (let row = \<lparr>tr_receipt = receipt, tr_sequence = next_sequence receipt db, tr_prior_state = prior_state,
                 tr_new_state = new_state, tr_source_fact = source_fact, tr_source_identity = source_identity,
                 tr_quantity = quantity, tr_unit_price = unit_price, tr_occurred_at = occurred_at, tr_actor = actor\<rparr>
      in (row, db\<lparr>xd_transitions := xd_transitions db @ [row]\<rparr>))"

definition find_projection :: "string \<Rightarrow> exec_db \<Rightarrow> projection option" where
  "find_projection receipt db = find (\<lambda>p. pj_receipt p = receipt) (xd_projections db)"

definition apply_projection_transition ::
    "exec_env \<Rightarrow> projection \<Rightarrow> transition \<Rightarrow> rat option \<Rightarrow> rat option \<Rightarrow> rat option \<Rightarrow> reconciliation_status option
     \<Rightarrow> exec_db \<Rightarrow> exec_db res" where
  "apply_projection_transition env p t filled remaining weighted reconciliation db =
     (let money = xe_money env;
          p1 = p\<lparr>pj_version := pj_version p + 1, pj_state := tr_new_state t, pj_watermark := tr_sequence t,
                 pj_filled := (case filled of None \<Rightarrow> pj_filled p | Some x \<Rightarrow> money x),
                 pj_remaining := (case remaining of None \<Rightarrow> pj_remaining p | Some x \<Rightarrow> money x),
                 pj_weighted := (case weighted of None \<Rightarrow> pj_weighted p | Some x \<Rightarrow> Some (money x)),
                 pj_reconciliation := (case reconciliation of None \<Rightarrow> pj_reconciliation p | Some x \<Rightarrow> x)\<rparr>;
          hit = (\<lambda>q. pj_receipt q = pj_receipt p \<and> pj_version q = pj_version p)
      in if list_ex hit (xd_projections db)
         then Inr (db\<lparr>xd_projections := map (\<lambda>q. if hit q then p1 else q) (xd_projections db)\<rparr>)
         else Inl (Rejected ''projection_version_conflict''))"

definition cumulative_weighted_price :: "rat \<Rightarrow> rat option \<Rightarrow> rat \<Rightarrow> rat \<Rightarrow> rat res" where
  "cumulative_weighted_price previous_filled previous_weighted fill_quantity fill_price =
     (if fill_quantity \<le> 0 then Inl ValueError else
      case previous_weighted of
        None \<Rightarrow> Inr fill_price
      | Some w \<Rightarrow>
          if previous_filled \<le> 0 then Inr fill_price
          else Inr (ddiv (dadd (dmul previous_filled w) (dmul fill_quantity fill_price)) (dadd previous_filled fill_quantity)))"

record rebuilt =
  rb_state :: "receipt_state option"
  rb_filled :: rat
  rb_remaining :: rat
  rb_weighted :: "rat option"
  rb_watermark :: int

fun rebuild_scan :: "rebuilt \<Rightarrow> transition list \<Rightarrow> rebuilt res" where
  "rebuild_scan rb [] = Inr rb"
| "rebuild_scan rb (t # ts) =
     (let rb1 = rb\<lparr>rb_state := Some (tr_new_state t), rb_watermark := tr_sequence t\<rparr>
      in case tr_quantity t of
           None \<Rightarrow> rebuild_scan rb1 ts
         | Some q \<Rightarrow>
             if tr_source_fact t \<noteq> ''unique_fill'' then rebuild_scan rb1 ts else
             res_bind (case tr_unit_price t of
                         None \<Rightarrow> Inr (rb_weighted rb)
                       | Some price \<Rightarrow> res_bind (cumulative_weighted_price (rb_filled rb) (rb_weighted rb) q price) (\<lambda>w. Inr (Some w)))
               (\<lambda>weighted. rebuild_scan (rb1\<lparr>rb_weighted := weighted, rb_filled := dadd (rb_filled rb) q,
                  rb_remaining := (if dsub (rb_remaining rb) q < 0 then 0 else dsub (rb_remaining rb) q)\<rparr>) ts))"

definition rebuild_projection_from_transitions :: "transition list \<Rightarrow> rat \<Rightarrow> string \<Rightarrow> string \<Rightarrow> projection res" where
  "rebuild_projection_from_transitions transitions initial_remaining quantity_unit receipt =
     res_bind (rebuild_scan \<lparr>rb_state = None, rb_filled = 0, rb_remaining = initial_remaining, rb_weighted = None, rb_watermark = 0\<rparr>
                 (sort_key tr_sequence transitions)) (\<lambda>rb.
     case rb_state rb of
       None \<Rightarrow> Inl ValueError
     | Some state \<Rightarrow>
         Inr \<lparr>pj_receipt = receipt, pj_version = 0, pj_state = state, pj_filled = rb_filled rb, pj_remaining = rb_remaining rb,
              pj_quantity_unit = quantity_unit, pj_weighted = rb_weighted rb,
              pj_reconciliation =
                (if state = OPERATOR_HOLD then RECON_OPERATOR_HOLD
                 else if state \<in> {RECONCILIATION_REQUIRED, ABSENCE_PENDING, ABSENCE_PROVEN, RESUBMIT_AUTHORIZED}
                 then RECON_REQUIRED else RECON_NOT_REQUIRED),
              pj_watermark = rb_watermark rb\<rparr>)"

end
