(* ===== verification/Execution_Ledger.thy ===== *)
theory Execution_Ledger
  imports Execution_Log
begin

text \<open>
  The account ledger that claims are admitted against: \<^verbatim>\<open>services/execution_exposure.py\<close>, the reservation
  of a claim from \<^verbatim>\<open>services/execution_claim.py\<close> (\<open>conservative_reservation\<close>, \<open>evaluate_claim_predicate\<close>,
  \<open>charge_reservation\<close>), its conversion by a fill from \<^verbatim>\<open>services/execution_fills.py\<close>, and the daily roll of
  the trade slots with the release of orphaned reservations from \<^verbatim>\<open>services/safety_epoch.py\<close>.

  A symbol map is a map from instruments to amounts; the JSON text of an amount reads back as the same
  decimal. The rows of a query are listed in the order of the table.
\<close>

section \<open>Exposure\<close>

definition linear_quote_exposure :: "rat \<Rightarrow> rat \<Rightarrow> string \<Rightarrow> rat \<Rightarrow> string \<Rightarrow> rat res" where
  "linear_quote_exposure qty px unit multiplier ctype =
     (if qty \<le> 0 \<or> px \<le> 0 then Inl (Rejected ''non_positive_exposure_input'')
      else if multiplier \<le> 0 then Inl (Rejected ''non_positive_contract_multiplier'')
      else if ctype = ''INVERSE'' then Inl (Rejected ''inverse_contract_undefined'')
      else if ctype \<noteq> ''LINEAR'' then Inl (Rejected ''unsupported_contract_type'')
      else if unit = ''CONTRACTS'' then Inr (dmul (dmul qty multiplier) px)
      else if unit = ''BASE'' then Inr (dmul qty px)
      else Inl (Rejected ''unsupported_quantity_unit''))"

text \<open>Both callers rename one of its reasons.\<close>

definition renamed_inverse :: "string \<Rightarrow> 'a res \<Rightarrow> 'a res" where
  "renamed_inverse reason r = (if r = Inl (Rejected ''inverse_contract_undefined'') then Inl (Rejected reason) else r)"

section \<open>Reservations\<close>

record reservation_intent =
  ri_pending_notional :: rat
  ri_daily_loss :: rat
  ri_trade_slots :: int
  ri_instrument :: string
  ri_exposure_unit :: string
  ri_remaining_quantity :: rat
  ri_quantity_unit :: string
  ri_contract_multiplier :: rat
  ri_contract_type :: string

definition conservative_reservation :: "execution_plan \<Rightarrow> reservation_intent res" where
  "conservative_reservation plan =
     (let (price, unit) = (case xp_limit_price plan of
            Some limit \<Rightarrow> limit
          | None \<Rightarrow> (max (fst (xp_execution_price plan)) (xp_entry_upper plan), snd (xp_execution_price plan)))
      in res_bind (renamed_inverse ''inverse_contract_exposure_undefined''
                     (linear_quote_exposure (xp_quantity plan) price (xp_quantity_unit plan) (xp_multiplier plan) (xp_contract_type plan)))
           (\<lambda>quote_exposure. Inr
             \<lparr>ri_pending_notional = dadd (dadd quote_exposure (xp_fee_allowance plan)) (xp_slippage_allowance plan),
              ri_daily_loss = xp_maximum_loss plan, ri_trade_slots = 1, ri_instrument = xp_instrument plan,
              ri_exposure_unit = unit, ri_remaining_quantity = xp_quantity plan, ri_quantity_unit = xp_quantity_unit plan,
              ri_contract_multiplier = xp_multiplier plan, ri_contract_type = xp_contract_type plan\<rparr>))"

definition symbol_amount :: "(string \<rightharpoonup> rat) \<Rightarrow> string \<Rightarrow> rat" where
  "symbol_amount m instrument = (case m instrument of None \<Rightarrow> 0 | Some x \<Rightarrow> x)"

definition evaluate_claim_predicate :: "bool \<Rightarrow> bool \<Rightarrow> accounting \<Rightarrow> reservation_intent \<Rightarrow> string option" where
  "evaluate_claim_predicate blocking_epoch kill_active a intent =
     (if blocking_epoch \<or> kill_active then Some ''safety_epoch_blocking''
      else if acc_daily_locked a then Some ''daily_loss_locked''
      else if dsub (dsub (acc_max_notional a) (acc_reserved_notional a)) (acc_actual_notional a) < ri_pending_notional intent
      then Some ''insufficient_total_exposure''
      else if dsub (dsub (acc_max_daily_loss a) (acc_reserved_daily_loss a)) (acc_actual_daily_loss a) < ri_daily_loss intent
      then Some ''insufficient_daily_loss_allocation''
      else if acc_max_trade_slots a - acc_reserved_trade_slots a - acc_actual_trade_count a < ri_trade_slots intent
      then Some ''insufficient_daily_trade_allocation''
      else if dsub (dsub (acc_max_symbol_notional a) (symbol_amount (acc_symbol_reserved a) (ri_instrument intent)))
                (symbol_amount (acc_symbol_actual a) (ri_instrument intent)) < ri_pending_notional intent
      then Some ''insufficient_symbol_exposure''
      else None)"

definition charge_reservation :: "account_row \<Rightarrow> reservation_intent \<Rightarrow> account_row" where
  "charge_reservation a intent =
     a\<lparr>acc_reserved_notional := dadd (acc_reserved_notional a) (ri_pending_notional intent),
       acc_reserved_daily_loss := dadd (acc_reserved_daily_loss a) (ri_daily_loss intent),
       acc_reserved_trade_slots := acc_reserved_trade_slots a + ri_trade_slots intent,
       acc_symbol_reserved := (acc_symbol_reserved a)(ri_instrument intent \<mapsto>
          dadd (symbol_amount (acc_symbol_reserved a) (ri_instrument intent)) (ri_pending_notional intent)),
       ar_version := ar_version a + 1\<rparr>"

definition adjust_symbol_map :: "(string \<rightharpoonup> rat) \<Rightarrow> string \<Rightarrow> rat \<Rightarrow> string \<rightharpoonup> rat" where
  "adjust_symbol_map m instrument delta =
     (let next = dadd (symbol_amount m instrument) delta in m(instrument \<mapsto> (if next < 0 then 0 else next)))"

definition not_below_zero :: "rat \<Rightarrow> rat" where
  "not_below_zero x = (if x < 0 then 0 else x)"

definition fill_quote_exposure :: "risk_reservation \<Rightarrow> rat \<Rightarrow> rat \<Rightarrow> rat res" where
  "fill_quote_exposure r fill_quantity fill_price =
     renamed_inverse ''inverse_contract_fill_undefined''
       (linear_quote_exposure fill_quantity fill_price (rr_quantity_unit r) (rr_contract_multiplier r) (rr_contract_type r))"

definition convert_reservation_for_fill ::
    "risk_reservation \<Rightarrow> account_row \<Rightarrow> rat \<Rightarrow> rat \<Rightarrow> (risk_reservation \<times> account_row) res" where
  "convert_reservation_for_fill r a fill_quantity fill_price =
     res_bind (fill_quote_exposure r fill_quantity fill_price) (\<lambda>fill_notional.
       let convert = min fill_notional (rr_remaining_reserved_notional r);
           already_released = (rr_release_state r = RELEASED);
           r1 = r\<lparr>rr_remaining_reserved_notional := dsub (rr_remaining_reserved_notional r) convert\<rparr>;
           r2 = (if already_released then r1
                 else r1\<lparr>rr_release_reason := Some FILL_CONVERSION, rr_release_state := PARTIALLY_RELEASED\<rparr>);
           a1 = a\<lparr>acc_reserved_notional := not_below_zero (dsub (acc_reserved_notional a) convert),
                  acc_actual_notional := dadd (acc_actual_notional a) fill_notional,
                  acc_symbol_reserved := adjust_symbol_map (acc_symbol_reserved a) (rr_instrument r) (dneg convert),
                  acc_symbol_actual := adjust_symbol_map (acc_symbol_actual a) (rr_instrument r) fill_notional,
                  ar_version := ar_version a + 1\<rparr>;
           unconverted_slots = rr_daily_trade_allocation r - rr_converted_trade_slots r
       in Inr (if 0 < unconverted_slots
          then (r2\<lparr>rr_converted_trade_slots := rr_daily_trade_allocation r\<rparr>,
                a1\<lparr>acc_reserved_trade_slots := (if already_released then acc_reserved_trade_slots a
                      else max 0 (acc_reserved_trade_slots a - unconverted_slots)),
                   acc_actual_trade_count := acc_actual_trade_count a + unconverted_slots\<rparr>)
          else (r2, a1)))"

section \<open>The daily roll of the trade slots\<close>

definition INTERNAL_PAPER_VENUE :: string where "INTERNAL_PAPER_VENUE = ''PAPER_INTERNAL''"

definition PAPER_UNFILLED_RESERVATION_MAX_AGE :: int where "PAPER_UNFILLED_RESERVATION_MAX_AGE = 6 * HOUR"

definition TERMINAL_RECEIPT_STATES :: "receipt_state list" where
  "TERMINAL_RECEIPT_STATES = [RECEIPT_BLOCKED, BLOCKED_BEFORE_DISPATCH, RECEIPT_REJECTED, RECEIPT_EXPIRED,
     RECEIPT_CANCELLED, PARTIALLY_FILLED_CANCELLED, ABSENCE_PROVEN]"

definition paper_daily_trade_roll :: "string option \<Rightarrow> bool" where
  "paper_daily_trade_roll execution_venue = (execution_venue = Some INTERNAL_PAPER_VENUE)"

definition paper_trading_day :: "zone_db \<Rightarrow> int \<Rightarrow> string \<Rightarrow> int" where
  "paper_trading_day zones now timezone_name =
     (case normalize_timezone zones (Some timezone_name) of (tz_name, fell_back) \<Rightarrow>
        if fell_back then local_date utc_zone now
        else case zones tz_name of Some z \<Rightarrow> local_date z now | None \<Rightarrow> local_date utc_zone now)"

definition occurs_in :: "string \<Rightarrow> string \<Rightarrow> bool" where
  "occurs_in part text = list_ex (\<lambda>i. take (length part) (drop i text) = part) [0..<Suc (length text)]"

definition release_reason_for :: "string \<Rightarrow> release_reason" where
  "release_reason_for cause =
     (if occurs_in ''CANCELLED'' cause then AFTER_CANCELLATION
      else if cause = ''aged_unfilled'' \<or> cause = ''terminal_receipt:EXPIRED'' then AFTER_EXPIRY
      else if occurs_in ''ABSENCE'' cause then AFTER_ABSENCE
      else if cause = ''proven_unsent'' then AFTER_PROVEN_UNSENT
      else AFTER_REJECTION)"

definition unconverted :: "risk_reservation \<Rightarrow> int" where
  "unconverted r = max 0 (rr_daily_trade_allocation r - rr_converted_trade_slots r)"

definition release_reservation_remainder :: "account_row \<Rightarrow> risk_reservation \<Rightarrow> string \<Rightarrow> int \<times> account_row \<times> risk_reservation" where
  "release_reservation_remainder a r cause =
     (let unused = rr_remaining_reserved_notional r;
          a1 = a\<lparr>acc_reserved_notional := not_below_zero (dsub (acc_reserved_notional a) unused),
                 acc_reserved_daily_loss := (if rr_converted_trade_slots r = 0
                    then not_below_zero (dsub (acc_reserved_daily_loss a) (rr_daily_loss_allocation r))
                    else acc_reserved_daily_loss a),
                 acc_reserved_trade_slots := max 0 (acc_reserved_trade_slots a - unconverted r),
                 acc_symbol_reserved := adjust_symbol_map (acc_symbol_reserved a) (rr_instrument r) (dneg unused),
                 ar_version := (if 0 < unused \<or> 0 < unconverted r then ar_version a + 1 else ar_version a)\<rparr>
      in (unconverted r, a1, r\<lparr>rr_remaining_reserved_notional := 0, rr_release_state := RELEASED,
                               rr_release_reason := Some (release_reason_for cause)\<rparr>))"

definition find_plan :: "string \<Rightarrow> exec_db \<Rightarrow> execution_plan option" where
  "find_plan revision db = find (\<lambda>p. xp_revision_id p = revision) (xd_plans db)"

definition find_command :: "string \<Rightarrow> exec_db \<Rightarrow> execution_command option" where
  "find_command cid db = find (\<lambda>c. xc_id c = cid) (xd_commands db)"

definition find_effect :: "string \<Rightarrow> exec_db \<Rightarrow> submit_effect option" where
  "find_effect cid db = find (\<lambda>e. fx_command e = cid) (xd_effects db)"

definition find_accounting :: "string \<Rightarrow> string \<Rightarrow> exec_db \<Rightarrow> account_row option" where
  "find_accounting org acc db = find (\<lambda>a. ar_org a = org \<and> ar_account a = acc) (xd_accounting db)"

definition find_reservation :: "string \<Rightarrow> exec_db \<Rightarrow> risk_reservation option" where
  "find_reservation cid db = find (\<lambda>r. rr_command_id r = cid) (xd_reservations db)"

definition put_accounting :: "account_row \<Rightarrow> exec_db \<Rightarrow> exec_db" where
  "put_accounting a db = db\<lparr>xd_accounting :=
     map (\<lambda>x. if ar_org x = ar_org a \<and> ar_account x = ar_account a then a else x) (xd_accounting db)\<rparr>"

definition put_reservation :: "risk_reservation \<Rightarrow> exec_db \<Rightarrow> exec_db" where
  "put_reservation r db = db\<lparr>xd_reservations := map (\<lambda>x. if rr_id x = rr_id r then r else x) (xd_reservations db)\<rparr>"

definition terminal_cause :: "risk_reservation \<Rightarrow> exec_db \<Rightarrow> string option" where
  "terminal_cause r db =
     (if (case find_command (rr_command_id r) db of None \<Rightarrow> False | Some c \<Rightarrow> xc_outcome c = OUTCOME_BLOCKED)
      then Some ''blocked_command''
      else if (case find_projection (rr_receipt_id r) db of None \<Rightarrow> False | Some p \<Rightarrow> pj_state p \<in> set TERMINAL_RECEIPT_STATES)
      then map_option (\<lambda>p. ''terminal_receipt:'' @ receipt_value (pj_state p)) (find_projection (rr_receipt_id r) db)
      else case find_effect (rr_command_id r) db of
             None \<Rightarrow> None
           | Some e \<Rightarrow>
               if fx_state e = PROVEN_UNSENT then Some ''proven_unsent''
               else if fx_disposition e = SEND_REJECTED then Some ''venue_rejected''
               else None)"

definition has_fill :: "risk_reservation \<Rightarrow> exec_db \<Rightarrow> bool" where
  "has_fill r db \<longleftrightarrow> 0 < rr_converted_trade_slots r \<or> list_ex (\<lambda>f. ff_command f = rr_command_id r) (xd_fills db)"

definition orphan_cause :: "int \<Rightarrow> risk_reservation \<Rightarrow> exec_db \<Rightarrow> string option" where
  "orphan_cause now r db =
     (case find_plan (rr_plan_revision_id r) db of
        None \<Rightarrow> None
      | Some plan \<Rightarrow>
          if xp_venue plan \<noteq> INTERNAL_PAPER_VENUE then None
          else case terminal_cause r db of
                 Some cause \<Rightarrow> Some cause
               | None \<Rightarrow>
                   if has_fill r db then None
                   else if PAPER_UNFILLED_RESERVATION_MAX_AGE < now - rr_created_at r then Some ''aged_unfilled''
                   else None)"

definition paper_reservations_for_roll :: "exec_env \<Rightarrow> string \<Rightarrow> string \<Rightarrow> exec_db \<Rightarrow> risk_reservation list" where
  "paper_reservations_for_roll env org acc db =
     filter (\<lambda>r. rr_org r = org \<and> rr_account r = acc \<and> rr_release_state r \<noteq> RELEASED \<and> \<not> xe_held env (rr_id r)) (xd_reservations db)"

definition audit_orphan_release :: "risk_reservation \<Rightarrow> string \<Rightarrow> string \<Rightarrow> int \<Rightarrow> exec_db \<Rightarrow> exec_db" where
  "audit_orphan_release r user cause slots db =
     db\<lparr>xd_audit := xd_audit db @ [\<lparr>ra_reservation = rr_id r, ra_user = user, ra_cause = cause, ra_slots_released = slots\<rparr>]\<rparr>"

fun release_orphans :: "int \<Rightarrow> string \<Rightarrow> risk_reservation list \<Rightarrow> account_row \<Rightarrow> exec_db \<Rightarrow> account_row \<times> exec_db" where
  "release_orphans now user [] a db = (a, db)"
| "release_orphans now user (r # rs) a db =
     (case orphan_cause now r db of
        None \<Rightarrow> release_orphans now user rs a db
      | Some cause \<Rightarrow>
          (case release_reservation_remainder a r cause of (slots, a1, r1) \<Rightarrow>
             release_orphans now user rs a1 (audit_orphan_release r1 user cause slots (put_reservation r1 db))))"

definition roll_daily_trade_slots :: "exec_env \<Rightarrow> account_row \<Rightarrow> string \<Rightarrow> int \<Rightarrow> exec_db \<Rightarrow> account_row \<times> exec_db" where
  "roll_daily_trade_slots env a user now db =
     (let settings = get_settings (xe_zones env) (ar_org a) user (xd_portfolio db);
          today = paper_trading_day (xe_zones env) now (st_timezone settings)
      in if ar_trade_slot_business_date a = Some today then (a, db)
         else case release_orphans now user (paper_reservations_for_roll env (ar_org a) (ar_account a) db) a db of (a1, db1) \<Rightarrow>
              let a2 = a1\<lparr>acc_actual_trade_count := 0, acc_max_trade_slots := st_max_trades_per_day settings,
                          ar_trade_slot_business_date := Some today, ar_version := ar_version a1 + 1\<rparr>
              in (a2, put_accounting a2 db1))"

definition new_accounting :: "exec_env \<Rightarrow> string \<Rightarrow> string \<Rightarrow> string \<Rightarrow> string \<Rightarrow> int option \<Rightarrow> exec_db \<Rightarrow> account_row" where
  "new_accounting env org acc user unit business_day db =
     (let settings = get_settings (xe_zones env) org user (xd_portfolio db);
          balance = st_default_account_balance settings
      in \<lparr>acc_daily_locked = False, acc_max_notional = balance, acc_reserved_notional = 0, acc_actual_notional = 0,
          acc_max_daily_loss = (case st_daily_loss_limit settings of None \<Rightarrow> balance | Some x \<Rightarrow> if x = 0 then balance else x),
          acc_reserved_daily_loss = 0, acc_actual_daily_loss = 0, acc_max_trade_slots = st_max_trades_per_day settings,
          acc_reserved_trade_slots = 0, acc_actual_trade_count = 0, acc_max_symbol_notional = balance,
          acc_symbol_reserved = Map.empty, acc_symbol_actual = Map.empty, ar_org = org, ar_account = acc,
          ar_exposure_unit = unit, ar_trade_slot_business_date = business_day, ar_version = 1\<rparr>)"

text \<open>
  The insert-or-lock: another session may have inserted the row between the read and the insert, which
  then keeps that row.
\<close>

definition lock_risk_accounting ::
    "exec_env \<Rightarrow> string \<Rightarrow> string \<Rightarrow> string \<Rightarrow> string \<Rightarrow> int \<Rightarrow> bool \<Rightarrow> exec_db \<Rightarrow> account_row \<times> exec_db" where
  "lock_risk_accounting env org acc user unit now roll db =
     (let finish = (\<lambda>a db. if roll then roll_daily_trade_slots env a user now db else (a, db))
      in case find_accounting org acc db of
           Some existing \<Rightarrow> finish existing db
         | None \<Rightarrow>
             let settings = get_settings (xe_zones env) org user (xd_portfolio db);
                 business_day = (if roll then Some (paper_trading_day (xe_zones env) now (st_timezone settings)) else None);
                 row = new_accounting env org acc user unit business_day db;
                 db1 = xe_others env db
             in case find_accounting org acc db1 of
                  Some locked \<Rightarrow> finish locked db1
                | None \<Rightarrow> finish row (db1\<lparr>xd_accounting := xd_accounting db1 @ [row]\<rparr>))"

end
