(* ===== verification/Execution_Claim.thy ===== *)
theory Execution_Claim
  imports Execution_Ledger
begin

text \<open>
  The claim of a plan, \<open>PaperPlanClaimService\<close> of \<^verbatim>\<open>services/execution_claim.py\<close>: the request is bound to its
  idempotency key, the plan and its authorization are checked again, the epoch of the account and its
  ledger row are locked, and the claim is stored as blocked or as admitted, with its reservation, its
  receipt and its submit effect.

  The claim is one transaction: an exception leaves nothing behind, so it is the answer \<open>Inl\<close>. A receipt
  is created together with its command and is kept in the command's row. What other sessions commit
  between the first reads and the lock of the key is \<open>earlier\<close>. The answers of code outside this file are
  arguments: the checks of the process and the settings, the hash of the canonical payload, the planned
  reward and risk, the two hooks, the history of the demo account, the experiment registry and the
  profile's caps.
\<close>

section \<open>Requests\<close>

definition SUBMIT_ENTRY_NAMESPACE :: string where "SUBMIT_ENTRY_NAMESPACE = ''alphatrade/submit-entry/v1''"

definition EXECUTE_PAPER_PLAN :: string where "EXECUTE_PAPER_PLAN = ''execute_paper_plan''"

record claim_request =
  cq_org :: string
  cq_user :: string
  cq_account :: string
  cq_authorization :: string
  cq_revision :: string
  cq_key :: string
  cq_action :: string

record claim_inputs =
  ci_process :: "unit res"
  ci_real_trading :: bool
  ci_decision_action :: "string option"
  ci_account_enabled :: bool
  ci_payload :: "execution_plan \<Rightarrow> authorization \<Rightarrow> string res"
  ci_reward_risk :: "execution_plan \<Rightarrow> string option"
  ci_revalidate :: "execution_plan \<Rightarrow> authorization \<Rightarrow> string option"
  ci_demo_history :: bool
  ci_experiment_refusal :: "string option"
  ci_manual_capacity :: "string option option"
  ci_profile_caps :: "string + ledger_caps option"

record claim_ids =
  id_command :: string
  id_receipt :: string
  id_reservation :: string
  id_second_command :: string
  id_second_receipt :: string
  id_client_order :: string

definition assert_entry_boundary :: "claim_inputs \<Rightarrow> claim_request \<Rightarrow> unit res" where
  "assert_entry_boundary inp q =
     res_bind (ci_process inp) (\<lambda>_.
     if ci_real_trading inp then Inl (Rejected ''real_trading_enabled'')
     else if cq_key q = [] then Inl (Rejected ''missing_idempotency_key'')
     else if ci_decision_action inp \<noteq> None \<and> ci_decision_action inp \<noteq> Some EXECUTE_PAPER_PLAN then Inl (Rejected ''requested_action'')
     else if cq_action q \<noteq> EXECUTE_PAPER_PLAN then Inl (Rejected ''requested_action'')
     else Inr ())"

definition get_scoped_plan :: "claim_request \<Rightarrow> exec_db \<Rightarrow> execution_plan option" where
  "get_scoped_plan q db = find (\<lambda>p. xp_revision_id p = cq_revision q \<and> xp_org p = cq_org q \<and> xp_user p = cq_user q) (xd_plans db)"

definition find_authorization :: "string \<Rightarrow> exec_db \<Rightarrow> authorization option" where
  "find_authorization auth db = find (\<lambda>a. au_id a = auth) (xd_authorizations db)"

definition find_binding :: "string \<Rightarrow> string \<Rightarrow> exec_db \<Rightarrow> idempotency_binding option" where
  "find_binding org key db = find (\<lambda>b. ib_org b = org \<and> ib_key b = key) (xd_bindings db)"

definition insert_or_lock_idempotency :: "claim_request \<Rightarrow> execution_plan \<Rightarrow> string \<Rightarrow> exec_db \<Rightarrow> idempotency_binding \<times> exec_db" where
  "insert_or_lock_idempotency q plan payload db =
     (case find_binding (cq_org q) (cq_key q) db of
        Some locked \<Rightarrow> (locked, db)
      | None \<Rightarrow>
          let row = \<lparr>ib_org = cq_org q, ib_user = cq_user q, ib_account = cq_account q, ib_namespace = SUBMIT_ENTRY_NAMESPACE,
                     ib_key = cq_key q, ib_payload_hash = payload, ib_revision_id = xp_revision_id plan,
                     ib_command = None, ib_receipt = None, ib_outcome = None\<rparr>
          in (row, db\<lparr>xd_bindings := xd_bindings db @ [row]\<rparr>))"

definition assert_binding_matches :: "idempotency_binding \<Rightarrow> claim_request \<Rightarrow> execution_plan \<Rightarrow> string \<Rightarrow> unit res" where
  "assert_binding_matches b q plan payload =
     (if ib_user b \<noteq> cq_user q then Inl (Rejected ''idempotency_principal_conflict'')
      else if ib_account b \<noteq> cq_account q then Inl (Rejected ''idempotency_account_conflict'')
      else if ib_namespace b \<noteq> SUBMIT_ENTRY_NAMESPACE then Inl (Rejected ''idempotency_operation_conflict'')
      else if ib_payload_hash b \<noteq> payload then Inl (Rejected ''idempotency_payload_conflict'')
      else if ib_revision_id b \<noteq> xp_revision_id plan then Inl (Rejected ''idempotency_plan_conflict'')
      else Inr ())"

definition revalidate_without_consuming :: "claim_inputs \<Rightarrow> execution_plan \<Rightarrow> authorization \<Rightarrow> claim_request \<Rightarrow> int \<Rightarrow> string option" where
  "revalidate_without_consuming inp plan auth q now =
     (if au_state auth \<noteq> AUTH_AVAILABLE then Some ''authorization_unavailable''
      else if au_expires_at auth \<le> now then Some ''authorization_expired''
      else if now < xp_valid_from plan \<or> xp_valid_until plan \<le> now then Some ''plan_validity_window''
      else if xp_account plan \<noteq> au_account auth then Some ''account_mismatch''
      else if xp_account plan \<noteq> cq_account q then Some ''account_mismatch''
      else if xp_content_hash plan \<noteq> au_plan_hash auth then Some ''plan_hash_mismatch''
      else case ci_reward_risk inp plan of
             Some reason \<Rightarrow> Some reason
           | None \<Rightarrow> ci_revalidate inp plan auth)"

section \<open>The claim transaction\<close>

definition locked_epoch :: "exec_env \<Rightarrow> string \<Rightarrow> string \<Rightarrow> exec_db \<Rightarrow> safety_epoch \<times> exec_db" where
  "locked_epoch env org acc db =
     (case lock_epoch (xe_global_active env) (xe_switch_others env) org acc (xd_switch db) of
        (epoch, sdb) \<Rightarrow> (epoch, db\<lparr>xd_switch := sdb\<rparr>))"

definition kill_active_for :: "exec_env \<Rightarrow> string \<Rightarrow> exec_db \<Rightarrow> bool" where
  "kill_active_for env org db = organization_kill_active (xe_global_active env) org (xd_switch db)"

definition new_projection :: "string \<Rightarrow> receipt_state \<Rightarrow> rat \<Rightarrow> string \<Rightarrow> projection" where
  "new_projection receipt state remaining unit =
     \<lparr>pj_receipt = receipt, pj_version = 1, pj_state = state, pj_filled = 0, pj_remaining = remaining, pj_quantity_unit = unit,
      pj_weighted = None, pj_reconciliation = RECON_NOT_REQUIRED, pj_watermark = 1\<rparr>"

definition ids_taken :: "string \<Rightarrow> string \<Rightarrow> exec_db \<Rightarrow> bool" where
  "ids_taken cid rid db \<longleftrightarrow> list_ex (\<lambda>c. xc_id c = cid \<or> xc_receipt_id c = rid) (xd_commands db)"

definition persist_blocked ::
    "execution_plan \<Rightarrow> claim_request \<Rightarrow> string \<Rightarrow> string \<Rightarrow> string \<Rightarrow> string \<Rightarrow> reservation_intent \<Rightarrow> int \<Rightarrow> exec_db \<Rightarrow> exec_db res" where
  "persist_blocked plan q payload cid rid reason intent now db =
     (if ids_taken cid rid db then Inl IntegrityError else
      let command = \<lparr>xc_id = cid, xc_org = cq_org q, xc_user = cq_user q, xc_account = xp_account plan, xc_revision_id = xp_revision_id plan,
                     xc_receipt_id = rid, xc_authorization = cq_authorization q, xc_payload_hash = payload, xc_key = cq_key q,
                     xc_outcome = OUTCOME_BLOCKED, xc_blocked_reason = Some reason\<rparr>;
          db1 = db\<lparr>xd_commands := xd_commands db @ [command]\<rparr>;
          db2 = snd (append_transition rid None RECEIPT_BLOCKED ''claim_predicate_block'' reason now ''execution_service'' None None db1)
      in Inr (db2\<lparr>xd_projections := xd_projections db2 @
           [new_projection rid RECEIPT_BLOCKED (ri_remaining_quantity intent) (ri_quantity_unit intent)]\<rparr>))"

definition compare_and_set_available_to_consumed :: "claim_request \<Rightarrow> string \<Rightarrow> exec_db \<Rightarrow> exec_db option" where
  "compare_and_set_available_to_consumed q cid db =
     (let hit = (\<lambda>a. au_id a = cq_authorization q \<and> au_org a = cq_org q \<and> au_user a = cq_user q \<and> au_account a = cq_account q
                    \<and> au_state a = AUTH_AVAILABLE)
      in if list_ex hit (xd_authorizations db)
         then Some (db\<lparr>xd_authorizations := map (\<lambda>a. if hit a then a\<lparr>au_state := AUTH_CONSUMED, au_consumed_by := Some cid\<rparr> else a)
                          (xd_authorizations db)\<rparr>)
         else None)"

definition reservation_of :: "claim_ids \<Rightarrow> execution_plan \<Rightarrow> string \<Rightarrow> string \<Rightarrow> int \<Rightarrow> reservation_intent \<Rightarrow> int \<Rightarrow> risk_reservation" where
  "reservation_of ids plan org acc epoch_value intent now =
     \<lparr>rr_id = id_reservation ids, rr_org = org, rr_account = acc, rr_plan_revision_id = xp_revision_id plan,
      rr_command_id = id_command ids, rr_receipt_id = id_receipt ids, rr_instrument = ri_instrument intent,
      rr_daily_trade_allocation = ri_trade_slots intent, rr_daily_loss_allocation = ri_daily_loss intent,
      rr_remaining_reserved_notional = ri_pending_notional intent, rr_converted_trade_slots = 0,
      rr_contract_multiplier = ri_contract_multiplier intent, rr_contract_type = ri_contract_type intent,
      rr_quantity_unit = ri_quantity_unit intent, rr_exposure_unit = ri_exposure_unit intent, rr_safety_epoch = epoch_value,
      rr_release_state = CHARGED, rr_release_reason = None, rr_created_at = now\<rparr>"

definition effect_of :: "string \<Rightarrow> string \<Rightarrow> int \<Rightarrow> submit_effect" where
  "effect_of cid client_order_id epoch_value =
     \<lparr>fx_command = cid, fx_client_order_id = client_order_id, fx_state = EFFECT_CREATED, fx_lease_owner = None, fx_lease_expires_at = None, fx_fencing_token = 0,
      fx_attempt = 0, fx_dispatch_authorized_at = None, fx_dispatch_safety_epoch = None, fx_dispatch_fencing_token = None,
      fx_dispatch_attempt = None, fx_safety_epoch = epoch_value, fx_uncertainty = False, fx_disposition = NOT_SENT\<rparr>"

definition persist_allow ::
    "execution_plan \<Rightarrow> claim_request \<Rightarrow> string \<Rightarrow> claim_ids \<Rightarrow> int \<Rightarrow> account_row \<Rightarrow> reservation_intent \<Rightarrow> int \<Rightarrow> exec_db
     \<Rightarrow> (command_outcome \<times> exec_db) res" where
  "persist_allow plan q payload ids epoch_value a intent now db =
     (let org = cq_org q; acc = cq_account q
      in if ids_taken (id_command ids) (id_receipt ids) db then Inl IntegrityError
      else if (org, acc, xp_revision_id plan) \<in> set (xd_claims db) then
        res_bind (persist_blocked plan q payload (id_second_command ids) (id_second_receipt ids) ''plan_entry_already_claimed'' intent now db)
          (\<lambda>db1. Inr (OUTCOME_BLOCKED, db1))
      else
        let command = \<lparr>xc_id = id_command ids, xc_org = org, xc_user = cq_user q, xc_account = acc, xc_revision_id = xp_revision_id plan,
                       xc_receipt_id = id_receipt ids, xc_authorization = cq_authorization q, xc_payload_hash = payload, xc_key = cq_key q,
                       xc_outcome = OUTCOME_ALLOW, xc_blocked_reason = None\<rparr>;
            db0 = db\<lparr>xd_commands := xd_commands db @ [command], xd_claims := xd_claims db @ [(org, acc, xp_revision_id plan)]\<rparr>
        in case compare_and_set_available_to_consumed q (id_command ids) db0 of
             None \<Rightarrow> Inl (Rejected ''authorization_consume_conflict'')
           | Some db1 \<Rightarrow>
               if list_ex (\<lambda>r. rr_id r = id_reservation ids) (xd_reservations db1) then Inl IntegrityError else
               let db2 = put_accounting (charge_reservation a intent) db1;
                   db3 = db2\<lparr>xd_reservations := xd_reservations db2 @ [reservation_of ids plan org acc epoch_value intent now]\<rparr>;
                   db4 = snd (append_transition (id_receipt ids) None SUBMITTING ''claim_allow'' (id_command ids) now ''execution_service''
                                (Some (ri_remaining_quantity intent)) None db3);
                   db5 = db4\<lparr>xd_projections := xd_projections db4 @
                                [new_projection (id_receipt ids) SUBMITTING (ri_remaining_quantity intent) (ri_quantity_unit intent)],
                             xd_effects := xd_effects db4 @ [effect_of (id_command ids) (id_client_order ids) epoch_value]\<rparr>
               in Inr (OUTCOME_ALLOW, db5))"

definition claim_refusal ::
    "exec_env \<Rightarrow> claim_inputs \<Rightarrow> string option \<Rightarrow> execution_plan \<Rightarrow> string \<Rightarrow> safety_epoch \<Rightarrow> account_row \<Rightarrow> reservation_intent
     \<Rightarrow> exec_db \<Rightarrow> string option" where
  "claim_refusal env inp blocked_reason plan org epoch a intent db =
     (let demo = (xp_venue plan = ''BLOFIN_DEMO'');
          first = (case blocked_reason of
                     Some reason \<Rightarrow> Some reason
                   | None \<Rightarrow> if demo \<and> ci_demo_history inp then Some ''demo_account_already_claimed'' else None);
          second = (if first = None \<and> demo then ci_experiment_refusal inp else first)
      in case second of
           Some reason \<Rightarrow> Some reason
         | None \<Rightarrow>
             if xp_schema_version plan = ''ManualDemoTradePlanV1'' then
               if ep_blocking epoch \<or> kill_active_for env org db then Some ''safety_epoch_blocking''
               else (case ci_manual_capacity inp of
                       None \<Rightarrow> Some ''manual_demo_account_evidence_required''
                     | Some answer \<Rightarrow> answer)
             else (case ci_profile_caps inp of
                     Inl code \<Rightarrow> Some code
                   | Inr caps \<Rightarrow> evaluate_claim_predicate (ep_blocking epoch) (kill_active_for env org db)
                                   (accounting_view (accounting.truncate a) caps) intent))"

text \<open>The part of \<open>claim\<close> from the lock of the epoch on.\<close>

definition claim_plan ::
    "exec_env \<Rightarrow> claim_inputs \<Rightarrow> string option \<Rightarrow> execution_plan \<Rightarrow> claim_request \<Rightarrow> string \<Rightarrow> claim_ids \<Rightarrow> int \<Rightarrow> exec_db
     \<Rightarrow> (command_outcome \<times> exec_db) res" where
  "claim_plan env inp blocked_reason plan q payload ids now db =
     (case locked_epoch env (cq_org q) (cq_account q) db of (epoch, db1) \<Rightarrow>
      res_bind (conservative_reservation plan) (\<lambda>intent.
      case lock_risk_accounting env (cq_org q) (cq_account q) (cq_user q) (ri_exposure_unit intent) now
             (paper_daily_trade_roll (Some (xp_venue plan))) db1 of
        (a, db2) \<Rightarrow>
          (case claim_refusal env inp blocked_reason plan (cq_org q) epoch a intent db2 of
             Some reason \<Rightarrow>
               res_bind (persist_blocked plan q payload (id_command ids) (id_receipt ids) reason intent now db2)
                 (\<lambda>db3. Inr (OUTCOME_BLOCKED, db3))
           | None \<Rightarrow> persist_allow plan q payload ids (ep_epoch epoch) a intent now db2)))"

section \<open>The idempotent claim\<close>

record claim_result =
  cr_replayed :: bool
  cr_command :: execution_command
  cr_projection :: projection
  cr_effect :: "submit_effect option"
  cr_reservation :: "risk_reservation option"

text \<open>Fees and funding, which the result adds from the journal, are left out.\<close>

definition load_result :: "idempotency_binding \<Rightarrow> bool \<Rightarrow> exec_db \<Rightarrow> claim_result res" where
  "load_result b replayed db =
     (case (ib_command b, ib_receipt b, ib_outcome b) of
        (Some cid, Some rid, Some _) \<Rightarrow>
          (case (find_command cid db, find_projection rid db) of
             (Some c, Some p) \<Rightarrow> Inr \<lparr>cr_replayed = replayed, cr_command = c, cr_projection = p,
                                  cr_effect = find_effect cid db, cr_reservation = find_reservation cid db\<rparr>
           | _ \<Rightarrow> Inl (Rejected ''execution_identity_missing''))
      | _ \<Rightarrow> Inl (Rejected ''idempotency_incomplete''))"

text \<open>The binding of the key is completed with the command the claim has just added.\<close>

definition complete_binding :: "claim_request \<Rightarrow> idempotency_binding \<Rightarrow> exec_db \<Rightarrow> idempotency_binding \<times> exec_db" where
  "complete_binding q b db =
     (let c = last (xd_commands db);
          b1 = b\<lparr>ib_command := Some (xc_id c), ib_receipt := Some (xc_receipt_id c), ib_outcome := Some (xc_outcome c)\<rparr>
      in (b1, db\<lparr>xd_bindings := map (\<lambda>x. if ib_org x = cq_org q \<and> ib_key x = cq_key q then b1 else x) (xd_bindings db)\<rparr>))"

definition claim :: "exec_env \<Rightarrow> (exec_db \<Rightarrow> exec_db) \<Rightarrow> claim_inputs \<Rightarrow> claim_request \<Rightarrow> claim_ids \<Rightarrow> int \<Rightarrow> exec_db \<Rightarrow> (claim_result \<times> exec_db) res" where
  "claim env earlier inp q ids now db =
     res_bind (assert_entry_boundary inp q) (\<lambda>_.
     case get_scoped_plan q db of
       None \<Rightarrow> Inl (Rejected ''not_found'')
     | Some preview \<Rightarrow>
         if (cq_org q, cq_account q) \<notin> set (sw_accounts (xd_switch db)) \<or> \<not> ci_account_enabled inp
         then Inl (Rejected ''execution_account_unavailable'') else
         (case find_authorization (cq_authorization q) db of
            None \<Rightarrow> Inl (Rejected ''not_found'')
          | Some auth_preview \<Rightarrow>
              res_bind (ci_payload inp preview auth_preview) (\<lambda>payload.
              case insert_or_lock_idempotency q preview payload (earlier db) of (b, db1) \<Rightarrow>
              res_bind (assert_binding_matches b q preview payload) (\<lambda>_.
              if ib_command b \<noteq> None \<and> ib_receipt b \<noteq> None
              then res_bind (load_result b True db1) (\<lambda>result. Inr (result, db1))
              else
                (case (get_scoped_plan q db1, find_authorization (cq_authorization q) db1) of
                   (Some plan, Some auth) \<Rightarrow>
                     res_bind (ci_payload inp plan auth) (\<lambda>locked_hash.
                     if locked_hash \<noteq> payload then Inl (Rejected ''canonical_payload_changed'') else
                     res_bind (claim_plan env inp (revalidate_without_consuming inp plan auth q now) plan q payload ids now db1)
                       (\<lambda>(_, db2).
                     case complete_binding q b db2 of (b1, db3) \<Rightarrow>
                     res_bind (load_result b1 False db3) (\<lambda>result. Inr (result, db3))))
                 | _ \<Rightarrow> Inl (Rejected ''not_found''))))))"

end
