(* ===== verification/Dispatch.thy ===== *)
theory Dispatch
  imports Execution_Claim
begin

text \<open>
  The dispatch of an admitted claim to a venue, \<^verbatim>\<open>services/venue_submit_dispatcher.py\<close> with the barrier of
  \<^verbatim>\<open>services/execution_dispatch_boundary.py\<close>: leases, the authorization of a dispatch, the answers of a
  venue, fills and the release of what was not used.

  Every operation is one transaction: an exception leaves nothing behind, so it is the answer \<open>Inl\<close>. The
  answers of code outside these files are arguments: the experiment registry (\<open>registered\<close>), the notional
  verified from the audit log (\<open>verified\<close>) and the hash of a fill (\<open>digest\<close>).
\<close>

section \<open>Releasing what was not used\<close>

text \<open>
  The reservation is one object of the session: what the lock of the ledger wrote to it is read afterwards,
  while \<open>unused\<close> was read before.
\<close>

definition manual_unused :: "(execution_command \<Rightarrow> rat res) \<Rightarrow> execution_command \<Rightarrow> execution_plan option \<Rightarrow> rat \<Rightarrow> rat res" where
  "manual_unused verified c plan unused =
     (case plan of
        None \<Rightarrow> Inr unused
      | Some p \<Rightarrow>
          if xp_schema_version p \<noteq> ''ManualDemoTradePlanV1'' then Inr unused else
          res_bind (verified c) (\<lambda>actual.
          res_bind (conservative_reservation p) (\<lambda>intent.
            let exact_unused = max 0 (dsub (ri_pending_notional intent) actual)
            in if 1 / 10 ^ 8 < dabs (dsub exact_unused unused)
               then Inl (Rejected ''manual_reservation_conflict'')
               else res_bind (quantize8 floor exact_unused) (\<lambda>q. Inr (min unused q)))))"

definition released_account :: "account_row \<Rightarrow> risk_reservation \<Rightarrow> rat \<Rightarrow> account_row" where
  "released_account a r unused =
     a\<lparr>acc_reserved_notional := not_below_zero (dsub (acc_reserved_notional a) unused),
       acc_reserved_daily_loss := (if rr_converted_trade_slots r = 0
          then not_below_zero (dsub (acc_reserved_daily_loss a) (rr_daily_loss_allocation r)) else acc_reserved_daily_loss a),
       acc_reserved_trade_slots := max 0 (acc_reserved_trade_slots a - unconverted r),
       acc_symbol_reserved := (acc_symbol_reserved a)(rr_instrument r \<mapsto>
          max 0 (dsub (symbol_amount (acc_symbol_reserved a) (rr_instrument r)) unused)),
       ar_version := ar_version a + 1\<rparr>"

definition release_unused_reservation ::
    "exec_env \<Rightarrow> (execution_command \<Rightarrow> rat res) \<Rightarrow> string \<Rightarrow> release_reason \<Rightarrow> int \<Rightarrow> exec_db \<Rightarrow> exec_db res" where
  "release_unused_reservation env verified cid reason now db =
     (case find_command cid db of
        None \<Rightarrow> Inl (Rejected ''not_found'')
      | Some c \<Rightarrow>
          let db1 = snd (locked_epoch env (xc_org c) (xc_account c) db)
          in case find_reservation cid db1 of
               None \<Rightarrow> Inr db1
             | Some r \<Rightarrow>
                 if rr_remaining_reserved_notional r \<le> 0 then Inr db1 else
                 let plan = find_plan (xc_revision_id c) db1
                 in res_bind (manual_unused verified c plan (rr_remaining_reserved_notional r)) (\<lambda>unused.
                    case lock_risk_accounting env (xc_org c) (xc_account c) (xc_user c) (rr_exposure_unit r) now
                           (paper_daily_trade_roll (map_option xp_venue plan)) db1 of
                      (a, db2) \<Rightarrow>
                        (case find_reservation cid db2 of
                           None \<Rightarrow> Inl (Rejected ''not_found'')
                         | Some r2 \<Rightarrow>
                             let a1 = released_account a r2 unused;
                                 r3 = r2\<lparr>rr_remaining_reserved_notional := 0, rr_release_state := RELEASED, rr_release_reason := Some reason\<rparr>
                             in Inr (put_accounting a1 (put_reservation r3 db2)))))"

section \<open>Effects and receipts\<close>

definition put_effect :: "submit_effect \<Rightarrow> exec_db \<Rightarrow> exec_db" where
  "put_effect e db = db\<lparr>xd_effects := map (\<lambda>x. if fx_command x = fx_command e then e else x) (xd_effects db)\<rparr>"

definition safety_blocks_dispatch :: "exec_env \<Rightarrow> execution_command \<Rightarrow> safety_epoch \<Rightarrow> int \<Rightarrow> exec_db \<Rightarrow> bool" where
  "safety_blocks_dispatch env c epoch claimed_epoch db =
     (kill_active_for env (xc_org c) db \<or> ep_blocking epoch \<or> ep_epoch epoch \<noteq> claimed_epoch)"

text \<open>A transition of a receipt and of its projection, as every operation below makes it.\<close>

definition record_transition ::
    "exec_env \<Rightarrow> projection \<Rightarrow> receipt_state \<Rightarrow> string \<Rightarrow> string \<Rightarrow> int \<Rightarrow> string \<Rightarrow> rat option \<Rightarrow> rat option
     \<Rightarrow> rat option \<Rightarrow> rat option \<Rightarrow> rat option \<Rightarrow> reconciliation_status option \<Rightarrow> exec_db \<Rightarrow> exec_db res" where
  "record_transition env p state source_fact ident moment actor quantity price filled remaining weighted recon db =
     (case append_transition (pj_receipt p) (Some (pj_state p)) state source_fact ident moment actor quantity price db of
        (t, db1) \<Rightarrow> apply_projection_transition env p t filled remaining weighted recon db1)"

definition with_receipt :: "string \<Rightarrow> (execution_command \<Rightarrow> projection \<Rightarrow> exec_db \<Rightarrow> 'a res) \<Rightarrow> exec_db \<Rightarrow> 'a res" where
  "with_receipt cid f db =
     (case find_command cid db of
        None \<Rightarrow> Inl (Rejected ''not_found'')
      | Some c \<Rightarrow> (case find_projection (xc_receipt_id c) db of
                    None \<Rightarrow> Inl (Rejected ''not_found'')
                  | Some p \<Rightarrow> f c p db))"

definition block_before_dispatch ::
    "exec_env \<Rightarrow> (execution_command \<Rightarrow> rat res) \<Rightarrow> string \<Rightarrow> submit_effect \<Rightarrow> int \<Rightarrow> bool \<Rightarrow> exec_db \<Rightarrow> exec_db res" where
  "block_before_dispatch env verified cid e now release db =
     (if fx_state e = DISPATCH_AUTHORIZED then Inl (Rejected ''already_dispatch_authorized'') else
      with_receipt cid (\<lambda>c p db.
        if pj_state p = BLOCKED_BEFORE_DISPATCH then Inr db else
        res_bind (record_transition env p BLOCKED_BEFORE_DISPATCH ''safety_epoch_block_before_dispatch'' (''epoch:'' @ int_text (fx_safety_epoch e)) now ''safety_epoch''
                    None None None None None (Some RECON_RESOLVED) db) (\<lambda>db1.
          let e1 = e\<lparr>fx_state := PROVEN_UNSENT, fx_uncertainty := False, fx_disposition := SENT_NEVER,
                     fx_lease_owner := None, fx_lease_expires_at := None\<rparr>;
              db2 = put_effect e1 db1
          in if release then release_unused_reservation env verified cid AFTER_PROVEN_UNSENT now db2 else Inr db2)) db)"

definition mark_ambiguous :: "exec_env \<Rightarrow> string \<Rightarrow> int \<Rightarrow> exec_db \<Rightarrow> exec_db res" where
  "mark_ambiguous env cid now db =
     (case find_effect cid db of
        None \<Rightarrow> Inl (Rejected ''not_found'')
      | Some e \<Rightarrow>
          with_receipt cid (\<lambda>c p db.
            case locked_epoch env (xc_org c) (xc_account c) db of (epoch, db1) \<Rightarrow>
            res_bind (record_transition env p RECONCILIATION_REQUIRED ''ambiguous_send'' (''epoch:'' @ int_text (ep_epoch epoch)) now ''execution_service''
                           None None None None None (Some RECON_REQUIRED) db1) (\<lambda>db2.
               Inr (put_effect (e\<lparr>fx_state := SEND_AMBIGUOUS, fx_uncertainty := True, fx_disposition := SEND_UNKNOWN\<rparr>) db2))) db)"

definition mark_acknowledged :: "exec_env \<Rightarrow> string \<Rightarrow> int \<Rightarrow> string \<Rightarrow> exec_db \<Rightarrow> exec_db res" where
  "mark_acknowledged env cid now source db =
     (case find_effect cid db of
        None \<Rightarrow> Inl (Rejected ''not_found'')
      | Some e \<Rightarrow>
          with_receipt cid (\<lambda>c p db.
            res_bind (record_transition env p ACKNOWLEDGED (source @ ''_accepted'') (fx_client_order_id e) now source
                        None None None None None (Some RECON_RESOLVED) db) (\<lambda>db1.
            Inr (put_effect (e\<lparr>fx_state := SEND_ATTEMPTED, fx_uncertainty := False, fx_disposition := SEND_ACCEPTED\<rparr>) db1))) db)"

definition mark_rejected ::
    "exec_env \<Rightarrow> (execution_command \<Rightarrow> rat res) \<Rightarrow> string \<Rightarrow> int \<Rightarrow> string \<Rightarrow> exec_db \<Rightarrow> exec_db res" where
  "mark_rejected env verified cid now source db =
     (case find_effect cid db of
        None \<Rightarrow> Inl (Rejected ''not_found'')
      | Some e \<Rightarrow>
          with_receipt cid (\<lambda>c p db.
            res_bind (record_transition env p RECEIPT_REJECTED (source @ ''_rejected'') (fx_client_order_id e) now source
                        None None None (Some 0) None None db) (\<lambda>db1.
            release_unused_reservation env verified cid AFTER_REJECTION now
              (put_effect (e\<lparr>fx_state := SEND_ATTEMPTED, fx_uncertainty := False, fx_disposition := SEND_REJECTED\<rparr>) db1))) db)"

section \<open>Leases and the authorization to send\<close>

definition lease_effect ::
    "exec_env \<Rightarrow> (execution_command \<Rightarrow> rat res) \<Rightarrow> (execution_command \<Rightarrow> int \<Rightarrow> unit res) \<Rightarrow> string \<Rightarrow> string \<Rightarrow> int \<Rightarrow> int \<Rightarrow> exec_db \<Rightarrow> exec_db res" where
  "lease_effect env verified registered cid owner lease_seconds now db =
     (case find_command cid db of
        None \<Rightarrow> Inl (Rejected ''not_found'')
      | Some c \<Rightarrow>
          res_bind (registered c now) (\<lambda>_.
          case locked_epoch env (xc_org c) (xc_account c) db of (epoch, db1) \<Rightarrow>
          (case find_effect cid db1 of
             None \<Rightarrow> Inl (Rejected ''not_found'')
           | Some e \<Rightarrow>
               if safety_blocks_dispatch env c epoch (fx_safety_epoch e) db1 then block_before_dispatch env verified cid e now True db1
               else if fx_state e = DISPATCH_AUTHORIZED \<or> fx_state e = PROVEN_UNSENT then Inr db1
               else
                 let live = (case fx_lease_expires_at e of None \<Rightarrow> False | Some t \<Rightarrow> now < t)
                 in if fx_state e = LEASED \<and> fx_lease_owner e = Some owner \<and> live then Inr db1
                    else if fx_state e = LEASED \<and> fx_lease_owner e \<noteq> None \<and> fx_lease_owner e \<noteq> Some owner \<and> live
                    then Inl (Rejected ''lease_held'')
                    else if fx_state e \<noteq> EFFECT_CREATED \<and> fx_state e \<noteq> LEASED then Inl (Rejected ''effect_not_leaseable'')
                    else Inr (put_effect (e\<lparr>fx_state := LEASED, fx_lease_owner := Some owner,
                                fx_lease_expires_at := Some (now + lease_seconds * 10 ^ 6),
                                fx_fencing_token := fx_fencing_token e + 1\<rparr>) db1))))"

definition authorize_dispatch ::
    "exec_env \<Rightarrow> (execution_command \<Rightarrow> rat res) \<Rightarrow> (execution_command \<Rightarrow> int \<Rightarrow> unit res) \<Rightarrow> string \<Rightarrow> string \<Rightarrow> int \<Rightarrow> int \<Rightarrow> exec_db \<Rightarrow> exec_db res" where
  "authorize_dispatch env verified registered cid owner fencing_token now db =
     (case find_command cid db of
        None \<Rightarrow> Inl (Rejected ''not_found'')
      | Some c \<Rightarrow>
          res_bind (registered c now) (\<lambda>_.
          case locked_epoch env (xc_org c) (xc_account c) db of (epoch, db1) \<Rightarrow>
          (case find_effect cid db1 of
             None \<Rightarrow> Inl (Rejected ''not_found'')
           | Some e \<Rightarrow>
               if fx_state e = DISPATCH_AUTHORIZED then
                 if (case fx_dispatch_fencing_token e of None \<Rightarrow> - 1 | Some t \<Rightarrow> if t = 0 then - 1 else t) \<noteq> fencing_token
                 then Inl (Rejected ''dispatch_fence_mismatch'') else Inr db1
               else if safety_blocks_dispatch env c epoch (fx_safety_epoch e) db1 then block_before_dispatch env verified cid e now True db1
               else if fx_state e \<noteq> LEASED \<or> fx_lease_owner e \<noteq> Some owner \<or> fx_fencing_token e \<noteq> fencing_token
               then Inl (Rejected ''lease_fence_mismatch'')
               else if (case fx_lease_expires_at e of None \<Rightarrow> False | Some t \<Rightarrow> t \<le> now) then Inl (Rejected ''lease_expired'')
               else Inr (put_effect (e\<lparr>fx_state := DISPATCH_AUTHORIZED, fx_dispatch_authorized_at := Some now,
                           fx_dispatch_safety_epoch := Some (ep_epoch epoch), fx_dispatch_fencing_token := Some fencing_token,
                           fx_attempt := fx_attempt e + 1, fx_dispatch_attempt := Some (fx_attempt e + 1)\<rparr>) db1))))"

section \<open>Sending\<close>

definition require_committed_dispatch_authorization :: "submit_effect option \<Rightarrow> string \<Rightarrow> int \<Rightarrow> unit res" where
  "require_committed_dispatch_authorization snapshot owner fencing_token =
     (case snapshot of
        None \<Rightarrow> Inl (Rejected ''send_before_dispatch_authorization'')
      | Some e \<Rightarrow>
          if fx_state e \<noteq> DISPATCH_AUTHORIZED then Inl (Rejected ''send_before_dispatch_authorization'')
          else if fx_lease_owner e \<noteq> Some owner \<or> fx_dispatch_fencing_token e \<noteq> Some fencing_token
          then Inl (Rejected ''send_fence_mismatch'') else Inr ())"

datatype venue_answer = Venue_Accepted | Venue_Rejected | Venue_Silent | Venue_Error | Crash_Before_Ack

text \<open>
  What is written for each answer of the in-process venue. After an error the ambiguous mark stays and the
  error is raised again; a crash before the acknowledgement writes nothing.
\<close>

definition attempt_fake_send ::
    "exec_env \<Rightarrow> (execution_command \<Rightarrow> rat res) \<Rightarrow> string \<Rightarrow> string \<Rightarrow> int \<Rightarrow> venue_answer \<Rightarrow> int \<Rightarrow> exec_db \<Rightarrow> exec_db res" where
  "attempt_fake_send env verified cid owner fencing_token answer now db =
     res_bind (require_committed_dispatch_authorization (find_effect cid db) owner fencing_token) (\<lambda>_.
     case answer of
       Venue_Accepted \<Rightarrow> mark_acknowledged env cid now ''fake_venue'' db
     | Venue_Rejected \<Rightarrow> mark_rejected env verified cid now ''fake_venue'' db
     | Crash_Before_Ack \<Rightarrow> Inr db
     | _ \<Rightarrow> mark_ambiguous env cid now db)"

definition recover_after_crash ::
    "exec_env \<Rightarrow> (execution_command \<Rightarrow> rat res) \<Rightarrow> (execution_command \<Rightarrow> int \<Rightarrow> unit res) \<Rightarrow> string \<Rightarrow> string \<Rightarrow> int \<Rightarrow> exec_db \<Rightarrow> exec_db res" where
  "recover_after_crash env verified registered cid owner now db =
     (case find_effect cid db of
        None \<Rightarrow> Inl (Rejected ''not_found'')
      | Some e \<Rightarrow>
          if fx_state e = EFFECT_CREATED then lease_effect env verified registered cid owner 30 now db
          else if fx_state e = LEASED then authorize_dispatch env verified registered cid owner (fx_fencing_token e) now db
          else if fx_state e = DISPATCH_AUTHORIZED then mark_ambiguous env cid now db
          else Inr db)"

definition fence_proven_unsent :: "exec_env \<Rightarrow> (execution_command \<Rightarrow> rat res) \<Rightarrow> string \<Rightarrow> int \<Rightarrow> exec_db \<Rightarrow> exec_db res" where
  "fence_proven_unsent env verified cid now db =
     (case find_command cid db of
        None \<Rightarrow> Inl (Rejected ''not_found'')
      | Some c \<Rightarrow>
          let db1 = snd (locked_epoch env (xc_org c) (xc_account c) db)
          in case find_effect cid db1 of
               None \<Rightarrow> Inl (Rejected ''not_found'')
             | Some e \<Rightarrow>
                 if fx_state e \<notin> {EFFECT_CREATED, LEASED, PROVEN_UNSENT} \<or> fx_dispatch_authorized_at e \<noteq> None \<or> fx_uncertainty e
                 then Inl (Rejected ''dispatch_may_have_occurred'')
                 else if fx_state e = PROVEN_UNSENT then Inr db1
                 else let e1 = e\<lparr>fx_fencing_token := fx_fencing_token e + 1\<rparr>
                      in block_before_dispatch env verified cid e1 now False (put_effect e1 db1))"

text \<open>
  The governed demo send in its three transactions. The first consumes the authorization by marking the
  send ambiguous before any request leaves, and tells whether a request may follow; the second is the
  gate directly before the request; the third records the answer. \<open>plan_expired\<close> compares the plan's
  validity with the clock; settings and plan binding are checked by \<open>armed\<close>.
\<close>

definition begin_demo_send ::
    "exec_env \<Rightarrow> (execution_command \<Rightarrow> unit res) \<Rightarrow> bool \<Rightarrow> string \<Rightarrow> string \<Rightarrow> int \<Rightarrow> int \<Rightarrow> exec_db \<Rightarrow> (bool \<times> exec_db) res" where
  "begin_demo_send env armed plan_expired cid owner fencing_token now db =
     res_bind (require_committed_dispatch_authorization (find_effect cid db) owner fencing_token) (\<lambda>_.
     case find_command cid db of
       None \<Rightarrow> Inl (Rejected ''not_found'')
     | Some c \<Rightarrow>
         case locked_epoch env (xc_org c) (xc_account c) db of (epoch, db1) \<Rightarrow>
         (case find_effect cid db1 of
            None \<Rightarrow> Inl (Rejected ''not_found'')
          | Some e \<Rightarrow>
              if fx_state e \<noteq> DISPATCH_AUTHORIZED then Inl (Rejected ''demo_send_already_consumed'') else
              res_bind (armed c) (\<lambda>_.
              res_bind (mark_ambiguous env cid now db1) (\<lambda>db2.
                Inr (\<not> safety_blocks_dispatch env c epoch (fx_safety_epoch e) db1 \<and> \<not> plan_expired, db2)))))"

definition verify_demo_send_gate ::
    "exec_env \<Rightarrow> (execution_command \<Rightarrow> int \<Rightarrow> unit res) \<Rightarrow> bool \<Rightarrow> string \<Rightarrow> string \<Rightarrow> int \<Rightarrow> int \<Rightarrow> exec_db \<Rightarrow> exec_db res" where
  "verify_demo_send_gate env registered plan_expired cid owner fencing_token now db =
     (case find_command cid db of
        None \<Rightarrow> Inl (Rejected ''not_found'')
      | Some c \<Rightarrow>
          res_bind (registered c now) (\<lambda>_.
          case locked_epoch env (xc_org c) (xc_account c) db of (epoch, db1) \<Rightarrow>
          (case find_effect cid db1 of
             None \<Rightarrow> Inl (Rejected ''not_found'')
           | Some e \<Rightarrow>
               if fx_state e \<noteq> SEND_AMBIGUOUS \<or> fx_lease_owner e \<noteq> Some owner \<or> fx_dispatch_fencing_token e \<noteq> Some fencing_token
                 \<or> safety_blocks_dispatch env c epoch (fx_safety_epoch e) db1 \<or> plan_expired
               then Inl (Rejected ''demo_final_dispatch_refused'') else Inr db1)))"

definition finish_demo_send ::
    "exec_env \<Rightarrow> (execution_command \<Rightarrow> rat res) \<Rightarrow> string \<Rightarrow> venue_answer \<Rightarrow> int \<Rightarrow> exec_db \<Rightarrow> exec_db res" where
  "finish_demo_send env verified cid answer now db =
     (case answer of
        Venue_Accepted \<Rightarrow> mark_acknowledged env cid now ''blofin_demo'' db
      | Venue_Rejected \<Rightarrow> mark_rejected env verified cid now ''blofin_demo'' db
      | _ \<Rightarrow> Inr db)"

definition record_demo_order :: "exec_env \<Rightarrow> (execution_command \<Rightarrow> rat res) \<Rightarrow> string \<Rightarrow> bool \<Rightarrow> int \<Rightarrow> exec_db \<Rightarrow> exec_db res" where
  "record_demo_order env verified cid rejected now db =
     (case find_effect cid db of
        None \<Rightarrow> Inl (Rejected ''not_found'')
      | Some e \<Rightarrow>
          if rejected then
            if fx_disposition e = SEND_REJECTED \<and> \<not> fx_uncertainty e then Inr db
            else mark_rejected env verified cid now ''blofin_demo'' db
          else if fx_state e = SEND_ATTEMPTED \<and> \<not> fx_uncertainty e then Inr db
          else mark_acknowledged env cid now ''blofin_demo'' db)"

definition record_demo_terminal :: "exec_env \<Rightarrow> (execution_command \<Rightarrow> rat res) \<Rightarrow> string \<Rightarrow> int \<Rightarrow> exec_db \<Rightarrow> exec_db res" where
  "record_demo_terminal env verified cid now db =
     (case find_command cid db of
        None \<Rightarrow> Inl (Rejected ''not_found'')
      | Some c \<Rightarrow>
          let db1 = snd (locked_epoch env (xc_org c) (xc_account c) db)
          in case find_effect cid db1 of
               None \<Rightarrow> Inl (Rejected ''not_found'')
             | Some e \<Rightarrow>
                 with_receipt cid (\<lambda>c p db.
                   if pj_state p = RECEIPT_CANCELLED \<or> pj_state p = PARTIALLY_FILLED_CANCELLED then Inr db else
                   let state = (if pj_filled p \<noteq> 0 then PARTIALLY_FILLED_CANCELLED else RECEIPT_CANCELLED)
                   in res_bind (record_transition env p state ''blofin_demo_cancelled'' (fx_client_order_id e) now ''blofin_demo''
                                  None None None (Some 0) None (Some RECON_RESOLVED) db) (\<lambda>db1.
                      release_unused_reservation env verified cid AFTER_CANCELLATION now db1)) db1)"

section \<open>Fills\<close>

definition find_fill :: "string \<Rightarrow> string \<Rightarrow> exec_db \<Rightarrow> fill_fact option" where
  "find_fill receipt source db = find (\<lambda>f. ff_receipt f = receipt \<and> ff_source_identity f = source) (xd_fills db)"

text \<open>
  \<open>digest\<close> is the content hash of a fill: receipt, command, venue, source identity, quantity, price, unit and
  time. The Boolean answer tells a replay.
\<close>

definition apply_unique_fill ::
    "exec_env \<Rightarrow> (string \<Rightarrow> string \<Rightarrow> string \<Rightarrow> string \<Rightarrow> rat \<Rightarrow> rat \<Rightarrow> string \<Rightarrow> int \<Rightarrow> string) \<Rightarrow> string \<Rightarrow> num \<Rightarrow> num \<Rightarrow> string \<Rightarrow> int \<Rightarrow> string \<Rightarrow> int
     \<Rightarrow> exec_db \<Rightarrow> (bool \<times> exec_db) res" where
  "apply_unique_fill env digest cid fill_quantity fill_price source occurred_at venue now db =
     (if strip source = '''' then Inl (Rejected ''missing_source_fill_identity'') else
      case (fill_quantity, fill_price) of
        (Fin q, Fin price) \<Rightarrow>
          if q \<le> 0 \<or> price \<le> 0 then Inl (Rejected ''invalid_fill_amounts'') else
          (case find_command cid db of
             None \<Rightarrow> Inl (Rejected ''not_found'')
           | Some c \<Rightarrow>
               let db1 = snd (locked_epoch env (xc_org c) (xc_account c) db); receipt = xc_receipt_id c
               in case (find_projection receipt db1, find_reservation cid db1) of
                    (Some p, Some r) \<Rightarrow>
                      let hash = digest receipt cid venue source q price (pj_quantity_unit p) occurred_at
                      in (case find_fill receipt source db1 of
                            Some existing \<Rightarrow>
                              if ff_content_hash existing = hash then Inr (True, db1) else Inl (Rejected ''conflicting_fill_identity'')
                          | None \<Rightarrow>
                              if pj_remaining p < q then Inl (Rejected ''fill_exceeds_authorized_quantity'') else
                              let fill = \<lparr>ff_command = cid, ff_receipt = receipt, ff_source_identity = source, ff_quantity = q,
                                          ff_price = price, ff_content_hash = hash\<rparr>;
                                  db2 = db1\<lparr>xd_fills := xd_fills db1 @ [fill]\<rparr>;
                                  roll = paper_daily_trade_roll (map_option xp_venue (find_plan (xc_revision_id c) db2))
                              in case lock_risk_accounting env (xc_org c) (xc_account c) (xc_user c) (rr_exposure_unit r) now roll db2 of
                                   (a, db3) \<Rightarrow>
                                     (case find_reservation cid db3 of
                                        None \<Rightarrow> Inl (Rejected ''not_found'')
                                      | Some r3 \<Rightarrow>
                                          res_bind (convert_reservation_for_fill r3 a q price) (\<lambda>(r4, a4).
                                          let new_remaining = not_below_zero (dsub (pj_remaining p) q);
                                              state = (if new_remaining = 0 then ACKNOWLEDGED else PARTIALLY_FILLED)
                                          in res_bind (cumulative_weighted_price (pj_filled p) (pj_weighted p) q price) (\<lambda>weighted.
                                             res_bind (record_transition env p state ''unique_fill'' source occurred_at ''execution_service''
                                                         (Some q) (Some price) (Some (dadd (pj_filled p) q)) (Some new_remaining)
                                                         (Some weighted) None (put_accounting a4 (put_reservation r4 db3)))
                                               (\<lambda>db4. Inr (False, db4))))))
                  | _ \<Rightarrow> Inl (Rejected ''not_found''))
      | _ \<Rightarrow> Inl (Rejected ''invalid_fill_amounts''))"

end
