(* ===== verification/Execution_Safety.thy ===== *)
theory Execution_Safety
  imports Dispatch
begin

text \<open>
  The trade slots of an account: \<open>slots_ok\<close> states that the ledger row of every account reserves exactly
  the slots its unreleased reservations hold, and each write of the protocol keeps it: the lock of the
  ledger with its daily roll, a claim, a fill, and a release that does not meet a roll.
\<close>

section \<open>Replacing rows\<close>

lemma sum_list_replace:
  fixes f :: "'a \<Rightarrow> int"
  assumes "distinct (map key xs)" "r \<in> set xs" "key r' = key r"
  shows "sum_list (map f (map (\<lambda>x. if key x = key r' then r' else x) xs)) = sum_list (map f xs) - f r + f r'"
  using assms(1,2)
proof (induction xs)
  case (Cons x xs)
  show ?case
  proof (cases "r = x")
    case True
    then have "key r' \<notin> key ` set xs" using Cons.prems(1) assms(3) by simp
    then have "key y \<noteq> key r'" if "y \<in> set xs" for y using that by (metis imageI)
    then have "map (\<lambda>y. if key y = key r' then r' else y) xs = xs" by (intro map_idI) simp
    then show ?thesis using True assms(3) by (simp del: map_map)
  next
    case False
    then have "r \<in> set xs" "key x \<noteq> key r'" using Cons.prems assms(3) by auto
    then show ?thesis using Cons by simp
  qed
qed simp

lemma map_key_replace: "map key (map (\<lambda>x. if key x = key r then r else x) xs) = map key xs"
  by simp

section \<open>The slots of an account\<close>

definition holds_slots :: "string \<Rightarrow> string \<Rightarrow> risk_reservation \<Rightarrow> int" where
  "holds_slots org acc r = (if rr_org r = org \<and> rr_account r = acc \<and> rr_release_state r \<noteq> RELEASED then unconverted r else 0)"

definition held_slots :: "string \<Rightarrow> string \<Rightarrow> exec_db \<Rightarrow> int" where
  "held_slots org acc db = sum_list (map (holds_slots org acc) (xd_reservations db))"

definition ledger_slots :: "string \<Rightarrow> string \<Rightarrow> exec_db \<Rightarrow> int" where
  "ledger_slots org acc db = (case find_accounting org acc db of None \<Rightarrow> 0 | Some a \<Rightarrow> acc_reserved_trade_slots a)"

definition rows_ok :: "exec_db \<Rightarrow> bool" where
  "rows_ok db \<longleftrightarrow> distinct (map rr_id (xd_reservations db)) \<and> distinct (map xc_id (xd_commands db))
     \<and> (\<forall>r \<in> set (xd_reservations db). (rr_release_state r = RELEASED \<longrightarrow> rr_remaining_reserved_notional r = 0)
          \<and> find_accounting (rr_org r) (rr_account r) db \<noteq> None
          \<and> (\<exists>c \<in> set (xd_commands db). xc_id c = rr_command_id r \<and> xc_org c = rr_org r \<and> xc_account c = rr_account r))"

text \<open>The Boolean tells whether the slots are claimed to agree as well.\<close>

definition slots_ok :: "bool \<Rightarrow> exec_db \<Rightarrow> bool" where
  "slots_ok k db \<longleftrightarrow> rows_ok db \<and> (k \<longrightarrow> (\<forall>org acc. ledger_slots org acc db = held_slots org acc db))"

lemma holds_slots_nonneg [simp]: "0 \<le> holds_slots org acc r"
  by (simp add: holds_slots_def unconverted_def)

lemma held_slots_ge: "r \<in> set (xd_reservations db) \<Longrightarrow> holds_slots org acc r \<le> held_slots org acc db"
  unfolding held_slots_def by (rule member_le_sum_list) auto

lemma held_put_reservation:
  assumes "distinct (map rr_id (xd_reservations db))" "r \<in> set (xd_reservations db)" "rr_id r' = rr_id r"
  shows "held_slots org acc (put_reservation r' db) = held_slots org acc db - holds_slots org acc r + holds_slots org acc r'"
  using sum_list_replace [OF assms(1,2), of r' "holds_slots org acc"] assms(3)
  by (simp add: held_slots_def put_reservation_def)

text \<open>
  A table read by its key and updated row by row. The update replaces the row of its key if there is one
  and never adds a row.
\<close>

locale row_store =
  fixes get :: "'k \<Rightarrow> 'db \<Rightarrow> 'r option" and put :: "'r \<Rightarrow> 'db \<Rightarrow> 'db" and key :: "'r \<Rightarrow> 'k"
  assumes get_put: "get k (put r db) = (if key r = k then map_option (\<lambda>_. r) (get k db) else get k db)"
    and get_key: "get k db = Some r \<Longrightarrow> key r = k"
begin

lemma get_put_same: "get (key r) db \<noteq> None \<Longrightarrow> get (key r) (put r db) = Some r"
  by (auto simp: get_put)

lemma get_put_other: "key r \<noteq> k \<Longrightarrow> get k (put r db) = get k db"
  by (simp add: get_put)

lemma put_keeps: "get k (put r db) = None \<longleftrightarrow> get k db = None"
  by (simp add: get_put)

lemma get_put_cases:
  assumes "get k (put r db) = Some x"
  obtains (same) "key r = k" "x = r" "get k db \<noteq> None" | (other) "key r \<noteq> k" "get k db = Some x"
  using assms by (auto simp: get_put split: if_splits)

end

lemma find_replace_row:
  "find (\<lambda>x. key x = k) (map (\<lambda>x. if key x = key r then r else x) xs)
     = (if key r = k then map_option (\<lambda>_. r) (find (\<lambda>x. key x = k) xs) else find (\<lambda>x. key x = k) xs)"
  by (induction xs) auto

interpretation accounts: row_store "\<lambda>(org, acc). find_accounting org acc" put_accounting "\<lambda>a. (ar_org a, ar_account a)"
proof
  fix k :: "string \<times> string" and r db
  obtain org acc where k: "k = (org, acc)" by fastforce
  show "(case k of (org, acc) \<Rightarrow> find_accounting org acc) (put_accounting r db)
      = (if (ar_org r, ar_account r) = k then map_option (\<lambda>_. r) ((case k of (org, acc) \<Rightarrow> find_accounting org acc) db)
         else (case k of (org, acc) \<Rightarrow> find_accounting org acc) db)"
    using find_replace_row [of "\<lambda>a. (ar_org a, ar_account a)" k r "xd_accounting db"] by (simp add: k find_accounting_def put_accounting_def)
  show "(case k of (org, acc) \<Rightarrow> find_accounting org acc) db = Some r \<Longrightarrow> (ar_org r, ar_account r) = k"
    by (auto simp: k find_accounting_def find_Some_iff)
qed

interpretation effects: row_store find_effect put_effect fx_command
proof
  show "find_effect k (put_effect r db) = (if fx_command r = k then map_option (\<lambda>_. r) (find_effect k db) else find_effect k db)" for k r db
    using find_replace_row [of fx_command k r "xd_effects db"] by (simp add: find_effect_def put_effect_def)
qed (auto simp: find_effect_def find_Some_iff)

lemma find_accounting_key: "find_accounting org acc db = Some a \<Longrightarrow> ar_org a = org \<and> ar_account a = acc"
  using accounts.get_key [of "(org, acc)" db a] by simp

lemma put_frames [simp]:
  "xd_accounting (put_reservation r db) = xd_accounting db" "xd_commands (put_reservation r db) = xd_commands db"
  "xd_reservations (put_accounting a db) = xd_reservations db" "xd_commands (put_accounting a db) = xd_commands db"
  "xd_reservations (audit_orphan_release r u ca n db) = xd_reservations db"
  "xd_accounting (audit_orphan_release r u ca n db) = xd_accounting db"
  "xd_commands (audit_orphan_release r u ca n db) = xd_commands db"
  by (simp_all add: put_reservation_def put_accounting_def audit_orphan_release_def)

lemma ledger_frames [simp]:
  "held_slots org acc (put_accounting a db) = held_slots org acc db"
  "held_slots org acc (audit_orphan_release r u ca n db) = held_slots org acc db"
  "held_slots org acc (db\<lparr>xd_accounting := z\<rparr>) = held_slots org acc db"
  "held_slots org acc (db\<lparr>xd_commands := cs\<rparr>) = held_slots org acc db"
  "find_accounting org acc (put_reservation r db) = find_accounting org acc db"
  "find_accounting org acc (audit_orphan_release r u ca n db) = find_accounting org acc db"
  "find_accounting org acc (db\<lparr>xd_reservations := x\<rparr>) = find_accounting org acc db"
  "find_accounting org acc (db\<lparr>xd_audit := y\<rparr>) = find_accounting org acc db"
  "find_accounting org acc (db\<lparr>xd_commands := cs\<rparr>) = find_accounting org acc db"
  by (simp_all add: held_slots_def find_accounting_def)

lemma rows_okD:
  assumes "rows_ok db"
  shows "distinct (map rr_id (xd_reservations db))" "distinct (map xc_id (xd_commands db))"
    and "r \<in> set (xd_reservations db) \<Longrightarrow> rr_release_state r = RELEASED \<Longrightarrow> rr_remaining_reserved_notional r = 0"
    and "r \<in> set (xd_reservations db) \<Longrightarrow> find_accounting (rr_org r) (rr_account r) db \<noteq> None"
    and "r \<in> set (xd_reservations db) \<Longrightarrow>
      \<exists>c \<in> set (xd_commands db). xc_id c = rr_command_id r \<and> xc_org c = rr_org r \<and> xc_account c = rr_account r"
  using assms unfolding rows_ok_def by blast+

lemma reservations_put: "xd_reservations (put_reservation r db) = map (\<lambda>x. if rr_id x = rr_id r then r else x) (xd_reservations db)"
  by (simp add: put_reservation_def)

lemma rows_ok_put_reservation:
  assumes "rows_ok db" "r \<in> set (xd_reservations db)"
    and "rr_id r' = rr_id r" "rr_org r' = rr_org r" "rr_account r' = rr_account r" "rr_command_id r' = rr_command_id r"
    and "rr_release_state r' = RELEASED \<Longrightarrow> rr_remaining_reserved_notional r' = 0"
  shows "rows_ok (put_reservation r' db)"
proof -
  have d: "distinct (map rr_id (xd_reservations (put_reservation r' db)))"
    using rows_okD(1) [OF assms(1)] map_key_replace [of rr_id r' "xd_reservations db"] by (simp only: reservations_put)
  note rows = rows_okD [OF assms(1)]
  have "(rr_release_state x = RELEASED \<longrightarrow> rr_remaining_reserved_notional x = 0)
      \<and> find_accounting (rr_org x) (rr_account x) db \<noteq> None
      \<and> (\<exists>c \<in> set (xd_commands db). xc_id c = rr_command_id x \<and> xc_org c = rr_org x \<and> xc_account c = rr_account x)"
    if x: "x \<in> set (xd_reservations (put_reservation r' db))" for x
  proof (cases "x = r'")
    case True
    show ?thesis unfolding True assms(4-6) using rows(4,5) [OF assms(2)] assms(7) by blast
  next
    case False
    then have "x \<in> set (xd_reservations db)" using x by (auto simp: reservations_put)
    then show ?thesis using rows(3,4,5) by blast
  qed
  then show ?thesis using d rows(2) by (auto simp: rows_ok_def)
qed

lemma rows_ok_cong:
  assumes "rows_ok db" "xd_reservations db1 = xd_reservations db" "xd_commands db1 = xd_commands db"
    and "\<And>org acc. find_accounting org acc db \<noteq> None \<Longrightarrow> find_accounting org acc db1 \<noteq> None"
  shows "rows_ok db1"
  using assms unfolding rows_ok_def by metis

section \<open>The roll keeps the slots\<close>

lemma release_remainder_facts:
  assumes "release_reservation_remainder a r cause = (n, a1, r1)"
  shows "rr_id r1 = rr_id r" "rr_org r1 = rr_org r" "rr_account r1 = rr_account r" "rr_command_id r1 = rr_command_id r"
    "rr_release_state r1 = RELEASED" "rr_remaining_reserved_notional r1 = 0" "ar_org a1 = ar_org a" "ar_account a1 = ar_account a"
    "acc_reserved_trade_slots a1 = max 0 (acc_reserved_trade_slots a - unconverted r)"
  using assms by (auto simp: release_reservation_remainder_def Let_def)

definition same_key :: "account_row \<Rightarrow> account_row \<Rightarrow> bool" where
  "same_key a b \<longleftrightarrow> ar_org a = ar_org b \<and> ar_account a = ar_account b"

lemma release_orphans_ok:
  assumes "release_orphans now user rs a db = (a1, db1)" "rows_ok db" "set rs \<subseteq> set (xd_reservations db)" "distinct (map rr_id rs)"
    and "\<And>r. r \<in> set rs \<Longrightarrow> rr_org r = ar_org a \<and> rr_account r = ar_account a \<and> rr_release_state r \<noteq> RELEASED"
    and "k \<Longrightarrow> acc_reserved_trade_slots a = held_slots (ar_org a) (ar_account a) db"
  shows "rows_ok db1 \<and> (k \<longrightarrow> acc_reserved_trade_slots a1 = held_slots (ar_org a) (ar_account a) db1) \<and> same_key a1 a
    \<and> (\<exists>x y. db1 = db\<lparr>xd_reservations := x, xd_audit := y\<rparr>)
    \<and> (\<forall>org acc. (org, acc) \<noteq> (ar_org a, ar_account a) \<longrightarrow> held_slots org acc db1 = held_slots org acc db)"
  using assms
proof (induction rs arbitrary: a db)
  case Nil
  moreover have "db = db\<lparr>xd_reservations := xd_reservations db, xd_audit := xd_audit db\<rparr>" by simp
  then have "\<exists>x y. db = db\<lparr>xd_reservations := x, xd_audit := y\<rparr>" by blast
  ultimately show ?case by (auto simp: same_key_def)
next
  case (Cons r rs)
  show ?case
  proof (cases "orphan_cause now r db")
    case None
    then show ?thesis using Cons by auto
  next
    case (Some cause)
    obtain n a2 r2 where rel: "release_reservation_remainder a r cause = (n, a2, r2)" by (metis prod_cases3)
    note f = release_remainder_facts [OF rel]
    let ?db = "audit_orphan_release r2 user cause n (put_reservation r2 db)"
    have r: "r \<in> set (xd_reservations db)" "rr_org r = ar_org a" "rr_account r = ar_account a" "rr_release_state r \<noteq> RELEASED"
      using Cons.prems(3,5) by auto
    have held: "held_slots org acc ?db = held_slots org acc db - holds_slots org acc r" for org acc
      using held_put_reservation [OF rows_okD(1) [OF Cons.prems(2)] r(1) f(1), of org acc] f(5) by (simp add: holds_slots_def)
    have w: "holds_slots (ar_org a) (ar_account a) r = unconverted r" using r by (simp add: holds_slots_def)
    have ok: "rows_ok ?db"
      by (rule rows_ok_cong [OF rows_ok_put_reservation [OF Cons.prems(2) r(1) f(1,2,3,4,6)]]) simp_all
    have key: "ar_org a2 = ar_org a" "ar_account a2 = ar_account a" using f(7,8) by auto
    have slots: "acc_reserved_trade_slots a2 = held_slots (ar_org a2) (ar_account a2) ?db" if k
      using that f(9) Cons.prems(6) held [of "ar_org a" "ar_account a"] w held_slots_ge [OF r(1), of "ar_org a" "ar_account a"] key by simp
    have sub: "set rs \<subseteq> set (xd_reservations ?db)"
    proof
      fix x assume x: "x \<in> set rs"
      then have "rr_id x \<noteq> rr_id r2" using Cons.prems(4) f(1) by (auto simp: image_iff)
      then show "x \<in> set (xd_reservations ?db)" using x Cons.prems(3) by (force simp: reservations_put image_iff)
    qed
    have rec: "release_orphans now user rs a2 ?db = (a1, db1)" using Cons.prems(1) Some rel by simp
    from Cons.IH [OF rec ok sub _ _ slots] Cons.prems(4,5) key
    have IH: "rows_ok db1" "k \<longrightarrow> acc_reserved_trade_slots a1 = held_slots (ar_org a) (ar_account a) db1" "same_key a1 a2"
      "\<exists>x y. db1 = ?db\<lparr>xd_reservations := x, xd_audit := y\<rparr>"
      "\<forall>org acc. (org, acc) \<noteq> (ar_org a, ar_account a) \<longrightarrow> held_slots org acc db1 = held_slots org acc ?db"
      by auto
    have "held_slots org acc ?db = held_slots org acc db" if "(org, acc) \<noteq> (ar_org a, ar_account a)" for org acc
      using held [of org acc] that r by (auto simp: holds_slots_def)
    moreover have "\<exists>x y. db1 = db\<lparr>xd_reservations := x, xd_audit := y\<rparr>"
      using IH(4) by (auto simp: audit_orphan_release_def put_reservation_def)
    ultimately show ?thesis using IH key by (auto simp: same_key_def)
  qed
qed

lemma slots_okD: "slots_ok k db \<Longrightarrow> rows_ok db" "slots_ok k db \<Longrightarrow> k \<Longrightarrow> ledger_slots org acc db = held_slots org acc db"
  by (simp_all add: slots_ok_def)

definition ledger_update :: "exec_db \<Rightarrow> exec_db \<Rightarrow> bool" where
  "ledger_update db db1 \<longleftrightarrow> (\<exists>x y z. db1 = db\<lparr>xd_reservations := x, xd_audit := y, xd_accounting := z\<rparr>)"

lemma ledger_update_refl [simp]: "ledger_update db db"
proof -
  have "db = db\<lparr>xd_reservations := xd_reservations db, xd_audit := xd_audit db, xd_accounting := xd_accounting db\<rparr>" by simp
  then show ?thesis unfolding ledger_update_def by blast
qed

lemma ledger_update_frames:
  assumes "ledger_update db db1"
  shows "xd_portfolio db1 = xd_portfolio db" "xd_switch db1 = xd_switch db" "xd_plans db1 = xd_plans db" "xd_commands db1 = xd_commands db"
    "xd_claims db1 = xd_claims db" "xd_authorizations db1 = xd_authorizations db" "xd_bindings db1 = xd_bindings db" "xd_projections db1 = xd_projections db"
    "xd_transitions db1 = xd_transitions db" "xd_effects db1 = xd_effects db" "xd_fills db1 = xd_fills db"
  using assms by (auto simp: ledger_update_def)

lemma slots_ok_put_accounting:
  assumes "rows_ok db" "find_accounting (ar_org a) (ar_account a) db \<noteq> None"
    and "k \<Longrightarrow> acc_reserved_trade_slots a = held_slots (ar_org a) (ar_account a) db"
    and "\<And>org acc. k \<Longrightarrow> (org, acc) \<noteq> (ar_org a, ar_account a) \<Longrightarrow> ledger_slots org acc db = held_slots org acc db"
  shows "slots_ok k (put_accounting a db)" "find_accounting (ar_org a) (ar_account a) (put_accounting a db) = Some a"
proof -
  show find: "find_accounting (ar_org a) (ar_account a) (put_accounting a db) = Some a"
    using accounts.get_put_same [of a db] assms(2) by simp
  have "ledger_slots org acc (put_accounting a db) = held_slots org acc (put_accounting a db)" if k for org acc
  proof (cases "(org, acc) = (ar_org a, ar_account a)")
    case True
    then show ?thesis using find assms(3) [OF that] by (simp add: ledger_slots_def)
  next
    case False
    then have "find_accounting org acc (put_accounting a db) = find_accounting org acc db" using accounts.get_put_other [of a "(org, acc)" db] by auto
    then show ?thesis using assms(4) [OF that False] by (simp add: ledger_slots_def)
  qed
  moreover have "rows_ok (put_accounting a db)"
    by (rule rows_ok_cong [OF assms(1)]) (use accounts.put_keeps [of "(_, _)" a db] in auto)
  ultimately show "slots_ok k (put_accounting a db)" by (simp add: slots_ok_def)
qed

lemma roll_ok:
  assumes "roll_daily_trade_slots env a user now db = (a1, db1)" "slots_ok k db" "find_accounting (ar_org a) (ar_account a) db = Some a"
  shows "slots_ok k db1 \<and> find_accounting (ar_org a) (ar_account a) db1 = Some a1 \<and> same_key a1 a \<and> ledger_update db db1"
proof (cases "ar_trade_slot_business_date a
    = Some (paper_trading_day (xe_zones env) now (st_timezone (get_settings (xe_zones env) (ar_org a) user (xd_portfolio db))))")
  case True
  then show ?thesis using assms by (auto simp: roll_daily_trade_slots_def Let_def same_key_def)
next
  case False
  let ?rs = "paper_reservations_for_roll env (ar_org a) (ar_account a) db"
  obtain a2 db2 where rel: "release_orphans now user ?rs a db = (a2, db2)" by fastforce
  have rs: "set ?rs \<subseteq> set (xd_reservations db)" "distinct (map rr_id ?rs)"
    "\<And>r. r \<in> set ?rs \<Longrightarrow> rr_org r = ar_org a \<and> rr_account r = ar_account a \<and> rr_release_state r \<noteq> RELEASED"
    using rows_okD(1) [OF slots_okD(1) [OF assms(2)]] by (auto simp: paper_reservations_for_roll_def intro: distinct_map_filter)
  have slots: "acc_reserved_trade_slots a = held_slots (ar_org a) (ar_account a) db" if k
    using slots_okD(2) [OF assms(2) that, of "ar_org a" "ar_account a"] assms(3) by (simp add: ledger_slots_def)
  from release_orphans_ok [OF rel slots_okD(1) [OF assms(2)] rs slots, of k] obtain x y where
    ok: "rows_ok db2" "k \<Longrightarrow> acc_reserved_trade_slots a2 = held_slots (ar_org a) (ar_account a) db2" "same_key a2 a"
    and db2: "db2 = db\<lparr>xd_reservations := x, xd_audit := y\<rparr>"
    and rest: "\<And>org acc. (org, acc) \<noteq> (ar_org a, ar_account a) \<Longrightarrow> held_slots org acc db2 = held_slots org acc db"
    by auto
  have a1: "db1 = put_accounting a1 db2" "acc_reserved_trade_slots a1 = acc_reserved_trade_slots a2" "ar_org a1 = ar_org a" "ar_account a1 = ar_account a"
    using assms(1) False rel ok(3) by (auto simp: roll_daily_trade_slots_def Let_def same_key_def)
  have acc: "find_accounting org acc db2 = find_accounting org acc db" for org acc by (simp add: db2)
  have "slots_ok k (put_accounting a1 db2)" "find_accounting (ar_org a1) (ar_account a1) (put_accounting a1 db2) = Some a1"
  proof -
    have pre: "find_accounting (ar_org a1) (ar_account a1) db2 \<noteq> None" using assms(3) by (simp add: acc a1(3,4))
    have eq: "acc_reserved_trade_slots a1 = held_slots (ar_org a1) (ar_account a1) db2" if k using ok(2) [OF that] a1 by simp
    have "ledger_slots org acc db2 = held_slots org acc db2" if k "(org, acc) \<noteq> (ar_org a1, ar_account a1)" for org acc
      using rest [of org acc] that slots_okD(2) [OF assms(2) that(1), of org acc] a1(3,4) by (simp add: ledger_slots_def acc)
    from slots_ok_put_accounting [OF ok(1) pre eq this]
    show "slots_ok k (put_accounting a1 db2)" "find_accounting (ar_org a1) (ar_account a1) (put_accounting a1 db2) = Some a1" by blast+
  qed
  then show ?thesis using a1 by (auto simp: same_key_def ledger_update_def db2 put_accounting_def)
qed

lemma finish_roll_ok:
  assumes "(if roll then roll_daily_trade_slots env a user now db else (a, db)) = (a1, db1)" "slots_ok k db" "find_accounting org acc db = Some a"
  shows "slots_ok k db1 \<and> find_accounting org acc db1 = Some a1 \<and> ledger_update db db1"
proof -
  have "ar_org a = org \<and> ar_account a = acc" by (rule find_accounting_key [OF assms(3)])
  then show ?thesis using roll_ok [of env a user now db a1 db1 k] assms by (auto split: if_splits)
qed

lemma slots_ok_new_account:
  assumes "slots_ok k db" "find_accounting (ar_org a) (ar_account a) db = None" "acc_reserved_trade_slots a = 0"
  shows "slots_ok k (db\<lparr>xd_accounting := xd_accounting db @ [a]\<rparr>)"
    "find_accounting (ar_org a) (ar_account a) (db\<lparr>xd_accounting := xd_accounting db @ [a]\<rparr>) = Some a"
proof -
  let ?db = "db\<lparr>xd_accounting := xd_accounting db @ [a]\<rparr>"
  have find: "find_accounting org acc ?db = (case find_accounting org acc db of Some x \<Rightarrow> Some x
      | None \<Rightarrow> if ar_org a = org \<and> ar_account a = acc then Some a else None)" for org acc
    by (auto simp: find_accounting_def find_append split: option.splits)
  then show "find_accounting (ar_org a) (ar_account a) ?db = Some a" using assms(2) by simp
  have "rows_ok ?db" using slots_okD(1) [OF assms(1)] by (rule rows_ok_cong) (auto simp: find split: option.splits)
  moreover have "ledger_slots org acc ?db = held_slots org acc ?db" if k for org acc
    using slots_okD(2) [OF assms(1) that, of org acc] assms(2,3) by (auto simp: ledger_slots_def find split: option.splits)
  ultimately show "slots_ok k ?db" by (simp add: slots_ok_def)
qed

definition others_ok :: "bool \<Rightarrow> exec_env \<Rightarrow> bool" where
  "others_ok k env \<longleftrightarrow> (\<forall>x. slots_ok k x \<longrightarrow> slots_ok k (xe_others env x))"

lemma lock_risk_accounting_ok:
  assumes "lock_risk_accounting env org acc user unit now roll db = (a, db1)" "slots_ok k db"
    and "others_ok k env"
  shows "slots_ok k db1" "find_accounting org acc db1 = Some a"
    and "find_accounting org acc db \<noteq> None \<Longrightarrow> ledger_update db db1"
    and "ledger_update db db1 \<or> ledger_update (xe_others env db) db1"
proof -
  have "slots_ok k db1 \<and> find_accounting org acc db1 = Some a \<and> (find_accounting org acc db \<noteq> None \<longrightarrow> ledger_update db db1)
    \<and> (ledger_update db db1 \<or> ledger_update (xe_others env db) db1)"
  proof (cases "find_accounting org acc db")
    case (Some x)
    then show ?thesis using assms(1) finish_roll_ok [OF _ assms(2) Some, of roll env user now a db1]
      by (simp add: lock_risk_accounting_def Let_def)
  next
    case None
    let ?db = "xe_others env db"
    have ok: "slots_ok k ?db" using assms(2,3) by (simp add: others_ok_def)
    show ?thesis
    proof (cases "find_accounting org acc ?db")
      case (Some x)
      then show ?thesis using assms(1) None finish_roll_ok [OF _ ok Some, of roll env user now a db1]
        by (simp add: lock_risk_accounting_def Let_def)
    next
      case none: None
      define row where "row = new_accounting env org acc user unit
        (if roll then Some (paper_trading_day (xe_zones env) now (st_timezone (get_settings (xe_zones env) org user (xd_portfolio db)))) else None) db"
      have row: "ar_org row = org" "ar_account row = acc" "acc_reserved_trade_slots row = 0"
        by (simp_all add: row_def new_accounting_def Let_def)
      note new = slots_ok_new_account [OF ok _ row(3), unfolded row(1,2), OF none]
      have "(if roll then roll_daily_trade_slots env row user now (?db\<lparr>xd_accounting := xd_accounting ?db @ [row]\<rparr>)
          else (row, ?db\<lparr>xd_accounting := xd_accounting ?db @ [row]\<rparr>)) = (a, db1)"
        using assms(1) None none by (cases roll) (auto simp: lock_risk_accounting_def Let_def row_def)
      from finish_roll_ok [OF this new]
      have "slots_ok k db1 \<and> find_accounting org acc db1 = Some a" "ledger_update (?db\<lparr>xd_accounting := xd_accounting ?db @ [row]\<rparr>) db1" by auto
      moreover from this(2) have "ledger_update ?db db1" by (auto simp: ledger_update_def)
      ultimately show ?thesis using None by simp
    qed
  qed
  then show "slots_ok k db1" "find_accounting org acc db1 = Some a" "find_accounting org acc db \<noteq> None \<Longrightarrow> ledger_update db db1"
    "ledger_update db db1 \<or> ledger_update (xe_others env db) db1" by blast+
qed

section \<open>What the other writes keep of the ledger\<close>

definition same_ledger :: "exec_db \<Rightarrow> exec_db \<Rightarrow> bool" where
  "same_ledger db db1 \<longleftrightarrow> xd_reservations db1 = xd_reservations db \<and> xd_accounting db1 = xd_accounting db \<and> xd_commands db1 = xd_commands db"

lemma same_ledger_ok: "same_ledger db db1 \<Longrightarrow> slots_ok k db \<Longrightarrow> slots_ok k db1"
  unfolding slots_ok_def same_ledger_def ledger_slots_def
  by (metis rows_ok_cong held_slots_def find_accounting_def)

lemma same_ledger_refl [simp, intro]: "same_ledger db db"
  by (simp add: same_ledger_def)

lemma same_ledger_trans: "same_ledger db db1 \<Longrightarrow> same_ledger db1 db2 \<Longrightarrow> same_ledger db db2"
  by (simp add: same_ledger_def)

lemma locked_epoch_db: "locked_epoch env org acc db = (e, db1) \<Longrightarrow> \<exists>sdb. db1 = db\<lparr>xd_switch := sdb\<rparr>
    \<and> lock_epoch (xe_global_active env) (xe_switch_others env) org acc (xd_switch db) = (e, sdb)"
  by (auto simp: locked_epoch_def split: prod.splits)

lemma locked_same_ledger: "same_ledger db (snd (locked_epoch env org acc db))"
  by (auto simp: locked_epoch_def same_ledger_def split: prod.splits)

lemma record_transition_db:
  assumes "record_transition env p state source_fact ident moment actor quantity price filled remaining weighted recon db = Inr db1"
  obtains t ps where "db1 = db\<lparr>xd_transitions := xd_transitions db @ [t], xd_projections := ps\<rparr>" "tr_receipt t = pj_receipt p"
    "tr_sequence t = next_sequence (pj_receipt p) db" "tr_new_state t = state" "tr_source_fact t = source_fact" "tr_quantity t = quantity"
    "tr_unit_price t = price"
    "\<exists>q \<in> set (xd_projections db). pj_receipt q = pj_receipt p \<and> pj_version q = pj_version p"
    "ps = map (\<lambda>q. if pj_receipt q = pj_receipt p \<and> pj_version q = pj_version p
        then p\<lparr>pj_version := pj_version p + 1, pj_state := state, pj_watermark := tr_sequence t,
                 pj_filled := (case filled of None \<Rightarrow> pj_filled p | Some x \<Rightarrow> xe_money env x),
                 pj_remaining := (case remaining of None \<Rightarrow> pj_remaining p | Some x \<Rightarrow> xe_money env x),
                 pj_weighted := (case weighted of None \<Rightarrow> pj_weighted p | Some x \<Rightarrow> Some (xe_money env x)),
                 pj_reconciliation := (case recon of None \<Rightarrow> pj_reconciliation p | Some x \<Rightarrow> x)\<rparr> else q) (xd_projections db)"
proof -
  let ?t = "\<lparr>tr_receipt = pj_receipt p, tr_sequence = next_sequence (pj_receipt p) db, tr_prior_state = Some (pj_state p), tr_new_state = state,
    tr_source_fact = source_fact, tr_source_identity = ident, tr_quantity = quantity, tr_unit_price = price, tr_occurred_at = moment, tr_actor = actor\<rparr>"
  show thesis
    by (rule that [of _ ?t])
      (use assms in \<open>auto simp: record_transition_def append_transition_def apply_projection_transition_def Let_def list_ex_iff split: if_splits\<close>)
qed

lemma record_same_ledger:
  "record_transition env p state source_fact ident moment actor quantity price filled remaining weighted recon db = Inr db1 \<Longrightarrow> same_ledger db db1"
  by (erule record_transition_db) (simp add: same_ledger_def)

lemma put_effect_same_ledger [simp, intro]: "same_ledger db (put_effect e db)"
  by (simp add: same_ledger_def put_effect_def)

section \<open>Claims\<close>

lemma slots_ok_new_command:
  assumes "slots_ok k db" "\<not> list_ex (\<lambda>x. xc_id x = xc_id c) (xd_commands db)"
  shows "slots_ok k (db\<lparr>xd_commands := xd_commands db @ [c]\<rparr>)"
proof -
  have "rows_ok (db\<lparr>xd_commands := xd_commands db @ [c]\<rparr>)"
    using slots_okD(1) [OF assms(1)] assms(2) unfolding rows_ok_def by (auto simp: list_ex_iff)
  then show ?thesis using assms(1) by (auto simp: slots_ok_def ledger_slots_def)
qed

lemma next_sequence_frames [simp]:
  "next_sequence rid (db\<lparr>xd_commands := cs\<rparr>) = next_sequence rid db" "next_sequence rid (db\<lparr>xd_claims := cl\<rparr>) = next_sequence rid db"
  "next_sequence rid (db\<lparr>xd_authorizations := av\<rparr>) = next_sequence rid db" "next_sequence rid (db\<lparr>xd_reservations := rs\<rparr>) = next_sequence rid db"
  "next_sequence rid (db\<lparr>xd_accounting := z\<rparr>) = next_sequence rid db"
  by (simp_all add: next_sequence_def list_for_receipt_def)

lemma persist_blocked_db:
  assumes "persist_blocked plan q payload cid rid reason intent now db = Inr db1"
  obtains c t p where "\<not> ids_taken cid rid db" "xc_id c = cid" "xc_org c = cq_org q" "xc_account c = xp_account plan" "xc_receipt_id c = rid"
    "xc_outcome c = OUTCOME_BLOCKED" "tr_receipt t = rid" "tr_sequence t = next_sequence rid db" "tr_new_state t = RECEIPT_BLOCKED" "tr_quantity t = None"
    "p = new_projection rid RECEIPT_BLOCKED (ri_remaining_quantity intent) (ri_quantity_unit intent)"
    "db1 = db\<lparr>xd_commands := xd_commands db @ [c], xd_transitions := xd_transitions db @ [t], xd_projections := xd_projections db @ [p]\<rparr>"
proof -
  let ?c = "\<lparr>xc_id = cid, xc_org = cq_org q, xc_user = cq_user q, xc_account = xp_account plan, xc_revision_id = xp_revision_id plan,
    xc_receipt_id = rid, xc_authorization = cq_authorization q, xc_payload_hash = payload, xc_key = cq_key q,
    xc_outcome = OUTCOME_BLOCKED, xc_blocked_reason = Some reason\<rparr>"
  let ?t = "\<lparr>tr_receipt = rid, tr_sequence = next_sequence rid db, tr_prior_state = None, tr_new_state = RECEIPT_BLOCKED,
    tr_source_fact = ''claim_predicate_block'', tr_source_identity = reason, tr_quantity = None, tr_unit_price = None,
    tr_occurred_at = now, tr_actor = ''execution_service''\<rparr>"
  show thesis
    by (rule that [where c = ?c and t = ?t])
      (use assms in \<open>auto simp: persist_blocked_def append_transition_def Let_def split: if_splits\<close>)
qed

lemma persist_blocked_ok:
  assumes "persist_blocked plan q payload cid rid reason intent now db = Inr db1" "slots_ok k db"
  shows "slots_ok k db1"
  using assms(1)
proof (rule persist_blocked_db)
  fix c t p
  assume h: "\<not> ids_taken cid rid db" "xc_id c = cid"
    and db1: "db1 = db\<lparr>xd_commands := xd_commands db @ [c], xd_transitions := xd_transitions db @ [t], xd_projections := xd_projections db @ [p]\<rparr>"
  have "slots_ok k (db\<lparr>xd_commands := xd_commands db @ [c]\<rparr>)"
    using h by (intro slots_ok_new_command [OF assms(2)]) (auto simp: ids_taken_def list_ex_iff)
  then show "slots_ok k db1" by (rule same_ledger_ok [rotated]) (simp add: same_ledger_def db1)
qed

definition consumable :: "claim_request \<Rightarrow> authorization \<Rightarrow> bool" where
  "consumable q a \<longleftrightarrow> au_id a = cq_authorization q \<and> au_org a = cq_org q \<and> au_user a = cq_user q \<and> au_account a = cq_account q
     \<and> au_state a = AUTH_AVAILABLE"

definition consumed :: "claim_request \<Rightarrow> string \<Rightarrow> authorization list \<Rightarrow> authorization list" where
  "consumed q cid rows = map (\<lambda>a. if consumable q a then a\<lparr>au_state := AUTH_CONSUMED, au_consumed_by := Some cid\<rparr> else a) rows"

lemma consume_alt:
  "compare_and_set_available_to_consumed q cid db = (if \<exists>a \<in> set (xd_authorizations db). consumable q a
     then Some (db\<lparr>xd_authorizations := consumed q cid (xd_authorizations db)\<rparr>) else None)"
  by (auto simp: compare_and_set_available_to_consumed_def consumable_def consumed_def list_ex_iff Let_def)

lemma persist_allow_cases:
  assumes "persist_allow plan q payload ids epoch_value a intent now db = Inr (out, db1)"
  obtains (blocked) "out = OUTCOME_BLOCKED"
      "persist_blocked plan q payload (id_second_command ids) (id_second_receipt ids) ''plan_entry_already_claimed'' intent now db = Inr db1"
  | (allowed) c t r where "out = OUTCOME_ALLOW" "\<not> ids_taken (id_command ids) (id_receipt ids) db"
      "(cq_org q, cq_account q, xp_revision_id plan) \<notin> set (xd_claims db)" "\<exists>x \<in> set (xd_authorizations db). consumable q x"
      "r = reservation_of ids plan (cq_org q) (cq_account q) epoch_value intent now" "\<not> list_ex (\<lambda>x. rr_id x = rr_id r) (xd_reservations db)"
      "xc_id c = id_command ids" "xc_org c = cq_org q" "xc_account c = cq_account q" "xc_receipt_id c = id_receipt ids"
      "tr_receipt t = id_receipt ids" "tr_sequence t = next_sequence (id_receipt ids) db" "tr_new_state t = SUBMITTING"
      "tr_source_fact t = ''claim_allow''"
      "db1 = (put_accounting (charge_reservation a intent) db)\<lparr>xd_commands := xd_commands db @ [c],
          xd_claims := xd_claims db @ [(cq_org q, cq_account q, xp_revision_id plan)],
          xd_authorizations := consumed q (id_command ids) (xd_authorizations db),
          xd_reservations := xd_reservations db @ [r], xd_transitions := xd_transitions db @ [t],
          xd_projections := xd_projections db @ [new_projection (id_receipt ids) SUBMITTING (ri_remaining_quantity intent) (ri_quantity_unit intent)],
          xd_effects := xd_effects db @ [effect_of (id_command ids) (id_client_order ids) epoch_value]\<rparr>"
      "xc_outcome c = OUTCOME_ALLOW" "xc_revision_id c = xp_revision_id plan" "xc_authorization c = cq_authorization q"
proof (cases "(cq_org q, cq_account q, xp_revision_id plan) \<in> set (xd_claims db)")
  case True
  then show ?thesis using assms by (intro blocked) (auto simp: persist_allow_def res_simps Let_def split: if_splits)
next
  case False
  let ?c = "\<lparr>xc_id = id_command ids, xc_org = cq_org q, xc_user = cq_user q, xc_account = cq_account q, xc_revision_id = xp_revision_id plan,
    xc_receipt_id = id_receipt ids, xc_authorization = cq_authorization q, xc_payload_hash = payload, xc_key = cq_key q,
    xc_outcome = OUTCOME_ALLOW, xc_blocked_reason = None\<rparr>"
  let ?t = "\<lparr>tr_receipt = id_receipt ids, tr_sequence = next_sequence (id_receipt ids) db, tr_prior_state = None, tr_new_state = SUBMITTING,
    tr_source_fact = ''claim_allow'', tr_source_identity = id_command ids, tr_quantity = Some (ri_remaining_quantity intent), tr_unit_price = None,
    tr_occurred_at = now, tr_actor = ''execution_service''\<rparr>"
  show thesis
    by (rule allowed [where c = ?c and t = ?t and r = "reservation_of ids plan (cq_org q) (cq_account q) epoch_value intent now"])
      (use assms False in \<open>auto simp: persist_allow_def append_transition_def consume_alt Let_def put_accounting_def reservation_of_def split: if_splits\<close>)
qed

lemma persist_allow_ok:
  assumes "persist_allow plan q payload ids epoch_value a intent now db = Inr (out, db1)" "slots_ok k db"
    and a: "find_accounting (cq_org q) (cq_account q) db = Some a" and "0 \<le> ri_trade_slots intent"
  shows "slots_ok k db1"
  using assms(1)
proof (cases rule: persist_allow_cases)
  case blocked
  then show ?thesis using persist_blocked_ok assms(2) by blast
next
  case (allowed c t r)
  let ?a = "charge_reservation a intent"
  have key: "ar_org ?a = cq_org q" "ar_account ?a = cq_account q" using find_accounting_key [OF a] by (simp_all add: charge_reservation_def)
  define db2 where "db2 = db\<lparr>xd_commands := xd_commands db @ [c]\<rparr>"
  have ok2: "slots_ok k db2" unfolding db2_def
    using allowed by (intro slots_ok_new_command [OF assms(2)]) (auto simp: ids_taken_def list_ex_iff)
  define db3 where "db3 = db2\<lparr>xd_reservations := xd_reservations db2 @ [r]\<rparr>"
  have r: "rr_org r = cq_org q" "rr_account r = cq_account q" "rr_command_id r = xc_id c" "rr_release_state r = CHARGED"
    "unconverted r = ri_trade_slots intent"
    using allowed assms(4) by (simp_all add: reservation_of_def unconverted_def)
  have find: "find_accounting x y db3 = find_accounting x y db" for x y by (simp add: db3_def db2_def)
  have rows3: "rows_ok db3"
    using slots_okD(1) [OF ok2] allowed(6,8,9) r a unfolding rows_ok_def
    by (auto simp: db3_def db2_def list_ex_iff)
  have held: "held_slots x y db3 = held_slots x y db + (if (x, y) = (cq_org q, cq_account q) then ri_trade_slots intent else 0)" for x y
    using r by (auto simp: held_slots_def holds_slots_def db3_def db2_def)
  have "slots_ok k (put_accounting ?a db3)"
  proof (rule slots_ok_put_accounting(1) [OF rows3])
    show "find_accounting (ar_org ?a) (ar_account ?a) db3 \<noteq> None" by (simp add: key find a)
    show "acc_reserved_trade_slots ?a = held_slots (ar_org ?a) (ar_account ?a) db3" if k
      using slots_okD(2) [OF assms(2) that, of "cq_org q" "cq_account q"] a
      by (simp only: key held) (simp add: charge_reservation_def ledger_slots_def)
    show "ledger_slots x y db3 = held_slots x y db3" if k "(x, y) \<noteq> (ar_org ?a, ar_account ?a)" for x y
      using slots_okD(2) [OF assms(2) that(1), of x y] that(2) by (auto simp: key held ledger_slots_def find)
  qed
  then show ?thesis
    by (rule same_ledger_ok [rotated]) (simp add: same_ledger_def allowed(15) put_accounting_def db3_def db2_def)
qed

lemma conservative_one_slot: "conservative_reservation plan = Inr intent \<Longrightarrow> ri_trade_slots intent = 1"
  by (auto simp: conservative_reservation_def res_simps split: prod.splits option.splits)

lemma claim_plan_cases:
  assumes "claim_plan env inp br plan q payload ids now db = Inr (out, db1)"
  obtains epoch db2 intent a db3 where "locked_epoch env (cq_org q) (cq_account q) db = (epoch, db2)" "conservative_reservation plan = Inr intent"
    "lock_risk_accounting env (cq_org q) (cq_account q) (cq_user q) (ri_exposure_unit intent) now
       (paper_daily_trade_roll (Some (xp_venue plan))) db2 = (a, db3)"
    "(\<exists>reason. claim_refusal env inp br plan (cq_org q) epoch a intent db3 = Some reason \<and> out = OUTCOME_BLOCKED
        \<and> persist_blocked plan q payload (id_command ids) (id_receipt ids) reason intent now db3 = Inr db1)
     \<or> claim_refusal env inp br plan (cq_org q) epoch a intent db3 = None
        \<and> persist_allow plan q payload ids (ep_epoch epoch) a intent now db3 = Inr (out, db1)"
proof -
  obtain epoch db2 where l: "locked_epoch env (cq_org q) (cq_account q) db = (epoch, db2)" by fastforce
  obtain intent where i: "conservative_reservation plan = Inr intent"
    using assms l by (auto simp: claim_plan_def res_simps)
  obtain a db3 where r: "lock_risk_accounting env (cq_org q) (cq_account q) (cq_user q) (ri_exposure_unit intent) now
      (paper_daily_trade_roll (Some (xp_venue plan))) db2 = (a, db3)" by fastforce
  show thesis
    by (rule that [OF l i r]) (use assms l i r in \<open>auto simp: claim_plan_def res_simps split: option.splits\<close>)
qed

lemma claim_plan_ok:
  assumes "claim_plan env inp br plan q payload ids now db = Inr (out, db1)" "slots_ok k db"
    and "others_ok k env"
  shows "slots_ok k db1"
  using assms(1)
proof (rule claim_plan_cases, goal_cases)
  case (1 epoch db2 intent a db3)
  have "slots_ok k db2" using locked_same_ledger [of db env "cq_org q" "cq_account q"] 1(1) assms(2) by (auto intro: same_ledger_ok)
  note l = lock_risk_accounting_ok(1,2) [OF 1(3) this assms(3)]
  then show ?case using 1(4) persist_blocked_ok persist_allow_ok conservative_one_slot [OF 1(2)] by fastforce
qed

section \<open>Fills and releases\<close>

lemma find_reservation_in: "find_reservation cid db = Some r \<Longrightarrow> r \<in> set (xd_reservations db) \<and> rr_command_id r = cid"
  by (auto simp: find_reservation_def find_Some_iff)

lemma find_command_in: "find_command cid db = Some c \<Longrightarrow> c \<in> set (xd_commands db) \<and> xc_id c = cid"
  by (auto simp: find_command_def find_Some_iff)

lemma reservation_account:
  assumes "rows_ok db" "find_reservation cid db = Some r" "find_command cid db = Some c"
  shows "rr_org r = xc_org c" "rr_account r = xc_account c" "find_accounting (xc_org c) (xc_account c) db \<noteq> None"
proof -
  note r = find_reservation_in [OF assms(2)] and c = find_command_in [OF assms(3)]
  obtain c' where "c' \<in> set (xd_commands db)" "xc_id c' = cid" "xc_org c' = rr_org r" "xc_account c' = rr_account r"
    using rows_okD(5) [OF assms(1), of r] r by auto
  moreover from this have "c' = c" using rows_okD(2) [OF assms(1)] c by (auto simp: distinct_map inj_on_def)
  ultimately show "rr_org r = xc_org c" "rr_account r = xc_account c" "find_accounting (xc_org c) (xc_account c) db \<noteq> None"
    using rows_okD(4) [OF assms(1)] r by auto
qed

lemma slots_ok_ledger_write:
  assumes "slots_ok k db" "r \<in> set (xd_reservations db)" "find_accounting (ar_org a') (ar_account a') db = Some a"
    and "rr_id r' = rr_id r" "rr_org r' = rr_org r" "rr_account r' = rr_account r" "rr_command_id r' = rr_command_id r"
    and "rr_release_state r' = RELEASED \<Longrightarrow> rr_remaining_reserved_notional r' = 0"
    and "rr_org r = ar_org a'" "rr_account r = ar_account a'"
    and "k \<Longrightarrow> acc_reserved_trade_slots a'
      = acc_reserved_trade_slots a - holds_slots (ar_org a') (ar_account a') r + holds_slots (ar_org a') (ar_account a') r'"
  shows "slots_ok k (put_accounting a' (put_reservation r' db))"
proof -
  note rows = slots_okD(1) [OF assms(1)]
  note held = held_put_reservation [OF rows_okD(1) [OF rows] assms(2,4)]
  show ?thesis
  proof (rule slots_ok_put_accounting(1) [OF rows_ok_put_reservation [OF rows assms(2,4,5,6,7,8)]])
    show "find_accounting (ar_org a') (ar_account a') (put_reservation r' db) \<noteq> None" using assms(3) by simp
    show "acc_reserved_trade_slots a' = held_slots (ar_org a') (ar_account a') (put_reservation r' db)" if k
      using slots_okD(2) [OF assms(1) that, of "ar_org a'" "ar_account a'"] assms(3) assms(11) [OF that] by (simp add: held ledger_slots_def)
    show "ledger_slots org acc (put_reservation r' db) = held_slots org acc (put_reservation r' db)"
      if k "(org, acc) \<noteq> (ar_org a', ar_account a')" for org acc
    proof -
      have "holds_slots org acc r = 0" "holds_slots org acc r' = 0" using that(2) assms(5,6,9,10) by (auto simp: holds_slots_def)
      then show ?thesis using slots_okD(2) [OF assms(1) that(1), of org acc] by (simp add: held ledger_slots_def)
    qed
  qed
qed

lemma convert_facts:
  assumes "convert_reservation_for_fill r a q price = Inr (r', a')"
  shows "rr_id r' = rr_id r" "rr_org r' = rr_org r" "rr_account r' = rr_account r" "rr_command_id r' = rr_command_id r"
    "rr_release_state r' = RELEASED \<longleftrightarrow> rr_release_state r = RELEASED" "ar_org a' = ar_org a" "ar_account a' = ar_account a"
    "unconverted r' = 0"
    "acc_reserved_trade_slots a' = (if rr_release_state r = RELEASED \<or> unconverted r = 0 then acc_reserved_trade_slots a
       else max 0 (acc_reserved_trade_slots a - unconverted r))"
    "rr_remaining_reserved_notional r = 0 \<Longrightarrow> rr_remaining_reserved_notional r' = 0"
proof -
  from assms obtain n where n: "fill_quote_exposure r q price = Inr n"
    by (auto simp: convert_reservation_for_fill_def res_simps)
  then have "0 \<le> n"
    by (auto simp: fill_quote_exposure_def renamed_inverse_def linear_quote_exposure_def dec_sign split: if_splits)
  then have "dsub 0 (min n 0) = 0" by (simp add: dsub_def)
  then show "rr_id r' = rr_id r" "rr_org r' = rr_org r" "rr_account r' = rr_account r" "rr_command_id r' = rr_command_id r"
    "rr_release_state r' = RELEASED \<longleftrightarrow> rr_release_state r = RELEASED" "ar_org a' = ar_org a" "ar_account a' = ar_account a"
    "unconverted r' = 0"
    "acc_reserved_trade_slots a' = (if rr_release_state r = RELEASED \<or> unconverted r = 0 then acc_reserved_trade_slots a
       else max 0 (acc_reserved_trade_slots a - unconverted r))"
    "rr_remaining_reserved_notional r = 0 \<Longrightarrow> rr_remaining_reserved_notional r' = 0"
    using assms n unfolding convert_reservation_for_fill_def
    by (auto simp: Let_def unconverted_def split: if_splits)
qed

lemma convert_ok:
  assumes "convert_reservation_for_fill r a q price = Inr (r', a')" "slots_ok k db" "find_reservation cid db = Some r"
    and "find_command cid db = Some c" "find_accounting (xc_org c) (xc_account c) db = Some a"
  shows "slots_ok k (put_accounting a' (put_reservation r' db))"
proof -
  note f = convert_facts [OF assms(1)] and r = find_reservation_in [OF assms(3)]
  note acc = reservation_account [OF slots_okD(1) [OF assms(2)] assms(3,4)] and key = find_accounting_key [OF assms(5)]
  show ?thesis
  proof (rule slots_ok_ledger_write [OF assms(2) conjunct1 [OF r] _ f(1-4)])
    show "find_accounting (ar_org a') (ar_account a') db = Some a" using assms(5) f(6,7) key by simp
    show "rr_remaining_reserved_notional r' = 0" if "rr_release_state r' = RELEASED"
      using that f(5,10) rows_okD(3) [OF slots_okD(1) [OF assms(2)] conjunct1 [OF r]] by blast
    show "rr_org r = ar_org a'" "rr_account r = ar_account a'" using acc f(6,7) key by auto
    assume k
    from slots_okD(2) [OF assms(2) this, of "ar_org a" "ar_account a"] assms(5) key
    have "acc_reserved_trade_slots a = held_slots (ar_org a) (ar_account a) db" by (simp add: ledger_slots_def)
    moreover have "holds_slots (ar_org a) (ar_account a) r = (if rr_release_state r = RELEASED then 0 else unconverted r)"
      using acc key by (simp add: holds_slots_def)
    moreover have "0 \<le> held_slots (ar_org a) (ar_account a) db - holds_slots (ar_org a) (ar_account a) r"
      using held_slots_ge [OF conjunct1 [OF r]] by simp
    ultimately show "acc_reserved_trade_slots a'
      = acc_reserved_trade_slots a - holds_slots (ar_org a') (ar_account a') r + holds_slots (ar_org a') (ar_account a') r'"
      using f(5-9) by (auto simp: holds_slots_def)
  qed
qed

text \<open>
  A roll is due for the account of a command on the paper venue when its ledger row is not aligned with
  the current trading day.
\<close>

definition roll_due :: "exec_env \<Rightarrow> execution_command \<Rightarrow> int \<Rightarrow> exec_db \<Rightarrow> bool" where
  "roll_due env c now db \<longleftrightarrow> paper_daily_trade_roll (map_option xp_venue (find_plan (xc_revision_id c) db))
     \<and> (\<forall>a. find_accounting (xc_org c) (xc_account c) db = Some a \<longrightarrow> ar_trade_slot_business_date a \<noteq>
          Some (paper_trading_day (xe_zones env) now (st_timezone (get_settings (xe_zones env) (xc_org c) (xc_user c) (xd_portfolio db)))))"

lemma lock_without_roll:
  assumes "find_accounting (xc_org c) (xc_account c) db = Some a" "\<not> roll_due env c now db"
  shows "lock_risk_accounting env (xc_org c) (xc_account c) (xc_user c) unit now
    (paper_daily_trade_roll (map_option xp_venue (find_plan (xc_revision_id c) db))) db = (a, db)"
  using assms find_accounting_key [OF assms(1)]
  by (auto simp: lock_risk_accounting_def roll_due_def roll_daily_trade_slots_def Let_def)

lemma roll_due_cong:
  "xd_plans db1 = xd_plans db \<Longrightarrow> xd_accounting db1 = xd_accounting db \<Longrightarrow> xd_portfolio db1 = xd_portfolio db \<Longrightarrow>
    roll_due env c now db1 = roll_due env c now db"
  by (simp add: roll_due_def find_plan_def find_accounting_def)

lemma release_unused_cases:
  assumes "release_unused_reservation env verified cid reason now db = Inr db1"
  obtains c db2 where "find_command cid db = Some c" "db2 = snd (locked_epoch env (xc_org c) (xc_account c) db)" "db1 = db2"
  | c db2 r a db3 r2 a' where "find_command cid db = Some c" "db2 = snd (locked_epoch env (xc_org c) (xc_account c) db)"
    "find_reservation cid db2 = Some r" "0 < rr_remaining_reserved_notional r"
    "lock_risk_accounting env (xc_org c) (xc_account c) (xc_user c) (rr_exposure_unit r) now
       (paper_daily_trade_roll (map_option xp_venue (find_plan (xc_revision_id c) db2))) db2 = (a, db3)"
    "find_reservation cid db3 = Some r2" "ar_org a' = ar_org a" "ar_account a' = ar_account a"
    "acc_reserved_trade_slots a' = max 0 (acc_reserved_trade_slots a - unconverted r2)"
    "db1 = put_accounting a' (put_reservation
       (r2\<lparr>rr_remaining_reserved_notional := 0, rr_release_state := RELEASED, rr_release_reason := Some reason\<rparr>) db3)"
proof -
  obtain c where c: "find_command cid db = Some c" using assms by (auto simp: release_unused_reservation_def split: option.splits)
  define db2 where "db2 = snd (locked_epoch env (xc_org c) (xc_account c) db)"
  show thesis
  proof (cases "find_reservation cid db2")
    case None
    then show ?thesis using assms c by (intro that(1) [OF c db2_def]) (simp add: release_unused_reservation_def db2_def Let_def)
  next
    case (Some r)
    show ?thesis
    proof (cases "rr_remaining_reserved_notional r \<le> 0")
      case True
      then show ?thesis using assms c Some by (intro that(1) [OF c db2_def]) (simp add: release_unused_reservation_def db2_def Let_def)
    next
      case False
      obtain a db3 where l: "lock_risk_accounting env (xc_org c) (xc_account c) (xc_user c) (rr_exposure_unit r) now
          (paper_daily_trade_roll (map_option xp_venue (find_plan (xc_revision_id c) db2))) db2 = (a, db3)" by fastforce
      have "\<exists>r2 unused. find_reservation cid db3 = Some r2
          \<and> db1 = put_accounting (released_account a r2 unused) (put_reservation
             (r2\<lparr>rr_remaining_reserved_notional := 0, rr_release_state := RELEASED, rr_release_reason := Some reason\<rparr>) db3)"
        using assms c Some False l
        by (auto simp: release_unused_reservation_def db2_def [symmetric] Let_def res_simps split: option.splits)
      then obtain r2 unused where r2: "find_reservation cid db3 = Some r2"
        "db1 = put_accounting (released_account a r2 unused) (put_reservation
           (r2\<lparr>rr_remaining_reserved_notional := 0, rr_release_state := RELEASED, rr_release_reason := Some reason\<rparr>) db3)" by blast
      show ?thesis
        by (rule that(2) [OF c db2_def Some _ l r2(1) _ _ _ r2(2)]) (use False in \<open>simp_all add: released_account_def\<close>)
    qed
  qed
qed

lemma release_unused_ok:
  assumes "release_unused_reservation env verified cid reason now db = Inr db1" "slots_ok k db"
    and "others_ok k env"
    and "\<And>c. k \<Longrightarrow> find_command cid db = Some c \<Longrightarrow> \<not> roll_due env c now db"
  shows "slots_ok k db1"
  using assms(1)
proof (cases rule: release_unused_cases)
  case (1 c db2)
  then show ?thesis using same_ledger_ok [OF locked_same_ledger assms(2)] by simp
next
  case (2 c db2 r a db3 r2 a')
  have ok2: "slots_ok k db2" using same_ledger_ok [OF locked_same_ledger assms(2)] 2(2) by simp
  have c2: "find_command cid db2 = Some c" using 2(1,2) locked_same_ledger [of db env "xc_org c" "xc_account c"]
    by (simp add: same_ledger_def find_command_def)
  note acc2 = reservation_account(3) [OF slots_okD(1) [OF ok2] 2(3) c2]
  note l = lock_risk_accounting_ok [OF 2(5) ok2 assms(3)]
  have c3: "find_command cid db3 = Some c" using c2 ledger_update_frames(4) [OF l(3) [OF acc2]] by (simp add: find_command_def)
  note acc = reservation_account [OF slots_okD(1) [OF l(1)] 2(6) c3] and r2 = find_reservation_in [OF 2(6)]
  note key = find_accounting_key [OF l(2)]
  show ?thesis unfolding 2(10)
  proof (rule slots_ok_ledger_write [OF l(1) conjunct1 [OF r2]])
    show "find_accounting (ar_org a') (ar_account a') db3 = Some a" using l(2) 2(7,8) key by simp
    show "rr_org r2 = ar_org a'" "rr_account r2 = ar_account a'" using acc 2(7,8) key by auto
    assume k
    have "find_accounting (xc_org c) (xc_account c) db2 \<noteq> None" "\<not> roll_due env c now db2"
      using acc2 assms(4) [OF \<open>k\<close> 2(1)] roll_due_cong [of db2 db env c now] 2(2) by (auto simp: locked_epoch_def split: prod.splits)
    then have "db3 = db2" using lock_without_roll 2(5) by fastforce
    then have "rr_release_state r2 \<noteq> RELEASED" using 2(3,4,6) rows_okD(3) [OF slots_okD(1) [OF ok2] conjunct1 [OF find_reservation_in [OF 2(3)]]] by auto
    then have w: "holds_slots (ar_org a) (ar_account a) r2 = unconverted r2" using acc key by (simp add: holds_slots_def)
    have "acc_reserved_trade_slots a = held_slots (ar_org a) (ar_account a) db3"
      using slots_okD(2) [OF l(1) \<open>k\<close>, of "ar_org a" "ar_account a"] l(2) key by (simp add: ledger_slots_def)
    then have "0 \<le> acc_reserved_trade_slots a - unconverted r2" using held_slots_ge [OF conjunct1 [OF r2], of "ar_org a" "ar_account a"] w by simp
    then show "acc_reserved_trade_slots a' = acc_reserved_trade_slots a - holds_slots (ar_org a') (ar_account a') r2
        + holds_slots (ar_org a') (ar_account a') (r2\<lparr>rr_remaining_reserved_notional := 0, rr_release_state := RELEASED, rr_release_reason := Some reason\<rparr>)"
      using w 2(7,8,9) by (simp add: holds_slots_def)
  qed simp_all
qed

lemma apply_unique_fill_cases:
  assumes "apply_unique_fill env digest cid fq fp source occurred_at venue now db = Inr (replayed, db1)"
  obtains (replay) c q price p f where "fq = Fin q" "fp = Fin price" "find_command cid db = Some c" "replayed"
      "db1 = snd (locked_epoch env (xc_org c) (xc_account c) db)" "find_projection (xc_receipt_id c) db1 = Some p"
      "find_fill (xc_receipt_id c) source db1 = Some f"
      "ff_content_hash f = digest (xc_receipt_id c) cid venue source q price (pj_quantity_unit p) occurred_at"
  | (fresh) c q price db2 p r db3 a db4 r3 r4 a4 w where "fq = Fin q" "fp = Fin price" "0 < q" "0 < price" "find_command cid db = Some c" "\<not> replayed"
      "db2 = snd (locked_epoch env (xc_org c) (xc_account c) db)" "find_projection (xc_receipt_id c) db2 = Some p"
      "find_reservation cid db2 = Some r" "find_fill (xc_receipt_id c) source db2 = None" "q \<le> pj_remaining p"
      "db3 = db2\<lparr>xd_fills := xd_fills db2 @ [\<lparr>ff_command = cid, ff_receipt = xc_receipt_id c, ff_source_identity = source, ff_quantity = q,
          ff_price = price, ff_content_hash = digest (xc_receipt_id c) cid venue source q price (pj_quantity_unit p) occurred_at\<rparr>]\<rparr>"
      "lock_risk_accounting env (xc_org c) (xc_account c) (xc_user c) (rr_exposure_unit r) now
         (paper_daily_trade_roll (map_option xp_venue (find_plan (xc_revision_id c) db3))) db3 = (a, db4)"
      "find_reservation cid db4 = Some r3" "convert_reservation_for_fill r3 a q price = Inr (r4, a4)"
      "cumulative_weighted_price (pj_filled p) (pj_weighted p) q price = Inr w"
      "record_transition env p (if not_below_zero (dsub (pj_remaining p) q) = 0 then ACKNOWLEDGED else PARTIALLY_FILLED) ''unique_fill'' source
         occurred_at ''execution_service'' (Some q) (Some price) (Some (dadd (pj_filled p) q)) (Some (not_below_zero (dsub (pj_remaining p) q)))
         (Some w) None (put_accounting a4 (put_reservation r4 db4)) = Inr db1"
proof -
  obtain q price where n: "fq = Fin q" "fp = Fin price" "0 < q" "0 < price"
    using assms by (auto simp: apply_unique_fill_def split: if_splits num.splits)
  obtain c where c: "find_command cid db = Some c"
    using assms n by (auto simp: apply_unique_fill_def split: if_splits option.splits)
  define db2 where "db2 = snd (locked_epoch env (xc_org c) (xc_account c) db)"
  obtain p r where pr: "find_projection (xc_receipt_id c) db2 = Some p" "find_reservation cid db2 = Some r"
    using assms n c by (auto simp: apply_unique_fill_def db2_def [symmetric] Let_def split: if_splits option.splits)
  show thesis
  proof (cases "find_fill (xc_receipt_id c) source db2")
    case (Some f)
    then show ?thesis
      by (intro replay [OF n(1,2) c, where f = f and p = p])
        (use assms n c pr in \<open>auto simp: apply_unique_fill_def db2_def [symmetric] Let_def split: if_splits\<close>)
  next
    case None
    define db3 where "db3 = db2\<lparr>xd_fills := xd_fills db2 @ [\<lparr>ff_command = cid, ff_receipt = xc_receipt_id c, ff_source_identity = source,
      ff_quantity = q, ff_price = price, ff_content_hash = digest (xc_receipt_id c) cid venue source q price (pj_quantity_unit p) occurred_at\<rparr>]\<rparr>"
    obtain a db4 where l: "lock_risk_accounting env (xc_org c) (xc_account c) (xc_user c) (rr_exposure_unit r) now
         (paper_daily_trade_roll (map_option xp_venue (find_plan (xc_revision_id c) db3))) db3 = (a, db4)" by fastforce
    have rest: "(case find_reservation cid db4 of None \<Rightarrow> Inl (Rejected ''not_found'')
        | Some r3 \<Rightarrow> res_bind (convert_reservation_for_fill r3 a q price) (\<lambda>(r4, a4).
            let new_remaining = not_below_zero (dsub (pj_remaining p) q); state = (if new_remaining = 0 then ACKNOWLEDGED else PARTIALLY_FILLED)
            in res_bind (cumulative_weighted_price (pj_filled p) (pj_weighted p) q price) (\<lambda>weighted.
               res_bind (record_transition env p state ''unique_fill'' source occurred_at ''execution_service''
                 (Some q) (Some price) (Some (dadd (pj_filled p) q)) (Some new_remaining) (Some weighted) None
                 (put_accounting a4 (put_reservation r4 db4))) (\<lambda>db4. Inr (False, db4)))))
        = Inr (replayed, db1)" and q: "q \<le> pj_remaining p"
      using assms n c pr None l
      by (simp_all add: apply_unique_fill_def db2_def [symmetric] db3_def [symmetric] Let_def del: find.simps split: if_splits)
    from rest obtain r3 r4 a4 w where f: "find_reservation cid db4 = Some r3" "convert_reservation_for_fill r3 a q price = Inr (r4, a4)"
      "cumulative_weighted_price (pj_filled p) (pj_weighted p) q price = Inr w" "\<not> replayed"
      "record_transition env p (if not_below_zero (dsub (pj_remaining p) q) = 0 then ACKNOWLEDGED else PARTIALLY_FILLED) ''unique_fill'' source
         occurred_at ''execution_service'' (Some q) (Some price) (Some (dadd (pj_filled p) q)) (Some (not_below_zero (dsub (pj_remaining p) q)))
         (Some w) None (put_accounting a4 (put_reservation r4 db4)) = Inr db1"
      by (auto simp: Let_def res_simps split: option.splits)
    show ?thesis by (rule fresh [OF n c f(4) db2_def pr None q db3_def l f(1,2,3,5)])
  qed
qed

lemma apply_unique_fill_ok:
  assumes "apply_unique_fill env digest cid fq fp source occurred_at venue now db = Inr (replayed, db1)" "slots_ok k db"
    and "others_ok k env"
  shows "slots_ok k db1"
  using assms(1)
proof (cases rule: apply_unique_fill_cases)
  case (replay c q price p f)
  then show ?thesis using same_ledger_ok [OF locked_same_ledger assms(2)] by simp
next
  case (fresh c q price db2 p r db3 a db4 r3 r4 a4 w)
  have same: "same_ledger db db3" using locked_same_ledger [of db env "xc_org c" "xc_account c"] fresh(7,12) by (simp add: same_ledger_def)
  have c3: "find_command cid db3 = Some c" and r: "find_reservation cid db3 = Some r"
    using fresh(5,9,12) same by (simp_all add: same_ledger_def find_command_def find_reservation_def)
  have ok3: "slots_ok k db3" by (rule same_ledger_ok [OF same assms(2)])
  note acc3 = reservation_account(3) [OF slots_okD(1) [OF ok3] r c3]
  note l = lock_risk_accounting_ok [OF fresh(13) ok3 assms(3)]
  have c4: "find_command cid db4 = Some c" using c3 ledger_update_frames(4) [OF l(3) [OF acc3]] by (simp add: find_command_def)
  have "slots_ok k (put_accounting a4 (put_reservation r4 db4))" by (rule convert_ok [OF fresh(15) l(1) fresh(14) c4 l(2)])
  then show ?thesis using same_ledger_ok [OF record_same_ledger [OF fresh(17)]] by blast
qed

end
