(* ===== verification/Execution_Runs.thy ===== *)
theory Execution_Runs
  imports Execution_Safety
begin

text \<open>
  Runs of the execution protocol. Each operation is decomposed into a few kinds of writes, and the
  invariants are proved for these: the slots of \<open>Execution_Safety\<close>, and the fence of the safety epochs.
\<close>

section \<open>Operations as sequences of writes\<close>

text \<open>
  Every operation is a sequence of a few kinds of writes; the invariants are proved for these. The flag
  \<open>k\<close> asks that a release is not the first access to the ledger on a new trading day.
\<close>

inductive exec_prim :: "exec_env \<Rightarrow> bool \<Rightarrow> exec_db \<Rightarrow> exec_db \<Rightarrow> bool" for env k where
  pr_lock: "find_command cid db = Some c \<Longrightarrow> exec_prim env k db (snd (locked_epoch env (xc_org c) (xc_account c) db))"
| pr_record: "find_projection rid db = Some p \<Longrightarrow>
    record_transition env p state source_fact ident moment actor None None None remaining None recon db = Inr db1 \<Longrightarrow> exec_prim env k db db1"
| pr_effect: "find_effect (fx_command e') db = Some e \<Longrightarrow> fx_safety_epoch e' = fx_safety_epoch e \<Longrightarrow> fx_attempt e' = fx_attempt e \<Longrightarrow>
    fx_state e' \<noteq> DISPATCH_AUTHORIZED \<or> fx_state e = DISPATCH_AUTHORIZED \<Longrightarrow> exec_prim env k db (put_effect e' db)"
| pr_authorize: "find_effect (fx_command e') db = Some e \<Longrightarrow> fx_safety_epoch e' = fx_safety_epoch e \<Longrightarrow> find_command (fx_command e') db = Some c \<Longrightarrow>
    locked_epoch env (xc_org c) (xc_account c) db = (ep, db) \<Longrightarrow> \<not> safety_blocks_dispatch env c ep (fx_safety_epoch e) db \<Longrightarrow>
    exec_prim env k db (put_effect e' db)"
| pr_release: "(\<And>c. k \<Longrightarrow> find_command cid db = Some c \<Longrightarrow> \<not> roll_due env c now db) \<Longrightarrow>
    release_unused_reservation env verified cid reason now db = Inr db1 \<Longrightarrow> exec_prim env k db db1"
| pr_fill: "apply_unique_fill env digest cid fq fp source occurred_at venue now db = Inr (replayed, db1) \<Longrightarrow> exec_prim env k db db1"

abbreviation exec_prims :: "exec_env \<Rightarrow> bool \<Rightarrow> exec_db \<Rightarrow> exec_db \<Rightarrow> bool" where
  "exec_prims env k \<equiv> (exec_prim env k)\<^sup>*\<^sup>*"

lemma prims_step: "exec_prim env k db db1 \<Longrightarrow> exec_prims env k db1 db2 \<Longrightarrow> exec_prims env k db db2"
  by (rule converse_rtranclp_into_rtranclp)

lemma lookup_frames [simp]:
  "find_command cid (put_effect e db) = find_command cid db" "find_command cid (db\<lparr>xd_switch := s\<rparr>) = find_command cid db"
  "find_effect cid (db\<lparr>xd_switch := s\<rparr>) = find_effect cid db" "find_projection rid (db\<lparr>xd_switch := s\<rparr>) = find_projection rid db"
  "roll_due env c now (put_effect e db) = roll_due env c now db" "roll_due env c now (db\<lparr>xd_switch := s\<rparr>) = roll_due env c now db"
  by (simp_all add: find_command_def find_effect_def find_projection_def put_effect_def roll_due_def find_plan_def find_accounting_def)

lemma locked_frames [simp]:
  "find_command cid (snd (locked_epoch env org acc db)) = find_command cid db" "find_effect cid (snd (locked_epoch env org acc db)) = find_effect cid db"
  "find_projection rid (snd (locked_epoch env org acc db)) = find_projection rid db"
  "roll_due env c now (snd (locked_epoch env org acc db)) = roll_due env c now db"
  by (simp_all add: locked_epoch_def split: prod.split)

lemma record_frames:
  assumes "record_transition env p state source_fact ident moment actor quantity price filled remaining weighted recon db = Inr db1"
  shows "find_command cid db1 = find_command cid db" "find_effect cid db1 = find_effect cid db" "roll_due env c now db1 = roll_due env c now db"
    "xd_switch db1 = xd_switch db"
  using assms by (auto elim!: record_transition_db simp: find_command_def find_effect_def roll_due_def find_plan_def find_accounting_def)

lemma with_receipt_Inr [res_simps]:
  "with_receipt cid f db = Inr x \<longleftrightarrow> (\<exists>c p. find_command cid db = Some c \<and> find_projection (xc_receipt_id c) db = Some p \<and> f c p db = Inr x)"
  by (auto simp: with_receipt_def split: option.splits)

lemma block_path:
  assumes "block_before_dispatch env verified cid e now release db = Inr db1" "find_effect cid db = Some e0"
    and "fx_command e = cid" "fx_safety_epoch e = fx_safety_epoch e0" "fx_attempt e = fx_attempt e0"
    and "\<And>c. release \<Longrightarrow> k \<Longrightarrow> find_command cid db = Some c \<Longrightarrow> \<not> roll_due env c now db"
  shows "exec_prims env k db db1"
proof -
  obtain c p where cp: "find_command cid db = Some c" "find_projection (xc_receipt_id c) db = Some p"
    using assms(1) by (auto simp: block_before_dispatch_def res_simps split: if_splits)
  show ?thesis
  proof (cases "pj_state p = BLOCKED_BEFORE_DISPATCH")
    case True
    then show ?thesis using assms(1) cp by (auto simp: block_before_dispatch_def with_receipt_def split: if_splits)
  next
    case False
    define e1 where "e1 = e\<lparr>fx_state := PROVEN_UNSENT, fx_uncertainty := False, fx_disposition := SENT_NEVER,
      fx_lease_owner := None, fx_lease_expires_at := None\<rparr>"
    obtain db2 where rec: "record_transition env p BLOCKED_BEFORE_DISPATCH ''safety_epoch_block_before_dispatch''
        (''epoch:'' @ int_text (fx_safety_epoch e)) now ''safety_epoch'' None None None None None (Some RECON_RESOLVED) db = Inr db2"
      and fin: "if release then release_unused_reservation env verified cid AFTER_PROVEN_UNSENT now (put_effect e1 db2) = Inr db1 else db1 = put_effect e1 db2"
      using assms(1) cp False by (auto simp: block_before_dispatch_def with_receipt_def e1_def Let_def res_simps split: if_splits)
    note f = record_frames [OF rec]
    have "exec_prim env k db db2" by (rule pr_record [OF cp(2) rec])
    moreover have "exec_prim env k db2 (put_effect e1 db2)"
      by (rule pr_effect [of _ _ e0]) (use assms f in \<open>simp_all add: e1_def\<close>)
    moreover have "exec_prims env k (put_effect e1 db2) db1"
      using fin assms(6) f by (cases release) (auto intro!: r_into_rtranclp pr_release)
    ultimately show ?thesis by (blast intro: prims_step)
  qed
qed


lemma pr_record': "find_projection rid db = Some p \<Longrightarrow>
    record_transition env p state source_fact ident moment actor None None None remaining None recon db = Inr db1 \<Longrightarrow>
    exec_prims env k db1 db2 \<Longrightarrow> exec_prims env k db db2"
  by (rule prims_step [OF pr_record])

lemma pr_lock': "find_command cid db = Some c \<Longrightarrow> exec_prims env k (snd (locked_epoch env (xc_org c) (xc_account c) db)) db2 \<Longrightarrow>
    exec_prims env k db db2"
  by (rule prims_step [OF pr_lock])

lemma locked_snd: "locked_epoch env org acc db = (epoch, db1) \<Longrightarrow> db1 = snd (locked_epoch env org acc db)"
  by simp

lemma locked_facts:
  assumes "locked_epoch env org acc db = (epoch, db1)"
  shows "find_command cid db1 = find_command cid db" "find_effect cid db1 = find_effect cid db"
    "find_projection rid db1 = find_projection rid db" "roll_due env' c now db1 = roll_due env' c now db"
  using locked_epoch_db [OF assms] by auto

lemma mark_effect_path:
  assumes "find_effect cid db = Some e" "e' = e\<lparr>fx_state := s, fx_uncertainty := u, fx_disposition := d\<rparr>" "s \<noteq> DISPATCH_AUTHORIZED"
  shows "exec_prim env k db (put_effect e' db)"
  using assms effects.get_key [OF assms(1)] by (intro pr_effect [of _ _ e]) simp_all

lemma mark_ambiguous_path:
  assumes "mark_ambiguous env cid now db = Inr db1"
  shows "exec_prims env k db db1"
proof -
  obtain e c p where f: "find_effect cid db = Some e" "find_command cid db = Some c" "find_projection (xc_receipt_id c) db = Some p"
    using assms by (auto simp: mark_ambiguous_def res_simps split: option.splits)
  obtain epoch db2 where l: "locked_epoch env (xc_org c) (xc_account c) db = (epoch, db2)" by fastforce
  obtain db3 where r: "record_transition env p RECONCILIATION_REQUIRED ''ambiguous_send'' (''epoch:'' @ int_text (ep_epoch epoch)) now ''execution_service''
       None None None None None (Some RECON_REQUIRED) db2 = Inr db3"
    "db1 = put_effect (e\<lparr>fx_state := SEND_AMBIGUOUS, fx_uncertainty := True, fx_disposition := SEND_UNKNOWN\<rparr>) db3"
    using assms f l by (auto simp: mark_ambiguous_def with_receipt_def res_simps)
  note h = f l r
  note db2 = locked_snd [OF h(4)]
  have "exec_prim env k db3 db1" unfolding h(6)
    by (rule mark_effect_path [where cid = cid, OF _ refl]) (use h db2 record_frames(2) [OF h(5)] in simp_all)
  moreover have "find_projection (xc_receipt_id c) db2 = Some p" using h(3) db2 by simp
  ultimately show ?thesis using h db2 by (blast intro: pr_lock' pr_record')
qed

lemma mark_acknowledged_path:
  assumes "mark_acknowledged env cid now source db = Inr db1"
  shows "exec_prims env k db db1"
proof -
  obtain e c p where f: "find_effect cid db = Some e" "find_command cid db = Some c" "find_projection (xc_receipt_id c) db = Some p"
    using assms(1) by (auto simp: mark_acknowledged_def res_simps split: option.splits)
  obtain db2 where r: "record_transition env p ACKNOWLEDGED (source @ ''_accepted'') (fx_client_order_id e) now source
       None None None None None (Some RECON_RESOLVED) db = Inr db2"
    "db1 = put_effect (e\<lparr>fx_state := SEND_ATTEMPTED, fx_uncertainty := False, fx_disposition := SEND_ACCEPTED\<rparr>) db2"
    using assms(1) f by (auto simp: mark_acknowledged_def with_receipt_def res_simps)
  note h = f(1,3) r
  have "exec_prim env k db2 db1" unfolding h(4)
    by (rule mark_effect_path [where cid = cid, OF _ refl]) (use h record_frames(2) [OF h(3)] in simp_all)
  then show ?thesis using h by (blast intro: pr_record')
qed

lemma mark_rejected_path:
  assumes "mark_rejected env verified cid now source db = Inr db1"
    and "\<And>c. k \<Longrightarrow> find_command cid db = Some c \<Longrightarrow> \<not> roll_due env c now db"
  shows "exec_prims env k db db1"
proof -
  obtain e c p where f: "find_effect cid db = Some e" "find_command cid db = Some c" "find_projection (xc_receipt_id c) db = Some p"
    using assms(1) by (auto simp: mark_rejected_def res_simps split: option.splits)
  obtain db2 where r: "record_transition env p RECEIPT_REJECTED (source @ ''_rejected'') (fx_client_order_id e) now source
       None None None (Some 0) None None db = Inr db2"
    "release_unused_reservation env verified cid AFTER_REJECTION now
       (put_effect (e\<lparr>fx_state := SEND_ATTEMPTED, fx_uncertainty := False, fx_disposition := SEND_REJECTED\<rparr>) db2) = Inr db1"
    using assms(1) f by (auto simp: mark_rejected_def with_receipt_def res_simps)
  note h = f(1,3) r
  note fr = record_frames [OF h(3)]
  have "exec_prim env k db2 (put_effect (e\<lparr>fx_state := SEND_ATTEMPTED, fx_uncertainty := False, fx_disposition := SEND_REJECTED\<rparr>) db2)"
    by (rule mark_effect_path [where cid = cid, OF _ refl]) (use h fr in simp_all)
  moreover have "exec_prim env k (put_effect (e\<lparr>fx_state := SEND_ATTEMPTED, fx_uncertainty := False, fx_disposition := SEND_REJECTED\<rparr>) db2) db1"
    by (rule pr_release [OF _ h(4)]) (use assms(2) fr in simp)
  ultimately show ?thesis using h by (blast intro: pr_record' prims_step)
qed

lemma locked_twice:
  assumes "locked_epoch env org acc db = (epoch, db1)"
  shows "locked_epoch env org acc db1 = (epoch, db1)"
proof -
  obtain sdb where s: "db1 = db\<lparr>xd_switch := sdb\<rparr>" "lock_epoch (xe_global_active env) (xe_switch_others env) org acc (xd_switch db) = (epoch, sdb)"
    using locked_epoch_db [OF assms(1)] by blast
  have "find_epoch org acc sdb = Some epoch"
    using s(2) by (auto simp: lock_epoch_def Let_def find_epoch_def find_snoc_row split: option.splits)
  then show ?thesis by (simp add: locked_epoch_def s(1) lock_epoch_def)
qed

lemma lease_path:
  assumes "lease_effect env verified registered cid owner lease_seconds now db = Inr db1"
    and "\<And>c. k \<Longrightarrow> find_command cid db = Some c \<Longrightarrow> \<not> roll_due env c now db"
  shows "exec_prims env k db db1"
proof -
  obtain c where c: "find_command cid db = Some c" using assms(1) by (cases "find_command cid db") (auto simp: lease_effect_def)
  obtain epoch db2 where l: "locked_epoch env (xc_org c) (xc_account c) db = (epoch, db2)" by fastforce
  obtain e where e: "find_effect cid db2 = Some e"
    using assms(1) c l by (cases "find_effect cid db2") (auto simp: lease_effect_def res_simps)
  note h = c l e
  note db2 = locked_snd [OF h(2)]
  have "exec_prims env k db2 db1"
  proof (cases "safety_blocks_dispatch env c epoch (fx_safety_epoch e) db2")
    case True
    then have "block_before_dispatch env verified cid e now True db2 = Inr db1" using assms(1) h by (auto simp: lease_effect_def res_simps)
    then show ?thesis by (rule block_path) (use c e locked_facts [OF l] assms(2) effects.get_key [OF e] in simp_all)
  next
    case False
    then have "db1 = db2 \<or> db1 = put_effect (e\<lparr>fx_state := LEASED, fx_lease_owner := Some owner,
        fx_lease_expires_at := Some (now + lease_seconds * 10 ^ 6), fx_fencing_token := fx_fencing_token e + 1\<rparr>) db2"
      using assms(1) h by (auto simp: lease_effect_def res_simps Let_def split: if_splits)
    then show ?thesis
    proof
      assume "db1 = put_effect (e\<lparr>fx_state := LEASED, fx_lease_owner := Some owner,
        fx_lease_expires_at := Some (now + lease_seconds * 10 ^ 6), fx_fencing_token := fx_fencing_token e + 1\<rparr>) db2"
      then have "exec_prim env k db2 db1" using effects.get_key [OF e] e by (simp add: pr_effect)
      then show ?thesis by blast
    qed simp
  qed
  then show ?thesis using pr_lock' [OF h(1)] db2 by blast
qed

lemma authorize_path:
  assumes "authorize_dispatch env verified registered cid owner token now db = Inr db1"
    and "\<And>c. k \<Longrightarrow> find_command cid db = Some c \<Longrightarrow> \<not> roll_due env c now db"
  shows "exec_prims env k db db1"
proof -
  obtain c where c: "find_command cid db = Some c" using assms(1) by (cases "find_command cid db") (auto simp: authorize_dispatch_def)
  obtain epoch db2 where l: "locked_epoch env (xc_org c) (xc_account c) db = (epoch, db2)" by fastforce
  obtain e where e: "find_effect cid db2 = Some e"
    using assms(1) c l by (cases "find_effect cid db2") (auto simp: authorize_dispatch_def res_simps)
  note h = c l e
  note db2 = locked_snd [OF h(2)] and key = effects.get_key [OF h(3)]
  have "exec_prims env k db2 db1"
  proof (cases "fx_state e = DISPATCH_AUTHORIZED")
    case True
    then have "db1 = db2" using assms(1) h by (auto simp: authorize_dispatch_def res_simps split: if_splits)
    then show ?thesis by simp
  next
    case not_yet: False
    show ?thesis
    proof (cases "safety_blocks_dispatch env c epoch (fx_safety_epoch e) db2")
      case True
      then have "block_before_dispatch env verified cid e now True db2 = Inr db1" using assms(1) h not_yet by (auto simp: authorize_dispatch_def res_simps)
      then show ?thesis by (rule block_path) (use c e locked_facts [OF l] assms(2) key in simp_all)
    next
      case False
      then have db1: "db1 = put_effect (e\<lparr>fx_state := DISPATCH_AUTHORIZED, fx_dispatch_authorized_at := Some now,
          fx_dispatch_safety_epoch := Some (ep_epoch epoch), fx_dispatch_fencing_token := Some token,
          fx_attempt := fx_attempt e + 1, fx_dispatch_attempt := Some (fx_attempt e + 1)\<rparr>) db2"
        using assms(1) h not_yet by (auto simp: authorize_dispatch_def res_simps split: if_splits)
      have "exec_prim env k db2 db1" unfolding db1
        by (rule pr_authorize [where e = e and c = c and ep = epoch]) (use c e locked_facts [OF l] key False locked_twice [OF l] in simp_all)
      then show ?thesis by blast
    qed
  qed
  then show ?thesis using pr_lock' [OF h(1)] db2 by blast
qed


lemma fake_send_path:
  assumes "attempt_fake_send env verified cid owner token answer now db = Inr db1"
    and "\<And>c. k \<Longrightarrow> find_command cid db = Some c \<Longrightarrow> \<not> roll_due env c now db"
  shows "exec_prims env k db db1"
  using assms(1) mark_rejected_path [OF _ assms(2)] mark_ambiguous_path mark_acknowledged_path
  by (auto simp: attempt_fake_send_def res_simps split: venue_answer.splits)

lemma recover_path:
  assumes "recover_after_crash env verified registered cid owner now db = Inr db1"
    and "\<And>c. k \<Longrightarrow> find_command cid db = Some c \<Longrightarrow> \<not> roll_due env c now db"
  shows "exec_prims env k db db1"
  using assms(1) lease_path [OF _ assms(2)] authorize_path [OF _ assms(2)] mark_ambiguous_path
  by (auto simp: recover_after_crash_def split: option.splits if_splits)

lemma fence_path:
  assumes "fence_proven_unsent env verified cid now db = Inr db1"
  shows "exec_prims env k db db1"
proof -
  obtain c where c: "find_command cid db = Some c" using assms by (cases "find_command cid db") (auto simp: fence_proven_unsent_def)
  define db2 where "db2 = snd (locked_epoch env (xc_org c) (xc_account c) db)"
  obtain e where e: "find_effect cid db2 = Some e"
    using assms c by (cases "find_effect cid db2") (auto simp: fence_proven_unsent_def db2_def)
  define e1 where "e1 = e\<lparr>fx_fencing_token := fx_fencing_token e + 1\<rparr>"
  have key: "fx_command e = cid" by (rule effects.get_key [OF e])
  have "db1 = db2 \<or> block_before_dispatch env verified cid e1 now False (put_effect e1 db2) = Inr db1"
    using assms c e by (auto simp: fence_proven_unsent_def db2_def [symmetric] e1_def [symmetric] Let_def split: if_splits)
  then have "exec_prims env k db2 db1"
  proof
    assume b: "block_before_dispatch env verified cid e1 now False (put_effect e1 db2) = Inr db1"
    have "exec_prim env k db2 (put_effect e1 db2)" by (rule pr_effect [of _ _ e]) (use e key in \<open>auto simp: e1_def\<close>)
    moreover have "exec_prims env k (put_effect e1 db2) db1"
      using b by (rule block_path [where ?e0.0 = e1]) (use e key in \<open>simp_all add: e1_def effects.get_put\<close>)
    ultimately show ?thesis by (rule prims_step)
  qed simp
  then show ?thesis using pr_lock' [OF c] by (simp add: db2_def)
qed

lemma begin_demo_path:
  assumes "begin_demo_send env armed expired cid owner token now db = Inr (go, db1)"
  shows "exec_prims env k db db1"
proof -
  obtain c where c: "find_command cid db = Some c" using assms by (cases "find_command cid db") (auto simp: begin_demo_send_def res_simps)
  obtain epoch db2 where l: "locked_epoch env (xc_org c) (xc_account c) db = (epoch, db2)" by fastforce
  have "mark_ambiguous env cid now db2 = Inr db1"
    using assms c l by (cases "find_effect cid db2") (auto simp: begin_demo_send_def res_simps split: if_splits)
  then show ?thesis using pr_lock' [OF c] mark_ambiguous_path l by fastforce
qed

lemma verify_demo_path:
  assumes "verify_demo_send_gate env registered expired cid owner token now db = Inr db1"
  shows "exec_prims env k db db1"
proof -
  obtain c where c: "find_command cid db = Some c" using assms by (cases "find_command cid db") (auto simp: verify_demo_send_gate_def)
  obtain epoch db2 where l: "locked_epoch env (xc_org c) (xc_account c) db = (epoch, db2)" by fastforce
  have "db1 = db2"
    using assms c l by (cases "find_effect cid db2") (auto simp: verify_demo_send_gate_def res_simps split: if_splits)
  then show ?thesis using pr_lock [OF c] l by (metis r_into_rtranclp snd_conv)
qed

lemma finish_demo_path:
  assumes "finish_demo_send env verified cid answer now db = Inr db1"
    and "\<And>c. k \<Longrightarrow> find_command cid db = Some c \<Longrightarrow> \<not> roll_due env c now db"
  shows "exec_prims env k db db1"
  using assms(1) mark_rejected_path [OF _ assms(2)] mark_acknowledged_path
  by (auto simp: finish_demo_send_def split: venue_answer.splits)

lemma demo_order_path:
  assumes "record_demo_order env verified cid rejected now db = Inr db1"
    and "\<And>c. k \<Longrightarrow> find_command cid db = Some c \<Longrightarrow> \<not> roll_due env c now db"
  shows "exec_prims env k db db1"
  using assms(1) mark_rejected_path [OF _ assms(2)] mark_acknowledged_path
  by (auto simp: record_demo_order_def split: option.splits if_splits)

lemma demo_terminal_path:
  assumes "record_demo_terminal env verified cid now db = Inr db1"
    and "\<And>c. k \<Longrightarrow> find_command cid db = Some c \<Longrightarrow> \<not> roll_due env c now db"
  shows "exec_prims env k db db1"
proof -
  obtain c where c: "find_command cid db = Some c" using assms(1) by (cases "find_command cid db") (auto simp: record_demo_terminal_def)
  define db2 where "db2 = snd (locked_epoch env (xc_org c) (xc_account c) db)"
  obtain e where e: "find_effect cid db2 = Some e"
    using assms(1) c by (cases "find_effect cid db2") (auto simp: record_demo_terminal_def db2_def)
  have c2: "find_command cid db2 = Some c" using c by (simp add: db2_def)
  obtain p where p: "find_projection (xc_receipt_id c) db2 = Some p"
    using assms(1) c c2 e by (cases "find_projection (xc_receipt_id c) db2") (auto simp: record_demo_terminal_def db2_def [symmetric] with_receipt_def Let_def)
  have "exec_prims env k db2 db1"
  proof (cases "pj_state p = RECEIPT_CANCELLED \<or> pj_state p = PARTIALLY_FILLED_CANCELLED")
    case True
    then have "db1 = db2" using assms(1) c c2 e p by (auto simp: record_demo_terminal_def db2_def [symmetric] with_receipt_def Let_def)
    then show ?thesis by simp
  next
    case False
    obtain db3 where r: "record_transition env p (if pj_filled p \<noteq> 0 then PARTIALLY_FILLED_CANCELLED else RECEIPT_CANCELLED)
        ''blofin_demo_cancelled'' (fx_client_order_id e) now ''blofin_demo'' None None None (Some 0) None (Some RECON_RESOLVED) db2 = Inr db3"
      "release_unused_reservation env verified cid AFTER_CANCELLATION now db3 = Inr db1"
      using assms(1) c c2 e p False
      by (auto simp: record_demo_terminal_def db2_def [symmetric] with_receipt_def Let_def res_simps)
    have "exec_prim env k db3 db1"
      by (rule pr_release [OF _ r(2)]) (use assms(2) record_frames [OF r(1)] in \<open>simp add: db2_def\<close>)
    then show ?thesis using pr_record' [OF p r(1)] by blast
  qed
  then show ?thesis using pr_lock' [OF c] by (simp add: db2_def)
qed

section \<open>Runs\<close>

text \<open>
  One operation of the protocol, called by one session on committed tables.
\<close>

definition no_roll :: "bool \<Rightarrow> exec_env \<Rightarrow> string \<Rightarrow> int \<Rightarrow> exec_db \<Rightarrow> bool" where
  "no_roll k env cid now db \<longleftrightarrow> (\<forall>c. k \<longrightarrow> find_command cid db = Some c \<longrightarrow> \<not> roll_due env c now db)"

inductive exec_op :: "exec_env \<Rightarrow> bool \<Rightarrow> exec_db \<Rightarrow> exec_db \<Rightarrow> bool" for env k where
  op_lease: "no_roll k env cid now db \<Longrightarrow> lease_effect env verified registered cid owner secs now db = Inr db1 \<Longrightarrow> exec_op env k db db1"
| op_authorize: "no_roll k env cid now db \<Longrightarrow>
    authorize_dispatch env verified registered cid owner token now db = Inr db1 \<Longrightarrow> exec_op env k db db1"
| op_fake_send: "no_roll k env cid now db \<Longrightarrow>
    attempt_fake_send env verified cid owner token answer now db = Inr db1 \<Longrightarrow> exec_op env k db db1"
| op_recover: "no_roll k env cid now db \<Longrightarrow>
    recover_after_crash env verified registered cid owner now db = Inr db1 \<Longrightarrow> exec_op env k db db1"
| op_fence: "fence_proven_unsent env verified cid now db = Inr db1 \<Longrightarrow> exec_op env k db db1"
| op_begin_demo: "begin_demo_send env armed expired cid owner token now db = Inr (go, db1) \<Longrightarrow> exec_op env k db db1"
| op_verify_demo: "verify_demo_send_gate env registered expired cid owner token now db = Inr db1 \<Longrightarrow> exec_op env k db db1"
| op_finish_demo: "no_roll k env cid now db \<Longrightarrow> finish_demo_send env verified cid answer now db = Inr db1 \<Longrightarrow> exec_op env k db db1"
| op_demo_order: "no_roll k env cid now db \<Longrightarrow> record_demo_order env verified cid rejected now db = Inr db1 \<Longrightarrow> exec_op env k db db1"
| op_demo_terminal: "no_roll k env cid now db \<Longrightarrow> record_demo_terminal env verified cid now db = Inr db1 \<Longrightarrow> exec_op env k db db1"
| op_fill: "apply_unique_fill env digest cid fq fp source occurred_at venue now db = Inr (replayed, db1) \<Longrightarrow> exec_op env k db db1"

lemma op_path: "exec_op env k db db1 \<Longrightarrow> exec_prims env k db db1"
proof (induction rule: exec_op.induct)
  case op_lease
  then show ?case by (auto simp: no_roll_def intro: lease_path)
next
  case op_authorize
  then show ?case by (auto simp: no_roll_def intro: authorize_path)
next
  case op_fake_send
  then show ?case by (auto simp: no_roll_def intro: fake_send_path)
next
  case op_recover
  then show ?case by (auto simp: no_roll_def intro: recover_path)
next
  case op_finish_demo
  then show ?case by (auto simp: no_roll_def intro: finish_demo_path)
next
  case op_demo_order
  then show ?case by (auto simp: no_roll_def intro: demo_order_path)
next
  case op_demo_terminal
  then show ?case by (auto simp: no_roll_def intro: demo_terminal_path)
next
  case op_fill
  then show ?case by (blast intro: pr_fill)
qed (blast intro: fence_path begin_demo_path verify_demo_path)+


text \<open>
  The claim runs operations of other sessions at two places: before it binds its key, and inside the lock of
  the ledger row, where the others cannot touch the binding of the locked key.
\<close>

definition keeps_binding :: "claim_request \<Rightarrow> exec_env \<Rightarrow> bool" where
  "keeps_binding q env \<longleftrightarrow> (\<forall>x. find_binding (cq_org q) (cq_key q) (xe_others env x) = find_binding (cq_org q) (cq_key q) x)"

text \<open>
  \<open>exec_run g k m db db1\<close>: \<open>db1\<close> is reached from \<open>db\<close> by operations of the protocol and of the kill switch,
  new plans of existing accounts, new authorizations, authorizations that are revoked or expire, and any
  change of the portfolio. What other sessions do in the middle of an operation is itself such a run.
\<close>

inductive exec_run :: "bool \<Rightarrow> bool \<Rightarrow> (rat \<Rightarrow> rat) \<Rightarrow> exec_db \<Rightarrow> exec_db \<Rightarrow> bool" for g k m where
  run_refl: "exec_run g k m db db"
| run_op: "exec_run g k m db db1 \<Longrightarrow> xe_global_active env = g \<Longrightarrow> xe_money env = m \<Longrightarrow> (\<And>x. switch_run g x (xe_switch_others env x)) \<Longrightarrow>
    (\<And>x. exec_run g k m x (xe_others env x)) \<Longrightarrow> exec_op env k db1 db2 \<Longrightarrow> exec_run g k m db db2"
| run_claim: "exec_run g k m db db1 \<Longrightarrow> xe_global_active env = g \<Longrightarrow> xe_money env = m \<Longrightarrow> (\<And>x. switch_run g x (xe_switch_others env x)) \<Longrightarrow>
    (\<And>x. exec_run g k m x (xe_others env x)) \<Longrightarrow> (\<And>x. exec_run g k m x (earlier x)) \<Longrightarrow> keeps_binding q env \<Longrightarrow>
    claim env earlier inp q ids now db1 = Inr (result, db2) \<Longrightarrow> exec_run g k m db db2"
| run_switch: "exec_run g k m db db1 \<Longrightarrow> switch_run g (xd_switch db1) sdb \<Longrightarrow> exec_run g k m db (db1\<lparr>xd_switch := sdb\<rparr>)"
| run_portfolio: "exec_run g k m db db1 \<Longrightarrow> exec_run g k m db (db1\<lparr>xd_portfolio := pdb\<rparr>)"
| run_plan: "exec_run g k m db db1 \<Longrightarrow> (xp_org plan, xp_account plan) \<in> set (sw_accounts (xd_switch db1)) \<Longrightarrow>
    exec_run g k m db (db1\<lparr>xd_plans := xd_plans db1 @ [plan]\<rparr>)"
| run_authorization: "exec_run g k m db db1 \<Longrightarrow> au_id a \<notin> au_id ` set (xd_authorizations db1) \<Longrightarrow> au_state a = AUTH_AVAILABLE \<Longrightarrow>
    exec_run g k m db (db1\<lparr>xd_authorizations := xd_authorizations db1 @ [a]\<rparr>)"
| run_withdrawn: "exec_run g k m db db1 \<Longrightarrow> s = AUTH_REVOKED \<or> s = AUTH_EXPIRED \<Longrightarrow>
    exec_run g k m db (db1\<lparr>xd_authorizations := map (\<lambda>a. if au_id a = i \<and> au_state a = AUTH_AVAILABLE then a\<lparr>au_state := s\<rparr> else a)
      (xd_authorizations db1)\<rparr>)"

lemma claim_cases:
  assumes "claim env earlier inp q ids now db = Inr (result, db1)"
  obtains (replay) b cid where "find_binding (cq_org q) (cq_key q) (earlier db) = Some b" "ib_command b = Some cid" "ib_receipt b \<noteq> None"
      "db1 = earlier db" "cr_replayed result" "find_command cid db1 = Some (cr_command result)"
  | (fresh) b plan payload br out db2 db3 where "(cq_org q, cq_account q) \<in> set (sw_accounts (xd_switch db))"
      "find_binding (cq_org q) (cq_key q) (earlier db) = Some b \<and> db2 = earlier db \<and> (ib_command b = None \<or> ib_receipt b = None)
       \<or> find_binding (cq_org q) (cq_key q) (earlier db) = None \<and> ib_command b = None \<and> db2 = (earlier db)\<lparr>xd_bindings := xd_bindings (earlier db) @ [b]\<rparr>"
      "ib_org b = cq_org q" "ib_key b = cq_key q" "get_scoped_plan q db2 = Some plan" "claim_plan env inp br plan q payload ids now db2 = Inr (out, db3)"
      "db1 = snd (complete_binding q b db3)" "\<not> cr_replayed result" "find_command (xc_id (last (xd_commands db3))) db1 = Some (cr_command result)"
      "\<exists>auth. br = revalidate_without_consuming inp plan auth q now"
proof -
  have en: "assert_entry_boundary inp q = Inr ()" using assms by (cases "assert_entry_boundary inp q") (simp_all add: claim_def)
  obtain preview where p: "get_scoped_plan q db = Some preview" using assms en by (cases "get_scoped_plan q db") (simp_all add: claim_def)
  have a: "(cq_org q, cq_account q) \<in> set (sw_accounts (xd_switch db))" "ci_account_enabled inp"
    using assms en p by (simp_all add: claim_def split: if_splits)
  obtain auth where u: "find_authorization (cq_authorization q) db = Some auth"
    using assms en p a by (cases "find_authorization (cq_authorization q) db") (simp_all add: claim_def)
  obtain payload where h: "ci_payload inp preview auth = Inr payload"
    using assms en p a u by (cases "ci_payload inp preview auth") (simp_all add: claim_def)
  obtain b db2 where b: "insert_or_lock_idempotency q preview payload (earlier db) = (b, db2)" by fastforce
  have m: "assert_binding_matches b q preview payload = Inr ()"
    using assms en p a u h b by (cases "assert_binding_matches b q preview payload") (simp_all add: claim_def)
  note f = en p a u h b m
  have key: "ib_org b = cq_org q" "ib_key b = cq_key q" 
    and found: "find_binding (cq_org q) (cq_key q) (earlier db) = Some b \<and> db2 = earlier db
      \<or> find_binding (cq_org q) (cq_key q) (earlier db) = None \<and> ib_command b = None \<and> db2 = (earlier db)\<lparr>xd_bindings := xd_bindings (earlier db) @ [b]\<rparr>"
    using b by (auto simp: insert_or_lock_idempotency_def find_binding_def find_Some_iff Let_def split: option.splits)
  show thesis
  proof (cases "ib_command b \<noteq> None \<and> ib_receipt b \<noteq> None")
    case True
    then obtain r where r: "load_result b True db2 = Inr r" "result = r" "db1 = db2"
      using assms f by (cases "load_result b True db2") (simp_all add: claim_def)
    obtain cid where cid: "ib_command b = Some cid" using True by blast
    have "cr_replayed result" "find_command cid db1 = Some (cr_command result)"
      using r cid by (auto simp: load_result_def split: option.splits prod.splits)
    then show ?thesis using replay [OF _ cid] True found r(3) by auto
  next
    case False
    obtain plan where g1: "get_scoped_plan q db2 = Some plan"
      using assms f False by (cases "get_scoped_plan q db2") (auto simp: claim_def)
    obtain auth2 where g2: "find_authorization (cq_authorization q) db2 = Some auth2"
      using assms f False g1 by (cases "find_authorization (cq_authorization q) db2") (auto simp: claim_def)
    have g3: "ci_payload inp plan auth2 = Inr payload"
      using assms f False g1 g2 by (cases "ci_payload inp plan auth2") (auto simp: claim_def split: if_splits)
    obtain out db3 where g4: "claim_plan env inp (revalidate_without_consuming inp plan auth2 q now) plan q payload ids now db2 = Inr (out, db3)"
      using assms f False g1 g2 g3
      by (cases "claim_plan env inp (revalidate_without_consuming inp plan auth2 q now) plan q payload ids now db2") (auto simp: claim_def)
    obtain b1 db4 where c: "complete_binding q b db3 = (b1, db4)" by fastforce
    have l: "load_result b1 False db4 = Inr result \<and> db4 = db1"
      using assms f False g1 g2 g3 g4 c by (cases "load_result b1 False db4") (auto simp: claim_def)
    note g = g1 g4
    have "\<exists>b1. complete_binding q b db3 = (b1, db1) \<and> load_result b1 False db1 = Inr result" using c l by blast
    then obtain b1 where b1: "complete_binding q b db3 = (b1, db1)" "load_result b1 False db1 = Inr result" by blast
    have "\<not> cr_replayed result" "find_command (xc_id (last (xd_commands db3))) db1 = Some (cr_command result)"
      using b1 by (auto simp: load_result_def complete_binding_def Let_def split: option.splits)
    then show ?thesis using fresh [OF a(1) _ key g(1,2)] found False b1(1) by auto
  qed
qed

lemma prim_slots: "exec_prim env k db db1 \<Longrightarrow> slots_ok k db \<Longrightarrow> others_ok k env \<Longrightarrow> slots_ok k db1"
proof (induction rule: exec_prim.induct)
  case pr_lock
  then show ?case using same_ledger_ok [OF locked_same_ledger] by blast
next
  case pr_record
  then show ?case using same_ledger_ok [OF record_same_ledger] by blast
next
  case pr_effect
  then show ?case using same_ledger_ok [OF put_effect_same_ledger] by blast
next
  case pr_authorize
  then show ?case using same_ledger_ok [OF put_effect_same_ledger] by blast
next
  case pr_release
  then show ?case using release_unused_ok by blast
next
  case pr_fill
  then show ?case using apply_unique_fill_ok by blast
qed

lemma prims_slots: "exec_prims env k db db1 \<Longrightarrow> slots_ok k db \<Longrightarrow> others_ok k env \<Longrightarrow> slots_ok k db1"
  by (induction rule: rtranclp_induct) (blast intro: prim_slots)+

lemma claim_slots:
  assumes "claim env earlier inp q ids now db = Inr (result, db1)" "slots_ok k db" "others_ok k env"
    and "\<And>x. slots_ok k x \<Longrightarrow> slots_ok k (earlier x)"
  shows "slots_ok k db1"
  using assms(1)
proof (cases rule: claim_cases)
  case (fresh b plan payload br out db2 db3)
  have "same_ledger (earlier db) db2" using fresh(2) by (auto simp: same_ledger_def)
  then have "slots_ok k db2" using same_ledger_ok assms(2,4) by blast
  then have "slots_ok k db3" using claim_plan_ok [OF fresh(6)] assms(3) by blast
  then show ?thesis by (rule same_ledger_ok [rotated]) (simp add: fresh(7) complete_binding_def same_ledger_def Let_def)
qed (use assms in blast)

lemma run_slots: "exec_run g k m db db1 \<Longrightarrow> slots_ok k db \<Longrightarrow> slots_ok k db1"
proof (induction rule: exec_run.induct)
  case (run_op db db1 env db2)
  then have "others_ok k env" by (simp add: others_ok_def)
  then show ?case using run_op prims_slots [OF op_path] by blast
next
  case (run_claim db db1 env earlier q inp ids now result db2)
  then have "others_ok k env" by (simp add: others_ok_def)
  then show ?case using run_claim claim_slots by blast
qed (auto intro: same_ledger_ok [rotated] simp: same_ledger_def)

section \<open>Fenced effects\<close>

text \<open>
  An effect is fenced when the epoch of its account has passed the epoch it was claimed under.
\<close>

definition fenced :: "string \<Rightarrow> exec_db \<Rightarrow> bool" where
  "fenced cid db \<longleftrightarrow> (\<exists>e c ep. find_effect cid db = Some e \<and> find_command cid db = Some c
     \<and> find_epoch (xc_org c) (xc_account c) (xd_switch db) = Some ep \<and> fx_safety_epoch e < ep_epoch ep)"

text \<open>
  Every admitted command has used up its own authorization, and an account admits a plan once. A binding
  that has its command keeps it.
\<close>

definition admitted :: "execution_command \<Rightarrow> bool" where
  "admitted c \<longleftrightarrow> xc_outcome c = OUTCOME_ALLOW"

definition claim_key :: "execution_command \<Rightarrow> string \<times> string \<times> string" where
  "claim_key c = (xc_org c, xc_account c, xc_revision_id c)"

definition used_up :: "execution_command \<Rightarrow> authorization list \<Rightarrow> bool" where
  "used_up c rows \<longleftrightarrow> (\<exists>a \<in> set rows. au_id a = xc_authorization c \<and> au_state a = AUTH_CONSUMED \<and> au_consumed_by a = Some (xc_id c))"

definition claims_ok :: "exec_db \<Rightarrow> bool" where
  "claims_ok db \<longleftrightarrow> xd_claims db = map claim_key (filter admitted (xd_commands db)) \<and> distinct (xd_claims db)
     \<and> distinct (map au_id (xd_authorizations db))
     \<and> (\<forall>c \<in> set (xd_commands db). admitted c \<longrightarrow> used_up c (xd_authorizations db))"

lemma claims_ok_cong:
  "xd_claims db1 = xd_claims db \<Longrightarrow> xd_commands db1 = xd_commands db \<Longrightarrow> xd_authorizations db1 = xd_authorizations db \<Longrightarrow>
    claims_ok db1 = claims_ok db"
  by (simp add: claims_ok_def)

definition bindings_le :: "exec_db \<Rightarrow> exec_db \<Rightarrow> bool" where
  "bindings_le db db1 \<longleftrightarrow> (\<forall>org key b. find_binding org key db = Some b \<longrightarrow> ib_command b \<noteq> None \<longrightarrow> ib_receipt b \<noteq> None \<longrightarrow>
     find_binding org key db1 = Some b)"

lemma bindings_le_refl [simp, intro]: "bindings_le db db"
  by (simp add: bindings_le_def)

lemma bindings_le_trans: "bindings_le db1 db2 \<Longrightarrow> bindings_le db2 db3 \<Longrightarrow> bindings_le db1 db3"
  by (simp add: bindings_le_def)

lemma bindings_le_same: "xd_bindings db1 = xd_bindings db \<Longrightarrow> bindings_le db db1"
  by (simp add: bindings_le_def find_binding_def)

definition fills_le :: "exec_db \<Rightarrow> exec_db \<Rightarrow> bool" where
  "fills_le db db1 \<longleftrightarrow> (\<exists>fs. xd_fills db1 = xd_fills db @ fs)"

lemma fills_le_same [simp]: "xd_fills db1 = xd_fills db \<Longrightarrow> fills_le db db1"
  by (simp add: fills_le_def)

lemma fills_le_trans: "fills_le db1 db2 \<Longrightarrow> fills_le db2 db3 \<Longrightarrow> fills_le db1 db3"
  by (auto simp: fills_le_def)

lemma find_fill_later: "fills_le db db1 \<Longrightarrow> find_fill rid source db = Some f \<Longrightarrow> find_fill rid source db1 = Some f"
  by (auto simp: fills_le_def find_fill_def find_append split: option.splits)

definition effects_ok :: "exec_db \<Rightarrow> bool" where
  "effects_ok db \<longleftrightarrow> switch_ok (xd_switch db)
     \<and> (\<forall>cid c. find_command cid db = Some c \<longrightarrow> (xc_org c, xc_account c) \<in> set (sw_accounts (xd_switch db)))
     \<and> (\<forall>cid e. find_effect cid db = Some e \<longrightarrow> (\<exists>c ep. find_command cid db = Some c
          \<and> find_epoch (xc_org c) (xc_account c) (xd_switch db) = Some ep \<and> fx_safety_epoch e \<le> ep_epoch ep))
     \<and> (\<forall>p \<in> set (xd_plans db). (xp_org p, xp_account p) \<in> set (sw_accounts (xd_switch db))) \<and> claims_ok db"

definition exec_le :: "exec_db \<Rightarrow> exec_db \<Rightarrow> bool" where
  "exec_le db db1 \<longleftrightarrow> switch_le (xd_switch db) (xd_switch db1) \<and> bindings_le db db1 \<and> fills_le db db1
     \<and> (\<forall>cid c. find_command cid db = Some c \<longrightarrow> find_command cid db1 = Some c)
     \<and> (\<forall>cid e. find_effect cid db = Some e \<longrightarrow> (\<exists>e1. find_effect cid db1 = Some e1 \<and> fx_safety_epoch e1 = fx_safety_epoch e
          \<and> (fenced cid db \<longrightarrow> fx_attempt e1 = fx_attempt e
               \<and> (fx_state e1 = DISPATCH_AUTHORIZED \<longrightarrow> fx_state e = DISPATCH_AUTHORIZED))))"

lemma exec_leD:
  assumes "exec_le db db1"
  shows "switch_le (xd_switch db) (xd_switch db1)" "find_command cid db = Some c \<Longrightarrow> find_command cid db1 = Some c"
    and "find_effect cid db = Some e \<Longrightarrow> \<exists>e1. find_effect cid db1 = Some e1 \<and> fx_safety_epoch e1 = fx_safety_epoch e
          \<and> (fenced cid db \<longrightarrow> fx_attempt e1 = fx_attempt e
               \<and> (fx_state e1 = DISPATCH_AUTHORIZED \<longrightarrow> fx_state e = DISPATCH_AUTHORIZED))"
    and "bindings_le db db1" "fills_le db db1"
  using assms unfolding exec_le_def by blast+

lemma effects_okD:
  assumes "effects_ok db"
  shows "switch_ok (xd_switch db)" "find_command cid db = Some c \<Longrightarrow> (xc_org c, xc_account c) \<in> set (sw_accounts (xd_switch db))"
    and "find_effect cid db = Some e \<Longrightarrow> \<exists>c ep. find_command cid db = Some c
          \<and> find_epoch (xc_org c) (xc_account c) (xd_switch db) = Some ep \<and> fx_safety_epoch e \<le> ep_epoch ep"
    and "p \<in> set (xd_plans db) \<Longrightarrow> (xp_org p, xp_account p) \<in> set (sw_accounts (xd_switch db))" "claims_ok db"
  using assms unfolding effects_ok_def by blast+

lemma fenced_later:
  assumes "fenced cid db" "exec_le db db1"
  shows "fenced cid db1"
proof -
  obtain e c ep where h: "find_effect cid db = Some e" "find_command cid db = Some c"
    "find_epoch (xc_org c) (xc_account c) (xd_switch db) = Some ep" "fx_safety_epoch e < ep_epoch ep"
    using assms(1) by (auto simp: fenced_def)
  obtain e1 where "find_effect cid db1 = Some e1" "fx_safety_epoch e1 = fx_safety_epoch e" using exec_leD(3) [OF assms(2) h(1)] by blast
  moreover obtain ep1 where "find_epoch (xc_org c) (xc_account c) (xd_switch db1) = Some ep1" "ep_epoch ep \<le> ep_epoch ep1"
    using switch_leD(2) [OF exec_leD(1) [OF assms(2)] h(3)] by blast
  ultimately show ?thesis using exec_leD(2) [OF assms(2) h(2)] h(4) unfolding fenced_def by fastforce
qed

lemma exec_le_refl [simp, intro]: "exec_le db db"
  by (simp add: exec_le_def)

lemma exec_le_trans:
  assumes "exec_le db1 db2" "exec_le db2 db3"
  shows "exec_le db1 db3"
proof -
  have "\<exists>e3. find_effect cid db3 = Some e3 \<and> fx_safety_epoch e3 = fx_safety_epoch e
      \<and> (fenced cid db1 \<longrightarrow> fx_attempt e3 = fx_attempt e \<and> (fx_state e3 = DISPATCH_AUTHORIZED \<longrightarrow> fx_state e = DISPATCH_AUTHORIZED))"
    if e: "find_effect cid db1 = Some e" for cid e
  proof -
    from exec_leD(3) [OF assms(1) e] obtain e2 where e2: "find_effect cid db2 = Some e2" "fx_safety_epoch e2 = fx_safety_epoch e"
      "fenced cid db1 \<longrightarrow> fx_attempt e2 = fx_attempt e \<and> (fx_state e2 = DISPATCH_AUTHORIZED \<longrightarrow> fx_state e = DISPATCH_AUTHORIZED)" by blast
    from exec_leD(3) [OF assms(2) e2(1)] e2 fenced_later [OF _ assms(1)] show ?thesis by metis
  qed
  then show ?thesis unfolding exec_le_def
    using switch_le_trans [OF exec_leD(1) [OF assms(1)] exec_leD(1) [OF assms(2)]] exec_leD(2) [OF assms(1)] exec_leD(2) [OF assms(2)]
      bindings_le_trans [OF exec_leD(4) [OF assms(1)] exec_leD(4) [OF assms(2)]]
      fills_le_trans [OF exec_leD(5) [OF assms(1)] exec_leD(5) [OF assms(2)]] by blast
qed

definition quiet :: "exec_db \<Rightarrow> exec_db \<Rightarrow> bool" where
  "quiet db db1 \<longleftrightarrow> switch_le (xd_switch db) (xd_switch db1) \<and> switch_ok (xd_switch db1)
     \<and> xd_commands db1 = xd_commands db \<and> xd_effects db1 = xd_effects db \<and> xd_claims db1 = xd_claims db
     \<and> xd_authorizations db1 = xd_authorizations db \<and> xd_plans db1 = xd_plans db \<and> bindings_le db db1 \<and> fills_le db db1"

lemma quiet_finds: "quiet db db1 \<Longrightarrow> find_command cid db1 = find_command cid db \<and> find_effect cid db1 = find_effect cid db"
  by (simp add: quiet_def find_command_def find_effect_def)

lemma quiet_le: "quiet db db1 \<Longrightarrow> exec_le db db1"
  using quiet_finds [of db db1] by (simp add: exec_le_def quiet_def)

lemma quiet_ok:
  assumes "quiet db db1" "effects_ok db"
  shows "effects_ok db1"
proof -
  have f: "find_command cid db1 = find_command cid db" "find_effect cid db1 = find_effect cid db" for cid using quiet_finds [OF assms(1)] by auto
  have le: "switch_le (xd_switch db) (xd_switch db1)" using assms(1) by (simp add: quiet_def)
  have "\<exists>c ep. find_command cid db = Some c \<and> find_epoch (xc_org c) (xc_account c) (xd_switch db1) = Some ep \<and> fx_safety_epoch e \<le> ep_epoch ep"
    if "find_effect cid db = Some e" for cid e
    using effects_okD(3) [OF assms(2) that] switch_leD(2) [OF le] by (meson order_trans)
  moreover have "(xc_org c, xc_account c) \<in> set (sw_accounts (xd_switch db1))" if "find_command cid db = Some c" for cid c
    using effects_okD(2) [OF assms(2) that] switch_leD(1) [OF le] by blast
  moreover have "(xp_org p, xp_account p) \<in> set (sw_accounts (xd_switch db1))" if "p \<in> set (xd_plans db)" for p
    using effects_okD(4) [OF assms(2) that] switch_leD(1) [OF le] by blast
  moreover have "claims_ok db1" using effects_okD(5) [OF assms(2)] assms(1) claims_ok_cong [of db1 db] by (simp add: quiet_def)
  ultimately show ?thesis using assms(1) unfolding effects_ok_def f by (simp add: quiet_def)
qed

lemma quiet_trans: "quiet db db1 \<Longrightarrow> quiet db1 db2 \<Longrightarrow> quiet db db2"
  by (auto simp: quiet_def intro: switch_le_trans bindings_le_trans fills_le_trans)

lemma quiet_same:
  "switch_ok (xd_switch db) \<Longrightarrow> xd_switch db1 = xd_switch db \<Longrightarrow> xd_commands db1 = xd_commands db \<Longrightarrow> xd_effects db1 = xd_effects db \<Longrightarrow>
    xd_claims db1 = xd_claims db \<Longrightarrow> xd_authorizations db1 = xd_authorizations db \<Longrightarrow> xd_plans db1 = xd_plans db \<Longrightarrow>
    xd_bindings db1 = xd_bindings db \<Longrightarrow> xd_fills db1 = xd_fills db \<Longrightarrow> quiet db db1"
  by (simp add: quiet_def bindings_le_same)

lemma quiet_locked:
  assumes "benign (xe_switch_others env)" "(org, acc) \<in> set (sw_accounts (xd_switch db))" "switch_ok (xd_switch db)"
  shows "quiet db (snd (locked_epoch env org acc db))"
  using lock_epoch_ok [OF assms(1,2) _ assms(3)] by (auto simp: locked_epoch_def quiet_def bindings_le_same split: prod.splits)


lemma quiet_lock_command:
  "effects_ok db \<Longrightarrow> benign (xe_switch_others env) \<Longrightarrow> find_command cid db = Some c \<Longrightarrow> quiet db (snd (locked_epoch env (xc_org c) (xc_account c) db))"
  by (rule quiet_locked) (simp_all add: effects_okD)

lemma quiet_record:
  "record_transition env p state source_fact ident moment actor quantity price filled remaining weighted recon db = Inr db1 \<Longrightarrow>
    switch_ok (xd_switch db) \<Longrightarrow> quiet db db1"
  by (erule record_transition_db) (simp add: quiet_same)

lemma quiet_ledger: "ledger_update db db1 \<Longrightarrow> switch_ok (xd_switch db) \<Longrightarrow> quiet db db1"
  by (auto simp: ledger_update_def intro!: quiet_same)

lemma quiet_ledger_rows:
  "switch_ok (xd_switch db) \<Longrightarrow> quiet db (put_accounting a (put_reservation r db))"
  by (simp add: quiet_same put_accounting_def put_reservation_def)

lemma quiet_switch_ok: "quiet db db1 \<Longrightarrow> switch_ok (xd_switch db1)"
  by (simp add: quiet_def)

lemma quiet_release:
  assumes "release_unused_reservation env verified cid reason now db = Inr db1" "slots_ok k db" "others_ok k env"
    and "effects_ok db" "benign (xe_switch_others env)"
  shows "quiet db db1"
  using assms(1)
proof (cases rule: release_unused_cases)
  case (1 c db2)
  then show ?thesis using quiet_lock_command assms(4,5) by blast
next
  case (2 c db2 r a db3 r2 a')
  have q: "quiet db db2" using quiet_lock_command [OF assms(4,5) 2(1)] 2(2) by simp
  have ok2: "slots_ok k db2" using same_ledger_ok [OF locked_same_ledger assms(2)] 2(2) by simp
  have "find_command cid db2 = Some c" using 2(1,2) by simp
  note acc = reservation_account(3) [OF slots_okD(1) [OF ok2] 2(3) this]
  note l = quiet_ledger [OF lock_risk_accounting_ok(3) [OF 2(5) ok2 assms(3) acc] quiet_switch_ok [OF q]]
  show ?thesis unfolding 2(10) by (rule quiet_trans [OF quiet_trans [OF q l] quiet_ledger_rows [OF quiet_switch_ok [OF l]]])
qed

lemma quiet_fill:
  assumes "apply_unique_fill env digest cid fq fp source occurred_at venue now db = Inr (replayed, db1)" "slots_ok k db" "others_ok k env"
    and "effects_ok db" "benign (xe_switch_others env)"
  shows "quiet db db1"
  using assms(1)
proof (cases rule: apply_unique_fill_cases)
  case (replay c q price p f)
  then show ?thesis using quiet_lock_command assms(4,5) by blast
next
  case (fresh c q price db2 p r db3 a db4 r3 r4 a4 w)
  have q2: "quiet db db2" using quiet_lock_command [OF assms(4,5) fresh(5)] fresh(7) by simp
  then have q: "quiet db db3" by (auto simp: fresh(12) quiet_def bindings_le_def find_binding_def fills_le_def)
  have same: "same_ledger db db3" using locked_same_ledger [of db env "xc_org c" "xc_account c"] fresh(7,12) by (simp add: same_ledger_def)
  have c3: "find_command cid db3 = Some c" and r: "find_reservation cid db3 = Some r"
    using fresh(5,9,12) same by (simp_all add: same_ledger_def find_command_def find_reservation_def)
  have ok3: "slots_ok k db3" by (rule same_ledger_ok [OF same assms(2)])
  note acc = reservation_account(3) [OF slots_okD(1) [OF ok3] r c3]
  note l = quiet_ledger [OF lock_risk_accounting_ok(3) [OF fresh(13) ok3 assms(3) acc] quiet_switch_ok [OF q]]
  note w = quiet_ledger_rows [OF quiet_switch_ok [OF l], of a4 r4]
  show ?thesis by (rule quiet_trans [OF quiet_trans [OF q l] quiet_trans [OF w quiet_record [OF fresh(17) quiet_switch_ok [OF w]]]])
qed

lemma put_effect_le:
  assumes "find_effect (fx_command e') db = Some e" "fx_safety_epoch e' = fx_safety_epoch e" "effects_ok db"
    and "fenced (fx_command e') db \<Longrightarrow> fx_attempt e' = fx_attempt e \<and> (fx_state e' = DISPATCH_AUTHORIZED \<longrightarrow> fx_state e = DISPATCH_AUTHORIZED)"
  shows "exec_le db (put_effect e' db)" "effects_ok (put_effect e' db)"
proof -
  have s: "xd_switch (put_effect e' db) = xd_switch db" "xd_plans (put_effect e' db) = xd_plans db" "bindings_le db (put_effect e' db)" "fills_le db (put_effect e' db)"
    "claims_ok (put_effect e' db) = claims_ok db"
    by (simp_all add: put_effect_def bindings_le_same claims_ok_def)
  show "exec_le db (put_effect e' db)" using assms(1,2,4) by (auto simp: exec_le_def s effects.get_put)
  have "\<exists>c ep. find_command cid db = Some c \<and> find_epoch (xc_org c) (xc_account c) (xd_switch db) = Some ep \<and> fx_safety_epoch x \<le> ep_epoch ep"
    if "find_effect cid (put_effect e' db) = Some x" for cid x
    using that
  proof (cases rule: effects.get_put_cases)
    case same
    then show ?thesis using effects_okD(3) [OF assms(3,1)] assms(2) by simp
  next
    case other
    then show ?thesis using effects_okD(3) [OF assms(3)] by blast
  qed
  then show "effects_ok (put_effect e' db)" using assms(3) by (simp add: effects_ok_def s)
qed

lemma find_command_snoc:
  "find_command cid (db\<lparr>xd_commands := xd_commands db @ [c]\<rparr>)
     = (case find_command cid db of Some x \<Rightarrow> Some x | None \<Rightarrow> if xc_id c = cid then Some c else None)"
  by (simp add: find_command_def find_snoc_row split: option.splits)

lemma new_command_le:
  assumes "effects_ok db" "(xc_org c, xc_account c) \<in> set (sw_accounts (xd_switch db))" "xd_switch db1 = xd_switch db"
    and "xd_commands db1 = xd_commands db @ [c]" "xd_effects db1 = xd_effects db" "xd_plans db1 = xd_plans db" "xd_bindings db1 = xd_bindings db"
    and "claims_ok db1" "xd_fills db1 = xd_fills db"
  shows "exec_le db db1 \<and> effects_ok db1"
proof -
  have c: "find_command cid db1 = (case find_command cid db of Some x \<Rightarrow> Some x | None \<Rightarrow> if xc_id c = cid then Some c else None)" for cid
    using find_command_snoc [of cid db c] assms(4) by (simp add: find_command_def)
  have e: "find_effect cid db1 = find_effect cid db" for cid using assms(5) by (simp add: find_effect_def)
  have "exec_le db db1" by (simp add: exec_le_def assms(3) c e bindings_le_same [OF assms(7)] assms(9))
  moreover have "\<exists>c ep. find_command cid db1 = Some c \<and> find_epoch (xc_org c) (xc_account c) (xd_switch db) = Some ep \<and> fx_safety_epoch x \<le> ep_epoch ep"
    if "find_effect cid db = Some x" for cid x
    using effects_okD(3) [OF assms(1) that] by (auto simp: c)
  then have "effects_ok db1"
    using effects_okD(1,2,4) [OF assms(1)] assms(2,8) unfolding effects_ok_def assms(3,6) e by (auto simp: c split: option.splits if_splits)
  ultimately show ?thesis by blast
qed

lemma new_effect_le:
  assumes "effects_ok db" "find_command (fx_command e) db = Some c" "find_epoch (xc_org c) (xc_account c) (xd_switch db) = Some ep"
    and "fx_safety_epoch e \<le> ep_epoch ep" "xd_switch db1 = xd_switch db" "xd_commands db1 = xd_commands db" "xd_effects db1 = xd_effects db @ [e]"
    and "xd_plans db1 = xd_plans db" "xd_bindings db1 = xd_bindings db" "claims_ok db1" "xd_fills db1 = xd_fills db"
  shows "exec_le db db1 \<and> effects_ok db1"
proof -
  have c: "find_command cid db1 = find_command cid db" for cid using assms(6) by (simp add: find_command_def)
  have e: "find_effect cid db1 = (case find_effect cid db of Some x \<Rightarrow> Some x | None \<Rightarrow> if fx_command e = cid then Some e else None)" for cid
    using assms(7) by (simp add: find_effect_def find_snoc_row split: option.splits)
  have "\<exists>c ep. find_command cid db = Some c \<and> find_epoch (xc_org c) (xc_account c) (xd_switch db) = Some ep \<and> fx_safety_epoch x \<le> ep_epoch ep"
    if "find_effect cid db1 = Some x" for cid x
    using that effects_okD(3) [OF assms(1), of cid] assms(2-4) by (auto simp: e split: option.splits if_splits)
  then have "effects_ok db1" using effects_okD(1,2,4) [OF assms(1)] assms(10) unfolding effects_ok_def assms(5,8) c by blast
  moreover have "exec_le db db1" by (simp add: exec_le_def assms(5) c e bindings_le_same [OF assms(9)] assms(11))
  ultimately show ?thesis by blast
qed

lemma claims_ok_blocked:
  assumes "claims_ok db" "\<not> admitted c" "xd_commands db1 = xd_commands db @ [c]" "xd_claims db1 = xd_claims db"
    and "xd_authorizations db1 = xd_authorizations db"
  shows "claims_ok db1"
  using assms by (auto simp: claims_ok_def)

lemma used_up_consumed: "used_up c rows \<Longrightarrow> used_up c (consumed q cid rows)"
  unfolding used_up_def consumed_def consumable_def by force

lemma used_up_new:
  assumes "x \<in> set rows" "consumable q x" "xc_authorization c = cq_authorization q"
  shows "used_up c (consumed q (xc_id c) rows)"
  unfolding used_up_def consumed_def
  by (rule bexI [of _ "x\<lparr>au_state := AUTH_CONSUMED, au_consumed_by := Some (xc_id c)\<rparr>"])
    (use assms in \<open>auto simp: consumable_def intro!: image_eqI [of _ _ x]\<close>)

lemma claims_ok_admitted:
  assumes "claims_ok db" "xd_commands db1 = xd_commands db @ [c]" "xd_claims db1 = xd_claims db @ [claim_key c]" "admitted c"
    and "claim_key c \<notin> set (xd_claims db)" "xd_authorizations db1 = consumed q (xc_id c) (xd_authorizations db)"
    and "x \<in> set (xd_authorizations db)" "consumable q x" "xc_authorization c = cq_authorization q"
  shows "claims_ok db1"
proof -
  have "map au_id (consumed q cid rows) = map au_id rows" for cid rows by (auto simp: consumed_def)
  then show ?thesis using assms(1-6) used_up_consumed used_up_new [OF assms(7,8,9)] by (auto simp: claims_ok_def)
qed

definition others_le :: "bool \<Rightarrow> exec_env \<Rightarrow> bool" where
  "others_le k env \<longleftrightarrow> (\<forall>x. slots_ok k x \<longrightarrow> effects_ok x \<longrightarrow> exec_le x (xe_others env x) \<and> effects_ok (xe_others env x))"

lemma persist_blocked_le:
  assumes "persist_blocked plan q payload cid rid reason intent now db = Inr db1" "effects_ok db"
    and "(cq_org q, xp_account plan) \<in> set (sw_accounts (xd_switch db))"
  shows "exec_le db db1 \<and> effects_ok db1"
  using assms(1)
proof (rule persist_blocked_db)
  fix c t p
  assume c: "xc_org c = cq_org q" "xc_account c = xp_account plan" "xc_outcome c = OUTCOME_BLOCKED"
    and db1: "db1 = db\<lparr>xd_commands := xd_commands db @ [c], xd_transitions := xd_transitions db @ [t], xd_projections := xd_projections db @ [p]\<rparr>"
  have "claims_ok db1" by (rule claims_ok_blocked [OF effects_okD(5) [OF assms(2)], of c]) (simp_all add: db1 c admitted_def)
  then show ?thesis using assms(3) c db1 by (intro new_command_le [OF assms(2), of c]) simp_all
qed

lemma persist_allow_le:
  assumes "persist_allow plan q payload ids epoch_value a intent now db = Inr (out, db1)" "effects_ok db"
    and "(cq_org q, cq_account q) \<in> set (sw_accounts (xd_switch db))" "(cq_org q, xp_account plan) \<in> set (sw_accounts (xd_switch db))"
    and "find_epoch (cq_org q) (cq_account q) (xd_switch db) = Some ep" "epoch_value \<le> ep_epoch ep"
  shows "exec_le db db1 \<and> effects_ok db1"
  using assms(1)
proof (cases rule: persist_allow_cases)
  case blocked
  then show ?thesis using persist_blocked_le assms(2,4) by blast
next
  case (allowed c t r)
  define db2 where "db2 = db\<lparr>xd_commands := xd_commands db @ [c], xd_claims := xd_claims db @ [claim_key c],
    xd_authorizations := consumed q (id_command ids) (xd_authorizations db)\<rparr>"
  have key: "claim_key c = (cq_org q, cq_account q, xp_revision_id plan)" using allowed by (simp add: claim_key_def)
  obtain x where x: "x \<in> set (xd_authorizations db)" "consumable q x" using allowed(4) by blast
  have claims: "claims_ok db2"
    by (rule claims_ok_admitted [OF effects_okD(5) [OF assms(2)] _ _ _ _ _ x, of _ c])
      (use allowed key in \<open>simp_all add: db2_def admitted_def\<close>)
  have 2: "exec_le db db2 \<and> effects_ok db2"
    using assms(3) allowed(8,9) claims by (intro new_command_le [OF assms(2), of c]) (simp_all add: db2_def)
  have "find_command (id_command ids) db = None" using allowed(2) by (auto simp: find_command_def find_None_iff ids_taken_def list_ex_iff)
  then have c: "find_command (id_command ids) db2 = Some c"
    using allowed(7) find_command_snoc [of "id_command ids" db c] by (simp add: db2_def find_command_def)
  have tables: "xd_commands db1 = xd_commands db2" "xd_claims db1 = xd_claims db2" "xd_authorizations db1 = xd_authorizations db2"
    "xd_switch db1 = xd_switch db2" "xd_plans db1 = xd_plans db2" "xd_bindings db1 = xd_bindings db2"
    "xd_effects db1 = xd_effects db2 @ [effect_of (id_command ids) (id_client_order ids) epoch_value]" "xd_switch db2 = xd_switch db" "xd_fills db1 = xd_fills db2"
    by (simp_all add: allowed(15) db2_def key put_accounting_def)
  have "exec_le db2 db1 \<and> effects_ok db1"
    by (rule new_effect_le [where e = "effect_of (id_command ids) (id_client_order ids) epoch_value" and c = c and ep = ep, OF conjunct2 [OF 2]])
      (use c assms(5,6) allowed(8,9) claims claims_ok_cong [OF tables(2,1,3)] tables in \<open>simp_all add: effect_of_def\<close>)
  then show ?thesis using exec_le_trans 2 by blast
qed

lemma claim_plan_le:
  assumes "claim_plan env inp br plan q payload ids now db = Inr (out, db1)" "slots_ok k db" "others_ok k env"
    and "effects_ok db" "benign (xe_switch_others env)" "others_le k env"
    and acc: "(cq_org q, cq_account q) \<in> set (sw_accounts (xd_switch db))" "(cq_org q, xp_account plan) \<in> set (sw_accounts (xd_switch db))"
  shows "exec_le db db1 \<and> effects_ok db1"
  using assms(1)
proof (rule claim_plan_cases, goal_cases)
  case (1 epoch db2 intent a db3)
  have q: "quiet db db2" using quiet_locked [OF assms(5) acc(1) effects_okD(1) [OF assms(4)]] 1(1) by (metis snd_conv)
  have ep: "find_epoch (cq_org q) (cq_account q) (xd_switch db2) = Some epoch"
    using lock_epoch_ok(3) [OF assms(5) acc(1) _ effects_okD(1) [OF assms(4)]] locked_epoch_db [OF 1(1)] by fastforce
  have ok2: "slots_ok k db2" "effects_ok db2"
    using same_ledger_ok [OF locked_same_ledger assms(2), of env "cq_org q" "cq_account q"] 1(1) quiet_ok [OF q assms(4)] by auto
  have l: "exec_le db2 db3 \<and> effects_ok db3" if b: "exec_le db2 x" "effects_ok x" "ledger_update x db3" for x
    using quiet_ledger [OF b(3) effects_okD(1) [OF b(2)]] exec_le_trans [OF b(1)] quiet_le quiet_ok [OF _ b(2)] by blast
  have 3: "exec_le db2 db3 \<and> effects_ok db3"
    using lock_risk_accounting_ok(4) [OF 1(3) ok2(1) assms(3)] l [OF exec_le_refl ok2(2)] l assms(6) ok2 unfolding others_le_def by blast
  have acc3: "(cq_org q, cq_account q) \<in> set (sw_accounts (xd_switch db3))" "(cq_org q, xp_account plan) \<in> set (sw_accounts (xd_switch db3))"
    using acc switch_leD(1) [OF exec_leD(1) [OF exec_le_trans [OF quiet_le [OF q] conjunct1 [OF 3]]]] by blast+
  obtain ep' where "find_epoch (cq_org q) (cq_account q) (xd_switch db3) = Some ep'" "ep_epoch epoch \<le> ep_epoch ep'"
    using switch_leD(2) [OF exec_leD(1) [OF conjunct1 [OF 3]] ep] by blast
  then have "exec_le db3 db1 \<and> effects_ok db1"
    using 1(4) persist_blocked_le [OF _ conjunct2 [OF 3] acc3(2)] persist_allow_le [OF _ conjunct2 [OF 3] acc3] by blast
  then show ?case using exec_le_trans quiet_le [OF q] 3 by blast
qed

lemma prim_le:
  assumes "exec_prim env k db db1" "slots_ok k db" "others_ok k env" "effects_ok db" "benign (xe_switch_others env)" "others_le k env"
  shows "exec_le db db1 \<and> effects_ok db1"
  using assms
proof (induction rule: exec_prim.induct)
  case (pr_lock cid db c)
  then show ?case using quiet_lock_command quiet_le quiet_ok by blast
next
  case pr_record
  then show ?case using quiet_record quiet_le quiet_ok effects_okD(1) by blast
next
  case pr_effect
  then show ?case using put_effect_le by blast
next
  case (pr_authorize e' db e c ep)
  have "lock_epoch (xe_global_active env) (xe_switch_others env) (xc_org c) (xc_account c) (xd_switch db) = (ep, xd_switch db)"
    using locked_epoch_db [OF pr_authorize(4)] by (metis exec_db.select_convs(2) exec_db.surjective exec_db.update_convs(2))
  from lock_epoch_ok(3) [OF _ effects_okD(2) this effects_okD(1)] pr_authorize
  have "find_epoch (xc_org c) (xc_account c) (xd_switch db) = Some ep" by blast
  then have "\<not> fenced (fx_command e') db" using pr_authorize(1,2,3,5) by (auto simp: fenced_def safety_blocks_dispatch_def)
  then show ?case using put_effect_le pr_authorize by blast
next
  case pr_release
  then show ?case using quiet_release quiet_le quiet_ok by blast
next
  case pr_fill
  then show ?case using quiet_fill quiet_le quiet_ok by blast
qed

lemma prims_le:
  assumes "exec_prims env k db db1" "slots_ok k db" "others_ok k env" "effects_ok db" "benign (xe_switch_others env)" "others_le k env"
  shows "exec_le db db1 \<and> effects_ok db1"
  using assms
proof (induction rule: rtranclp_induct)
  case (step db1 db2)
  then have "slots_ok k db1" using prims_slots by blast
  then show ?case using step prim_le exec_le_trans by blast
qed simp

lemma claim_plan_binding:
  assumes "claim_plan env inp br plan q payload ids now db = Inr (out, db1)" "slots_ok k db" "others_ok k env" "keeps_binding q env"
  shows "find_binding (cq_org q) (cq_key q) db1 = find_binding (cq_org q) (cq_key q) db"
  using assms(1)
proof (rule claim_plan_cases, goal_cases)
  case (1 epoch db2 intent a db3)
  have ok2: "slots_ok k db2" using same_ledger_ok [OF locked_same_ledger assms(2), of env "cq_org q" "cq_account q"] 1(1) by auto
  have db2: "xd_bindings db2 = xd_bindings db" using locked_epoch_db [OF 1(1)] by auto
  have "find_binding (cq_org q) (cq_key q) x = find_binding (cq_org q) (cq_key q) y" if "ledger_update y x" for x y
    using that by (auto simp: ledger_update_def find_binding_def)
  then have db3: "find_binding (cq_org q) (cq_key q) db3 = find_binding (cq_org q) (cq_key q) db"
    using lock_risk_accounting_ok(4) [OF 1(3) ok2 assms(3)] assms(4) db2 by (auto simp: keeps_binding_def find_binding_def)
  have "xd_bindings db1 = xd_bindings db3" using 1(4)
  proof
    assume "\<exists>reason. claim_refusal env inp br plan (cq_org q) epoch a intent db3 = Some reason \<and> out = OUTCOME_BLOCKED
      \<and> persist_blocked plan q payload (id_command ids) (id_receipt ids) reason intent now db3 = Inr db1"
    then show ?thesis by (auto elim!: persist_blocked_db)
  next
    assume "claim_refusal env inp br plan (cq_org q) epoch a intent db3 = None
      \<and> persist_allow plan q payload ids (ep_epoch epoch) a intent now db3 = Inr (out, db1)"
    then show ?thesis by (auto elim!: persist_allow_cases persist_blocked_db simp: put_accounting_def)
  qed
  then show ?case using db3 by (simp add: find_binding_def)
qed

lemma quiet_bindings:
  assumes "switch_ok (xd_switch db)" "bindings_le db (db\<lparr>xd_bindings := bs\<rparr>)"
  shows "quiet db (db\<lparr>xd_bindings := bs\<rparr>)"
  using assms by (simp add: quiet_def)

lemma find_binding_complete:
  assumes "ib_org b = cq_org q" "ib_key b = cq_key q"
  shows "find_binding org key (snd (complete_binding q b db)) = (if org = cq_org q \<and> key = cq_key q
    then map_option (\<lambda>_. fst (complete_binding q b db)) (find_binding org key db) else find_binding org key db)"
proof -
  define b1 where "b1 = fst (complete_binding q b db)"
  have b1: "ib_org b1 = cq_org q" "ib_key b1 = cq_key q" using assms by (simp_all add: b1_def complete_binding_def Let_def)
  have "find (\<lambda>x. ib_org x = org \<and> ib_key x = key) (map (\<lambda>x. if ib_org x = cq_org q \<and> ib_key x = cq_key q then b1 else x) xs)
    = (if org = cq_org q \<and> key = cq_key q then map_option (\<lambda>_. b1) (find (\<lambda>x. ib_org x = org \<and> ib_key x = key) xs)
       else find (\<lambda>x. ib_org x = org \<and> ib_key x = key) xs)" for xs
    using b1 by (induction xs) auto
  moreover have "xd_bindings (snd (complete_binding q b db))
      = map (\<lambda>x. if ib_org x = cq_org q \<and> ib_key x = cq_key q then b1 else x) (xd_bindings db)"
    by (simp add: b1_def complete_binding_def Let_def)
  ultimately show ?thesis by (simp add: find_binding_def b1_def [symmetric])
qed

lemma claim_le:
  assumes "claim env earlier inp q ids now db = Inr (result, db1)" "slots_ok k db" "others_ok k env" "effects_ok db"
    and "benign (xe_switch_others env)" "others_le k env" "keeps_binding q env"
    and "slots_ok k (earlier db)" "exec_le db (earlier db)" "effects_ok (earlier db)"
  shows "exec_le db db1 \<and> effects_ok db1"
  using assms(1)
proof (cases rule: claim_cases)
  case (fresh b plan payload br out db2 db3)
  have 2: "exec_le (earlier db) db2 \<and> effects_ok db2 \<and> find_binding (cq_org q) (cq_key q) db2 = Some b"
    using fresh(2)
  proof
    assume n: "find_binding (cq_org q) (cq_key q) (earlier db) = None \<and> ib_command b = None
      \<and> db2 = (earlier db)\<lparr>xd_bindings := xd_bindings (earlier db) @ [b]\<rparr>"
    have "find_binding o' k' db2 = (case find_binding o' k' (earlier db) of Some x \<Rightarrow> Some x
        | None \<Rightarrow> if ib_org b = o' \<and> ib_key b = k' then Some b else None)" for o' k'
      using n by (simp add: find_binding_def find_snoc_row split: option.splits)
    then have "bindings_le (earlier db) db2" "find_binding (cq_org q) (cq_key q) db2 = Some b"
      using n fresh(3,4) by (simp_all add: bindings_le_def)
    then show ?thesis using n quiet_bindings [OF effects_okD(1) [OF assms(10)]] quiet_le quiet_ok [OF _ assms(10)] by blast
  qed (use assms(10) in auto)
  have ok2: "slots_ok k db2"
    using fresh(2) assms(8) by (auto intro: same_ledger_ok [rotated] simp: same_ledger_def)
  have le2: "exec_le db db2" using exec_le_trans [OF assms(9)] 2 by blast
  have acc: "(cq_org q, cq_account q) \<in> set (sw_accounts (xd_switch db2))" using fresh(1) switch_leD(1) [OF exec_leD(1) [OF le2]] by blast
  have plan: "plan \<in> set (xd_plans db2)" "xp_org plan = cq_org q" using fresh(5) by (auto simp: get_scoped_plan_def find_Some_iff)
  have 3: "exec_le db2 db3 \<and> effects_ok db3"
    using claim_plan_le [OF fresh(6) ok2 assms(3) _ assms(5,6) acc] 2 effects_okD(4) [OF _ plan(1)] plan(2) by auto
  have "find_binding (cq_org q) (cq_key q) db3 = Some b" using claim_plan_binding [OF fresh(6) ok2 assms(3,7)] 2 by simp
  then have "bindings_le db3 db1"
    using fresh(2) unfolding bindings_le_def fresh(7) find_binding_complete [OF fresh(3,4)] by auto
  then have "quiet db3 db1" using quiet_bindings [of db3] effects_okD(1) 3 by (simp add: fresh(7) complete_binding_def Let_def)
  then show ?thesis using exec_le_trans le2 3 quiet_le quiet_ok by blast
qed (use assms in auto)

lemma tables_le:
  assumes "effects_ok db" "xd_switch db1 = xd_switch db" "xd_commands db1 = xd_commands db" "xd_effects db1 = xd_effects db"
    and "xd_bindings db1 = xd_bindings db" "\<And>p. p \<in> set (xd_plans db1) \<Longrightarrow> (xp_org p, xp_account p) \<in> set (sw_accounts (xd_switch db))" "claims_ok db1"
    and "xd_fills db1 = xd_fills db"
  shows "exec_le db db1 \<and> effects_ok db1"
  using assms bindings_le_same [OF assms(5)] by (simp add: exec_le_def effects_ok_def find_command_def find_effect_def)

lemma run_le: "exec_run g k m db db1 \<Longrightarrow> slots_ok k db \<Longrightarrow> effects_ok db \<Longrightarrow> exec_le db db1 \<and> effects_ok db1"
proof (induction rule: exec_run.induct)
  case (run_op db db1 env db2)
  have o: "others_ok k env" using run_slots [OF run_op.hyps(5)] by (simp add: others_ok_def)
  have "others_le k env" using run_op.IH(2) by (simp add: others_le_def)
  from prims_le [OF op_path [OF run_op.hyps(6)] run_slots [OF run_op.hyps(1)] o _ run_benign [OF run_op.hyps(4)] this] run_op
  show ?case using exec_le_trans by blast
next
  case (run_claim db db1 env earlier q inp ids now result db2)
  have o: "others_ok k env" using run_slots [OF run_claim.hyps(5)] by (simp add: others_ok_def)
  have l: "others_le k env" using run_claim.IH(2) by (simp add: others_le_def)
  have ok: "slots_ok k db1" "effects_ok db1" using run_slots [OF run_claim.hyps(1)] run_claim by auto
  have e: "slots_ok k (earlier db1)" "exec_le db1 (earlier db1)" "effects_ok (earlier db1)"
    using run_slots [OF run_claim.hyps(6) ok(1)] run_claim.IH(3) [OF ok] by auto
  from claim_le [OF run_claim.hyps(8) ok(1) o ok(2) run_benign [OF run_claim.hyps(4)] l run_claim.hyps(7) e] run_claim
  show ?case using exec_le_trans by blast
next
  case (run_switch db db1 sdb)
  then have "quiet db1 (db1\<lparr>xd_switch := sdb\<rparr>)"
    using switch_run_ok [OF run_switch.hyps(2) effects_okD(1)] by (simp add: quiet_def bindings_le_same)
  then show ?case using run_switch exec_le_trans quiet_le quiet_ok by blast
next
  case (run_portfolio db db1 pdb)
  then have "quiet db1 (db1\<lparr>xd_portfolio := pdb\<rparr>)" using effects_okD(1) by (auto intro: quiet_same)
  then show ?case using run_portfolio exec_le_trans quiet_le quiet_ok by blast
next
  case (run_plan db db1 plan)
  then have ok: "effects_ok db1" by blast
  have "exec_le db1 (db1\<lparr>xd_plans := xd_plans db1 @ [plan]\<rparr>) \<and> effects_ok (db1\<lparr>xd_plans := xd_plans db1 @ [plan]\<rparr>)"
    by (rule tables_le [OF ok]) (use effects_okD(4,5) [OF ok] run_plan.hyps(2) claims_ok_cong [of "db1\<lparr>xd_plans := xd_plans db1 @ [plan]\<rparr>" db1] in auto)
  then show ?case using run_plan exec_le_trans by blast
next
  case (run_authorization db db1 a)
  then have ok: "effects_ok db1" by blast
  have "claims_ok (db1\<lparr>xd_authorizations := xd_authorizations db1 @ [a]\<rparr>)"
    using effects_okD(5) [OF ok] run_authorization.hyps(2) by (auto simp: claims_ok_def used_up_def)
  from tables_le [OF ok _ _ _ _ _ this] effects_okD(4) [OF ok] run_authorization show ?case using exec_le_trans by auto
next
  case (run_withdrawn db db1 s i)
  then have ok: "effects_ok db1" by blast
  define rows where "rows = map (\<lambda>a. if au_id a = i \<and> au_state a = AUTH_AVAILABLE then a\<lparr>au_state := s\<rparr> else a) (xd_authorizations db1)"
  have "map au_id rows = map au_id (xd_authorizations db1)" by (auto simp: rows_def)
  moreover have "used_up c (xd_authorizations db1) \<Longrightarrow> used_up c rows" for c unfolding used_up_def rows_def by force
  ultimately have "claims_ok (db1\<lparr>xd_authorizations := rows\<rparr>)" using effects_okD(5) [OF ok] by (auto simp: claims_ok_def)
  from tables_le [OF ok _ _ _ _ _ this] effects_okD(4) [OF ok] run_withdrawn show ?case
    unfolding rows_def [symmetric] using exec_le_trans by auto
qed simp

end
