(* ===== verification/Execution_Samples.thy ===== *)
theory Execution_Samples
  imports Execution_Runs
begin

text \<open>
  A concrete run of the execution protocol: two plans of one paper account, a claim, its lease, its
  authorization, a second claim, and the answers of the venue. The last two sections run the code on
  schedules on which it does not keep what it means to keep.
\<close>

section \<open>Start and samples\<close>

definition empty_exec :: "portfolio_db \<Rightarrow> exec_db" where
  "empty_exec pdb = \<lparr>xd_portfolio = pdb, xd_switch = empty_switch, xd_plans = [], xd_accounting = [], xd_reservations = [],
     xd_commands = [], xd_claims = [], xd_authorizations = [], xd_bindings = [], xd_projections = [], xd_transitions = [], xd_effects = [],
     xd_fills = [], xd_audit = []\<rparr>"

lemma empty_exec_ok [simp]: "slots_ok k (empty_exec pdb)" "effects_ok (empty_exec pdb)"
  by (simp_all add: slots_ok_def rows_ok_def ledger_slots_def held_slots_def find_accounting_def effects_ok_def find_command_def
      find_effect_def claims_ok_def empty_exec_def)

definition sample_env :: exec_env where
  "sample_env = \<lparr>xe_zones = moving_zones, xe_global_active = False, xe_money = (\<lambda>x. x), xe_held = (\<lambda>_. False),
     xe_switch_others = (\<lambda>x. x), xe_others = (\<lambda>x. x)\<rparr>"

definition sample_plan :: "string \<Rightarrow> execution_plan" where
  "sample_plan revision = \<lparr>xp_revision_id = revision, xp_org = ''o'', xp_user = ''u'', xp_account = ''a'', xp_content_hash = ''h'',
     xp_valid_from = 0, xp_valid_until = 9 * DAY, xp_venue = INTERNAL_PAPER_VENUE, xp_schema_version = ''CanonicalTradePlanContentV1'',
     xp_instrument = ''BTC'', xp_quantity = 1, xp_quantity_unit = ''BASE'', xp_multiplier = 1, xp_contract_type = ''LINEAR'',
     xp_limit_price = None, xp_execution_price = (100, ''USDT''), xp_entry_upper = 100, xp_fee_allowance = 1,
     xp_slippage_allowance = 1, xp_maximum_loss = 10, xp_margin_assumption = None\<rparr>"

definition sample_authorization :: "string \<Rightarrow> authorization" where
  "sample_authorization i = \<lparr>au_id = i, au_org = ''o'', au_user = ''u'', au_account = ''a'', au_state = AUTH_AVAILABLE,
     au_expires_at = 9 * DAY, au_plan_hash = ''h'', au_consumed_by = None\<rparr>"

definition sample_inputs :: claim_inputs where
  "sample_inputs = \<lparr>ci_process = Inr (), ci_real_trading = False, ci_decision_action = None, ci_account_enabled = True,
     ci_payload = (\<lambda>p a. Inr (xp_revision_id p @ au_id a)), ci_reward_risk = (\<lambda>_. None), ci_revalidate = (\<lambda>_ _. None),
     ci_demo_history = False, ci_experiment_refusal = None, ci_manual_capacity = None, ci_profile_caps = Inr None\<rparr>"

definition sample_ids :: "string \<Rightarrow> claim_ids" where
  "sample_ids n = \<lparr>id_command = ''c'' @ n, id_receipt = ''r'' @ n, id_reservation = ''v'' @ n, id_second_command = ''d'' @ n,
     id_second_receipt = ''s'' @ n, id_client_order = ''k'' @ n\<rparr>"

definition sample_request :: "string \<Rightarrow> claim_request" where
  "sample_request n = \<lparr>cq_org = ''o'', cq_user = ''u'', cq_account = ''a'', cq_authorization = ''x'' @ n, cq_revision = ''p'' @ n,
     cq_key = ''y'' @ n, cq_action = EXECUTE_PAPER_PLAN\<rparr>"

definition sample_ready :: exec_db where
  "sample_ready = (empty_exec empty_portfolio)\<lparr>xd_switch := one_account, xd_plans := [sample_plan ''p1'', sample_plan ''p2''],
     xd_authorizations := [sample_authorization ''x1'', sample_authorization ''x2'']\<rparr>"

definition claim_sample :: "string \<Rightarrow> int \<Rightarrow> exec_db \<Rightarrow> (claim_result \<times> exec_db) res" where
  "claim_sample n now db = claim sample_env (\<lambda>x. x) sample_inputs (sample_request n) (sample_ids n) now db"

lemma sample_ready_run: "exec_run False k (\<lambda>x. x) (empty_exec empty_portfolio) sample_ready"
proof -
  have "exec_run False k (\<lambda>x. x) (empty_exec empty_portfolio) ((empty_exec empty_portfolio)\<lparr>xd_switch := one_account\<rparr>)"
    by (rule run_switch [OF run_refl]) (use one_account_run in \<open>simp add: empty_exec_def\<close>)
  from run_plan [OF this, of "sample_plan ''p1''"]
  have "exec_run False k (\<lambda>x. x) (empty_exec empty_portfolio) ((empty_exec empty_portfolio)\<lparr>xd_switch := one_account, xd_plans := [sample_plan ''p1'']\<rparr>)"
    by (simp add: empty_exec_def one_account_def sample_plan_def)
  from run_plan [OF this, of "sample_plan ''p2''"]
  have "exec_run False k (\<lambda>x. x) (empty_exec empty_portfolio)
      ((empty_exec empty_portfolio)\<lparr>xd_switch := one_account, xd_plans := [sample_plan ''p1'', sample_plan ''p2'']\<rparr>)"
    by (simp add: empty_exec_def one_account_def sample_plan_def)
  from run_authorization [OF this, of "sample_authorization ''x1''"]
  have "exec_run False k (\<lambda>x. x) (empty_exec empty_portfolio) ((empty_exec empty_portfolio)\<lparr>xd_switch := one_account,
      xd_plans := [sample_plan ''p1'', sample_plan ''p2''], xd_authorizations := [sample_authorization ''x1'']\<rparr>)"
    by (simp add: empty_exec_def sample_authorization_def)
  from run_authorization [OF this, of "sample_authorization ''x2''"]
  show ?thesis by (simp add: sample_ready_def empty_exec_def sample_authorization_def)
qed

lemma sample_run_op: "exec_run False k (\<lambda>x. x) db0 db \<Longrightarrow> exec_op sample_env k db db1 \<Longrightarrow> exec_run False k (\<lambda>x. x) db0 db1"
  by (erule run_op) (simp_all add: sample_env_def sw_refl run_refl)

lemma sample_run_claim:
  "exec_run False k (\<lambda>x. x) db0 db \<Longrightarrow> claim_sample n now db = Inr (result, db1) \<Longrightarrow> exec_run False k (\<lambda>x. x) db0 db1"
  unfolding claim_sample_def
  by (erule run_claim [where q = "sample_request n"]) (simp_all add: sample_env_def sw_refl run_refl keeps_binding_def)

lemma moving_utc: "moving_zones ''UTC'' = Some utc_zone"
  by (simp add: moving_zones_def)

lemmas setting_eval = get_settings_def load_settings_def defaults_response_def moving_names default_settings_def
  user_risk_settings.defs empty_portfolio_def paper_trading_day_def local_date_def utc_offset_def utc_zone_def moving_utc

lemmas table_eval = find_plan_def find_command_def find_effect_def find_accounting_def find_reservation_def find_projection_def find_fill_def
  put_accounting_def put_reservation_def put_effect_def append_transition_def next_sequence_def list_for_receipt_def
  locked_epoch_def lock_epoch_def find_epoch_def organization_kill_active_def find_switch_def kill_active_for_def

lemmas claim_eval = claim_sample_def claim_def assert_entry_boundary_def get_scoped_plan_def find_authorization_def find_binding_def
  insert_or_lock_idempotency_def assert_binding_matches_def revalidate_without_consuming_def load_result_def complete_binding_def
  compare_and_set_available_to_consumed_def sample_authorization_def sample_request_def SUBMIT_ENTRY_NAMESPACE_def EXECUTE_PAPER_PLAN_def claim_plan_def conservative_reservation_def sample_plan_def linear_quote_exposure_def renamed_inverse_def
  paper_daily_trade_roll_def lock_risk_accounting_def new_accounting_def roll_daily_trade_slots_def claim_refusal_def sample_inputs_def
  evaluate_claim_predicate_def accounting_view_def accounting.defs symbol_amount_def persist_allow_def ids_taken_def sample_ids_def
  charge_reservation_def new_projection_def reservation_of_def effect_of_def INTERNAL_PAPER_VENUE_def

lemmas start_eval = time_defs sample_env_def sample_ready_def empty_exec_def one_account_def empty_switch_def Let_def dec_eval

text \<open>The tables after the claim of the first plan.\<close>

definition sample_account :: account_row where
  "sample_account = \<lparr>acc_daily_locked = False, acc_max_notional = 10000, acc_reserved_notional = 102, acc_actual_notional = 0,
     acc_max_daily_loss = 10000, acc_reserved_daily_loss = 10, acc_actual_daily_loss = 0, acc_max_trade_slots = 20,
     acc_reserved_trade_slots = 1, acc_actual_trade_count = 0, acc_max_symbol_notional = 10000, acc_symbol_reserved = [''BTC'' \<mapsto> 102],
     acc_symbol_actual = Map.empty, ar_org = ''o'', ar_account = ''a'', ar_exposure_unit = ''USDT'',
     ar_trade_slot_business_date = Some 1, ar_version = 2\<rparr>"

definition sample_reservation :: risk_reservation where
  "sample_reservation = \<lparr>rr_id = ''v1'', rr_org = ''o'', rr_account = ''a'', rr_plan_revision_id = ''p1'', rr_command_id = ''c1'',
     rr_receipt_id = ''r1'', rr_instrument = ''BTC'', rr_daily_trade_allocation = 1, rr_daily_loss_allocation = 10,
     rr_remaining_reserved_notional = 102, rr_converted_trade_slots = 0, rr_contract_multiplier = 1, rr_contract_type = ''LINEAR'',
     rr_quantity_unit = ''BASE'', rr_exposure_unit = ''USDT'', rr_safety_epoch = 1, rr_release_state = CHARGED,
     rr_release_reason = None, rr_created_at = DAY + 23 * HOUR\<rparr>"

definition sample_command :: execution_command where
  "sample_command = \<lparr>xc_id = ''c1'', xc_org = ''o'', xc_user = ''u'', xc_account = ''a'', xc_revision_id = ''p1'', xc_receipt_id = ''r1'',
     xc_authorization = ''x1'', xc_payload_hash = ''p1x1'', xc_key = ''y1'', xc_outcome = OUTCOME_ALLOW, xc_blocked_reason = None\<rparr>"

definition sample_effect :: submit_effect where
  "sample_effect = effect_of ''c1'' ''k1'' 1"

definition sample_transition :: transition where
  "sample_transition = \<lparr>tr_receipt = ''r1'', tr_sequence = 1, tr_prior_state = None, tr_new_state = SUBMITTING, tr_source_fact = ''claim_allow'',
     tr_source_identity = ''c1'', tr_quantity = Some 1, tr_unit_price = None, tr_occurred_at = DAY + 23 * HOUR, tr_actor = ''execution_service''\<rparr>"

definition sample_binding :: idempotency_binding where
  "sample_binding = \<lparr>ib_org = ''o'', ib_user = ''u'', ib_account = ''a'', ib_namespace = SUBMIT_ENTRY_NAMESPACE, ib_key = ''y1'',
     ib_payload_hash = ''p1x1'', ib_revision_id = ''p1'', ib_command = Some ''c1'', ib_receipt = Some ''r1'', ib_outcome = Some OUTCOME_ALLOW\<rparr>"

definition sample_claimed :: exec_db where
  "sample_claimed = sample_ready\<lparr>
     xd_switch := one_account\<lparr>sw_epochs := [\<lparr>ep_org = ''o'', ep_account = ''a'', ep_epoch = 1, ep_blocking = False, ep_last_reason_code = ''initialized''\<rparr>]\<rparr>,
     xd_accounting := [sample_account], xd_reservations := [sample_reservation], xd_commands := [sample_command],
     xd_claims := [(''o'', ''a'', ''p1'')],
     xd_authorizations := [(sample_authorization ''x1'')\<lparr>au_state := AUTH_CONSUMED, au_consumed_by := Some ''c1''\<rparr>, sample_authorization ''x2''],
     xd_bindings := [sample_binding], xd_projections := [new_projection ''r1'' SUBMITTING 1 ''BASE''],
     xd_transitions := [sample_transition], xd_effects := [sample_effect]\<rparr>"

definition sample_result :: claim_result where
  "sample_result = \<lparr>cr_replayed = False, cr_command = sample_command, cr_projection = new_projection ''r1'' SUBMITTING 1 ''BASE'',
     cr_effect = Some sample_effect, cr_reservation = Some sample_reservation\<rparr>"

lemmas claimed_eval = sample_claimed_def sample_account_def sample_reservation_def sample_command_def sample_effect_def sample_transition_def
  sample_binding_def effect_of_def new_projection_def

lemma sample_claim: "claim_sample ''1'' (DAY + 23 * HOUR) sample_ready = Inr (sample_result, sample_claimed)"
  by (simp add: claimed_eval sample_result_def claim_eval table_eval setting_eval start_eval)

lemma sample_result_new: "\<not> cr_replayed sample_result" "xc_outcome (cr_command sample_result) = OUTCOME_ALLOW"
  by (simp_all add: sample_result_def sample_command_def)

lemma sample_claimed_run: "exec_run False k (\<lambda>x. x) (empty_exec empty_portfolio) sample_claimed"
  by (rule sample_run_claim [OF sample_ready_run sample_claim])

lemma sample_claimed_rows:
  "find_accounting ''o'' ''a'' sample_claimed = Some sample_account" "find_effect ''c1'' sample_claimed = Some sample_effect"
  "find_command ''c1'' sample_claimed = Some sample_command" "\<not> org_active ''o'' (xd_switch sample_claimed)"
  by (simp_all add: claimed_eval table_eval start_eval org_active_def)

section \<open>A release that meets the roll\<close>

text \<open>
  The condition on releases is needed. A venue rejects an order of yesterday as the first access to the
  ledger today: the lock of the ledger rolls the day and releases the reservation of the rejected
  receipt, and \<open>release_unused_reservation\<close>, which read its remainder before, subtracts it again. The
  ledger then reserves no slot while the other reservation of the account still holds one, so one trade
  more than the daily limit can be admitted.
\<close>

definition free_fill :: "execution_command \<Rightarrow> rat res" where "free_fill _ = Inr 0"

definition any_experiment :: "execution_command \<Rightarrow> int \<Rightarrow> unit res" where "any_experiment _ _ = Inr ()"

definition leased_effect :: submit_effect where
  "leased_effect = sample_effect\<lparr>fx_state := LEASED, fx_lease_owner := Some ''w'', fx_lease_expires_at := Some (2 * DAY + HOUR), fx_fencing_token := 1\<rparr>"

definition sample_leased :: exec_db where
  "sample_leased = sample_claimed\<lparr>xd_effects := [leased_effect]\<rparr>"

definition sample_authorized :: exec_db where
  "sample_authorized = sample_claimed\<lparr>xd_effects := [leased_effect\<lparr>fx_state := DISPATCH_AUTHORIZED, fx_dispatch_authorized_at := Some (DAY + 23 * HOUR),
     fx_dispatch_safety_epoch := Some 1, fx_dispatch_fencing_token := Some 1, fx_attempt := 1, fx_dispatch_attempt := Some 1\<rparr>]\<rparr>"

definition sample_second :: exec_db where
  "sample_second = snd (projr (claim_sample ''2'' (DAY + 23 * HOUR) sample_authorized))"

definition sample_rejected :: exec_db where
  "sample_rejected = projr (attempt_fake_send sample_env free_fill ''c1'' ''w'' 1 Venue_Rejected (2 * DAY + HOUR) sample_second)"

lemmas dispatch_eval = sample_leased_def sample_authorized_def leased_effect_def sample_second_def free_fill_def any_experiment_def lease_effect_def
  authorize_dispatch_def safety_blocks_dispatch_def attempt_fake_send_def require_committed_dispatch_authorization_def mark_rejected_def
  with_receipt_def record_transition_def apply_projection_transition_def release_unused_reservation_def manual_unused_def released_account_def
  release_reservation_remainder_def unconverted_def adjust_symbol_map_def not_below_zero_def orphan_cause_def terminal_cause_def
  has_fill_def paper_reservations_for_roll_def audit_orphan_release_def TERMINAL_RECEIPT_STATES_def PAPER_UNFILLED_RESERVATION_MAX_AGE_def

lemmas all_eval = dispatch_eval claimed_eval claim_eval table_eval setting_eval start_eval

lemma sample_lease: "lease_effect sample_env free_fill any_experiment ''c1'' ''w'' 7200 (DAY + 23 * HOUR) sample_claimed = Inr sample_leased"
  by (simp add: all_eval)

lemma sample_authorize: "authorize_dispatch sample_env free_fill any_experiment ''c1'' ''w'' 1 (DAY + 23 * HOUR) sample_leased = Inr sample_authorized"
  by (simp add: all_eval)

lemma sample_claim_2: "claim_sample ''2'' (DAY + 23 * HOUR) sample_authorized
    = Inr (fst (projr (claim_sample ''2'' (DAY + 23 * HOUR) sample_authorized)), sample_second)"
  by (simp add: all_eval)

lemma sample_reject: "attempt_fake_send sample_env free_fill ''c1'' ''w'' 1 Venue_Rejected (2 * DAY + HOUR) sample_second = Inr sample_rejected"
  by (simp add: sample_rejected_def all_eval)


lemma sample_second_run: "exec_run False False (\<lambda>x. x) (empty_exec empty_portfolio) sample_second"
proof -
  have "exec_run False False (\<lambda>x. x) (empty_exec empty_portfolio) sample_leased"
    by (rule sample_run_op [OF sample_claimed_run op_lease [OF _ sample_lease]]) (simp add: no_roll_def)
  then have a: "exec_run False False (\<lambda>x. x) (empty_exec empty_portfolio) sample_authorized"
    by (rule sample_run_op [OF _ op_authorize [OF _ sample_authorize]]) (simp add: no_roll_def)
  show ?thesis by (rule sample_run_claim [OF a sample_claim_2])
qed

theorem roll_releases_twice:
  "exec_run False False (\<lambda>x. x) (empty_exec empty_portfolio) sample_rejected
   \<and> ledger_slots ''o'' ''a'' sample_rejected = 0 \<and> held_slots ''o'' ''a'' sample_rejected = 1"
proof -
  have "exec_run False False (\<lambda>x. x) (empty_exec empty_portfolio) sample_rejected"
    by (rule sample_run_op [OF sample_second_run op_fake_send [OF _ sample_reject]]) (simp add: no_roll_def)
  moreover have "ledger_slots ''o'' ''a'' sample_rejected = 0" "held_slots ''o'' ''a'' sample_rejected = 1"
    by (simp_all add: ledger_slots_def held_slots_def holds_slots_def sample_rejected_def all_eval)
  ultimately show ?thesis by blast
qed


section \<open>A send that may have happened is declared unsent\<close>

text \<open>
  \<open>lease_effect\<close> looks at the safety epoch before the state of the effect, and \<open>block_before_dispatch\<close> only
  refuses an effect that is authorized. An order was handed to a venue that did not answer, so its effect
  is ambiguous and its receipt requires a reconciliation; after an activation of the kill switch a second
  lease of the same command records the effect as proven unsent and never sent, resolves the receipt as blocked before dispatch
  and releases its reservation.
\<close>

definition sample_silent :: exec_db where
  "sample_silent = projr (attempt_fake_send sample_env free_fill ''c1'' ''w'' 1 Venue_Silent (DAY + 23 * HOUR) sample_authorized)"

definition sample_halted :: exec_db where
  "sample_halted = sample_silent\<lparr>xd_switch :=
     snd (projr (activate False (\<lambda>x. x) ''o'' ''u'' stop_request ACTOR_USER 7 (xd_switch sample_silent)))\<rparr>"

definition sample_denied :: exec_db where
  "sample_denied = projr (lease_effect sample_env free_fill any_experiment ''c1'' ''w'' 7200 (DAY + 23 * HOUR) sample_halted)"

lemmas activate_eval = activate_def require_confirm_def check_version_def stop_request_def get_or_create_row_def cas_switch_def
  advance_for_kill_activation_def ensure_epochs_for_accounts_def strip_def is_space_def

lemmas silent_eval = sample_silent_def mark_ambiguous_def block_before_dispatch_def activate_eval all_eval

lemma sample_silent_step:
  "attempt_fake_send sample_env free_fill ''c1'' ''w'' 1 Venue_Silent (DAY + 23 * HOUR) sample_authorized = Inr sample_silent"
  by (simp add: silent_eval)

lemma sample_silent_state:
  "map_option fx_state (find_effect ''c1'' sample_silent) = Some SEND_AMBIGUOUS"
  "map_option pj_state (find_projection ''r1'' sample_silent) = Some RECONCILIATION_REQUIRED"
  by (simp_all add: silent_eval)

lemma sample_denied_step:
  "lease_effect sample_env free_fill any_experiment ''c1'' ''w'' 7200 (DAY + 23 * HOUR) sample_halted = Inr sample_denied"
  by (simp add: sample_denied_def sample_halted_def silent_eval)

theorem ambiguous_send_declared_unsent:
  "map_option fx_state (find_effect ''c1'' sample_halted) = Some SEND_AMBIGUOUS
   \<and> lease_effect sample_env free_fill any_experiment ''c1'' ''w'' 7200 (DAY + 23 * HOUR) sample_halted = Inr sample_denied
   \<and> map_option (\<lambda>e. (fx_state e, fx_uncertainty e, fx_disposition e)) (find_effect ''c1'' sample_denied) = Some (PROVEN_UNSENT, False, SENT_NEVER)
   \<and> map_option (\<lambda>p. (pj_state p, pj_reconciliation p)) (find_projection ''r1'' sample_denied) = Some (BLOCKED_BEFORE_DISPATCH, RECON_RESOLVED)
   \<and> map_option rr_release_state (find_reservation ''c1'' sample_denied) = Some RELEASED"
proof -
  have "map_option fx_state (find_effect ''c1'' sample_halted) = Some SEND_AMBIGUOUS" using sample_silent_state(1) by (simp add: sample_halted_def)
  moreover have "map_option (\<lambda>e. (fx_state e, fx_uncertainty e, fx_disposition e)) (find_effect ''c1'' sample_denied) = Some (PROVEN_UNSENT, False, SENT_NEVER)"
    "map_option (\<lambda>p. (pj_state p, pj_reconciliation p)) (find_projection ''r1'' sample_denied) = Some (BLOCKED_BEFORE_DISPATCH, RECON_RESOLVED)"
    "map_option rr_release_state (find_reservation ''c1'' sample_denied) = Some RELEASED"
    by (simp_all add: sample_denied_def sample_halted_def silent_eval)
  ultimately show ?thesis using sample_denied_step by blast
qed

end
