(* ===== verification/Execution_Replay.thy ===== *)
theory Execution_Replay
  imports Execution_Runs
begin

text \<open>
  The log of a receipt determines its projection: \<open>log_ok\<close> states that the transitions of every receipt are
  numbered from one without gaps and that folding them gives the state, the watermark, the filled
  quantity and the weighted price of the projection, and every run keeps it.
\<close>

section \<open>Appending to the log\<close>

lemma sorted_le_last: "sorted xs \<Longrightarrow> x \<in> set xs \<Longrightarrow> x \<le> last xs"
  by (induction xs) auto

lemma list_for_receipt_snoc:
  assumes "xd_transitions db1 = xd_transitions db @ [t]" "tr_sequence t = next_sequence (tr_receipt t) db"
  shows "list_for_receipt rid db1 = (if rid = tr_receipt t then list_for_receipt rid db @ [t] else list_for_receipt rid db)"
proof (cases "rid = tr_receipt t")
  case True
  let ?xs = "filter (\<lambda>x. tr_receipt x = rid) (xd_transitions db)"
  have "tr_sequence x \<le> tr_sequence t" if "x \<in> set ?xs" for x
  proof -
    let ?s = "sort_key tr_sequence ?xs"
    have x: "x \<in> set ?s" using that by simp
    then have ne: "?s \<noteq> []" by force
    have "sorted (map tr_sequence ?s)" by simp
    then have "tr_sequence x \<le> tr_sequence (last ?s)" using sorted_le_last [of "map tr_sequence ?s" "tr_sequence x"] x ne by (simp add: last_map)
    then show ?thesis using assms(2) True ne by (simp add: next_sequence_def list_for_receipt_def Let_def)
  qed
  from sort_key_snoc [of ?xs tr_sequence t, OF this] True assms(1) show ?thesis by (simp add: list_for_receipt_def)
qed (use assms(1) in \<open>simp add: list_for_receipt_def\<close>)

lemma rebuild_scan_snoc: "rebuild_scan rb (ts @ [t]) = res_bind (rebuild_scan rb ts) (\<lambda>rb1. rebuild_scan rb1 [t])"
proof (induction ts arbitrary: rb)
  case (Cons x ts)
  show ?case
  proof (cases "tr_quantity x")
    case None
    then show ?thesis using Cons by (simp add: Let_def)
  next
    case (Some q)
    then show ?thesis using Cons
      by (cases "tr_source_fact x \<noteq> ''unique_fill''"; cases "tr_unit_price x")
        (auto simp: Let_def res_bind_def split: sum.splits)
  qed
qed simp

section \<open>The invariant\<close>

definition start_scan :: "rat \<Rightarrow> rebuilt" where
  "start_scan remaining = \<lparr>rb_state = None, rb_filled = 0, rb_remaining = remaining, rb_weighted = None, rb_watermark = 0\<rparr>"

definition agrees :: "(rat \<Rightarrow> rat) \<Rightarrow> projection \<Rightarrow> rebuilt \<Rightarrow> bool" where
  "agrees m p rb \<longleftrightarrow> rb_state rb = Some (pj_state p) \<and> rb_watermark rb = pj_watermark p
     \<and> (m = (\<lambda>x. x) \<longrightarrow> rb_filled rb = pj_filled p \<and> rb_weighted rb = pj_weighted p)"

definition logged :: "(rat \<Rightarrow> rat) \<Rightarrow> projection \<Rightarrow> transition list \<Rightarrow> bool" where
  "logged m p ts \<longleftrightarrow> ts \<noteq> [] \<and> map tr_sequence ts = [1..int (length ts)] \<and> pj_watermark p = int (length ts)
     \<and> (\<forall>remaining. \<exists>rb. rebuild_scan (start_scan remaining) ts = Inr rb \<and> agrees m p rb)"

definition log_ok :: "(rat \<Rightarrow> rat) \<Rightarrow> exec_db \<Rightarrow> bool" where
  "log_ok m db \<longleftrightarrow> distinct (map pj_receipt (xd_projections db))
     \<and> (\<forall>p \<in> set (xd_projections db). logged m p (list_for_receipt (pj_receipt p) db) \<and> pj_receipt p \<in> xc_receipt_id ` set (xd_commands db))
     \<and> (\<forall>t \<in> set (xd_transitions db). tr_receipt t \<in> pj_receipt ` set (xd_projections db))"

lemma log_okD:
  assumes "log_ok m db"
  shows "distinct (map pj_receipt (xd_projections db))"
    and "p \<in> set (xd_projections db) \<Longrightarrow> logged m p (list_for_receipt (pj_receipt p) db)"
    and "p \<in> set (xd_projections db) \<Longrightarrow> pj_receipt p \<in> xc_receipt_id ` set (xd_commands db)"
    and "t \<in> set (xd_transitions db) \<Longrightarrow> tr_receipt t \<in> pj_receipt ` set (xd_projections db)"
  using assms unfolding log_ok_def by blast+

lemma log_ok_cong:
  assumes "log_ok m db" "xd_projections db1 = xd_projections db" "xd_transitions db1 = xd_transitions db" "set (xd_commands db) \<subseteq> set (xd_commands db1)"
  shows "log_ok m db1"
  using assms image_mono [OF assms(4), of xc_receipt_id] unfolding log_ok_def by (auto simp: list_for_receipt_def)

lemma upto_snoc: "[1..int (Suc n)] = [1..int n] @ [int (Suc n)]"
  by (simp add: upto_rec2)

lemma logged_snoc:
  assumes "logged m p ts" "tr_sequence t = int (length ts) + 1" "pj_watermark p1 = tr_sequence t"
    and "\<And>rb. agrees m p rb \<Longrightarrow> \<exists>rb1. rebuild_scan rb [t] = Inr rb1 \<and> agrees m p1 rb1"
  shows "logged m p1 (ts @ [t])"
proof -
  have "\<exists>rb. rebuild_scan (start_scan r) (ts @ [t]) = Inr rb \<and> agrees m p1 rb" for r
  proof -
    obtain rb where "rebuild_scan (start_scan r) ts = Inr rb" "agrees m p rb" using assms(1) by (auto simp: logged_def)
    then show ?thesis using assms(4) [of rb] by (simp add: rebuild_scan_snoc)
  qed
  moreover have "map tr_sequence (ts @ [t]) = [1..int (length (ts @ [t]))]"
    using assms(1,2) upto_snoc [of "length ts"] by (simp add: logged_def add.commute)
  ultimately show ?thesis using assms(2,3) by (simp add: logged_def)
qed

lemma next_sequence_logged: "logged m p (list_for_receipt rid db) \<Longrightarrow> next_sequence rid db = int (length (list_for_receipt rid db)) + 1"
proof -
  assume h: "logged m p (list_for_receipt rid db)"
  let ?ts = "list_for_receipt rid db"
  have "?ts \<noteq> []" "map tr_sequence ?ts = [1..int (length ?ts)]" using h by (auto simp: logged_def)
  then have "tr_sequence (last ?ts) = last [1..int (length ?ts)]" by (metis last_map)
  also have "\<dots> = int (length ?ts)" using \<open>?ts \<noteq> []\<close> upto_snoc [of "length ?ts - 1"] by (simp del: upto.simps)
  finally show ?thesis using \<open>?ts \<noteq> []\<close> by (simp add: next_sequence_def Let_def)
qed

lemma record_log:
  assumes "record_transition env p state source_fact ident moment actor quantity price filled remaining weighted recon db = Inr db1"
    and "log_ok m db" "xe_money env = m" "find_projection rid db = Some p"
    and "quantity = None \<and> filled = None \<and> weighted = None \<or> source_fact = ''unique_fill'' \<and> (\<exists>q pr w. 0 < q \<and> quantity = Some q \<and> price = Some pr
          \<and> filled = Some (dadd (pj_filled p) q) \<and> weighted = Some w \<and> cumulative_weighted_price (pj_filled p) (pj_weighted p) q pr = Inr w)"
  shows "log_ok m db1"
  using assms(1)
proof (rule record_transition_db)
  fix t ps
  assume db1: "db1 = db\<lparr>xd_transitions := xd_transitions db @ [t], xd_projections := ps\<rparr>" and t: "tr_receipt t = pj_receipt p"
    "tr_sequence t = next_sequence (pj_receipt p) db" "tr_new_state t = state" "tr_source_fact t = source_fact" "tr_quantity t = quantity"
    "tr_unit_price t = price"
    and ps: "ps = map (\<lambda>q. if pj_receipt q = pj_receipt p \<and> pj_version q = pj_version p
        then p\<lparr>pj_version := pj_version p + 1, pj_state := state, pj_watermark := tr_sequence t,
                 pj_filled := (case filled of None \<Rightarrow> pj_filled p | Some x \<Rightarrow> xe_money env x),
                 pj_remaining := (case remaining of None \<Rightarrow> pj_remaining p | Some x \<Rightarrow> xe_money env x),
                 pj_weighted := (case weighted of None \<Rightarrow> pj_weighted p | Some x \<Rightarrow> Some (xe_money env x)),
                 pj_reconciliation := (case recon of None \<Rightarrow> pj_reconciliation p | Some x \<Rightarrow> x)\<rparr> else q) (xd_projections db)"
  define p1 where "p1 = p\<lparr>pj_version := pj_version p + 1, pj_state := state, pj_watermark := tr_sequence t,
                 pj_filled := (case filled of None \<Rightarrow> pj_filled p | Some x \<Rightarrow> xe_money env x),
                 pj_remaining := (case remaining of None \<Rightarrow> pj_remaining p | Some x \<Rightarrow> xe_money env x),
                 pj_weighted := (case weighted of None \<Rightarrow> pj_weighted p | Some x \<Rightarrow> Some (xe_money env x)),
                 pj_reconciliation := (case recon of None \<Rightarrow> pj_reconciliation p | Some x \<Rightarrow> x)\<rparr>"
  note ok = log_okD [OF assms(2)]
  have p: "p \<in> set (xd_projections db)" using assms(4) by (auto simp: find_projection_def find_Some_iff)
  have only: "q = p" if "q \<in> set (xd_projections db)" "pj_receipt q = pj_receipt p" for q
    using ok(1) that p by (auto simp: distinct_map dest: inj_onD)
  have ps': "ps = map (\<lambda>q. if q = p then p1 else q) (xd_projections db)"
    unfolding ps p1_def [symmetric] using only by (intro map_cong) auto
  have receipts: "map pj_receipt ps = map pj_receipt (xd_projections db)" unfolding ps' by (auto simp: p1_def)
  have list: "list_for_receipt rid db1 = (if rid = pj_receipt p then list_for_receipt rid db @ [t] else list_for_receipt rid db)" for rid
    using list_for_receipt_snoc [of db1 db t rid] t(1,2) by (simp add: db1)
  have step: "\<exists>rb1. rebuild_scan rb [t] = Inr rb1 \<and> agrees m p1 rb1" if "agrees m p rb" for rb
    using that assms(3,5) t(3-6) by (auto simp: agrees_def p1_def Let_def cumulative_weighted_price_def split: option.splits if_splits)
  have logged1: "logged m p1 (list_for_receipt (pj_receipt p) db @ [t])"
    by (rule logged_snoc [OF ok(2) [OF p] _ _ step]) (use t(2) next_sequence_logged [OF ok(2) [OF p]] in \<open>simp_all add: p1_def\<close>)
  have "logged m q (list_for_receipt (pj_receipt q) db1) \<and> pj_receipt q \<in> xc_receipt_id ` set (xd_commands db1)" if q: "q \<in> set ps" for q
  proof (cases "q = p1")
    case True
    then show ?thesis using logged1 ok(3) [OF p] by (simp add: list p1_def) (simp add: db1)
  next
    case False
    then have q': "q \<in> set (xd_projections db)" "pj_receipt q \<noteq> pj_receipt p" using q only by (auto simp: ps')
    then show ?thesis using ok(2,3) [OF q'(1)] by (simp add: list) (simp add: db1)
  qed
  moreover have "tr_receipt x \<in> pj_receipt ` set ps" if "x \<in> set (xd_transitions db @ [t])" for x
  proof -
    have "pj_receipt ` set ps = pj_receipt ` set (xd_projections db)" using receipts by (metis list.set_map)
    then show ?thesis using that ok(4) t(1) p by auto
  qed
  ultimately show ?thesis using ok(1) receipts by (simp add: log_ok_def db1)
qed

section \<open>Every run keeps it\<close>

lemma log_ok_same:
  "log_ok m db \<Longrightarrow> xd_projections db1 = xd_projections db \<Longrightarrow> xd_transitions db1 = xd_transitions db \<Longrightarrow> xd_commands db1 = xd_commands db \<Longrightarrow>
    log_ok m db1"
  using log_ok_cong [of m db db1] by auto

lemma log_locked: "log_ok m db \<Longrightarrow> log_ok m (snd (locked_epoch env org acc db))"
  by (erule log_ok_same) (simp_all add: locked_epoch_def split: prod.splits)

lemma log_ledger: "ledger_update db db1 \<Longrightarrow> log_ok m db \<Longrightarrow> log_ok m db1"
  by (erule log_ok_same) (auto simp: ledger_update_def)

lemma log_ledger_rows: "log_ok m db \<Longrightarrow> log_ok m (put_accounting a (put_reservation r db))"
  by (erule log_ok_same) (simp_all add: put_accounting_def put_reservation_def)

lemma log_fresh:
  assumes "log_ok m db" "\<not> ids_taken cid rid db"
  shows "rid \<notin> pj_receipt ` set (xd_projections db)" "list_for_receipt rid db = []" "next_sequence rid db = 1"
proof -
  show n: "rid \<notin> pj_receipt ` set (xd_projections db)"
    using log_okD(3) [OF assms(1)] assms(2) by (force simp: ids_taken_def list_ex_iff)
  then have "filter (\<lambda>t. tr_receipt t = rid) (xd_transitions db) = []" using log_okD(4) [OF assms(1)] by (auto simp: filter_empty_conv)
  then show "list_for_receipt rid db = []" by (simp add: list_for_receipt_def)
  then show "next_sequence rid db = 1" by (simp add: next_sequence_def Let_def)
qed

lemma log_new_receipt:
  assumes "log_ok m db" "\<not> ids_taken cid rid db" "xd_commands db1 = xd_commands db @ [c]" "xc_receipt_id c = rid"
    and "xd_transitions db1 = xd_transitions db @ [t]" "tr_receipt t = rid" "tr_sequence t = next_sequence rid db"
    and "tr_new_state t = state" "tr_quantity t = None \<or> tr_source_fact t \<noteq> ''unique_fill''"
    and "xd_projections db1 = xd_projections db @ [new_projection rid state remaining unit]"
  shows "log_ok m db1"
proof -
  note f = log_fresh [OF assms(1,2)] and ok = log_okD [OF assms(1)]
  have list: "list_for_receipt r db1 = (if r = rid then [t] else list_for_receipt r db)" for r
    using list_for_receipt_snoc [OF assms(5), of r] assms(6,7) f(2) by auto
  have new: "logged m (new_projection rid state remaining unit) [t]"
    using assms(7-9) f(3) by (auto simp: logged_def agrees_def new_projection_def start_scan_def Let_def split: option.splits)
  have old: "logged m p (list_for_receipt (pj_receipt p) db1)" "pj_receipt p \<in> xc_receipt_id ` set (xd_commands db1)"
    if "p \<in> set (xd_projections db)" for p
    using that f(1) ok(2,3) [OF that] assms(3) by (auto simp: list)
  have "tr_receipt x \<in> pj_receipt ` set (xd_projections db1)" if "x \<in> set (xd_transitions db1)" for x
    using that ok(4) assms(5,6,10) by (auto simp: new_projection_def)
  then show ?thesis using ok(1) f(1) new old assms(3,4) unfolding log_ok_def by (auto simp: assms(10) list new_projection_def)
qed

lemma persist_blocked_log:
  assumes "persist_blocked plan q payload cid rid reason intent now db = Inr db1" "log_ok m db"
  shows "log_ok m db1"
  using assms(1)
proof (rule persist_blocked_db)
  fix c t p
  assume h: "\<not> ids_taken cid rid db" "xc_receipt_id c = rid" "tr_receipt t = rid" "tr_sequence t = next_sequence rid db" "tr_new_state t = RECEIPT_BLOCKED"
    "tr_quantity t = None" "p = new_projection rid RECEIPT_BLOCKED (ri_remaining_quantity intent) (ri_quantity_unit intent)"
    "db1 = db\<lparr>xd_commands := xd_commands db @ [c], xd_transitions := xd_transitions db @ [t], xd_projections := xd_projections db @ [p]\<rparr>"
  show ?thesis
    by (rule log_new_receipt [OF assms(2) h(1) _ h(2) _ h(3,4,5)]) (use h in simp_all)
qed

lemma persist_allow_log:
  assumes "persist_allow plan q payload ids epoch_value a intent now db = Inr (out, db1)" "log_ok m db"
  shows "log_ok m db1"
  using assms(1)
proof (cases rule: persist_allow_cases)
  case blocked
  then show ?thesis using persist_blocked_log assms(2) by blast
next
  case (allowed c t r)
  show ?thesis
    by (rule log_new_receipt [OF assms(2) allowed(2) _ allowed(10) _ allowed(11,12,13)])
      (use allowed(14) in \<open>simp_all add: allowed(15) put_accounting_def\<close>)
qed

definition others_log :: "bool \<Rightarrow> (rat \<Rightarrow> rat) \<Rightarrow> exec_env \<Rightarrow> bool" where
  "others_log k m env \<longleftrightarrow> (\<forall>x. slots_ok k x \<longrightarrow> log_ok m x \<longrightarrow> log_ok m (xe_others env x))"

lemma claim_plan_log:
  assumes "claim_plan env inp br plan q payload ids now db = Inr (out, db1)" "slots_ok k db" "others_ok k env" "log_ok m db" "others_log k m env"
  shows "log_ok m db1"
  using assms(1)
proof (rule claim_plan_cases, goal_cases)
  case (1 epoch db2 intent a db3)
  have ok2: "slots_ok k db2" "log_ok m db2"
    using same_ledger_ok [OF locked_same_ledger assms(2), of env "cq_org q" "cq_account q"] log_locked [OF assms(4), of env "cq_org q" "cq_account q"] 1(1)
    by auto
  then have "log_ok m db3"
    using lock_risk_accounting_ok(4) [OF 1(3) ok2(1) assms(3)] log_ledger assms(5) unfolding others_log_def by blast
  then show ?case using 1(4) by (auto intro: persist_blocked_log persist_allow_log)
qed

lemma claim_log:
  assumes "claim env earlier inp q ids now db = Inr (result, db1)" "slots_ok k (earlier db)" "others_ok k env" "log_ok m (earlier db)" "others_log k m env"
  shows "log_ok m db1"
  using assms(1)
proof (cases rule: claim_cases)
  case (fresh b plan payload br out db2 db3)
  have "slots_ok k db2" "log_ok m db2"
    using fresh(2) assms(2,4) by (auto intro: same_ledger_ok [rotated] log_ok_same simp: same_ledger_def)
  then have "log_ok m db3" using claim_plan_log [OF fresh(6)] assms(3,5) by blast
  then show ?thesis by (rule log_ok_same) (simp_all add: fresh(7) complete_binding_def Let_def)
qed (use assms in simp)

lemma release_log:
  assumes "release_unused_reservation env verified cid reason now db = Inr db1" "slots_ok k db" "others_ok k env" "log_ok m db"
  shows "log_ok m db1"
  using assms(1)
proof (cases rule: release_unused_cases)
  case (1 c db2)
  then show ?thesis using log_locked [OF assms(4)] by simp
next
  case (2 c db2 r a db3 r2 a')
  have ok2: "slots_ok k db2" "log_ok m db2" using same_ledger_ok [OF locked_same_ledger assms(2)] log_locked [OF assms(4)] 2(2) by simp_all
  have "find_command cid db2 = Some c" using 2(1,2) by simp
  note acc = reservation_account(3) [OF slots_okD(1) [OF ok2(1)] 2(3) this]
  show ?thesis unfolding 2(10) by (rule log_ledger_rows [OF log_ledger [OF lock_risk_accounting_ok(3) [OF 2(5) ok2(1) assms(3) acc] ok2(2)]])
qed

lemma fill_log:
  assumes "apply_unique_fill env digest cid fq fp source occurred_at venue now db = Inr (replayed, db1)" "slots_ok k db" "others_ok k env"
    and "log_ok m db" "xe_money env = m"
  shows "log_ok m db1"
  using assms(1)
proof (cases rule: apply_unique_fill_cases)
  case (replay c q price p f)
  then show ?thesis using log_locked [OF assms(4)] by simp
next
  case (fresh c q price db2 p r db3 a db4 r3 r4 a4 w)
  have log3: "log_ok m db3" using log_locked [OF assms(4), of env "xc_org c" "xc_account c"] fresh(7,12) by (auto intro: log_ok_same)
  have same: "same_ledger db db3" using locked_same_ledger [of db env "xc_org c" "xc_account c"] fresh(7,12) by (simp add: same_ledger_def)
  have c3: "find_command cid db3 = Some c" and r: "find_reservation cid db3 = Some r"
    using fresh(5,9,12) same by (simp_all add: same_ledger_def find_command_def find_reservation_def)
  have ok3: "slots_ok k db3" by (rule same_ledger_ok [OF same assms(2)])
  note l = lock_risk_accounting_ok(3) [OF fresh(13) ok3 assms(3) reservation_account(3) [OF slots_okD(1) [OF ok3] r c3]]
  have p: "find_projection (xc_receipt_id c) (put_accounting a4 (put_reservation r4 db4)) = Some p"
    using fresh(8,12) l by (auto simp: find_projection_def ledger_update_def put_accounting_def put_reservation_def)
  show ?thesis
    by (rule record_log [OF fresh(17) log_ledger_rows [OF log_ledger [OF l log3]] assms(5) p]) (use fresh(3,16) in simp)
qed

lemma prim_log: "exec_prim env k db db1 \<Longrightarrow> slots_ok k db \<Longrightarrow> others_ok k env \<Longrightarrow> log_ok m db \<Longrightarrow> xe_money env = m \<Longrightarrow> log_ok m db1"
proof (induction rule: exec_prim.induct)
  case pr_lock
  then show ?case using log_locked by blast
next
  case (pr_record rid db p state source_fact ident moment actor remaining recon db1)
  then show ?case by (auto intro: record_log)
next
  case (pr_effect e' db e)
  then show ?case by (auto intro: log_ok_same simp: put_effect_def)
next
  case (pr_authorize e' db e c ep)
  then show ?case by (auto intro: log_ok_same simp: put_effect_def)
next
  case pr_release
  then show ?case using release_log by blast
next
  case pr_fill
  then show ?case using fill_log by blast
qed

lemma prims_log: "exec_prims env k db db1 \<Longrightarrow> slots_ok k db \<Longrightarrow> others_ok k env \<Longrightarrow> log_ok m db \<Longrightarrow> xe_money env = m \<Longrightarrow> log_ok m db1"
proof (induction rule: rtranclp_induct)
  case (step db1 db2)
  then show ?case using prim_log [OF step.hyps(2) prims_slots [OF step.hyps(1)]] by blast
qed simp

lemma run_log: "exec_run g k m db db1 \<Longrightarrow> slots_ok k db \<Longrightarrow> log_ok m db \<Longrightarrow> log_ok m db1"
proof (induction rule: exec_run.induct)
  case (run_op db db1 env db2)
  have o: "others_ok k env" using run_slots [OF run_op.hyps(5)] by (simp add: others_ok_def)
  show ?case using prims_log [OF op_path [OF run_op.hyps(6)] run_slots [OF run_op.hyps(1)] o] run_op by blast
next
  case (run_claim db db1 env earlier q inp ids now result db2)
  have o: "others_ok k env" using run_slots [OF run_claim.hyps(5)] by (simp add: others_ok_def)
  have l: "others_log k m env" using run_claim.IH(2) by (simp add: others_log_def)
  have ok: "slots_ok k db1" "log_ok m db1" using run_slots [OF run_claim.hyps(1)] run_claim by auto
  show ?case using claim_log [OF run_claim.hyps(8) run_slots [OF run_claim.hyps(6) ok(1)] o run_claim.IH(3) [OF ok] l] .
qed (auto intro: log_ok_same)

end
