(* ===== verification/Execution_Protocol.thy ===== *)
theory Execution_Protocol
  imports Execution_Samples Execution_Replay
begin

text \<open>
  Properties of the execution protocol over its runs: the trade slots of the ledger, the limits of an
  admitted claim, the fence an activation of the kill switch puts before everything unsent, and the
  identities that count once: plans, authorizations, keys and fills.
\<close>

section \<open>The slots of the ledger\<close>

text \<open>
  C7. Trade slots are conserved. In every state that claims, leases, dispatches, fills, cancellations,
  daily rolls and the operations of the kill switch reach from empty tables, in any order and with
  other sessions' operations inside an insert-or-lock, provided no release is the first access to the
  ledger on a new trading day, the ledger row of an account reserves exactly the slots that its
  unreleased reservations have not converted; every reservation belongs to a command of its account and to a ledger
  row, and a released one holds no notional.
\<close>

theorem trade_slots_conserved:
  assumes "exec_run g True m (empty_exec pdb) db"
  shows "(\<forall>org acc a. find_accounting org acc db = Some a \<longrightarrow> acc_reserved_trade_slots a
        = (\<Sum>r \<leftarrow> xd_reservations db. if rr_org r = org \<and> rr_account r = acc \<and> rr_release_state r \<noteq> RELEASED
             then max 0 (rr_daily_trade_allocation r - rr_converted_trade_slots r) else 0))
    \<and> (\<forall>r \<in> set (xd_reservations db). find_accounting (rr_org r) (rr_account r) db \<noteq> None
        \<and> (\<exists>c \<in> set (xd_commands db). xc_id c = rr_command_id r \<and> xc_org c = rr_org r \<and> xc_account c = rr_account r)
        \<and> (rr_release_state r = RELEASED \<longrightarrow> rr_remaining_reserved_notional r = 0))"
proof -
  have ok: "slots_ok True db" using run_slots [OF assms] by simp
  have "acc_reserved_trade_slots a = held_slots org acc db" if "find_accounting org acc db = Some a" for org acc a
    using slots_okD(2) [OF ok, of org acc] that by (simp add: ledger_slots_def)
  then show ?thesis using rows_okD [OF slots_okD(1) [OF ok]]
    by (simp add: held_slots_def holds_slots_def [abs_def] unconverted_def [abs_def] cong: if_cong)
qed

theorem trade_slots_conserved_witness:
  "(\<Sum>r \<leftarrow> xd_reservations sample_claimed. if rr_org r = ''o'' \<and> rr_account r = ''a'' \<and> rr_release_state r \<noteq> RELEASED
     then max 0 (rr_daily_trade_allocation r - rr_converted_trade_slots r) else 0) = 1"
  using trade_slots_conserved [OF sample_claimed_run] sample_claimed_rows(1) by (force simp: sample_account_def)


section \<open>Admitted claims\<close>






section \<open>Activation and what was not sent\<close>

text \<open>
  C6. Activating the kill switch stops everything of the organization that was not authorized yet, for
  good. Take any reachable state, an activation that turns the switch on, and any later state, also
  after the switch is turned off again: an effect of the organization that existed before keeps its
  number of attempts, was authorized at the activation if it is authorized now, and, if it was not,
  every send through the in-process venue and the first step of a demo send are refused; the gate directly
  before a demo request refuses it in either case.
\<close>

theorem activation_stops_unsent:
  assumes "exec_run g k m (empty_exec pdb) db" "\<And>x. switch_run g x (others x)"
    and "activate g others org user payload actor now (xd_switch db) = Inr (status, sdb)" "\<not> org_active org (xd_switch db)"
    and "exec_run g k m (db\<lparr>xd_switch := sdb\<rparr>) db'"
    and "find_effect cid db = Some e" "find_command cid db = Some c" "xc_org c = org"
    and "xe_global_active env = g" "\<And>x. switch_run g x (xe_switch_others env x)"
  shows "\<exists>e'. find_effect cid db' = Some e' \<and> fx_attempt e' = fx_attempt e
    \<and> (fx_state e' = DISPATCH_AUTHORIZED \<longrightarrow> fx_state e = DISPATCH_AUTHORIZED)
    \<and> (fx_state e \<noteq> DISPATCH_AUTHORIZED \<longrightarrow> isl (attempt_fake_send env verified cid owner token answer later db')
         \<and> isl (begin_demo_send env armed expired cid owner token later db'))
    \<and> isl (verify_demo_send_gate env registered expired cid owner token later db')"
proof -
  let ?db = "db\<lparr>xd_switch := sdb\<rparr>"
  have ok: "effects_ok db" "slots_ok k db" using run_le [OF assms(1)] run_slots [OF assms(1)] by simp_all
  have s: "switch_run g (xd_switch db) sdb" by (rule sw_activate [OF sw_refl assms(2,3)])
  note act = activate_ok [OF assms(3) run_benign [OF assms(2)] effects_okD(1) [OF ok(1)]]
  have run: "exec_run g k m db ?db" by (rule run_switch [OF run_refl s])
  have ok1: "effects_ok ?db" "slots_ok k ?db" using run_le [OF run ok(2,1)] run_slots [OF run ok(2)] by auto
  have "org_active org sdb" using act by (simp add: org_active_def)
  then have new: "newer_epoch (find_epoch (xc_org c) (xc_account c) (xd_switch db)) (find_epoch (xc_org c) (xc_account c) sdb)"
    using switch_leD(4) [of "xd_switch db" sdb "xc_org c" "xc_account c"] act effects_okD(2) [OF ok(1) assms(7)] assms(4,8) by auto
  obtain ep where ep: "find_epoch (xc_org c) (xc_account c) (xd_switch db) = Some ep" "fx_safety_epoch e \<le> ep_epoch ep"
    using effects_okD(3) [OF ok(1) assms(6)] assms(7) by auto
  then have f: "fenced cid ?db" using new assms(6,7) by (auto simp: fenced_def newer_epoch_def split: option.splits)
  have le: "exec_le ?db db'" and ok': "effects_ok db'" using run_le [OF assms(5) ok1(2,1)] by auto
  obtain e' where e': "find_effect cid db' = Some e'" "fx_safety_epoch e' = fx_safety_epoch e" "fx_attempt e' = fx_attempt e"
    "fx_state e' = DISPATCH_AUTHORIZED \<longrightarrow> fx_state e = DISPATCH_AUTHORIZED"
    using exec_leD(3) [OF le, of cid e] f assms(6) by auto
  have c': "find_command cid db' = Some c" using exec_leD(2) [OF le, of cid c] assms(7) by simp
  obtain epoch db2 where lock: "locked_epoch env (xc_org c) (xc_account c) db' = (epoch, db2)" by fastforce
  have "quiet db' db2" using quiet_lock_command [OF ok' run_benign [OF assms(10)] c'] lock by simp
  then have f2: "fenced cid db2" "find_effect cid db2 = Some e'" "find_command cid db2 = Some c"
    using fenced_later [OF fenced_later [OF f le] quiet_le] quiet_finds [of db' db2 cid] e'(1) c' by auto
  have "find_epoch (xc_org c) (xc_account c) (xd_switch db2) = Some epoch"
    using lock_epoch_ok(3) [OF run_benign [OF assms(10)] effects_okD(2) [OF ok' c'] _ effects_okD(1) [OF ok']] locked_epoch_db [OF lock] by fastforce
  then have "safety_blocks_dispatch env c epoch (fx_safety_epoch e') db2" using f2 by (auto simp: fenced_def safety_blocks_dispatch_def)
  then have "isl (verify_demo_send_gate env registered expired cid owner token later db')"
    using c' lock f2(2) by (cases "registered c later") (auto simp: verify_demo_send_gate_def)
  moreover have "isl (require_committed_dispatch_authorization (find_effect cid db') owner token)" if "fx_state e \<noteq> DISPATCH_AUTHORIZED"
    using that e' by (auto simp: require_committed_dispatch_authorization_def)
  then have "isl (attempt_fake_send env verified cid owner token answer later db') \<and> isl (begin_demo_send env armed expired cid owner token later db')"
    if "fx_state e \<noteq> DISPATCH_AUTHORIZED"
    using that by (cases "require_committed_dispatch_authorization (find_effect cid db') owner token")
      (auto simp: attempt_fake_send_def begin_demo_send_def)
  ultimately show ?thesis using e' by blast
qed


definition sample_stopped :: "kill_switch_status \<times> switch_db" where
  "sample_stopped = projr (activate False (\<lambda>x. x) ''o'' ''u'' stop_request ACTOR_USER 7 (xd_switch sample_claimed))"

lemma sample_stop:
  "activate False (\<lambda>x. x) ''o'' ''u'' stop_request ACTOR_USER 7 (xd_switch sample_claimed) = Inr (fst sample_stopped, snd sample_stopped)"
  by (simp add: sample_stopped_def activate_eval claimed_eval table_eval start_eval)

theorem activation_stops_unsent_witness:
  "isl (attempt_fake_send sample_env free_fill ''c1'' ''w'' 1 Venue_Accepted 9 (sample_claimed\<lparr>xd_switch := snd sample_stopped\<rparr>))"
proof -
  have c: "xc_org sample_command = ''o''" "fx_state sample_effect = EFFECT_CREATED" by (simp_all add: sample_command_def sample_effect_def effect_of_def)
  have env: "xe_global_active sample_env = False" "switch_run False x (xe_switch_others sample_env x)" for x
    by (simp_all add: sample_env_def sw_refl)
  show ?thesis
    using activation_stops_unsent [OF sample_claimed_run sw_refl sample_stop sample_claimed_rows(4) run_refl sample_claimed_rows(2,3) c(1) env] c(2)
    by fastforce
qed

section \<open>Once per plan, authorization and key\<close>

text \<open>
  C8. A plan is executed at most once per account, and an authorization admits at most one command: in every
  reachable state no two admitted commands have the same organization, account and plan revision, no two
  have the same authorization, and the authorization of each is consumed and names this command.
\<close>

theorem executed_at_most_once:
  assumes "exec_run g k m (empty_exec pdb) db"
    and "c \<in> set (xd_commands db)" "d \<in> set (xd_commands db)" "xc_outcome c = OUTCOME_ALLOW" "xc_outcome d = OUTCOME_ALLOW"
    and "(xc_org c, xc_account c, xc_revision_id c) = (xc_org d, xc_account d, xc_revision_id d) \<or> xc_authorization c = xc_authorization d"
  shows "c = d \<and> (\<exists>a \<in> set (xd_authorizations db). au_id a = xc_authorization c \<and> au_state a = AUTH_CONSUMED \<and> au_consumed_by a = Some (xc_id c))"
proof -
  have ok: "claims_ok db" "distinct (map xc_id (xd_commands db))"
    using effects_okD(5) run_le [OF assms(1)] rows_okD(2) [OF slots_okD(1) [OF run_slots [OF assms(1)]]] by auto
  have cd: "c \<in> set (filter admitted (xd_commands db))" "d \<in> set (filter admitted (xd_commands db))" using assms(2-5) by (auto simp: admitted_def)
  have u: "used_up c (xd_authorizations db)" "used_up d (xd_authorizations db)" using ok(1) cd by (auto simp: claims_ok_def)
  have "c = d" using assms(6)
  proof
    assume "(xc_org c, xc_account c, xc_revision_id c) = (xc_org d, xc_account d, xc_revision_id d)"
    then have "claim_key c = claim_key d" by (simp add: claim_key_def)
    moreover have "distinct (map claim_key (filter admitted (xd_commands db)))" using ok(1) unfolding claims_ok_def by metis
    ultimately show ?thesis using cd by (metis (no_types, lifting) distinct_map inj_onD)
  next
    assume same: "xc_authorization c = xc_authorization d"
    obtain a b where a: "a \<in> set (xd_authorizations db)" "au_id a = xc_authorization c" "au_consumed_by a = Some (xc_id c)"
      and b: "b \<in> set (xd_authorizations db)" "au_id b = xc_authorization d" "au_consumed_by b = Some (xc_id d)"
      using u by (auto simp: used_up_def)
    have "inj_on au_id (set (xd_authorizations db))" using ok(1) by (simp add: claims_ok_def distinct_map)
    then have "a = b" using a b same by (metis inj_onD)
    then have "xc_id c = xc_id d" using a(3) b(3) by simp
    then show ?thesis using ok(2) assms(2,3) by (auto simp: distinct_map dest: inj_onD)
  qed
  then show ?thesis using u(1) by (auto simp: used_up_def)
qed

theorem executed_at_most_once_witness:
  "\<exists>a \<in> set (xd_authorizations sample_claimed). au_id a = ''x1'' \<and> au_state a = AUTH_CONSUMED \<and> au_consumed_by a = Some ''c1''"
  using executed_at_most_once [OF sample_claimed_run, of sample_command sample_command] find_command_in [OF sample_claimed_rows(3)]
  by (simp add: sample_command_def)

text \<open>
  C9. A key is answered once. After a claim has answered in a reachable state, any later claim of the same
  organization with the same key that answers is a replay: it returns the command of the first answer and writes
  nothing of its own, whatever happened in between.
\<close>

theorem same_key_is_replayed:
  assumes "exec_run g k m (empty_exec pdb) db" "xe_global_active env = g" "xe_money env = m" "\<And>x. switch_run g x (xe_switch_others env x)"
    and "\<And>x. exec_run g k m x (xe_others env x)" "\<And>x. exec_run g k m x (earlier x)" "keeps_binding q env"
    and "claim env earlier inp q ids now db = Inr (result, db1)" "exec_run g k m db1 db2"
    and "\<And>x. exec_run g k m x (earlier' x)" "claim env' earlier' inp' q' ids' now' db2 = Inr (result', db3)"
    and "cq_org q' = cq_org q" "cq_key q' = cq_key q"
  shows "cr_replayed result' \<and> cr_command result' = cr_command result \<and> db3 = earlier' db2"
proof -
  have run1: "exec_run g k m (empty_exec pdb) db1" by (rule run_claim [OF assms(1-8)])
  have ok: "slots_ok k db" "effects_ok db" "slots_ok k db1" "effects_ok db1"
    using run_slots [OF assms(1)] run_le [OF assms(1)] run_slots [OF run1] run_le [OF run1] by auto
  have o: "others_ok k env" using run_slots [OF assms(5)] by (simp add: others_ok_def)
  have bound: "\<exists>b cid. find_binding (cq_org q) (cq_key q) db1 = Some b \<and> ib_command b = Some cid \<and> ib_receipt b \<noteq> None
      \<and> find_command cid db1 = Some (cr_command result)"
    using assms(8)
  proof (cases rule: claim_cases)
    case (replay b cid)
    then show ?thesis by auto
  next
    case (fresh b plan payload br out db4 db5)
    have f4: "find_binding (cq_org q) (cq_key q) db4 = Some b"
      using fresh(2,3,4) by (auto simp: find_binding_def find_snoc_row split: option.splits)
    have "slots_ok k db4"
      using fresh(2) run_slots [OF assms(6) ok(1)] by (auto intro: same_ledger_ok [rotated] simp: same_ledger_def)
    from claim_plan_binding [OF fresh(6) this o assms(7)] f4
    have "find_binding (cq_org q) (cq_key q) db1 = Some (fst (complete_binding q b db5))"
      using find_binding_complete [OF fresh(3,4), of "cq_org q" "cq_key q" db5] by (simp add: fresh(7))
    then show ?thesis using fresh(9) by (auto simp: complete_binding_def Let_def)
  qed
  then obtain b cid where b: "find_binding (cq_org q) (cq_key q) db1 = Some b" "ib_command b = Some cid" "ib_receipt b \<noteq> None"
    "find_command cid db1 = Some (cr_command result)" by blast
  have le2: "exec_le db1 db2" and ok2: "effects_ok db2" "slots_ok k db2" using run_le [OF assms(9) ok(3,4)] run_slots [OF assms(9) ok(3)] by auto
  have le: "exec_le db1 (earlier' db2)" using exec_le_trans [OF le2] run_le [OF assms(10) ok2(2,1)] by blast
  have found: "find_binding (cq_org q') (cq_key q') (earlier' db2) = Some b"
    using exec_leD(4) [OF le] b by (simp add: bindings_le_def assms(12,13))
  have cmd: "find_command cid (earlier' db2) = Some (cr_command result)" by (rule exec_leD(2) [OF le b(4)])
  from assms(11) show ?thesis
  proof (cases rule: claim_cases)
    case (replay b' cid')
    then show ?thesis using found b(2) cmd by simp
  next
    case (fresh b' plan payload br out db4 db5)
    then show ?thesis using found b(2,3) by auto
  qed
qed

lemma sample_replay:
  "claim sample_env (\<lambda>x. x) sample_inputs (sample_request ''1'') (sample_ids ''7'') (DAY + 23 * HOUR) sample_claimed
     = Inr (sample_result\<lparr>cr_replayed := True\<rparr>, sample_claimed)"
  by (simp add: claimed_eval sample_result_def claim_eval table_eval setting_eval start_eval)

theorem same_key_is_replayed_witness:
  "cr_replayed (sample_result\<lparr>cr_replayed := True\<rparr>) \<and> cr_command (sample_result\<lparr>cr_replayed := True\<rparr>) = cr_command sample_result"
proof -
  have env: "xe_global_active sample_env = False" "xe_money sample_env = (\<lambda>x. x)" "switch_run False x (xe_switch_others sample_env x)"
    "exec_run False True (\<lambda>x. x) y (xe_others sample_env y)" "keeps_binding (sample_request ''1'') sample_env" for x y
    by (simp_all add: sample_env_def run_refl sw_refl keeps_binding_def)
  show ?thesis
    using same_key_is_replayed [OF sample_ready_run env(1-4) run_refl env(5) sample_claim [unfolded claim_sample_def] run_refl run_refl sample_replay]
    by simp
qed


section \<open>Fills\<close>

lemma fill_recorded:
  assumes "apply_unique_fill env digest cid fq fp source occurred_at venue now db = Inr (replayed, db1)" "slots_ok k db" "others_ok k env"
  shows "\<exists>c f. find_command cid db = Some c \<and> find_fill (xc_receipt_id c) source db1 = Some f"
  using assms(1)
proof (cases rule: apply_unique_fill_cases)
  case (fresh c q price db2 p r db3 a db4 r3 r4 a4 w)
  have same: "same_ledger db db3" using locked_same_ledger [of db env "xc_org c" "xc_account c"] fresh(7,12) by (simp add: same_ledger_def)
  have c3: "find_command cid db3 = Some c" and r: "find_reservation cid db3 = Some r"
    using fresh(5,9,12) same by (simp_all add: same_ledger_def find_command_def find_reservation_def)
  have ok3: "slots_ok k db3" by (rule same_ledger_ok [OF same assms(2)])
  have "ledger_update db3 db4"
    by (rule lock_risk_accounting_ok(3) [OF fresh(13) ok3 assms(3) reservation_account(3) [OF slots_okD(1) [OF ok3] r c3]])
  then have "xd_fills db1 = xd_fills db3"
    using fresh(17) by (auto elim!: record_transition_db simp: ledger_update_def put_accounting_def put_reservation_def)
  then have "find_fill (xc_receipt_id c) source db1 \<noteq> None" using fresh(12) by (simp add: find_fill_def find_snoc_row split: option.splits)
  then show ?thesis using fresh(5) by auto
qed auto

text \<open>
  C10. A fill is counted once. After \<open>apply_unique_fill\<close> has answered for a command and a source identity in a
  reachable state, any later call for the same command and identity that answers is a replay and leaves
  everything but the safety epochs unchanged: ledger, reservation, receipt and log.
\<close>

theorem fill_counted_once:
  assumes "exec_run g k m (empty_exec pdb) db" "xe_global_active env = g" "xe_money env = m" "\<And>x. switch_run g x (xe_switch_others env x)"
    and "\<And>x. exec_run g k m x (xe_others env x)"
    and "apply_unique_fill env digest cid fq fp source occurred_at venue now db = Inr (replayed, db1)" "exec_run g k m db1 db2"
    and "apply_unique_fill env' digest' cid fq' fp' source occurred_at' venue' now' db2 = Inr (replayed', db3)"
  shows "replayed' \<and> (\<exists>sdb. db3 = db2\<lparr>xd_switch := sdb\<rparr>)"
proof -
  have run1: "exec_run g k m (empty_exec pdb) db1" by (rule run_op [OF assms(1-5) op_fill [OF assms(6)]])
  have ok: "slots_ok k db" "effects_ok db" "slots_ok k db1" "effects_ok db1"
    using run_slots [OF assms(1)] run_le [OF assms(1)] run_slots [OF run1] run_le [OF run1] by auto
  have o: "others_ok k env" using run_slots [OF assms(5)] by (simp add: others_ok_def)
  obtain c f where c: "find_command cid db = Some c" and f: "find_fill (xc_receipt_id c) source db1 = Some f"
    using fill_recorded [OF assms(6) ok(1) o] by blast
  have "exec_run g k m db db1" by (rule run_op [OF run_refl assms(2-5) op_fill [OF assms(6)]])
  then have le1: "exec_le db db1" using run_le ok(1,2) by blast
  have le2: "exec_le db1 db2" using run_le [OF assms(7) ok(3,4)] by blast
  have c2: "find_command cid db2 = Some c" using exec_leD(2) [OF exec_le_trans [OF le1 le2] c] .
  have f2: "find_fill (xc_receipt_id c) source db2 = Some f" by (rule find_fill_later [OF exec_leD(5) [OF le2] f])
  have locked: "\<exists>sdb. snd (locked_epoch env' org acc db2) = db2\<lparr>xd_switch := sdb\<rparr>" for org acc
    by (auto simp: locked_epoch_def split: prod.splits)
  from assms(8) show ?thesis
  proof (cases rule: apply_unique_fill_cases)
    case (replay c' q price p f')
    then show ?thesis using locked by auto
  next
    case (fresh c' q price db4 p r db5 a db6 r3 r4 a4 w)
    have "c' = c" using fresh(5) c2 by simp
    moreover have "find_fill (xc_receipt_id c) source db4 = Some f"
      using f2 locked [of "xc_org c'" "xc_account c'"] fresh(7) by (auto simp: find_fill_def)
    ultimately show ?thesis using fresh(10) by simp
  qed
qed

definition sample_digest :: "string \<Rightarrow> string \<Rightarrow> string \<Rightarrow> string \<Rightarrow> rat \<Rightarrow> rat \<Rightarrow> string \<Rightarrow> int \<Rightarrow> string" where
  "sample_digest receipt command venue source q price unit moment = receipt @ command @ venue @ source @ unit"

definition fill_sample :: "exec_db \<Rightarrow> (bool \<times> exec_db) res" where
  "fill_sample db = apply_unique_fill sample_env sample_digest ''c1'' (Fin 1) (Fin 100) ''f1'' (DAY + 23 * HOUR) ''PAPER'' (DAY + 23 * HOUR) db"

definition sample_filled :: exec_db where
  "sample_filled = snd (projr (fill_sample sample_claimed))"

lemmas fill_eval = fill_sample_def apply_unique_fill_def sample_digest_def convert_reservation_for_fill_def fill_quote_exposure_def
  cumulative_weighted_price_def strip_def is_space_def

lemma sample_fill: "fill_sample sample_claimed = Inr (False, sample_filled)"
  by (simp add: sample_filled_def fill_eval all_eval)

lemma sample_fill_again: "fill_sample sample_filled = Inr (True, sample_filled)"
  by (simp add: sample_filled_def fill_eval all_eval)

theorem fill_counted_once_witness: "\<exists>sdb. sample_filled = sample_filled\<lparr>xd_switch := sdb\<rparr> \<and> fill_sample sample_filled = Inr (True, sample_filled)"
proof -
  have env: "xe_global_active sample_env = False" "xe_money sample_env = (\<lambda>x. x)" "switch_run False x (xe_switch_others sample_env x)"
    "exec_run False True (\<lambda>x. x) y (xe_others sample_env y)" for x y
    by (simp_all add: sample_env_def run_refl sw_refl)
  from fill_counted_once [OF sample_claimed_run env sample_fill [unfolded fill_sample_def] run_refl sample_fill_again [unfolded fill_sample_def]]
  show ?thesis using sample_fill_again by simp
qed


section \<open>The log and the projection\<close>

lemma empty_exec_log [simp]: "log_ok m (empty_exec pdb)"
  by (simp add: log_ok_def empty_exec_def)





text \<open>
  The remaining quantity is not part of it: a rejection sets it to zero, and the log, in which a
  rejection carries no quantity, rebuilds the quantity of the order.
\<close>

lemma rebuild_misses_rejection:
  "map_option pj_remaining (find_projection ''r1'' sample_rejected) = Some 0
   \<and> (\<exists>p'. rebuild_projection_from_transitions (list_for_receipt ''r1'' sample_rejected) 1 ''BASE'' ''r1'' = Inr p' \<and> pj_remaining p' = 1)"
  by (simp add: rebuild_projection_from_transitions_def sample_rejected_def all_eval)

end
