(* ===== verification/Spec2Isabelle.thy ===== *)
theory Spec2Isabelle
  imports Paper_Gate Stored_Plan Execution_Protocol
begin

text \<open>
  A verification development for the decisions of AlphaTrade AI that put money at risk: how large a trade
  may be, who may change the limits, when trading stops, and how an approved plan becomes exactly one order.
  File names below are relative to \<^verbatim>\<open>src/backend/src/app\<close>.

  \<^bold>\<open>The program and its parts.\<close> A setup is graded; the grade and the organization's risk profile give the
  risk percent; the sizer turns it into a quantity; the liquidation buffer bounds the leverage; the loss
  breakers may refuse everything. Profiles are proposed, applied and read through an append-only store. A
  paper order passes a gate that synchronizes the daily figures, reads the kill switch and runs the risk
  engine. A stored plan is rechecked before it runs, claimed against the ledger of its account under an
  idempotency key, dispatched to a venue under a lease, and converted by fills; an activation of the kill
  switch raises the safety epoch of the accounts, which fences what has not been sent.

  \<^bold>\<open>Theories, in the order they import each other.\<close>

  \<^item> \<^verbatim>\<open>Py_Base\<close>, \<^verbatim>\<open>Py_Decimal\<close>, \<^verbatim>\<open>Py_Text\<close>: the prelude. Results with exceptions, the default context of
    Python's \<^verbatim>\<open>decimal\<close> (28 digits, half to even) and the texts of numbers. The locale \<open>rounding\<close> is the
    interface of the arithmetic and is interpreted by \<open>dround 28\<close>.
  \<^item> \<^verbatim>\<open>Profile\<close>: \<^verbatim>\<open>services/risk_policy/ceilings.py\<close> and \<^verbatim>\<open>profile.py\<close>. Validation decides exactly the rules of
    the policy; the canonical text reads back.
  \<^item> \<^verbatim>\<open>Grading\<close>: \<^verbatim>\<open>grader.py\<close>, \<^verbatim>\<open>adjusters.py\<close>, \<^verbatim>\<open>calibration.py\<close> and two scores of \<^verbatim>\<open>analysis/confidence.py\<close>. The
    locale \<open>first_bind_store\<close> is the contract of the first stored grade; it is interpreted by the grade book
    in memory and, in \<^verbatim>\<open>Policy_Service\<close>, by the table.
  \<^item> \<^verbatim>\<open>Sizer\<close>, \<^verbatim>\<open>Ledger\<close>, \<^verbatim>\<open>Liquidation\<close>: \<^verbatim>\<open>sizer.py\<close>, \<^verbatim>\<open>ledger.py\<close> with \<^verbatim>\<open>claim_caps.py\<close>, and \<^verbatim>\<open>liquidation.py\<close>. What
    an accepted trade or batch can lose, and that its stop comes before its liquidation.
  \<^item> \<^verbatim>\<open>Governance\<close>: \<^verbatim>\<open>clock.py\<close>, \<^verbatim>\<open>governance.py\<close>, \<^verbatim>\<open>proof.py\<close>. Who may apply a change, and from when.
  \<^item> \<^verbatim>\<open>Breakers\<close>, \<^verbatim>\<open>Breaker_Store\<close>: \<^verbatim>\<open>breakers.py\<close>, \<^verbatim>\<open>breaker_trip.py\<close>, the breaker tables of \<^verbatim>\<open>db/risk_policy.py\<close> and
    their writers. The interval log against a replay of its events, and that its past is final.
  \<^item> \<^verbatim>\<open>Decision\<close>: \<^verbatim>\<open>decision.py\<close>, \<^verbatim>\<open>records.py\<close>, joining the parts above for one new trade.
  \<^item> \<^verbatim>\<open>Policy_Store\<close>, \<^verbatim>\<open>Policy_History\<close>, \<^verbatim>\<open>Policy_Service\<close>: \<open>RiskPolicyService\<close> of \<^verbatim>\<open>persistence.py\<close>. The relation
    \<open>db_step\<close> is the abstract append-only store; every public call refines it. The locale \<open>append_only\<close>
    holds for each of its tables.
  \<^item> \<^verbatim>\<open>Risk_Rules\<close>: \<^verbatim>\<open>services/risk/rules.py\<close>, \<^verbatim>\<open>limits.py\<close>, \<^verbatim>\<open>engine.py\<close>. When the engine blocks, exactly, and that
    it is monotone.
  \<^item> \<^verbatim>\<open>Plan_Sizing\<close>, \<^verbatim>\<open>Stored_Plan\<close>: \<^verbatim>\<open>plan_sizing.py\<close> and the recheck of \<^verbatim>\<open>services/automated_paper_loop.py\<close>.
  \<^item> \<^verbatim>\<open>Daily_Risk\<close>: \<^verbatim>\<open>services/risk/settings_service.py\<close>, \<^verbatim>\<open>daily_risk_accounting.py\<close>, \<^verbatim>\<open>mirror_economics.py\<close>,
    \<^verbatim>\<open>paper_cooldown.py\<close>. The day of a user and the results counted on it.
  \<^item> \<^verbatim>\<open>Kill_Switch\<close>: \<^verbatim>\<open>services/risk/kill_switch.py\<close> and the epochs of \<^verbatim>\<open>services/safety_epoch.py\<close>.
  \<^item> \<^verbatim>\<open>Paper_Gate\<close>: \<^verbatim>\<open>services/paper_execution_risk_gate.py\<close>, \<^verbatim>\<open>execution_eligibility.py\<close>, \<^verbatim>\<open>risk_service.py\<close>.
  \<^item> \<^verbatim>\<open>Execution_Log\<close>: \<^verbatim>\<open>schemas/execution_protocol.py\<close>, \<^verbatim>\<open>services/execution_transitions.py\<close> and the tables of the
    protocol. \<^verbatim>\<open>Execution_Ledger\<close>: \<^verbatim>\<open>execution_exposure.py\<close>, \<^verbatim>\<open>execution_fills.py\<close>, the reservations, the daily
    roll of the trade slots and the orphan releases of \<^verbatim>\<open>safety_epoch.py\<close>. \<^verbatim>\<open>Execution_Claim\<close>:
    \<open>PaperPlanClaimService\<close> of \<^verbatim>\<open>execution_claim.py\<close>. \<^verbatim>\<open>Dispatch\<close>: \<^verbatim>\<open>venue_submit_dispatcher.py\<close> and
    \<^verbatim>\<open>execution_dispatch_boundary.py\<close>.
  \<^item> \<^verbatim>\<open>Execution_Safety\<close>, \<^verbatim>\<open>Execution_Runs\<close>, \<^verbatim>\<open>Execution_Replay\<close>, \<^verbatim>\<open>Execution_Samples\<close>, \<^verbatim>\<open>Execution_Protocol\<close>: the
    invariants of the protocol, its runs (\<open>exec_run\<close>, by rule induction over a few kinds of writes), the
    replay of the log, a concrete run, and the properties. The locale \<open>row_store\<close> is the contract of a
    keyed table and is interpreted by the ledger rows and the effects.

  \<^bold>\<open>How the code is written in HOL.\<close> A class is a record with a prefix per class, an enumeration a
  datatype; a function that may raise returns \<open>exc + 'a\<close>. A table is a list of rows in insertion order. An
  operation of the policy service returns the session it leaves even when it raises; a claim, a dispatch
  step or a fill is one transaction, and an exception leaves its tables as they were. What other sessions
  commit in the race windows of an operation is an argument (\<open>others\<close>, \<open>earlier\<close>, \<open>xe_others\<close>,
  \<open>xe_switch_others\<close>): in a run these are runs themselves, and \<open>keeps_binding\<close> says that they do not write
  the row a claim has locked. A time zone is a table of offset changes.

  \<^bold>\<open>Bounds and fuel.\<close> The leverage loop of \<open>decide_trade\<close> has the 32 turns of the code, and these are shown
  to be always enough. Roundings are counted: \<open>EPS\<close> is half a unit of the 28th digit, and each statement
  about exact amounts carries a factor for the roundings on the way. Where a plan is compared with the
  book it was sized on, the equity is at most \<open>10 ^ 12\<close>, so that the roundings stay below the last of the
  eight stored places. In \<open>exec_run g k m\<close>, \<open>g\<close> is the global switch of the process, \<open>m\<close> what a money column
  keeps of a value, and \<open>k\<close> asks that no release of a reservation is the first access to its ledger on a
  new trading day; \<^verbatim>\<open>Execution_Samples.roll_releases_twice\<close> shows what happens without it.

  \<^bold>\<open>Parameters.\<close> SHA-256, \<^verbatim>\<open>jwt.decode\<close>, the zone database, new primary keys, the process settings, the
  answers of a venue, the experiment registry and the analysis engine behind a grade are arguments.

  \<^bold>\<open>Not modelled.\<close> The scan, the approvals and the workers around the recheck (they move market data and
  stored records between the decisions modelled here); the exchange adapters and the HTTP interface
  (network input and output); the agents, tools and the indicator computations on floating-point series;
  the Telegram transport; paper validation, the journal and the reports, which change no trading state
  read here; the pager of the kill switch, which runs in its own savepoint and swallows its failures;
  log lines, message texts and column lengths.
\<close>

end
